(* ===== verification/Go_Prelude.thy ===== *)
theory Go_Prelude
  imports Main "HOL-Library.List_Lexorder" "HOL-Library.Product_Lexorder" "HOL-Library.Char_ord" "HOL-Library.Multiset"
begin

text \<open>
  Shared vocabulary of the development: the parts of Go and of its \<^verbatim>\<open>strings\<close>, \<^verbatim>\<open>sort\<close> and
  \<^verbatim>\<open>utf8\<close> packages that the controller's code uses, together with the lemmas on lists and maps
  that the component theories share.

  A Go string is a byte string, so it is a \<^typ>\<open>string\<close> here and every length is a number of
  bytes; Go's \<^verbatim>\<open><\<close> on strings is the lexicographic order on bytes, which is the order of
  \<open>List_Lexorder\<close> over \<open>Char_ord\<close>. A Go map whose contents matter is kept as an association
  list with strictly increasing keys (\<open>gm_put\<close> inserts, \<open>map_of\<close> looks up), so that two maps
  with the same entries are the same value; a map that the code ranges over is an association list
  in whatever order the range yields it, and the theorems quantify over that order.
\<close>

named_theorems go_defs \<open>definitions that unfold in component proofs\<close>

type_synonym gomap = "(string \<times> string) list"

subsection \<open>Strings\<close>

definition hasPrefix :: "string \<Rightarrow> string \<Rightarrow> bool" where
  "hasPrefix s p \<longleftrightarrow> take (length p) s = p"

definition trimPrefix :: "string \<Rightarrow> string \<Rightarrow> string" where
  "trimPrefix s p = (if hasPrefix s p then drop (length p) s else s)"

text \<open>
  \<open>cutLast c s\<close> is the pair of the text before and after the last occurrence of the byte \<open>c\<close>
  (\<^verbatim>\<open>strings.LastIndex\<close> and two slices); \<open>cutFirst\<close> is the same for the first occurrence.
\<close>

definition cutFirst :: "char \<Rightarrow> string \<Rightarrow> (string \<times> string) option" where
  "cutFirst c s = (if c \<in> set s
     then Some (takeWhile (\<lambda>x. x \<noteq> c) s, tl (dropWhile (\<lambda>x. x \<noteq> c) s)) else None)"

definition cutLast :: "char \<Rightarrow> string \<Rightarrow> (string \<times> string) option" where
  "cutLast c s = map_option (\<lambda>(a, b). (rev b, rev a)) (cutFirst c (rev s))"

fun cutSub :: "string \<Rightarrow> string \<Rightarrow> (string \<times> string) option" where
  "cutSub p [] = (if p = [] then Some ([], []) else None)"
| "cutSub p (c # s) = (if hasPrefix (c # s) p then Some ([], drop (length p) (c # s))
     else map_option (\<lambda>(a, b). (c # a, b)) (cutSub p s))"

fun splitOn :: "char \<Rightarrow> string \<Rightarrow> string list" where
  "splitOn c [] = [[]]"
| "splitOn c (x # s) = (if x = c then [] # splitOn c s
     else (case splitOn c s of [] \<Rightarrow> [[x]] | p # ps \<Rightarrow> (x # p) # ps))"

fun joinWith :: "string \<Rightarrow> string list \<Rightarrow> string" where
  "joinWith sep [] = []"
| "joinWith sep [p] = p"
| "joinWith sep (p # ps) = p @ sep @ joinWith sep ps"

definition replaceByte :: "char \<Rightarrow> char \<Rightarrow> string \<Rightarrow> string" where
  "replaceByte a b s = map (\<lambda>x. if x = a then b else x) s"

definition toLowerByte :: "char \<Rightarrow> char" where
  "toLowerByte c = (if 65 \<le> (of_char c :: nat) \<and> (of_char c :: nat) \<le> 90
     then char_of ((of_char c :: nat) + 32) else c)"

text \<open>\<^verbatim>\<open>strings.ToLower\<close> on the ASCII letters (API kinds and groups are ASCII).\<close>

definition toLower :: "string \<Rightarrow> string" where
  "toLower s = map toLowerByte s"

text \<open>The newline and carriage-return bytes, which have no printable literal.\<close>

definition newline :: char where "newline = char_of (10::nat)"
definition carriageReturn :: char where "carriageReturn = char_of (13::nat)"

lemma newline_literal: "newline = CHR 0x0A" by code_simp
lemma carriageReturn_literal: "carriageReturn = CHR 0x0D" by code_simp

text \<open>\<^verbatim>\<open>%d\<close> of a non-negative number.\<close>

definition digitChar :: "nat \<Rightarrow> char" where
  "digitChar d = char_of (48 + d)"

fun showNat :: "nat \<Rightarrow> string" where
  "showNat n = (if n < 10 then [digitChar n] else showNat (n div 10) @ [digitChar (n mod 10)])"

declare showNat.simps [simp del]

text \<open>\<^verbatim>\<open>%d\<close> of a signed number.\<close>

definition showInt :: "int \<Rightarrow> string" where
  "showInt n = (if n < 0 then ''-'' @ showNat (nat (- n)) else showNat (nat n))"

lemma hasPrefix_append [simp]: "hasPrefix (p @ s) p"
  by (simp add: hasPrefix_def)

lemma hasPrefixE:
  assumes "hasPrefix s p"
  obtains t where "s = p @ t"
  using assms by (metis append_take_drop_id hasPrefix_def)

lemma trimPrefix_append [simp]: "trimPrefix (p @ s) p = s"
  by (simp add: trimPrefix_def)

lemma dropWhile_until: "c \<notin> set a \<Longrightarrow> dropWhile (\<lambda>x. x \<noteq> c) (a @ c # b) = c # b"
  by (induction a) auto

lemma takeWhile_until: "c \<notin> set a \<Longrightarrow> takeWhile (\<lambda>x. x \<noteq> c) (a @ c # b) = a"
  by (induction a) auto

lemma cutFirst_Some:
  "cutFirst c s = Some (a, b) \<longleftrightarrow> s = a @ c # b \<and> c \<notin> set a"
proof
  assume "cutFirst c s = Some (a, b)"
  then have "c \<in> set s" and a: "a = takeWhile (\<lambda>x. x \<noteq> c) s"
    and b: "b = tl (dropWhile (\<lambda>x. x \<noteq> c) s)"
    by (auto simp: cutFirst_def split: if_splits)
  then obtain t where t: "dropWhile (\<lambda>x. x \<noteq> c) s = c # t"
    by (metis (mono_tags, lifting) dropWhile_eq_Nil_conv hd_dropWhile list.collapse)
  then have "s = a @ c # b"
    using a b by (metis list.sel(3) takeWhile_dropWhile_id)
  then show "s = a @ c # b \<and> c \<notin> set a"
    using a by (auto dest: set_takeWhileD)
next
  assume "s = a @ c # b \<and> c \<notin> set a"
  then have "takeWhile (\<lambda>x. x \<noteq> c) s = a" "dropWhile (\<lambda>x. x \<noteq> c) s = c # b" "c \<in> set s"
    by (auto simp: takeWhile_until dropWhile_until)
  then show "cutFirst c s = Some (a, b)"
    by (simp add: cutFirst_def)
qed

lemma cutFirst_None: "cutFirst c s = None \<longleftrightarrow> c \<notin> set s"
  by (simp add: cutFirst_def)

lemma cutLast_Some:
  "cutLast c s = Some (a, b) \<longleftrightarrow> s = a @ c # b \<and> c \<notin> set b"
proof -
  have "cutLast c s = Some (a, b) \<longleftrightarrow> cutFirst c (rev s) = Some (rev b, rev a)"
    by (auto simp: cutLast_def)
  also have "\<dots> \<longleftrightarrow> s = a @ c # b \<and> c \<notin> set b"
    by (simp add: cutFirst_Some) (metis append.assoc append_Cons append_Nil rev.simps(2) rev_append rev_rev_ident)
  finally show ?thesis .
qed

lemma cutLast_None: "cutLast c s = None \<longleftrightarrow> c \<notin> set s"
  by (simp add: cutLast_def cutFirst_None)

lemma splitOn_nonempty: "splitOn c s \<noteq> []"
  by (cases s) (auto split: list.splits)

lemma joinWith_splitOn: "joinWith [c] (splitOn c s) = s"
proof (induction s)
  case Nil
  then show ?case by simp
next
  case (Cons x s)
  obtain p ps where "splitOn c s = p # ps"
    by (meson neq_Nil_conv splitOn_nonempty)
  with Cons show ?case by (cases ps) auto
qed

lemma splitOn_no_sep: "p \<in> set (splitOn c s) \<Longrightarrow> c \<notin> set p"
proof (induction s arbitrary: p)
  case Nil
  then show ?case by simp
next
  case (Cons x s)
  then show ?case by (auto split: list.splits if_splits)
qed

lemma splitOn_notin: "c \<notin> set a \<Longrightarrow> splitOn c a = [a]"
  by (induction a) auto

lemma splitOn_append: "c \<notin> set a \<Longrightarrow> splitOn c (a @ c # b) = a # splitOn c b"
  by (induction a) auto

subsection \<open>Decimal numerals\<close>

lemma digitChar_inj: "a < 10 \<Longrightarrow> b < 10 \<Longrightarrow> digitChar a = digitChar b \<Longrightarrow> a = b"
proof -
  assume a: "a < 10" and b: "b < 10" and eq: "digitChar a = digitChar b"
  have "of_char (digitChar a) = 48 + a" "of_char (digitChar b) = 48 + b"
    using a b by (simp_all add: digitChar_def)
  with eq show "a = b" by (metis add_left_cancel)
qed

lemma showNat_nonempty: "showNat n \<noteq> []"
  by (subst showNat.simps) simp

lemma showNat_inj: "showNat m = showNat n \<Longrightarrow> m = n"
proof (induction m arbitrary: n rule: showNat.induct)
  case (1 m)
  show ?case
  proof (cases "m < 10")
    case True
    have "n < 10"
    proof (rule ccontr)
      assume "\<not> n < 10"
      with True "1.prems" have "[digitChar m] = showNat (n div 10) @ [digitChar (n mod 10)]"
        by (simp add: showNat.simps [of m] showNat.simps [of n])
      then show False using showNat_nonempty [of "n div 10"] by simp
    qed
    with True "1.prems" show ?thesis
      by (simp add: showNat.simps [of m] showNat.simps [of n] digitChar_inj)
  next
    case False
    have n: "\<not> n < 10"
    proof
      assume "n < 10"
      with False "1.prems" have "showNat (m div 10) @ [digitChar (m mod 10)] = [digitChar n]"
        by (simp add: showNat.simps [of m] showNat.simps [of n])
      then show False using showNat_nonempty [of "m div 10"] by simp
    qed
    with False "1.prems" have "showNat (m div 10) = showNat (n div 10)"
      and d: "digitChar (m mod 10) = digitChar (n mod 10)"
      by (simp_all add: showNat.simps [of m] showNat.simps [of n])
    with "1.IH" False have "m div 10 = n div 10" by simp
    moreover from d have "m mod 10 = n mod 10" by (simp add: digitChar_inj)
    ultimately show ?thesis by (metis div_mult_mod_eq)
  qed
qed

lemma showNat_digits: "c \<in> set (showNat n) \<Longrightarrow> \<exists>d<10. c = digitChar d"
proof (induction n rule: showNat.induct)
  case (1 n)
  show ?case
  proof (cases "n < 10")
    case True
    with "1.prems" show ?thesis by (auto simp: showNat.simps [of n])
  next
    case False
    then consider "c \<in> set (showNat (n div 10))" | "c = digitChar (n mod 10)"
      using "1.prems" by (auto simp: showNat.simps [of n])
    then show ?thesis
    proof cases
      case 1
      then show ?thesis using "1.IH" False by blast
    next
      case 2
      then show ?thesis by (intro exI [of _ "n mod 10"]) simp
    qed
  qed
qed

lemma showNat_no_slash: "CHR ''/'' \<notin> set (showNat n)"
proof
  assume "CHR ''/'' \<in> set (showNat n)"
  then obtain d where d: "d < 10" "CHR ''/'' = digitChar d"
    using showNat_digits by blast
  have "(of_char (digitChar d) :: nat) = 48 + d"
    using d(1) by (simp add: digitChar_def)
  moreover have "(of_char (CHR ''/'') :: nat) = 47" by simp
  ultimately show False using d(2) by simp
qed

subsection \<open>Maps as sorted association lists\<close>

definition gm_put :: "'k::linorder \<Rightarrow> 'v \<Rightarrow> ('k \<times> 'v) list \<Rightarrow> ('k \<times> 'v) list" where
  "gm_put k v m = takeWhile (\<lambda>e. fst e < k) m @ (k, v) # dropWhile (\<lambda>e. fst e \<le> k) m"

definition gm_sorted :: "('k::linorder \<times> 'v) list \<Rightarrow> bool" where
  "gm_sorted m \<longleftrightarrow> sorted_wrt (<) (map fst m)"

definition gm_from :: "('k::linorder \<times> 'v) list \<Rightarrow> ('k \<times> 'v) list" where
  "gm_from es = fold (\<lambda>(k, v) m. gm_put k v m) es []"

lemma gm_sorted_Nil [simp]: "gm_sorted []"
  by (simp add: gm_sorted_def)

lemma gm_sorted_Cons: "gm_sorted (e # m) \<longleftrightarrow> (\<forall>x \<in> set m. fst e < fst x) \<and> gm_sorted m"
  by (auto simp: gm_sorted_def)

lemma gm_put_Nil [simp]: "gm_put k v [] = [(k, v)]"
  by (simp add: gm_put_def)

lemma gm_put_Cons:
  "gm_sorted (e # m) \<Longrightarrow>
   gm_put k v (e # m) = (if fst e < k then e # gm_put k v m
     else if fst e = k then (k, v) # m else (k, v) # e # m)"
proof -
  assume s: "gm_sorted (e # m)"
  have "fst e = k \<Longrightarrow> dropWhile (\<lambda>x. fst x \<le> k) m = m"
    using s by (cases m) (auto simp: gm_sorted_Cons)
  then show ?thesis by (auto simp: gm_put_def)
qed

lemma set_gm_put: "gm_sorted m \<Longrightarrow> set (gm_put k v m) = insert (k, v) {e \<in> set m. fst e \<noteq> k}"
proof (induction m)
  case Nil
  then show ?case by simp
next
  case (Cons e m)
  have s: "gm_sorted m" using Cons.prems by (simp add: gm_sorted_Cons)
  show ?case
    using Cons.IH [OF s] Cons.prems by (force simp: gm_put_Cons gm_sorted_Cons)
qed

lemma gm_sorted_put [simp]: "gm_sorted m \<Longrightarrow> gm_sorted (gm_put k v m)"
proof (induction m)
  case Nil
  then show ?case by (simp add: gm_sorted_Cons)
next
  case (Cons e m)
  then have "gm_sorted m" by (simp add: gm_sorted_Cons)
  with Cons show ?case
    by (auto simp: gm_put_Cons gm_sorted_Cons set_gm_put split: if_splits)
qed

lemma map_of_gm_put: "gm_sorted m \<Longrightarrow> map_of (gm_put k v m) = (map_of m)(k \<mapsto> v)"
proof (induction m)
  case Nil
  then show ?case by simp
next
  case (Cons e m)
  then have "gm_sorted m" by (simp add: gm_sorted_Cons)
  moreover have "fst e > k \<Longrightarrow> map_of m k = None"
    using Cons.prems by (force simp: gm_sorted_Cons map_of_eq_None_iff)
  ultimately show ?case
    using Cons by (cases e) (auto simp: gm_put_Cons fun_eq_iff)
qed

lemma gm_sorted_fold_put: "gm_sorted m \<Longrightarrow> gm_sorted (fold (\<lambda>(k, v) m. gm_put k v m) es m)"
  by (induction es arbitrary: m) auto

lemma gm_sorted_from [simp]: "gm_sorted (gm_from es)"
  by (simp add: gm_from_def gm_sorted_fold_put)

lemma gm_sorted_eqI:
  assumes "gm_sorted m" "gm_sorted n" "map_of m = map_of n"
  shows "m = n"
proof -
  have dm: "distinct (map fst m)" "distinct (map fst n)"
    using assms(1,2) by (simp_all add: gm_sorted_def strict_sorted_iff)
  have eq: "set m = set n"
    using assms(3) map_of_eq_Some_iff [OF dm(1)] map_of_eq_Some_iff [OF dm(2)] by auto
  have "inj_on fst (set m \<union> set n)"
    using dm(1) eq by (simp add: distinct_map)
  then show ?thesis
    using map_sorted_distinct_set_unique [of fst m n] assms(1,2) dm eq
    by (simp add: gm_sorted_def strict_sorted_iff)
qed

subsection \<open>Keeping the first element of each key\<close>

text \<open>
  \<open>nubLoop\<close> is the loop the code writes with a \<^verbatim>\<open>seen\<close> map; \<open>nubBy\<close> is what it means: the first
  element of every key, in order.
\<close>

fun nubLoop :: "('a \<Rightarrow> 'k) \<Rightarrow> 'k list \<Rightarrow> 'a list \<Rightarrow> 'a list" where
  "nubLoop f seen [] = []"
| "nubLoop f seen (x # xs) = (if f x \<in> set seen then nubLoop f seen xs
     else x # nubLoop f (f x # seen) xs)"

fun nubBy :: "('a \<Rightarrow> 'k) \<Rightarrow> 'a list \<Rightarrow> 'a list" where
  "nubBy f [] = []"
| "nubBy f (x # xs) = x # nubBy f (filter (\<lambda>y. f y \<noteq> f x) xs)"

lemma nubLoop_nubBy: "nubLoop f seen xs = nubBy f (filter (\<lambda>x. f x \<notin> set seen) xs)"
proof (induction f seen xs rule: nubLoop.induct)
  case (2 f seen x xs)
  have "filter (\<lambda>y. f y \<noteq> f x) (filter (\<lambda>y. f y \<notin> set seen) xs) =
        filter (\<lambda>y. f y \<notin> set (f x # seen)) xs"
    by (induction xs) auto
  with 2 show ?case by simp
qed simp

lemma set_keys_nubBy: "f ` set (nubBy f xs) = f ` set xs"
  by (induction f xs rule: nubBy.induct) auto

lemma set_nubBy_subset: "set (nubBy f xs) \<subseteq> set xs"
  by (induction f xs rule: nubBy.induct) auto

lemma distinct_keys_nubBy: "distinct (map f (nubBy f xs))"
proof (induction f xs rule: nubBy.induct)
  case (2 f x xs)
  have "f x \<notin> f ` set (nubBy f (filter (\<lambda>y. f y \<noteq> f x) xs))"
    by (auto simp: set_keys_nubBy)
  with 2 show ?case by simp
qed simp

lemma nubBy_distinct: "distinct (map f xs) \<Longrightarrow> nubBy f xs = xs"
proof (induction xs)
  case (Cons x xs)
  from Cons.prems have "filter (\<lambda>y. f y \<noteq> f x) xs = xs"
    by (auto simp: filter_id_conv image_iff)
  with Cons show ?case by simp
qed simp

lemma nubBy_map: "(\<And>x. f (g x) = f x) \<Longrightarrow> nubBy f (map g xs) = map g (nubBy f xs)"
  by (induction f xs rule: nubBy.induct) (simp_all add: filter_map comp_def)

text \<open>The element kept for a key is the first one that has it.\<close>

lemma find_nubBy: "find (\<lambda>y. f y = k) (nubBy f xs) = find (\<lambda>y. f y = k) xs"
proof (induction f xs rule: nubBy.induct)
  case (2 f x xs)
  have "f x \<noteq> k \<Longrightarrow> find (\<lambda>y. f y = k) (filter (\<lambda>y. f y \<noteq> f x) xs) = find (\<lambda>y. f y = k) xs"
    by (induction xs) auto
  with 2 show ?case by simp
qed simp

subsection \<open>Stable sorting and reordered blocks\<close>

lemma filter_key_singleton:
  "inj_on f (set ys) \<Longrightarrow> distinct ys \<Longrightarrow>
   filter (\<lambda>x. f x = k) ys = (if \<exists>y \<in> set ys. f y = k then [THE y. y \<in> set ys \<and> f y = k] else [])"
proof (induction ys)
  case (Cons y ys)
  have inj: "inj_on f (set ys)" using Cons.prems(1) by (simp add: inj_on_insert)
  have out: "f y \<notin> f ` set ys" using Cons.prems by (auto simp: inj_on_def)
  show ?case
  proof (cases "f y = k")
    case True
    then have "filter (\<lambda>x. f x = k) ys = []" using out by (auto simp: filter_empty_conv image_iff)
    moreover have "(THE z. z \<in> set (y # ys) \<and> f z = k) = y"
      using True out by (intro the_equality) (auto simp: image_iff)
    ultimately show ?thesis using True by auto
  next
    case False
    then have "(THE z. z \<in> set (y # ys) \<and> f z = k) = (THE z. z \<in> set ys \<and> f z = k)"
      by (intro arg_cong [where f = The]) auto
    then show ?thesis using False Cons.IH inj Cons.prems(2) by simp
  qed
qed simp

lemma filter_key_perm:
  assumes "inj_on f (set ys)" "distinct ys" "mset ys = mset ys'"
  shows "filter (\<lambda>x. f x = k) ys = filter (\<lambda>x. f x = k) ys'"
proof -
  have "set ys' = set ys" "distinct ys'"
    using assms(2,3) by (metis mset_eq_setD, metis mset_eq_imp_distinct_iff)
  then show ?thesis
    using filter_key_singleton [of f ys k] filter_key_singleton [of f ys' k] assms by simp
qed

text \<open>
  A stable sort forgets the order of a block of the input whose elements have different keys.
\<close>

lemma sort_key_block:
  assumes "inj_on f (set ys)" "distinct ys" "mset ys = mset ys'"
  shows "sort_key f (xs @ ys @ zs) = sort_key f (xs @ ys' @ zs)"
proof -
  have blk: "filter (\<lambda>x. f k = f x) ys = filter (\<lambda>x. f k = f x) ys'" for k
    using filter_key_perm [OF assms, of "f k"] by (simp add: eq_commute)
  show ?thesis
  proof (rule properties_for_sort_key)
    show "mset (sort_key f (xs @ ys' @ zs)) = mset (xs @ ys @ zs)"
      using assms(3) by simp
    show "sorted (map f (sort_key f (xs @ ys' @ zs)))" by simp
    fix k
    show "filter (\<lambda>x. f k = f x) (sort_key f (xs @ ys' @ zs)) = filter (\<lambda>x. f k = f x) (xs @ ys @ zs)"
    proof -
      have "filter (\<lambda>x. f k = f x) (sort_key f us) = filter (\<lambda>x. f k = f x) us" for us
        using sort_key_stable [of f "f k" us] by (simp add: eq_commute)
      then show ?thesis using blk [of k] by simp
    qed
  qed
qed

lemma map_of_perm: "distinct (map fst m) \<Longrightarrow> mset m = mset m' \<Longrightarrow> map_of m' = map_of m"
proof -
  assume d: "distinct (map fst m)" and eq: "mset m = mset m'"
  have "mset (map fst m) = mset (map fst m')" using eq by simp
  then have "distinct (map fst m')" using d mset_eq_imp_distinct_iff by blast
  then show ?thesis using d mset_eq_setD [OF eq] map_of_inject_set by blast
qed

lemma mset_concat_map_perm:
  assumes "mset xs = mset ys"
  shows "mset (concat (map f xs)) = mset (concat (map f ys))"
proof -
  have "mset (concat (map f zs)) = \<Sum>\<^sub># (image_mset (\<lambda>z. mset (f z)) (mset zs))" for zs
    by (induction zs) simp_all
  then show ?thesis using assms by metis
qed

subsection \<open>Quoting\<close>

text \<open>
  \<^verbatim>\<open>%q\<close>: the quoted form of a string, with the escapes of \<^verbatim>\<open>strconv.Quote\<close> for ASCII; the bytes of
  printable non-ASCII runes stay as they are.
\<close>

definition hexNibble :: "nat \<Rightarrow> char" where
  "hexNibble d = (if d < 10 then char_of (48 + d) else char_of (87 + d))"

definition escapeByte :: "char \<Rightarrow> string" where
  "escapeByte c = (let n = (of_char c :: nat); bs = CHR 0x5C in
     if c = CHR 0x22 \<or> c = CHR 0x5C then [bs, c]
     else if n = 7 then [bs, CHR ''a''] else if n = 8 then [bs, CHR ''b'']
     else if n = 9 then [bs, CHR ''t''] else if n = 10 then [bs, CHR ''n'']
     else if n = 11 then [bs, CHR ''v''] else if n = 12 then [bs, CHR ''f'']
     else if n = 13 then [bs, CHR ''r'']
     else if n < 32 \<or> n = 127 then [bs, CHR ''x'', hexNibble (n div 16), hexNibble (n mod 16)]
     else [c])"

definition goQuote :: "string \<Rightarrow> string" where
  "goQuote s = [CHR 0x22] @ concat (map escapeByte s) @ [CHR 0x22]"

end
