(* ===== verification/Go_Regexp.thy ===== *)
theory Go_Regexp
  imports Go_Prelude
begin

text \<open>
  The part of Go's \<^verbatim>\<open>regexp\<close> package that the controller's fixed patterns use: character
  classes, sequence, alternation, greedy repetition, the anchors \<^verbatim>\<open>^\<close> and \<^verbatim>\<open>$\<close> and the ASCII word
  boundary \<^verbatim>\<open>\b\<close>. A matcher state is the byte before the cursor and the bytes after it;
  \<open>rm r x\<close> lists the states in which a match of \<open>r\<close> that starts at \<open>x\<close> may end, in the
  leftmost-first order in which Go prefers them. \<open>Matches\<close> is the declarative meaning, and
  \<open>set_rm\<close> shows that the matcher computes exactly that relation.

  Go matches over runes and this matcher over bytes. The two agree for the patterns of this
  program: every class that is not negated is ASCII, an ASCII byte never occurs inside a multi-byte
  rune, and the negated classes are followed by an ASCII byte or are maximal. Under \<^verbatim>\<open>(?i)\<close> the letters
  s and k also match the two-byte rune U+017F and the three-byte rune U+212A, which \<open>ci\<close> lists.
\<close>

type_synonym mstate = "char option \<times> string"

datatype re =
    REps
  | RCls "(char \<times> char) list" bool
  | RSeq re re
  | RAlt re re
  | RStar re
  | RBegin
  | REnd
  | RWordB

definition inCls :: "(char \<times> char) list \<Rightarrow> bool \<Rightarrow> char \<Rightarrow> bool" where
  "inCls rs neg c \<longleftrightarrow> list_ex (\<lambda>(a, b). a \<le> c \<and> c \<le> b) rs \<noteq> neg"

definition wordChar :: "char \<Rightarrow> bool" where
  "wordChar c \<longleftrightarrow> inCls [(CHR ''0'', CHR ''9''), (CHR ''A'', CHR ''Z''), (CHR ''_'', CHR ''_''),
     (CHR ''a'', CHR ''z'')] False c"

definition wordAt :: "mstate \<Rightarrow> bool" where
  "wordAt x \<longleftrightarrow> (case fst x of None \<Rightarrow> False | Some c \<Rightarrow> wordChar c)
     \<noteq> (case snd x of [] \<Rightarrow> False | c # _ \<Rightarrow> wordChar c)"

primrec iter_greedy :: "(mstate \<Rightarrow> mstate list) \<Rightarrow> nat \<Rightarrow> mstate \<Rightarrow> mstate list" where
  "iter_greedy f 0 x = [x]"
| "iter_greedy f (Suc n) x =
     concat (map (iter_greedy f n) (filter (\<lambda>y. length (snd y) < length (snd x)) (f x))) @ [x]"

primrec rm :: "re \<Rightarrow> mstate \<Rightarrow> mstate list" where
  "rm REps x = [x]"
| "rm (RCls rs neg) x = (case snd x of [] \<Rightarrow> [] | c # s \<Rightarrow> if inCls rs neg c then [(Some c, s)] else [])"
| "rm (RSeq a b) x = concat (map (rm b) (rm a x))"
| "rm (RAlt a b) x = rm a x @ rm b x"
| "rm (RStar r) x = iter_greedy (rm r) (length (snd x)) x"
| "rm RBegin x = (if fst x = None then [x] else [])"
| "rm REnd x = (if snd x = [] then [x] else [])"
| "rm RWordB x = (if wordAt x then [x] else [])"

fun search :: "re \<Rightarrow> char option \<Rightarrow> string \<Rightarrow> bool" where
  "search r p [] = (rm r (p, []) \<noteq> [])"
| "search r p (c # s) = (rm r (p, c # s) \<noteq> [] \<or> search r (Some c) s)"

text \<open>\<^verbatim>\<open>(*Regexp).MatchString\<close>: does the pattern match anywhere in the text?\<close>

definition matchString :: "re \<Rightarrow> string \<Rightarrow> bool" where
  "matchString r s = search r None s"

text \<open>
  \<^verbatim>\<open>(*Regexp).ReplaceAllString\<close> for a pattern whose only capture group is its prefix \<open>g\<close>: the
  replacement receives the text the group captured. A match that consumes nothing is skipped; no
  pattern of the program has one.
\<close>

definition firstMatch :: "re \<Rightarrow> re \<Rightarrow> mstate \<Rightarrow> (string \<times> mstate) option" where
  "firstMatch g r x =
     (case concat (map (\<lambda>y. map (\<lambda>z. (take (length (snd x) - length (snd y)) (snd x), z)) (rm r y)) (rm g x))
      of [] \<Rightarrow> None | m # _ \<Rightarrow> Some m)"

function replaceAll :: "re \<Rightarrow> re \<Rightarrow> (string \<Rightarrow> string) \<Rightarrow> char option \<Rightarrow> string \<Rightarrow> string" where
  "replaceAll g r f p [] = []"
| "replaceAll g r f p (c # s) =
     (case firstMatch g r (p, c # s) of
        None \<Rightarrow> c # replaceAll g r f (Some c) s
      | Some (cap, p', s') \<Rightarrow>
          if length s' < length (c # s) then f cap @ replaceAll g r f p' s'
          else c # replaceAll g r f (Some c) s)"
  by pat_completeness auto
termination by (relation "measure (\<lambda>(g, r, f, p, s). length s)") auto

subsection \<open>Pattern constructors\<close>

definition chr :: "char \<Rightarrow> re" where "chr c = RCls [(c, c)] False"

primrec lit :: "string \<Rightarrow> re" where
  "lit [] = REps"
| "lit (c # s) = RSeq (chr c) (lit s)"

primrec rpt :: "nat \<Rightarrow> re \<Rightarrow> re" where
  "rpt 0 r = REps"
| "rpt (Suc n) r = RSeq r (rpt n r)"

definition plus :: "re \<Rightarrow> re" where "plus r = RSeq r (RStar r)"
definition opt :: "re \<Rightarrow> re" where "opt r = RAlt r REps"
definition atLeast :: "nat \<Rightarrow> re \<Rightarrow> re" where "atLeast n r = RSeq (rpt n r) (RStar r)"

fun alts :: "re list \<Rightarrow> re" where
  "alts [] = RCls [] False"
| "alts [r] = r"
| "alts (r # rs) = RAlt r (alts rs)"

definition seqs :: "re list \<Rightarrow> re" where "seqs rs = foldr RSeq rs REps"

text \<open>The class \<^verbatim>\<open>.\<close> (any byte but the newline), \<^verbatim>\<open>\s\<close>, \<^verbatim>\<open>\d\<close> and the ASCII letter ranges.\<close>

definition dot :: re where "dot = RCls [(newline, newline)] True"
definition digitR :: "char \<times> char" where "digitR = (CHR ''0'', CHR ''9'')"
definition lowerR :: "char \<times> char" where "lowerR = (CHR ''a'', CHR ''z'')"
definition upperR :: "char \<times> char" where "upperR = (CHR ''A'', CHR ''Z'')"
definition one :: "char \<Rightarrow> char \<times> char" where "one c = (c, c)"
definition spaceRs :: "(char \<times> char) list" where
  "spaceRs = [(char_of (9::nat), char_of (10::nat)), (char_of (12::nat), char_of (13::nat)), one (CHR '' '')]"

text \<open>\<open>(?i)\<close> applied to one lower-case literal byte.\<close>

definition longS :: re where "longS = lit [char_of (197::nat), char_of (191::nat)]"
definition kelvin :: re where "kelvin = lit [char_of (226::nat), char_of (132::nat), char_of (170::nat)]"

definition ci :: "char \<Rightarrow> re" where
  "ci c = (let up = (if CHR ''a'' \<le> c \<and> c \<le> CHR ''z'' then [one (char_of ((of_char c :: nat) - 32))] else []);
               base = RCls (one c # up) False
           in if c = CHR ''s'' then RAlt base longS else if c = CHR ''k'' then RAlt base kelvin else base)"

primrec ciLit :: "string \<Rightarrow> re" where
  "ciLit [] = REps"
| "ciLit (c # s) = RSeq (ci c) (ciLit s)"

subsection \<open>The meaning of a pattern\<close>

inductive Matches :: "re \<Rightarrow> mstate \<Rightarrow> mstate \<Rightarrow> bool" where
  Eps: "Matches REps x x"
| Cls: "inCls rs neg c \<Longrightarrow> Matches (RCls rs neg) (p, c # s) (Some c, s)"
| Seq: "Matches a x y \<Longrightarrow> Matches b y z \<Longrightarrow> Matches (RSeq a b) x z"
| AltL: "Matches a x y \<Longrightarrow> Matches (RAlt a b) x y"
| AltR: "Matches b x y \<Longrightarrow> Matches (RAlt a b) x y"
| StarStop: "Matches (RStar r) x x"
| StarStep: "Matches r x y \<Longrightarrow> Matches (RStar r) y z \<Longrightarrow> Matches (RStar r) x z"
| Begin: "Matches RBegin (None, s) (None, s)"
| End: "Matches REnd (p, []) (p, [])"
| WordB: "wordAt x \<Longrightarrow> Matches RWordB x x"

inductive_simps Matches_simps [simp]:
  "Matches REps x y" "Matches (RCls rs neg) x y" "Matches (RSeq a b) x y" "Matches (RAlt a b) x y"
  "Matches RBegin x y" "Matches REnd x y" "Matches RWordB x y"

text \<open>A match consumes a prefix of the text, so it either stays in place or gets shorter.\<close>

lemma Matches_progress: "Matches r x y \<Longrightarrow> y = x \<or> length (snd y) < length (snd x)"
  by (induction rule: Matches.induct) auto

lemma Matches_suffix: "Matches r x y \<Longrightarrow> \<exists>t. snd x = t @ snd y"
proof (induction rule: Matches.induct)
  case (Cls rs neg c p s)
  then show ?case by (auto intro: exI [of _ "[c]"])
next
  case (Seq a x y b z)
  then show ?case by (metis append.assoc)
next
  case (StarStep r x y z)
  then show ?case by (metis append.assoc)
qed auto

lemma iter_sound:
  assumes "\<And>x y. y \<in> set (f x) \<Longrightarrow> Matches r x y"
  shows "y \<in> set (iter_greedy f n x) \<Longrightarrow> Matches (RStar r) x y"
proof (induction n arbitrary: x)
  case 0
  then show ?case by (auto intro: Matches.StarStop)
next
  case (Suc n)
  from Suc.prems consider "y = x" | z where "z \<in> set (f x)" "y \<in> set (iter_greedy f n z)"
    unfolding iter_greedy.simps set_append set_concat set_map by fastforce
  then show ?case
  proof cases
    case 1
    then show ?thesis by (simp add: Matches.StarStop)
  next
    case (2 z)
    then show ?thesis using assms Suc.IH Matches.StarStep by blast
  qed
qed

lemma iter_complete_aux:
  assumes "\<And>x y. Matches r x y \<Longrightarrow> y \<in> set (f x)"
  shows "Matches q x y \<Longrightarrow> q = RStar r \<Longrightarrow> length (snd x) \<le> n \<Longrightarrow> y \<in> set (iter_greedy f n x)"
proof (induction arbitrary: n rule: Matches.induct)
  case (StarStop r' x)
  then show ?case by (cases n) auto
next
  case (StarStep r' x y z)
  show ?case
  proof (cases "y = x")
    case True
    with StarStep show ?thesis by simp
  next
    case False
    then have l: "length (snd y) < length (snd x)"
      using Matches_progress StarStep.hyps(1) by blast
    then obtain m where m: "n = Suc m"
      using StarStep.prems by (cases n) auto
    then have "z \<in> set (iter_greedy f m y)"
      using StarStep l by (simp add: m)
    moreover have "y \<in> set (f x)"
      using assms StarStep by auto
    moreover from this l have "y \<in> set (filter (\<lambda>v. length (snd v) < length (snd x)) (f x))"
      by simp
    ultimately show ?thesis unfolding m iter_greedy.simps set_append set_concat set_map by blast
  qed
qed auto

lemma set_rm: "y \<in> set (rm r x) \<longleftrightarrow> Matches r x y"
proof (induction r arbitrary: x y)
  case (RCls rs neg)
  show ?case by (cases x) (auto split: list.splits)
next
  case (RStar r)
  have "Matches (RStar r) x y \<Longrightarrow> y \<in> set (iter_greedy (rm r) (length (snd x)) x)"
    using iter_complete_aux [of r "rm r" "RStar r" x y] RStar.IH by auto
  moreover have "y \<in> set (iter_greedy (rm r) (length (snd x)) x) \<Longrightarrow> Matches (RStar r) x y"
    using iter_sound [of "rm r" r] RStar.IH by blast
  ultimately show ?case by auto
next
  case (RSeq a b)
  have "y \<in> set (rm (RSeq a b) x) \<longleftrightarrow> (\<exists>z \<in> set (rm a x). y \<in> set (rm b z))"
    by simp
  also have "\<dots> \<longleftrightarrow> (\<exists>z. Matches a x z \<and> Matches b z y)"
    by (simp only: RSeq.IH Bex_def)
  also have "\<dots> \<longleftrightarrow> Matches (RSeq a b) x y"
    by simp
  finally show ?case .
next
  case RBegin
  show ?case by (cases x) auto
next
  case REnd
  show ?case by (cases x) auto
qed auto

lemma rm_nonempty: "rm r x \<noteq> [] \<longleftrightarrow> (\<exists>y. Matches r x y)"
  unfolding set_rm [symmetric] by (cases "rm r x") auto

definition prevOf :: "char option \<Rightarrow> string \<Rightarrow> char option" where
  "prevOf p a = (if a = [] then p else Some (last a))"

lemma search_iff: "search r p s \<longleftrightarrow> (\<exists>a b y. s = a @ b \<and> Matches r (prevOf p a, b) y)"
proof (induction s arbitrary: p)
  case Nil
  then show ?case by (simp add: rm_nonempty prevOf_def)
next
  case (Cons c s)
  have "(\<exists>a b y. c # s = a @ b \<and> Matches r (prevOf p a, b) y) \<longleftrightarrow>
        (\<exists>y. Matches r (p, c # s) y) \<or> (\<exists>a b y. s = a @ b \<and> Matches r (prevOf (Some c) a, b) y)"
    (is "?L \<longleftrightarrow> ?R")
  proof
    assume ?L
    then obtain a b y where *: "c # s = a @ b" "Matches r (prevOf p a, b) y" by blast
    show ?R
    proof (cases a)
      case Nil
      with * have "Matches r (p, c # s) y" by (simp add: prevOf_def)
      then show ?thesis by blast
    next
      case (Cons d a')
      with * have "s = a' @ b \<and> Matches r (prevOf (Some c) a', b) y"
        by (auto simp: prevOf_def)
      then show ?thesis by blast
    qed
  next
    assume ?R
    then show ?L
    proof
      assume "\<exists>y. Matches r (p, c # s) y"
      then show ?L by (intro exI [of _ "[]"] exI [of _ "c # s"]) (simp add: prevOf_def)
    next
      assume "\<exists>a b y. s = a @ b \<and> Matches r (prevOf (Some c) a, b) y"
      then obtain a b y where "s = a @ b" "Matches r (prevOf (Some c) a, b) y" by blast
      then show ?L
        by (intro exI [of _ "c # a"] exI [of _ b] exI [of _ y]) (auto simp: prevOf_def)
    qed
  qed
  then show ?case using Cons.IH by (simp add: rm_nonempty)
qed

text \<open>An anchored pattern can only match at the start of the text.\<close>

lemma matchString_anchored: "matchString (RSeq RBegin r) s \<longleftrightarrow> (\<exists>y. Matches r (None, s) y)"
proof -
  have "matchString (RSeq RBegin r) s \<longleftrightarrow>
     (\<exists>a b y. s = a @ b \<and> prevOf None a = None \<and> Matches r (None, b) y)"
    unfolding matchString_def search_iff by (auto simp: prevOf_def)
  then show ?thesis by (auto simp: prevOf_def)
qed

lemma Matches_lit: "Matches (lit w) x y \<longleftrightarrow>
    (\<exists>t. snd x = w @ t \<and> y = (prevOf (fst x) w, t))"
proof (induction w arbitrary: x)
  case Nil
  show ?case by (cases x, cases y) (auto simp: prevOf_def)
next
  case (Cons c w)
  show ?case
    by (cases x) (auto simp: Cons.IH chr_def inCls_def prevOf_def)
qed

lemma Matches_rpt_cls: "Matches (rpt n (RCls rs neg)) x y \<longleftrightarrow>
    (\<exists>w t. snd x = w @ t \<and> length w = n \<and> (\<forall>c \<in> set w. inCls rs neg c) \<and> y = (prevOf (fst x) w, t))"
proof (induction n arbitrary: x)
  case 0
  show ?case by (cases x, cases y) (auto simp: prevOf_def)
next
  case (Suc n)
  have "Matches (rpt (Suc n) (RCls rs neg)) x y \<longleftrightarrow> (\<exists>c s. snd x = c # s \<and> inCls rs neg c \<and>
      Matches (rpt n (RCls rs neg)) (Some c, s) y)"
    by (cases x) auto
  also have "\<dots> \<longleftrightarrow> (\<exists>c s w t. snd x = c # s \<and> inCls rs neg c \<and> s = w @ t \<and> length w = n \<and>
      (\<forall>c \<in> set w. inCls rs neg c) \<and> y = (prevOf (Some c) w, t))"
    by (auto simp: Suc.IH)
  also have "\<dots> \<longleftrightarrow> (\<exists>w t. snd x = w @ t \<and> length w = Suc n \<and> (\<forall>c \<in> set w. inCls rs neg c) \<and>
      y = (prevOf (fst x) w, t))" (is "?L \<longleftrightarrow> ?R")
  proof
    assume ?L
    then obtain c s w t where "snd x = c # s" "inCls rs neg c" "s = w @ t" "length w = n"
      "\<forall>c \<in> set w. inCls rs neg c" "y = (prevOf (Some c) w, t)" by blast
    then show ?R by (intro exI [of _ "c # w"] exI [of _ t]) (auto simp: prevOf_def)
  next
    assume ?R
    then obtain w t where w: "snd x = w @ t" "length w = Suc n" "\<forall>c \<in> set w. inCls rs neg c"
      "y = (prevOf (fst x) w, t)" by blast
    then obtain c w' where "w = c # w'" by (cases w) auto
    with w show ?L by (intro exI [of _ c] exI [of _ "w' @ t"] exI [of _ w'] exI [of _ t])
        (auto simp: prevOf_def)
  qed
  finally show ?case .
qed

text \<open>Without a match, \<open>replaceAll\<close> returns the text unchanged.\<close>

lemma firstMatch_None: "rm (RSeq g r) x = [] \<Longrightarrow> firstMatch g r x = None"
proof -
  assume "rm (RSeq g r) x = []"
  then have "\<forall>y \<in> set (rm g x). rm r y = []" by (simp add: concat_eq_Nil_conv)
  then have "concat (map (\<lambda>y. map (\<lambda>z. (take (length (snd x) - length (snd y)) (snd x), z)) (rm r y)) (rm g x)) = []"
    by (simp add: concat_eq_Nil_conv)
  then show ?thesis unfolding firstMatch_def by (simp only: list.case)
qed

lemma replaceAll_no_match:
  "\<not> search (RSeq g r) p s \<Longrightarrow> replaceAll g r f p s = s"
  by (induction s arbitrary: p) (auto simp: firstMatch_None)

end
