(* ===== verification/Kube_Types.thy ===== *)
theory Kube_Types
  imports Go_Prelude
begin

text \<open>
  The Kubernetes API objects the controller reads, reduced to the fields its code looks at. A pointer
  is an option, a list is a list, and a string map is an association list with distinct keys whose
  order is the order in which a Go \<^verbatim>\<open>range\<close> happens to visit it. The payload of an
  \<^verbatim>\<open>unstructured.Unstructured\<close> is a JSON map; a float64 in it is kept as its literal text.
\<close>

datatype json =
    JNull
  | JBool bool
  | JInt int
  | JFloat string
  | JString string
  | JArray "json list"
  | JObject "(string \<times> json) list"

type_synonym jobject = "(string \<times> json) list"

record owner_reference =
  or_apiVersion :: string
  or_kind :: string
  or_name :: string
  or_uid :: string
  or_controller :: "bool option"

record object_meta =
  om_namespace :: string
  om_name :: string
  om_uid :: string
  om_generation :: int
  om_labels :: gomap
  om_annotations :: gomap
  om_ownerReferences :: "owner_reference list"

record env_var =
  env_name :: string
  env_value :: string
  env_valueFrom :: bool

record volume_mount =
  vm_name :: string
  vm_mountPath :: string

record volume =
  vol_name :: string
  vol_persistentVolumeClaim :: "string option"
  vol_configMap :: "string option"
  vol_secret :: "string option"
  vol_hostPath :: "string option"
  vol_emptyDir :: bool
  vol_nfs :: "(string \<times> string) option"
  vol_csi :: "string option"
  vol_image :: "string option"

record container =
  ct_name :: string
  ct_image :: string
  ct_args :: "string list"
  ct_env :: "env_var list"
  ct_volumeMounts :: "volume_mount list"

record pod_spec =
  ps_containers :: "container list"
  ps_initContainers :: "container list"
  ps_volumes :: "volume list"

record pod_template =
  pt_annotations :: gomap
  pt_spec :: pod_spec

record container_status =
  cs_name :: string
  cs_image :: string
  cs_imageID :: string

record pod =
  pod_meta :: object_meta
  pod_spec :: pod_spec
  pod_containerStatuses :: "container_status list"
  pod_initContainerStatuses :: "container_status list"

text \<open>
  The dynamic types of \<^verbatim>\<open>client.Object\<close> that the scrapers' type switches distinguish; a CronJob
  carries the pod template of its job template.
\<close>

datatype k8s_object =
    Deployment object_meta pod_template
  | StatefulSet object_meta pod_template
  | DaemonSet object_meta pod_template
  | Job object_meta pod_template
  | CronJob object_meta pod_template
  | Unstructured object_meta jobject

fun object_metadata :: "k8s_object \<Rightarrow> object_meta" where
  "object_metadata (Deployment m _) = m"
| "object_metadata (StatefulSet m _) = m"
| "object_metadata (DaemonSet m _) = m"
| "object_metadata (Job m _) = m"
| "object_metadata (CronJob m _) = m"
| "object_metadata (Unstructured m _) = m"

text \<open>The name \<^verbatim>\<open>%T\<close> prints for the dynamic type.\<close>

fun object_typename :: "k8s_object \<Rightarrow> string" where
  "object_typename (Deployment _ _) = ''*v1.Deployment''"
| "object_typename (StatefulSet _ _) = ''*v1.StatefulSet''"
| "object_typename (DaemonSet _ _) = ''*v1.DaemonSet''"
| "object_typename (Job _ _) = ''*v1.Job''"
| "object_typename (CronJob _ _) = ''*v1.CronJob''"
| "object_typename (Unstructured _ _) = ''*unstructured.Unstructured''"

text \<open>
  \<^verbatim>\<open>metav1.Condition\<close>, with times in nanoseconds and the status as a truth value (the controller never
  writes \<^verbatim>\<open>Unknown\<close>). The helpers of \<^verbatim>\<open>apimachinery\<close> are parameters: \<^verbatim>\<open>SetStatusCondition\<close> is a
  \<open>set_condition\<close>, and \<^verbatim>\<open>FindStatusCondition\<close>, which returns a pointer into the slice, a
  \<open>find_condition\<close> with the index of that element.
\<close>

record Condition =
  cond_type :: string
  cond_status :: bool
  cond_reason :: string
  cond_observedGeneration :: int
  cond_message :: string
  cond_lastTransitionTime :: int

type_synonym set_condition = "Condition \<Rightarrow> Condition list \<Rightarrow> Condition list"
type_synonym find_condition = "Condition list \<Rightarrow> string \<Rightarrow> nat option"

text \<open>What the documentation of \<^verbatim>\<open>FindStatusCondition\<close> promises: the first condition of that type.\<close>

definition finds_first :: "find_condition \<Rightarrow> bool" where
  "finds_first find_c \<longleftrightarrow> (\<forall>cs t. find_c cs t = (if \<exists>c \<in> set cs. cond_type c = t
     then Some (length (takeWhile (\<lambda>c. cond_type c \<noteq> t) cs)) else None))"

record namespace =
  ns_name :: string
  ns_uid :: string
  ns_labels :: gomap
  ns_terminating :: bool

text \<open>
  Answers of the API: a read, a write with optimistic concurrency, and what a reconcile asks of its
  queue (\<^verbatim>\<open>ctrl.Result\<close> with its error).
\<close>

datatype 'a api_result = Found 'a | NotFound | ApiError string

datatype api_write = WriteOK | WriteConflict | WriteNotFound | WriteError string

datatype reconcile_result = Done | Requeue | RequeueAfter int | Failed string

text \<open>Zero values of the structs.\<close>

definition emptyMeta :: object_meta where
  "emptyMeta = \<lparr>om_namespace = '''', om_name = '''', om_uid = '''', om_generation = 0, om_labels = [],
     om_annotations = [], om_ownerReferences = []\<rparr>"

definition emptyPodSpec :: pod_spec where
  "emptyPodSpec = \<lparr>ps_containers = [], ps_initContainers = [], ps_volumes = []\<rparr>"

end
