(* ===== verification/Scraper_Types.thy ===== *)
theory Scraper_Types
  imports Kube_Types
begin

text \<open>
  The types of \<^verbatim>\<open>internal/scraper/types.go\<close> and \<^verbatim>\<open>errors.go\<close>: workloads, evidence, components,
  \<^verbatim>\<open>BOMInputs\<close> and its deduplication. Go's string enumerations are datatypes, each with a rendering
  function for its string value; a constructor ending in \<open>None\<close> is the zero value. Times are
  nanoseconds and the zero \<^verbatim>\<open>time.Time\<close> is 0.
\<close>

type_synonym time = int

record WorkloadKind =
  wk_group :: string
  wk_version :: string
  wk_kind :: string

datatype WorkloadCategory =
    CategoryNone
  | CategoryInference
  | CategoryAgent
  | CategoryEvaluation
  | CategoryPipeline
  | CategoryNotebook
  | CategoryTraining
  | CategoryVectorDB

fun category_str :: "WorkloadCategory \<Rightarrow> string" where
  "category_str CategoryNone = ''''"
| "category_str CategoryInference = ''inference''"
| "category_str CategoryAgent = ''agent''"
| "category_str CategoryEvaluation = ''evaluation''"
| "category_str CategoryPipeline = ''pipeline''"
| "category_str CategoryNotebook = ''notebook''"
| "category_str CategoryTraining = ''training''"
| "category_str CategoryVectorDB = ''vector-database''"

record Workload =
  w_kind :: WorkloadKind
  w_category :: WorkloadCategory
  w_namespace :: string
  w_name :: string
  w_uid :: string
  w_object :: "k8s_object option"
  w_pods :: "pod list"

datatype EvidenceSource =
    SourceNone
  | SourcePodAnnotation
  | SourcePodTemplateAnnotation
  | SourceWorkloadAnnotation
  | SourceImageReference
  | SourceContainerArg
  | SourceInitContainerArg
  | SourceEnvVar
  | SourceEnvVarNamePresent
  | SourceImagePattern
  | SourceImageLabel
  | SourceCRDField
  | SourceVolumeSource
  | SourceResourceRequest
  | SourceNodeSelector
  | SourcePodStatus

fun source_str :: "EvidenceSource \<Rightarrow> string" where
  "source_str SourceNone = ''''"
| "source_str SourcePodAnnotation = ''pod_annotation''"
| "source_str SourcePodTemplateAnnotation = ''pod_template_annotation''"
| "source_str SourceWorkloadAnnotation = ''workload_annotation''"
| "source_str SourceImageReference = ''image_reference''"
| "source_str SourceContainerArg = ''container_arg''"
| "source_str SourceInitContainerArg = ''init_container_arg''"
| "source_str SourceEnvVar = ''env_var''"
| "source_str SourceEnvVarNamePresent = ''env_var_name_present''"
| "source_str SourceImagePattern = ''image_pattern''"
| "source_str SourceImageLabel = ''image_label''"
| "source_str SourceCRDField = ''crd_field''"
| "source_str SourceVolumeSource = ''volume_source''"
| "source_str SourceResourceRequest = ''resource_request''"
| "source_str SourceNodeSelector = ''node_selector''"
| "source_str SourcePodStatus = ''pod_status''"

record Evidence =
  ev_source :: EvidenceSource
  ev_locator :: string

datatype Confidence = ConfidenceNone | ConfidenceDeclared | ConfidenceInferred | ConfidenceUnresolved

fun confidence_str :: "Confidence \<Rightarrow> string" where
  "confidence_str ConfidenceNone = ''''"
| "confidence_str ConfidenceDeclared = ''declared''"
| "confidence_str ConfidenceInferred = ''inferred''"
| "confidence_str ConfidenceUnresolved = ''unresolved''"

datatype ComponentType =
    ComponentNone
  | ComponentContainer
  | ComponentApplication
  | ComponentMLModel
  | ComponentData

fun ctype_str :: "ComponentType \<Rightarrow> string" where
  "ctype_str ComponentNone = ''''"
| "ctype_str ComponentContainer = ''container''"
| "ctype_str ComponentApplication = ''application''"
| "ctype_str ComponentMLModel = ''machine-learning-model''"
| "ctype_str ComponentData = ''data''"

lemma ctype_str_inj [simp]: "ctype_str a = ctype_str b \<longleftrightarrow> a = b"
  by (cases a; cases b; simp)

text \<open>Go compares component types as strings.\<close>

instantiation ComponentType :: linorder
begin

definition less_eq_ComponentType :: "ComponentType \<Rightarrow> ComponentType \<Rightarrow> bool" where
  "less_eq_ComponentType a b \<longleftrightarrow> ctype_str a \<le> ctype_str b"

definition less_ComponentType :: "ComponentType \<Rightarrow> ComponentType \<Rightarrow> bool" where
  "less_ComponentType a b \<longleftrightarrow> ctype_str a < ctype_str b"

instance
proof
  fix x y z :: ComponentType
  show "x < y \<longleftrightarrow> x \<le> y \<and> \<not> y \<le> x"
    by (simp add: less_eq_ComponentType_def less_ComponentType_def less_le_not_le)
  show "x \<le> x" by (simp add: less_eq_ComponentType_def)
  show "x \<le> y \<Longrightarrow> y \<le> z \<Longrightarrow> x \<le> z" by (auto simp: less_eq_ComponentType_def)
  show "x \<le> y \<Longrightarrow> y \<le> x \<Longrightarrow> x = y"
    unfolding less_eq_ComponentType_def by (metis ctype_str_inj order_antisym)
  show "x \<le> y \<or> y \<le> x" by (auto simp: less_eq_ComponentType_def)
qed

end

datatype Component = Component
  (cType: ComponentType)
  (cName: string)
  (cVersion: string)
  (cPURL: string)
  (cHashes: gomap)
  (cEvidence: Evidence)
  (cConfidence: Confidence)
  (cProperties: gomap)
  (cChildren: "Component list")

text \<open>The struct literal of a component without version, PURL, hashes or children.\<close>

definition mkComponent :: "ComponentType \<Rightarrow> string \<Rightarrow> string \<Rightarrow> Confidence \<Rightarrow> Evidence \<Rightarrow> gomap \<Rightarrow> Component" where
  "mkComponent t n v cf ev props = Component t n v [] [] ev cf (gm_from props) []"

record Service =
  sv_name :: string
  sv_endpoints :: "string list"
  sv_evidence :: Evidence

record Provenance =
  pv_scraperName :: string
  pv_scraperVersion :: string
  pv_scrapeMethod :: string
  pv_scrapeTimestamp :: time

text \<open>An error value is kept as the string its \<^verbatim>\<open>Error()\<close> returns, or as the structured
  \<^verbatim>\<open>*ExtractionError\<close> that callers recognise by type.\<close>

datatype go_error = ExtractionError EvidenceSource string | ErrorString string

fun error_str :: "go_error \<Rightarrow> string" where
  "error_str (ExtractionError s m) = ''extraction from '' @ source_str s @ '': '' @ m"
| "error_str (ErrorString m) = m"

record BOMInputs =
  bi_scraperName :: string
  bi_scrapeTimestamp :: time
  bi_confidence :: Confidence
  bi_components :: "Component list"
  bi_services :: "Service list"
  bi_provenance :: "Provenance list"
  bi_errors :: "go_error list"
  bi_category :: WorkloadCategory
  bi_truncatedComponents :: int
  bi_ownedWorkloads :: "string list"

definition emptyInputs :: BOMInputs where
  "emptyInputs = \<lparr>bi_scraperName = '''', bi_scrapeTimestamp = 0, bi_confidence = ConfidenceNone,
     bi_components = [], bi_services = [], bi_provenance = [], bi_errors = [],
     bi_category = CategoryNone, bi_truncatedComponents = 0, bi_ownedWorkloads = []\<rparr>"

lemma size_cChildren: "size_list size (cChildren c) < size c"
  by (cases c) simp

subsection \<open>Deduplication\<close>

definition componentKey :: "Component \<Rightarrow> string" where
  "componentKey c = ctype_str (cType c) @ ''|'' @ cName c @ ''|'' @ cVersion c @ ''|'' @
     source_str (ev_source (cEvidence c)) @ ''|'' @ ev_locator (cEvidence c)"

function dedupComponentsLoop :: "string list \<Rightarrow> Component list \<Rightarrow> Component list" where
  "dedupComponentsLoop seen [] = []"
| "dedupComponentsLoop seen (Component t n v u h e f p ch # cs) =
     (let c' = Component t n v u h e f p (if ch \<noteq> [] then dedupComponentsLoop [] ch else ch);
          key = componentKey c'
      in if key \<in> set seen then dedupComponentsLoop seen cs
         else c' # dedupComponentsLoop (key # seen) cs)"
  by pat_completeness auto
termination by (relation "measure (\<lambda>(seen, cs). size_list size cs)") auto

definition deduplicateComponents :: "Component list \<Rightarrow> Component list" where
  "deduplicateComponents cs = (if cs = [] then [] else dedupComponentsLoop [] cs)"

definition deduplicateServices :: "Service list \<Rightarrow> Service list" where
  "deduplicateServices ss = (if ss = [] then [] else nubLoop sv_name [] ss)"

definition Deduplicate :: "BOMInputs \<Rightarrow> BOMInputs" where
  "Deduplicate b = b\<lparr>bi_components := deduplicateComponents (bi_components b),
     bi_services := deduplicateServices (bi_services b)\<rparr>"

text \<open>
  The reference meaning: keep the first component of every key, then deduplicate its children in the
  same way.
\<close>

definition dedupChildren :: "Component \<Rightarrow> Component" where
  "dedupChildren c = Component (cType c) (cName c) (cVersion c) (cPURL c) (cHashes c) (cEvidence c)
     (cConfidence c) (cProperties c) (deduplicateComponents (cChildren c))"

lemma dedupChildren_sel [simp]:
  "cType (dedupChildren c) = cType c" "cName (dedupChildren c) = cName c"
  "cVersion (dedupChildren c) = cVersion c" "cPURL (dedupChildren c) = cPURL c"
  "cHashes (dedupChildren c) = cHashes c" "cEvidence (dedupChildren c) = cEvidence c"
  "cConfidence (dedupChildren c) = cConfidence c" "cProperties (dedupChildren c) = cProperties c"
  "cChildren (dedupChildren c) = deduplicateComponents (cChildren c)"
  "componentKey (dedupChildren c) = componentKey c"
  by (simp_all add: dedupChildren_def componentKey_def)

lemma dedupComponentsLoop_Cons:
  "dedupComponentsLoop seen (c # cs) = (if componentKey c \<in> set seen then dedupComponentsLoop seen cs
     else dedupChildren c # dedupComponentsLoop (componentKey c # seen) cs)"
proof (cases c)
  case (Component t n v u h e f p ch)
  have "dedupChildren c = Component t n v u h e f p (if ch \<noteq> [] then dedupComponentsLoop [] ch else ch)"
    by (simp add: dedupChildren_def deduplicateComponents_def Component)
  then have "dedupComponentsLoop seen (c # cs) = (if componentKey (dedupChildren c) \<in> set seen
      then dedupComponentsLoop seen cs
      else dedupChildren c # dedupComponentsLoop (componentKey (dedupChildren c) # seen) cs)"
    by (simp only: Component dedupComponentsLoop.simps Let_def)
  then show ?thesis by simp
qed

lemma dedupComponentsLoop_nub:
  "dedupComponentsLoop seen cs = map dedupChildren (nubLoop componentKey seen cs)"
  by (induction cs arbitrary: seen) (simp_all add: dedupComponentsLoop_Cons)

lemma deduplicateComponents_nub:
  "deduplicateComponents cs = map dedupChildren (nubBy componentKey cs)"
  by (simp add: deduplicateComponents_def dedupComponentsLoop_nub nubLoop_nubBy)

lemma deduplicateServices_nub: "deduplicateServices ss = nubBy sv_name ss"
  by (simp add: deduplicateServices_def nubLoop_nubBy)

lemma length_deduplicateComponents: "length (deduplicateComponents cs) \<le> length cs"
proof -
  have "length (nubBy f xs) \<le> length xs" for f :: "Component \<Rightarrow> string" and xs
    by (induction f xs rule: nubBy.induct) (auto intro: order_trans)
  then show ?thesis by (simp add: deduplicateComponents_nub)
qed

lemma deduplicateComponents_distinct: "distinct (map componentKey (deduplicateComponents cs))"
  by (simp add: deduplicateComponents_nub comp_def distinct_keys_nubBy)

lemma deduplicateComponents_idem_aux:
  "size_list size cs < n \<Longrightarrow> deduplicateComponents (deduplicateComponents cs) = deduplicateComponents cs"
proof (induction n arbitrary: cs)
  case 0
  then show ?case by simp
next
  case (Suc n)
  have child: "deduplicateComponents (deduplicateComponents (cChildren c)) = deduplicateComponents (cChildren c)"
    if "c \<in> set (nubBy componentKey cs)" for c
  proof -
    have "c \<in> set cs" by (rule subsetD [OF set_nubBy_subset that])
    then have "size c \<le> size_list size cs" by (rule size_list_estimation') simp
    moreover have "size_list size (cChildren c) < size c" by (cases c) simp
    ultimately show ?thesis using Suc by simp
  qed
  have "deduplicateComponents (deduplicateComponents cs) =
        map dedupChildren (deduplicateComponents cs)"
    by (simp add: deduplicateComponents_nub [of "deduplicateComponents cs"]
        nubBy_distinct deduplicateComponents_distinct)
  also have "\<dots> = map (dedupChildren \<circ> dedupChildren) (nubBy componentKey cs)"
    by (simp add: deduplicateComponents_nub)
  also have "\<dots> = map dedupChildren (nubBy componentKey cs)"
    using child by (auto simp: dedupChildren_def)
  finally show ?case by (simp add: deduplicateComponents_nub)
qed

lemma deduplicateComponents_idem [simp]:
  "deduplicateComponents (deduplicateComponents cs) = deduplicateComponents cs"
  using deduplicateComponents_idem_aux by blast

text \<open>
  Deduplication keeps exactly the first component of every (type, name, version, source, locator)
  key, in the order of the input, with its children deduplicated in the same way.
\<close>

theorem deduplicate_keeps_first:
  "map componentKey (deduplicateComponents cs) = map componentKey (nubBy componentKey cs) \<and>
   distinct (map componentKey (deduplicateComponents cs)) \<and>
   componentKey ` set (deduplicateComponents cs) = componentKey ` set cs \<and>
   find (\<lambda>c. componentKey c = k) (deduplicateComponents cs) =
     map_option dedupChildren (find (\<lambda>c. componentKey c = k) cs)"
proof -
  have "find (\<lambda>c. componentKey c = k) (map dedupChildren xs) =
        map_option dedupChildren (find (\<lambda>c. componentKey c = k) xs)" for xs
    by (induction xs) simp_all
  then show ?thesis
    by (simp add: deduplicateComponents_distinct)
      (simp add: deduplicateComponents_nub comp_def find_nubBy image_image set_keys_nubBy)
qed

text \<open>
  Deduplicating a document's inputs twice changes nothing the first pass did not change, and the
  pass touches only components and services.
\<close>

theorem Deduplicate_idempotent:
  "Deduplicate (Deduplicate b) = Deduplicate b \<and>
   Deduplicate b = b\<lparr>bi_components := bi_components (Deduplicate b), bi_services := bi_services (Deduplicate b)\<rparr>"
  by (simp add: Deduplicate_def deduplicateServices_nub nubBy_distinct distinct_keys_nubBy)

end
