(* ===== verification/Inference_Config.thy ===== *)
theory Inference_Config
  imports Scraper_Types
begin

text \<open>
  \<^verbatim>\<open>internal/scraper/inference_config.go\<close>: the allowlists that drive extraction. The Go regexp
  compiler is a parameter \<open>compile\<close>, which yields an error text or the compiled pattern's
  \<^verbatim>\<open>MatchString\<close>; the YAML decoder is a parameter \<open>unmarshal\<close>. A \<^verbatim>\<open>*InferenceConfig\<close> is an option.
\<close>

type_synonym matcher = "string \<Rightarrow> bool"
type_synonym compiler = "string \<Rightarrow> string + matcher"

record RuntimeImagePattern =
  rip_runtime :: string
  rip_pattern :: string
  rip_compiled :: "matcher option"

record InferenceConfig =
  ic_runtimeImagePatterns :: "RuntimeImagePattern list"
  ic_modelEnvVarNames :: "string list"
  ic_modelArgFlags :: "string list"
  ic_modelVolumePathPrefixes :: "string list"

datatype inference_config_error =
    YamlUnmarshal string
  | PatternDoesNotCompile string string string

definition Match :: "RuntimeImagePattern option \<Rightarrow> string \<Rightarrow> bool" where
  "Match p img = (case p of None \<Rightarrow> False | Some q \<Rightarrow>
     (case rip_compiled q of None \<Rightarrow> False | Some m \<Rightarrow> m img))"

fun compilePatterns :: "compiler \<Rightarrow> RuntimeImagePattern list \<Rightarrow> inference_config_error + RuntimeImagePattern list" where
  "compilePatterns compile [] = Inr []"
| "compilePatterns compile (p # ps) = (case compile (rip_pattern p) of
     Inl e \<Rightarrow> Inl (PatternDoesNotCompile (rip_runtime p) (rip_pattern p) e)
   | Inr m \<Rightarrow> (case compilePatterns compile ps of
        Inl e \<Rightarrow> Inl e
      | Inr qs \<Rightarrow> Inr (p\<lparr>rip_compiled := Some m\<rparr> # qs)))"

definition LoadInferenceConfig ::
  "(string \<Rightarrow> string + InferenceConfig) \<Rightarrow> compiler \<Rightarrow> string \<Rightarrow> inference_config_error + InferenceConfig" where
  "LoadInferenceConfig unmarshal compile data = (case unmarshal data of
     Inl e \<Rightarrow> Inl (YamlUnmarshal e)
   | Inr c \<Rightarrow> (case compilePatterns compile (ic_runtimeImagePatterns c) of
        Inl e \<Rightarrow> Inl e
      | Inr ps \<Rightarrow> Inr (c\<lparr>ic_runtimeImagePatterns := ps\<rparr>)))"

definition NewRuntimeImagePattern :: "compiler \<Rightarrow> string \<Rightarrow> string \<Rightarrow> string + RuntimeImagePattern" where
  "NewRuntimeImagePattern compile runtime pattern = (case compile pattern of
     Inl e \<Rightarrow> Inl e
   | Inr m \<Rightarrow> Inr \<lparr>rip_runtime = runtime, rip_pattern = pattern, rip_compiled = Some m\<rparr>)"

definition DetectRuntime :: "InferenceConfig option \<Rightarrow> string \<Rightarrow> string \<times> RuntimeImagePattern option" where
  "DetectRuntime c img = (case c of None \<Rightarrow> ('''', None) | Some cfg \<Rightarrow>
     (case find (\<lambda>p. Match (Some p) img) (ic_runtimeImagePatterns cfg) of
        None \<Rightarrow> ('''', None)
      | Some p \<Rightarrow> (rip_runtime p, Some p)))"

definition IsModelEnvVarName :: "InferenceConfig option \<Rightarrow> string \<Rightarrow> bool" where
  "IsModelEnvVarName c name = (case c of None \<Rightarrow> False
     | Some cfg \<Rightarrow> list_ex (\<lambda>n. n = name) (ic_modelEnvVarNames cfg))"

definition IsModelArgFlag :: "InferenceConfig option \<Rightarrow> string \<Rightarrow> bool" where
  "IsModelArgFlag c flag = (case c of None \<Rightarrow> False
     | Some cfg \<Rightarrow> list_ex (\<lambda>f. f = flag) (ic_modelArgFlags cfg))"

definition IsModelVolumePath :: "InferenceConfig option \<Rightarrow> string \<Rightarrow> bool" where
  "IsModelVolumePath c path = (case c of None \<Rightarrow> False
     | Some cfg \<Rightarrow> path \<noteq> '''' \<and> list_ex (\<lambda>prefix. prefix \<noteq> '''' \<and>
          (path = prefix \<or> (length path > length prefix \<and> take (length prefix) path = prefix
             \<and> path ! length prefix = CHR ''/''))) (ic_modelVolumePathPrefixes cfg))"

subsection \<open>Lemmas\<close>

lemma compilePatterns_ok:
  "compilePatterns compile ps = Inr qs \<Longrightarrow>
   length qs = length ps \<and>
   (\<forall>i < length ps. rip_runtime (qs ! i) = rip_runtime (ps ! i) \<and> rip_pattern (qs ! i) = rip_pattern (ps ! i) \<and>
      (\<exists>m. compile (rip_pattern (ps ! i)) = Inr m \<and> rip_compiled (qs ! i) = Some m))"
proof (induction ps arbitrary: qs)
  case (Cons p ps)
  from Cons.prems obtain m rs where m: "compile (rip_pattern p) = Inr m"
    and rs: "compilePatterns compile ps = Inr rs" and qs: "qs = p\<lparr>rip_compiled := Some m\<rparr> # rs"
    by (auto split: sum.splits)
  show ?case using Cons.IH [OF rs] m qs by (auto simp: nth_Cons split: nat.splits)
qed simp

lemma compilePatterns_error_iff:
  "(\<exists>e. compilePatterns compile ps = Inl e) \<longleftrightarrow> (\<exists>p \<in> set ps. \<exists>e. compile (rip_pattern p) = Inl e)"
proof (induction ps)
  case (Cons p ps)
  show ?case
    using Cons.IH by (cases "compile (rip_pattern p)"; cases "compilePatterns compile ps") auto
qed simp

text \<open>A path matches exactly when it is a configured prefix or lies below one.\<close>

lemma IsModelVolumePath_iff:
  "IsModelVolumePath (Some cfg) path \<longleftrightarrow>
   (\<exists>prefix \<in> set (ic_modelVolumePathPrefixes cfg). prefix \<noteq> '''' \<and>
      (path = prefix \<or> (\<exists>rest. path = prefix @ ''/'' @ rest)))"
proof -
  have below: "length path > length prefix \<and> take (length prefix) path = prefix \<and> path ! length prefix = CHR ''/''
     \<longleftrightarrow> (\<exists>rest. path = prefix @ ''/'' @ rest)" for prefix :: string
  proof
    assume *: "length path > length prefix \<and> take (length prefix) path = prefix \<and> path ! length prefix = CHR ''/''"
    then have "path = prefix @ path ! length prefix # drop (Suc (length prefix)) path"
      by (metis append_take_drop_id Cons_nth_drop_Suc)
    with * show "\<exists>rest. path = prefix @ ''/'' @ rest" by auto
  qed (auto simp: nth_append)
  show ?thesis
    unfolding IsModelVolumePath_def option.case list_ex_iff below by auto
qed

lemma DetectRuntime_first:
  assumes "DetectRuntime (Some cfg) img = (runtime, Some p)"
  shows "\<exists>pre post. ic_runtimeImagePatterns cfg = pre @ p # post \<and> Match (Some p) img \<and>
    runtime = rip_runtime p \<and> (\<forall>q \<in> set pre. \<not> Match (Some q) img)"
proof -
  from assms have "find (\<lambda>p. Match (Some p) img) (ic_runtimeImagePatterns cfg) = Some p"
    and r: "runtime = rip_runtime p"
    by (auto simp: DetectRuntime_def split: option.splits)
  then obtain i where i: "i < length (ic_runtimeImagePatterns cfg)" "Match (Some p) img"
      "p = ic_runtimeImagePatterns cfg ! i" "\<forall>j<i. \<not> Match (Some (ic_runtimeImagePatterns cfg ! j)) img"
    by (auto simp: find_Some_iff)
  have "ic_runtimeImagePatterns cfg = take i (ic_runtimeImagePatterns cfg) @ p # drop (Suc i) (ic_runtimeImagePatterns cfg)"
    using i id_take_nth_drop by blast
  moreover have "\<forall>q \<in> set (take i (ic_runtimeImagePatterns cfg)). \<not> Match (Some q) img"
    using i by (auto simp: in_set_conv_nth)
  ultimately show ?thesis using i r by blast
qed

end
