(* ===== verification/Inference_Extract.thy ===== *)
theory Inference_Extract
  imports Go_Regexp Inference_Config
begin

text \<open>
  \<^verbatim>\<open>internal/scraper/inference_extract.go\<close>: image references, digests and the per-container
  extractors of the inference scraper.
\<close>

subsection \<open>Tags, digests and image references\<close>

definition wordRs :: "(char \<times> char) list" where
  "wordRs = [digitR, upperR, one CHR ''_'', lowerR]"

text \<open>\<^verbatim>\<open>^v?\d+\.\d+(\.\d+)?(-[\w.]+)?$\<close>\<close>

definition semverLikeTag :: re where
  "semverLikeTag = (let d = plus (RCls [digitR] False) in
     seqs [RBegin, opt (chr CHR ''v''), d, chr CHR ''.'', d, opt (RSeq (chr CHR ''.'') d),
       opt (RSeq (chr CHR ''-'') (plus (RCls (wordRs @ [one CHR ''.'']) False))), REnd])"

definition looksSemverTag :: "string \<Rightarrow> bool" where
  "looksSemverTag tag = (if tag = '''' then False else matchString semverLikeTag tag)"

definition hexR :: "(char \<times> char) list" where
  "hexR = [digitR, (CHR ''a'', CHR ''f'')]"

text \<open>\<^verbatim>\<open>^sha256:[0-9a-f]{64}$\<close>\<close>

definition validSHA256Digest :: re where
  "validSHA256Digest = RSeq RBegin (RSeq (lit ''sha256:'') (RSeq (rpt 64 (RCls hexR False)) REnd))"

definition cleanSHA256Digest :: "string \<Rightarrow> string" where
  "cleanSHA256Digest s = (if matchString validSHA256Digest s then s else '''')"

definition modelAnnotationPrefix :: string where
  "modelAnnotationPrefix = ''model.k8saibom.dev/''"

definition parseImageRef :: "string \<Rightarrow> string \<times> string \<times> string" where
  "parseImageRef ref =
    (let (ref1, digest) = (case cutLast CHR ''@'' ref of
            None \<Rightarrow> (ref, '''') | Some (a, b) \<Rightarrow> (a, cleanSHA256Digest b));
         (prefix, lastComponent) = (case cutLast CHR ''/'' ref1 of
            None \<Rightarrow> ('''', ref1) | Some (a, b) \<Rightarrow> (a @ ''/'', b));
         (base, tag) = (case cutLast CHR '':'' lastComponent of
            None \<Rightarrow> (lastComponent, '''') | Some (a, b) \<Rightarrow> (a, b))
     in (prefix @ base, tag, digest))"

definition parseImageDigest :: "string \<Rightarrow> string" where
  "parseImageDigest imageID = (case cutSub ''@sha256:'' imageID of
     Some (a, b) \<Rightarrow> cleanSHA256Digest (''sha256:'' @ b)
   | None \<Rightarrow> if hasPrefix imageID ''sha256:'' then cleanSHA256Digest imageID else '''')"

definition normalizeImageName :: "string \<Rightarrow> string" where
  "normalizeImageName name =
    (let n = (if hasPrefix name ''index.docker.io/'' then trimPrefix name ''index.docker.io/''
              else if hasPrefix name ''docker.io/'' then trimPrefix name ''docker.io/'' else name)
     in trimPrefix n ''library/'')"

definition isDigest :: "string \<Rightarrow> bool" where
  "isDigest s \<longleftrightarrow> (\<exists>h. s = ''sha256:'' @ h \<and> length h = 64 \<and> (\<forall>c \<in> set h. inCls hexR False c))"

lemma validSHA256Digest_iff: "matchString validSHA256Digest s \<longleftrightarrow> isDigest s"
  unfolding validSHA256Digest_def matchString_anchored isDigest_def
  by (auto simp: Matches_lit Matches_rpt_cls simp del: lit.simps rpt.simps)

lemma cleanSHA256Digest_cases:
  "cleanSHA256Digest s = (if isDigest s then s else '''')"
  by (simp add: cleanSHA256Digest_def validSHA256Digest_iff)

lemma isDigest_nonempty [simp]: "\<not> isDigest ''''"
  by (simp add: isDigest_def)

lemma parseImageDigest_valid: "parseImageDigest i \<noteq> '''' \<Longrightarrow> isDigest (parseImageDigest i)"
  by (auto simp: parseImageDigest_def cleanSHA256Digest_cases split: option.splits if_splits)

lemma parseImageRef_digest_valid:
  "parseImageRef ref = (n, t, d) \<Longrightarrow> d \<noteq> '''' \<Longrightarrow> isDigest d"
  by (auto simp: parseImageRef_def cleanSHA256Digest_cases Let_def split: option.splits if_splits prod.splits)

subsection \<open>Digest resolution\<close>

text \<open>
  \<open>countDigests\<close> is the loop that fills the \<^verbatim>\<open>counts\<close> map; its entries are listed in order of first
  insertion. \<open>bestDigest cnt es\<close> is the selection loop, for a range that visits the entries in the
  order \<open>es\<close>; \<open>cnt\<close> is the map itself.
\<close>

definition candidateDigest :: "string \<Rightarrow> string \<Rightarrow> container_status \<Rightarrow> string" where
  "candidateDigest specName containerName cs =
    (if cs_name cs \<noteq> containerName then ''''
     else if cs_image cs \<noteq> '''' \<and>
        normalizeImageName (fst (parseImageRef (cs_image cs))) \<noteq> normalizeImageName specName then ''''
     else parseImageDigest (cs_imageID cs))"

fun bump :: "string \<Rightarrow> (string \<times> nat) list \<Rightarrow> (string \<times> nat) list" where
  "bump d [] = [(d, 1)]"
| "bump d ((k, n) # m) = (if k = d then (k, Suc n) # m else (k, n) # bump d m)"

definition podStatuses :: "bool \<Rightarrow> pod \<Rightarrow> container_status list" where
  "podStatuses init pod = (if init then pod_initContainerStatuses pod else pod_containerStatuses pod)"

definition countDigests :: "string \<Rightarrow> string \<Rightarrow> pod list \<Rightarrow> bool \<Rightarrow> (string \<times> nat) list" where
  "countDigests specName containerName pods init =
    fold (\<lambda>pod counts. fold (\<lambda>cs counts.
        (let d = candidateDigest specName containerName cs in if d \<noteq> '''' then bump d counts else counts))
      (podStatuses init pod) counts) pods []"

definition countOf :: "(string \<times> nat) list \<Rightarrow> string \<Rightarrow> nat" where
  "countOf counts d = (case map_of counts d of None \<Rightarrow> 0 | Some n \<Rightarrow> n)"

definition bestStep :: "(string \<Rightarrow> nat) \<Rightarrow> string \<times> nat \<Rightarrow> string \<Rightarrow> string" where
  "bestStep cnt e best = (case e of (d, n) \<Rightarrow>
     if best = '''' \<or> n > cnt best \<or> (n = cnt best \<and> d < best) then d else best)"

definition bestDigest :: "(string \<Rightarrow> nat) \<Rightarrow> (string \<times> nat) list \<Rightarrow> string" where
  "bestDigest cnt es = fold (bestStep cnt) es ''''"

definition resolveContainerDigest :: "string \<Rightarrow> string \<Rightarrow> pod list \<Rightarrow> bool \<Rightarrow> string \<times> EvidenceSource" where
  "resolveContainerDigest specImage containerName pods init =
    (case parseImageRef specImage of (specName, _, d) \<Rightarrow>
       if d \<noteq> '''' then (d, SourceImageReference)
       else let counts = countDigests specName containerName pods init;
                best = bestDigest (countOf counts) counts
            in if best = '''' then ('''', SourceNone) else (best, SourcePodStatus))"

subsection \<open>Truncation\<close>

text \<open>
  \<^verbatim>\<open>[]rune(s)\<close> and back: \<open>runes s\<close> lists the UTF-8 encodings of the runes of \<open>s\<close>. A byte that starts
  no valid encoding is one rune, U+FFFD, whose encoding is EF BF BD.
\<close>

definition byteIn :: "char \<Rightarrow> nat \<Rightarrow> nat \<Rightarrow> bool" where
  "byteIn c lo hi \<longleftrightarrow> lo \<le> (of_char c :: nat) \<and> (of_char c :: nat) \<le> hi"

fun runeWidth :: "string \<Rightarrow> nat" where
  "runeWidth [] = 0"
| "runeWidth (b # s) =
    (if byteIn b 0 127 then 1
     else if byteIn b 194 223 then (case s of c # _ \<Rightarrow> if byteIn c 128 191 then 2 else 0 | _ \<Rightarrow> 0)
     else if byteIn b 224 239 then
       (case s of c # d # _ \<Rightarrow>
          if byteIn c (if byteIn b 224 224 then 160 else 128) (if byteIn b 237 237 then 159 else 191)
             \<and> byteIn d 128 191 then 3 else 0 | _ \<Rightarrow> 0)
     else if byteIn b 240 244 then
       (case s of c # d # e # _ \<Rightarrow>
          if byteIn c (if byteIn b 240 240 then 144 else 128) (if byteIn b 244 244 then 143 else 191)
             \<and> byteIn d 128 191 \<and> byteIn e 128 191 then 4 else 0 | _ \<Rightarrow> 0)
     else 0)"

definition runeError :: string where
  "runeError = [char_of (239::nat), char_of (191::nat), char_of (189::nat)]"

function runes :: "string \<Rightarrow> string list" where
  "runes [] = []"
| "runes (b # s) = (case runeWidth (b # s) of
     0 \<Rightarrow> runeError # runes s
   | Suc k \<Rightarrow> take (Suc k) (b # s) # runes (drop k s))"
  by pat_completeness auto
termination by (relation "measure length") auto

definition truncationSuffix :: string where "truncationSuffix = ''...[truncated]''"

definition TruncateString :: "string \<Rightarrow> nat \<Rightarrow> string" where
  "TruncateString s maxLen =
    (let rs = runes s in
     if length rs \<le> maxLen then s
     else if maxLen \<le> length truncationSuffix then concat (take maxLen rs)
     else concat (take (maxLen - length truncationSuffix) rs) @ truncationSuffix)"

definition MaxComponentNameLength :: nat where "MaxComponentNameLength = 1024"
definition MaxComponentsPerDocument :: nat where "MaxComponentsPerDocument = 256"

definition boolStr :: "bool \<Rightarrow> string" where
  "boolStr b = (if b then ''true'' else ''false'')"

subsection \<open>Per-container extraction\<close>

definition containerPath :: "string \<Rightarrow> bool \<Rightarrow> nat \<Rightarrow> string" where
  "containerPath specLocator init idx =
     specLocator @ (if init then ''.initContainers['' else ''.containers['') @ showNat idx @ '']''"

definition containerComponent :: "container \<Rightarrow> bool \<Rightarrow> string \<Rightarrow> string \<Rightarrow> string \<Rightarrow> EvidenceSource \<Rightarrow> string \<Rightarrow> Component" where
  "containerComponent c init name tag digest digestSource digestLocator =
     Component ComponentContainer (TruncateString name MaxComponentNameLength)
       (TruncateString tag MaxComponentNameLength) ''''
       (if digest \<noteq> '''' then [(''sha256'', trimPrefix digest ''sha256:'')] else [])
       \<lparr>ev_source = (if digest \<noteq> '''' \<and> digestSource = SourcePodStatus then SourcePodStatus
                      else SourceImageReference), ev_locator = digestLocator\<rparr>
       (if digest \<noteq> '''' then ConfidenceDeclared else ConfidenceUnresolved)
       (gm_from [(''image.reference'', ct_image c), (''container.name'', ct_name c),
                 (''container.init'', boolStr init)]) []"

definition runtimeComponent :: "container \<Rightarrow> string \<Rightarrow> string \<Rightarrow> string \<Rightarrow> RuntimeImagePattern option \<Rightarrow> Component" where
  "runtimeComponent c tag base runtime matched =
    (let pattern = (case matched of Some p \<Rightarrow> rip_pattern p | None \<Rightarrow> '''')
     in mkComponent ComponentApplication runtime (if looksSemverTag tag then tag else '''') ConfidenceInferred
          \<lparr>ev_source = SourceImagePattern, ev_locator = base @ ''.image (pattern: '' @ pattern @ '')''\<rparr>
          [(''runtime.name'', runtime), (''runtime.pattern'', pattern),
           (''container.name'', ct_name c), (''image.tag'', tag)])"

definition extractContainerComponentAt ::
  "string \<Rightarrow> container \<Rightarrow> bool \<Rightarrow> nat \<Rightarrow> pod list \<Rightarrow> InferenceConfig option \<Rightarrow> Component list" where
  "extractContainerComponentAt specLocator c init idx pods cfg =
    (case parseImageRef (ct_image c) of (name, tag, digestFromSpec) \<Rightarrow>
     let base = containerPath specLocator init idx;
         (digest, digestSource) = (if digestFromSpec = ''''
            then resolveContainerDigest (ct_image c) (ct_name c) pods init
            else (digestFromSpec, SourceImageReference));
         digestLocator = (if digestFromSpec = '''' \<and> digestSource = SourcePodStatus
            then (if init then ''status.initContainerStatuses[name='' else ''status.containerStatuses[name='')
                   @ ct_name c @ ''].imageID''
            else base @ ''.image'');
         comp = containerComponent c init name tag digest digestSource digestLocator;
         (runtime, matched) = DetectRuntime cfg (ct_image c)
     in if runtime = '''' then [comp] else [comp, runtimeComponent c tag base runtime matched])"

text \<open>The \<^verbatim>\<open>container.name\<close> property, left out when there is no container.\<close>

definition withContainer :: "string \<Rightarrow> gomap \<Rightarrow> gomap" where
  "withContainer containerName props =
     (if containerName \<noteq> '''' then props @ [(''container.name'', containerName)] else props)"

definition envVarModel :: "string \<Rightarrow> string \<Rightarrow> InferenceConfig option \<Rightarrow> nat \<times> env_var \<Rightarrow> Component list" where
  "envVarModel containerName locatorBase cfg ie = (case ie of (envIdx, e) \<Rightarrow>
     if \<not> IsModelEnvVarName cfg (env_name e) then []
     else if env_value e = '''' then []
     else [mkComponent ComponentMLModel (TruncateString (env_value e) MaxComponentNameLength) ''''
             ConfidenceInferred
             \<lparr>ev_source = SourceEnvVar, ev_locator = locatorBase @ ''.env['' @ showNat envIdx @ '']('' @ env_name e @ '')''\<rparr>
             (withContainer containerName
               [(''identity.confidence'', ''claimed''), (''identity.envVarName'', env_name e)])])"

definition envVarModels :: "env_var list \<Rightarrow> string \<Rightarrow> string \<Rightarrow> InferenceConfig option \<Rightarrow> Component list" where
  "envVarModels env containerName locatorBase cfg =
     concat (map (envVarModel containerName locatorBase cfg) (enumerate 0 env))"

definition extractEnvVarModelsAt :: "string \<Rightarrow> container \<Rightarrow> bool \<Rightarrow> nat \<Rightarrow> InferenceConfig option \<Rightarrow> Component list" where
  "extractEnvVarModelsAt specLocator c init idx cfg =
     envVarModels (ct_env c) (ct_name c) (containerPath specLocator init idx) cfg"

definition argValue :: "string \<Rightarrow> string" where
  "argValue v = replaceByte carriageReturn CHR '' '' (replaceByte newline CHR '' '' v)"

definition argComponent :: "string \<Rightarrow> string \<Rightarrow> string \<Rightarrow> string \<Rightarrow> Component" where
  "argComponent containerName flag value locator =
     mkComponent ComponentMLModel (TruncateString value MaxComponentNameLength) '''' ConfidenceDeclared
       \<lparr>ev_source = SourceContainerArg, ev_locator = locator\<rparr>
       (withContainer containerName [(''identity.confidence'', ''claimed''), (''identity.argFlag'', flag)])"

fun argModelsFrom :: "nat \<Rightarrow> string list \<Rightarrow> string \<Rightarrow> string \<Rightarrow> InferenceConfig option \<Rightarrow> Component list" where
  "argModelsFrom i [] containerName locatorBase cfg = []"
| "argModelsFrom i (arg # rest) containerName locatorBase cfg =
    (case cutFirst CHR ''='' arg of
       Some (flag, v) \<Rightarrow>
         (let value = argValue v in
          (if IsModelArgFlag cfg flag \<and> value \<noteq> '''' \<and> \<not> hasPrefix value ''--''
           then [argComponent containerName flag value (locatorBase @ ''.args['' @ showNat i @ '']('' @ flag @ ''=)'')]
           else [])) @ argModelsFrom (Suc i) rest containerName locatorBase cfg
     | None \<Rightarrow>
         (if IsModelArgFlag cfg arg \<and> rest \<noteq> [] then
            (let value = argValue (hd rest) in
             if value = '''' \<or> hasPrefix value ''--'' then argModelsFrom (Suc i) rest containerName locatorBase cfg
             else argComponent containerName arg value
                    (locatorBase @ ''.args['' @ showNat i @ '' '' @ showNat (Suc i) @ '']('' @ arg @ '')'')
                  # argModelsFrom (Suc (Suc i)) (tl rest) containerName locatorBase cfg)
          else argModelsFrom (Suc i) rest containerName locatorBase cfg))"

definition argModels :: "string list \<Rightarrow> string \<Rightarrow> string \<Rightarrow> InferenceConfig option \<Rightarrow> Component list" where
  "argModels args containerName locatorBase cfg = argModelsFrom 0 args containerName locatorBase cfg"

definition extractArgModelsAt :: "string \<Rightarrow> container \<Rightarrow> bool \<Rightarrow> nat \<Rightarrow> InferenceConfig option \<Rightarrow> Component list" where
  "extractArgModelsAt specLocator c init idx cfg =
     argModels (ct_args c) (ct_name c) (containerPath specLocator init idx) cfg"

fun lookupVolumeSource :: "string \<Rightarrow> volume list \<Rightarrow> string \<times> string" where
  "lookupVolumeSource volumeName [] = (volumeName, ''unknown'')"
| "lookupVolumeSource volumeName (v # vs) =
    (if vol_name v \<noteq> volumeName then lookupVolumeSource volumeName vs
     else case vol_persistentVolumeClaim v of Some x \<Rightarrow> (x, ''persistentVolumeClaim'') | None \<Rightarrow>
       (case vol_configMap v of Some x \<Rightarrow> (x, ''configMap'') | None \<Rightarrow>
       (case vol_secret v of Some x \<Rightarrow> (x, ''secret'') | None \<Rightarrow>
       (case vol_hostPath v of Some x \<Rightarrow> (x, ''hostPath'') | None \<Rightarrow>
       (if vol_emptyDir v then (volumeName, ''emptyDir'')
        else case vol_nfs v of Some (srv, path) \<Rightarrow> (srv @ '':'' @ path, ''nfs'') | None \<Rightarrow>
       (case vol_csi v of Some x \<Rightarrow> (x, ''csi'') | None \<Rightarrow>
       (case vol_image v of
          Some ref \<Rightarrow> (if ref = '''' then (volumeName, ''image'')
                        else (TruncateString ref MaxComponentNameLength, ''image''))
        | None \<Rightarrow> (volumeName, ''other''))))))))"

definition volumeMountModel ::
  "string \<Rightarrow> volume list \<Rightarrow> string \<Rightarrow> InferenceConfig option \<Rightarrow> nat \<times> volume_mount \<Rightarrow> Component list" where
  "volumeMountModel base volumes containerName cfg im = (case im of (mIdx, m) \<Rightarrow>
     if \<not> IsModelVolumePath cfg (vm_mountPath m) then []
     else case lookupVolumeSource (vm_name m) volumes of (sourceName, sourceKind) \<Rightarrow>
       [mkComponent ComponentData sourceName '''' ConfidenceInferred
          \<lparr>ev_source = SourceVolumeSource,
            ev_locator = base @ ''.volumeMounts['' @ showNat mIdx @ '']('' @ vm_name m @ '' -> '' @ vm_mountPath m @ '')''\<rparr>
          [(''volume.name'', vm_name m), (''volume.mountPath'', vm_mountPath m),
           (''volume.source'', sourceKind), (''container.name'', containerName)]])"

definition extractVolumeMountModelsAt ::
  "string \<Rightarrow> container \<Rightarrow> volume list \<Rightarrow> bool \<Rightarrow> nat \<Rightarrow> InferenceConfig option \<Rightarrow> Component list" where
  "extractVolumeMountModelsAt specLocator c volumes init idx cfg =
     concat (map (volumeMountModel (containerPath specLocator init idx) volumes (ct_name c) cfg)
       (enumerate 0 (ct_volumeMounts c)))"

subsection \<open>Annotation claims\<close>

definition AnnotationSignatureRef :: string where
  "AnnotationSignatureRef = modelAnnotationPrefix @ ''oms-signature''"

definition AnnotationModelDigest :: string where
  "AnnotationModelDigest = modelAnnotationPrefix @ ''digest''"

definition reservedModelAnnotation :: "string \<Rightarrow> bool" where
  "reservedModelAnnotation key \<longleftrightarrow> key = AnnotationSignatureRef \<or> key = AnnotationModelDigest"

definition annotationModel :: "EvidenceSource \<Rightarrow> string \<Rightarrow> string \<times> string \<Rightarrow> Component list" where
  "annotationModel source locatorBase kv = (case kv of (k, v) \<Rightarrow>
     if \<not> hasPrefix k modelAnnotationPrefix then []
     else if reservedModelAnnotation k then []
     else if v = '''' then []
     else [mkComponent ComponentMLModel (TruncateString v MaxComponentNameLength) '''' ConfidenceDeclared
             \<lparr>ev_source = source, ev_locator = locatorBase @ ''['' @ k @ '']''\<rparr>
             [(''identity.confidence'', ''claimed''), (''identity.annotation'', k)]])"

text \<open>The argument lists the annotation map in the order the range visits it.\<close>

definition extractAnnotationModels :: "gomap \<Rightarrow> EvidenceSource \<Rightarrow> string \<Rightarrow> Component list" where
  "extractAnnotationModels annotations source locatorBase =
     concat (map (annotationModel source locatorBase) annotations)"

subsection \<open>What digest resolution computes\<close>

text \<open>The digests the pods report for the container, one per matching status, in order.\<close>

definition reportedDigests :: "string \<Rightarrow> string \<Rightarrow> pod list \<Rightarrow> bool \<Rightarrow> string list" where
  "reportedDigests specName containerName pods init =
     filter (\<lambda>d. d \<noteq> '''') (map (candidateDigest specName containerName)
       (concat (map (podStatuses init) pods)))"

lemma map_of_bump: "map_of (bump d m) k = (if k = d then Some (Suc (countOf m d)) else map_of m k)"
  by (induction d m rule: bump.induct) (auto simp: countOf_def)

lemma countOf_bump: "countOf (bump d m) k = countOf m k + (if k = d then 1 else 0)"
  by (simp add: countOf_def [of "bump d m"] map_of_bump) (simp add: countOf_def)

lemma keys_bump: "fst ` set (bump d m) = insert d (fst ` set m)"
  by (induction d m rule: bump.induct) auto

lemma distinct_bump: "distinct (map fst m) \<Longrightarrow> distinct (map fst (bump d m))"
proof (induction d m rule: bump.induct)
  case (2 d k n m)
  have "k \<notin> fst ` set m" using 2 by simp
  then have "k \<noteq> d \<Longrightarrow> k \<notin> fst ` set (bump d m)" by (simp add: keys_bump)
  with 2 show ?case by auto
qed simp

lemma fold_bump:
  assumes "distinct (map fst m)"
  shows "countOf (fold bump ds m) k = countOf m k + count_list ds k \<and>
    fst ` set (fold bump ds m) = fst ` set m \<union> set ds \<and> distinct (map fst (fold bump ds m))"
  using assms
proof (induction ds arbitrary: m)
  case (Cons d ds)
  then show ?case by (simp add: distinct_bump countOf_bump keys_bump)
qed simp

lemma countDigests_fold:
  "countDigests specName containerName pods init = fold bump (reportedDigests specName containerName pods init) []"
proof -
  have inner: "fold (\<lambda>cs counts. let d = f cs in if d \<noteq> '''' then bump d counts else counts) xs m =
      fold bump (filter (\<lambda>d. d \<noteq> '''') (map f xs)) m" for f :: "container_status \<Rightarrow> string" and xs m
    by (induction xs arbitrary: m) (auto simp: Let_def)
  have "fold (\<lambda>pod. fold bump (filter (\<lambda>d. d \<noteq> '''') (map f (g pod)))) ps m =
      fold bump (filter (\<lambda>d. d \<noteq> '''') (map f (concat (map g ps)))) m"
    for f :: "container_status \<Rightarrow> string" and g :: "pod \<Rightarrow> container_status list" and ps m
    by (induction ps arbitrary: m) auto
  then show ?thesis
    unfolding countDigests_def reportedDigests_def inner by simp
qed

text \<open>A digest beats another when more pods report it, or as many and it is lower.\<close>

definition beats :: "(string \<Rightarrow> nat) \<Rightarrow> string \<Rightarrow> string \<Rightarrow> bool" where
  "beats cnt b d \<longleftrightarrow> cnt d < cnt b \<or> (cnt d = cnt b \<and> b \<le> d)"

lemma bestStep_fold:
  assumes "\<forall>(d, n) \<in> set es. d \<noteq> '''' \<and> cnt d = n"
  shows "(b = '''' \<and> es = [] \<and> fold (bestStep cnt) es b = '''') \<or>
    (fold (bestStep cnt) es b \<in> (fst ` set es \<union> {b}) - {''''} \<and>
     (\<forall>d \<in> fst ` set es \<union> ({b} - {''''}). beats cnt (fold (bestStep cnt) es b) d))"
  using assms
proof (induction es arbitrary: b)
  case Nil
  then show ?case by (auto simp: beats_def)
next
  case (Cons e es)
  obtain d n where e: "e = (d, n)" by (cases e)
  have d: "d \<noteq> ''''" "cnt d = n" using Cons.prems e by auto
  define b' where "b' = bestStep cnt e b"
  have b': "b' \<noteq> ''''" "b' \<in> {d, b}" "beats cnt b' d" "b \<noteq> '''' \<Longrightarrow> beats cnt b' b"
    using d by (auto simp: b'_def bestStep_def e beats_def not_less)
  have trans: "beats cnt x y \<Longrightarrow> beats cnt y z \<Longrightarrow> beats cnt x z" for x y z
    by (auto simp: beats_def)
  have prems: "\<forall>(d, n) \<in> set es. d \<noteq> '''' \<and> cnt d = n" using Cons.prems by simp
  have "fold (bestStep cnt) es b' \<in> (fst ` set es \<union> {b'}) - {''''} \<and>
      (\<forall>x \<in> fst ` set es \<union> ({b'} - {''''}). beats cnt (fold (bestStep cnt) es b') x)"
    using Cons.IH [OF prems, of b'] b'(1) by blast
  then have in': "fold (bestStep cnt) es b' \<in> insert b' (fst ` set es)" "fold (bestStep cnt) es b' \<noteq> ''''"
    and bt: "beats cnt (fold (bestStep cnt) es b') b'"
      "\<forall>x \<in> fst ` set es. beats cnt (fold (bestStep cnt) es b') x"
    using b'(1) by blast+
  have "beats cnt (fold (bestStep cnt) es b') x" if "x \<in> fst ` set (e # es) \<union> ({b} - {''''})" for x
    using that bt b'(3,4) trans [OF bt(1)] by (auto simp: e)
  moreover have "fold (bestStep cnt) es b' \<in> (fst ` set (e # es) \<union> {b}) - {''''}"
    using in' b'(2) by (auto simp: e)
  ultimately show ?case by (simp add: b'_def)
qed

lemma beats_antisym: "beats cnt a b \<Longrightarrow> beats cnt b a \<Longrightarrow> a = b"
  by (auto simp: beats_def)

lemma bestDigest_spec:
  assumes "\<forall>(d, n) \<in> set es. d \<noteq> '''' \<and> cnt d = n" and "es \<noteq> []"
  shows "bestDigest cnt es \<in> fst ` set es \<and> (\<forall>d \<in> fst ` set es. beats cnt (bestDigest cnt es) d)"
  using bestStep_fold [OF assms(1), of "''''"] assms(2) by (auto simp: bestDigest_def)

lemma bestDigest_order:
  assumes "\<forall>(d, n) \<in> set es. d \<noteq> '''' \<and> cnt d = n" and "set es' = set es"
  shows "bestDigest cnt es' = bestDigest cnt es"
proof (cases "es = []")
  case True
  then show ?thesis using assms(2) by simp
next
  case False
  then have "es' \<noteq> []" using assms(2) by auto
  then show ?thesis
    using bestDigest_spec [OF assms(1) False] bestDigest_spec [of es' cnt] assms beats_antisym
    by (metis (no_types, lifting))
qed

lemma reportedDigests_valid: "d \<in> set (reportedDigests n c pods init) \<Longrightarrow> isDigest d"
  by (auto simp: reportedDigests_def candidateDigest_def parseImageDigest_valid split: if_splits)

lemma countDigests_entries:
  fixes n c pods init
  defines "es \<equiv> countDigests n c pods init"
  shows "\<forall>(d, k) \<in> set es. d \<noteq> '''' \<and> countOf es d = k"
    and "countOf es d = count_list (reportedDigests n c pods init) d"
    and "fst ` set es = set (reportedDigests n c pods init)"
proof -
  have f: "countOf es d = count_list (reportedDigests n c pods init) d"
    "fst ` set es = set (reportedDigests n c pods init)" "distinct (map fst es)" for d
    using fold_bump [of "[]" "reportedDigests n c pods init"]
    by (simp_all add: es_def countDigests_fold countOf_def)
  show "\<forall>(d, k) \<in> set es. d \<noteq> '''' \<and> countOf es d = k"
  proof (intro ballI, clarify)
    fix d k assume dk: "(d, k) \<in> set es"
    then have "d \<in> set (reportedDigests n c pods init)" using f(2) by force
    moreover have "countOf es d = k" using dk f(3) by (simp add: countOf_def)
    ultimately show "d \<noteq> '''' \<and> countOf es d = k" by (auto simp: reportedDigests_def)
  qed
  show "countOf es d = count_list (reportedDigests n c pods init) d" by (rule f(1))
  show "fst ` set es = set (reportedDigests n c pods init)" by (rule f(2))
qed

subsection \<open>What truncation computes\<close>

definition isRune :: "string \<Rightarrow> bool" where
  "isRune ch \<longleftrightarrow> ch \<noteq> [] \<and> runeWidth ch = length ch"

lemma runeWidth_le: "runeWidth s \<le> length s"
  by (cases s) (auto split: list.splits)

lemma runeWidth_take: "runeWidth s = Suc k \<Longrightarrow> isRune (take (Suc k) s)"
proof (cases s)
  case (Cons b t)
  assume "runeWidth s = Suc k"
  with Cons show ?thesis
    by (auto simp: isRune_def split: if_splits list.splits)
qed simp

lemma runeWidth_append: "isRune ch \<Longrightarrow> runeWidth (ch @ t) = length ch"
proof (cases ch)
  case (Cons b s)
  assume "isRune ch"
  with Cons show ?thesis
    by (auto simp: isRune_def split: if_splits list.splits)
qed (simp add: isRune_def)

lemma runes_append: "isRune ch \<Longrightarrow> runes (ch @ t) = ch # runes t"
proof -
  assume r: "isRune ch"
  then obtain b s where ch: "ch = b # s" by (cases ch) (auto simp: isRune_def)
  have "runeWidth (b # s @ t) = Suc (length s)"
    using runeWidth_append [OF r] by (simp add: ch)
  then show ?thesis by (simp add: ch del: runeWidth.simps)
qed

lemma runeError_isRune: "isRune runeError"
  by (simp add: isRune_def runeError_def byteIn_def)

lemma runes_isRune: "ch \<in> set (runes s) \<Longrightarrow> isRune ch"
proof (induction s rule: runes.induct)
  case (2 b s)
  show ?case
  proof (cases "runeWidth (b # s)")
    case 0
    with 2 show ?thesis by (auto simp: runeError_isRune simp del: runeWidth.simps)
  next
    case (Suc k)
    then have "isRune (take (Suc k) (b # s))" by (rule runeWidth_take)
    with 2 Suc show ?thesis by (auto simp del: runeWidth.simps)
  qed
qed simp

lemma runes_concat: "\<forall>ch \<in> set chs. isRune ch \<Longrightarrow> runes (concat chs @ t) = chs @ runes t"
  by (induction chs) (simp_all add: runes_append)

lemma runes_ascii: "\<forall>c \<in> set s. byteIn c 0 127 \<Longrightarrow> length (runes s) = length s"
  by (induction s) auto

text \<open>Truncation keeps a string within the limit and keeps shorter strings as they are.\<close>

lemma length_runes_TruncateString: "length (runes (TruncateString s n)) \<le> n"
proof -
  have take: "runes (concat (take k (runes s)) @ t) = take k (runes s) @ runes t" for k t
    by (rule runes_concat) (meson in_set_takeD runes_isRune)
  have suffix: "length (runes truncationSuffix) = length truncationSuffix"
    by (rule runes_ascii) (simp add: truncationSuffix_def byteIn_def)
  show ?thesis
    using take [of n "[]"] take [of "n - length truncationSuffix" truncationSuffix] suffix
    by (auto simp: TruncateString_def Let_def)
qed

lemma TruncateString_short: "length (runes s) \<le> n \<Longrightarrow> TruncateString s n = s"
  by (simp add: TruncateString_def)

lemma TruncateString_nonempty: "s \<noteq> '''' \<Longrightarrow> 0 < n \<Longrightarrow> TruncateString s n \<noteq> ''''"
proof -
  assume s: "s \<noteq> ''''" and n: "0 < n"
  have "concat (take n (runes s)) \<noteq> []"
  proof -
    have "runes s \<noteq> []"
      using s by (cases s) (simp_all split: nat.split del: runeWidth.simps)
    then obtain r rs where r: "runes s = r # rs" by (cases "runes s") auto
    then have "isRune r" using runes_isRune [of r s] by simp
    with r n show ?thesis by (cases n) (auto simp: isRune_def)
  qed
  moreover have "truncationSuffix \<noteq> []" by (simp add: truncationSuffix_def)
  ultimately show ?thesis using s by (auto simp: TruncateString_def Let_def)
qed

subsection \<open>What the image reference parser computes\<close>

text \<open>
  The parser splits off exactly the digest, the tag of the last path component and the name: a
  reference assembled from parts without stray separators is taken apart again.
\<close>

lemma parseImageRef_parts:
  assumes "CHR ''@'' \<notin> set dir" "CHR ''@'' \<notin> set base" "CHR ''@'' \<notin> set tag" "CHR ''@'' \<notin> set d"
    and "CHR ''/'' \<notin> set base" "CHR '':'' \<notin> set base" "CHR ''/'' \<notin> set tag" "CHR '':'' \<notin> set tag"
    and "dir = '''' \<or> last dir = CHR ''/''"
  shows "parseImageRef (dir @ base @ '':'' @ tag @ ''@'' @ d) = (dir @ base, tag, cleanSHA256Digest d)"
proof -
  let ?r = "dir @ base @ '':'' @ tag"
  have at: "cutLast CHR ''@'' (dir @ base @ '':'' @ tag @ ''@'' @ d) = Some (?r, d)"
    using assms by (simp add: cutLast_Some)
  have colon: "cutLast CHR '':'' (base @ '':'' @ tag) = Some (base, tag)"
    using assms by (simp add: cutLast_Some)
  show ?thesis
  proof (cases "dir = ''''")
    case True
    then have "cutLast CHR ''/'' ?r = None" using assms by (simp add: cutLast_None)
    with at colon True show ?thesis by (simp add: parseImageRef_def)
  next
    case False
    then obtain dir' where dir: "dir = dir' @ ''/''"
      using assms(9) by (metis append_butlast_last_id)
    then have "cutLast CHR ''/'' ?r = Some (dir', base @ '':'' @ tag)"
      using assms by (simp add: cutLast_Some)
    with at colon dir show ?thesis by (simp add: parseImageRef_def)
  qed
qed

subsection \<open>Independence from the order of pods and annotations\<close>

lemma reportedDigests_perm:
  "mset pods = mset pods' \<Longrightarrow>
   mset (reportedDigests n c pods init) = mset (reportedDigests n c pods' init)"
proof -
  assume eq: "mset pods = mset pods'"
  have "mset (concat (map (podStatuses init) pods)) = mset (concat (map (podStatuses init) pods'))"
    using eq by (rule mset_concat_map_perm)
  then show ?thesis by (simp add: reportedDigests_def)
qed

lemma resolveContainerDigest_perm:
  assumes "mset pods = mset pods'"
  shows "resolveContainerDigest img c pods init = resolveContainerDigest img c pods' init"
proof -
  obtain n tag d where p: "parseImageRef img = (n, tag, d)" by (cases "parseImageRef img") auto
  let ?es = "countDigests n c pods init" and ?es' = "countDigests n c pods' init"
  have mset: "mset (reportedDigests n c pods init) = mset (reportedDigests n c pods' init)"
    using assms by (rule reportedDigests_perm)
  have cnt: "countOf ?es = countOf ?es'"
    using mset by (simp add: fun_eq_iff countDigests_entries(2) flip: count_mset)
  have entries: "set es = (\<lambda>d. (d, countOf es d)) ` (fst ` set es)"
    if "\<forall>(d, k) \<in> set es. d \<noteq> '''' \<and> countOf es d = k" for es
    using that by force
  have keys: "fst ` set ?es = fst ` set ?es'"
    using mset_eq_setD [OF mset] by (simp add: countDigests_entries(3))
  have "set ?es' = set ?es"
    using entries [OF countDigests_entries(1) [of n c pods init]]
      entries [OF countDigests_entries(1) [of n c pods' init]] keys cnt by simp
  then have "bestDigest (countOf ?es) ?es' = bestDigest (countOf ?es) ?es"
    by (rule bestDigest_order [OF countDigests_entries(1)])
  then have "bestDigest (countOf ?es) ?es = bestDigest (countOf ?es') ?es'"
    by (simp add: cnt)
  then show ?thesis by (simp add: resolveContainerDigest_def p Let_def)
qed

lemma extractContainerComponentAt_perm:
  assumes "mset pods = mset pods'"
  shows "extractContainerComponentAt loc c init idx pods cfg = extractContainerComponentAt loc c init idx pods' cfg"
  by (simp only: extractContainerComponentAt_def resolveContainerDigest_perm [OF assms])

definition annotationLocator :: "string \<Rightarrow> string \<Rightarrow> string" where
  "annotationLocator base k = base @ ''['' @ k @ '']''"

lemma annotationModel_locator:
  "c \<in> set (annotationModel src base (k, v)) \<Longrightarrow> ev_locator (cEvidence c) = annotationLocator base k"
  by (auto simp: annotationModel_def mkComponent_def annotationLocator_def split: if_splits)

lemma annotationModel_length: "length (annotationModel src base kv) \<le> 1"
  by (cases kv) (simp add: annotationModel_def)

lemma extractAnnotationModels_locators:
  "distinct (map fst as) \<Longrightarrow> distinct (map (\<lambda>c. ev_locator (cEvidence c)) (extractAnnotationModels as src base))"
proof (induction as)
  case (Cons kv as)
  obtain k v where kv: "kv = (k, v)" by (cases kv)
  have rest: "ev_locator (cEvidence c) \<noteq> annotationLocator base k"
    if c: "c \<in> set (extractAnnotationModels as src base)" for c
  proof -
    obtain k' v' where k': "(k', v') \<in> set as" "c \<in> set (annotationModel src base (k', v'))"
      using c by (auto simp: extractAnnotationModels_def)
    moreover from k'(1) have "k' \<noteq> k" using Cons.prems kv by (auto simp: rev_image_eqI)
    ultimately show ?thesis using annotationModel_locator by (auto simp: annotationLocator_def)
  qed
  have split: "extractAnnotationModels (kv # as) src base = annotationModel src base kv @ extractAnnotationModels as src base"
    by (simp add: extractAnnotationModels_def)
  have IH: "distinct (map (\<lambda>c. ev_locator (cEvidence c)) (extractAnnotationModels as src base))"
    using Cons.IH Cons.prems by (simp only: list.map distinct.simps)
  have "annotationModel src base kv = [] \<or> (\<exists>c. annotationModel src base kv = [c])"
    using annotationModel_length [of src base kv] by (cases "annotationModel src base kv") auto
  then show ?case
  proof (elim disjE exE)
    assume "annotationModel src base kv = []"
    then show ?thesis using split IH by simp
  next
    fix c assume c: "annotationModel src base kv = [c]"
    then have "ev_locator (cEvidence c) = annotationLocator base k"
      using annotationModel_locator [of c src base k v] kv by simp
    then have "ev_locator (cEvidence c) \<notin> (\<lambda>c. ev_locator (cEvidence c)) ` set (extractAnnotationModels as src base)"
      using rest by fastforce
    then show ?thesis using split c IH by simp
  qed
qed (simp add: extractAnnotationModels_def)

lemma extractAnnotationModels_perm:
  "mset as = mset as' \<Longrightarrow>
   mset (extractAnnotationModels as src base) = mset (extractAnnotationModels as' src base)"
  unfolding extractAnnotationModels_def by (rule mset_concat_map_perm)

subsection \<open>Extracted components have no children and well-formed properties\<close>

definition plainComponent :: "Component \<Rightarrow> bool" where
  "plainComponent c \<longleftrightarrow> cChildren c = [] \<and> gm_sorted (cProperties c)"

lemma plain_mkComponent [simp]: "plainComponent (mkComponent t n v cf ev p)"
  by (simp add: plainComponent_def mkComponent_def)

lemma plain_container: "c \<in> set (extractContainerComponentAt loc ct init i pods cfg) \<Longrightarrow> plainComponent c"
proof -
  have "plainComponent (containerComponent ct init n t d s l)" for n t d s l
    by (simp add: containerComponent_def plainComponent_def)
  moreover have "plainComponent (runtimeComponent ct t b r m)" for t b r m
    by (simp add: runtimeComponent_def Let_def)
  moreover have "\<exists>n t d s l b r m. extractContainerComponentAt loc ct init i pods cfg = [containerComponent ct init n t d s l]
     \<or> extractContainerComponentAt loc ct init i pods cfg = [containerComponent ct init n t d s l, runtimeComponent ct t b r m]"
    by (simp add: extractContainerComponentAt_def Let_def case_prod_beta) blast
  ultimately show "c \<in> set (extractContainerComponentAt loc ct init i pods cfg) \<Longrightarrow> plainComponent c"
    by fastforce
qed

lemma plain_env: "c \<in> set (extractEnvVarModelsAt loc ct init i cfg) \<Longrightarrow> plainComponent c"
  by (auto simp: extractEnvVarModelsAt_def envVarModels_def envVarModel_def split: prod.splits if_splits)

lemma plain_arg: "c \<in> set (extractArgModelsAt loc ct init i cfg) \<Longrightarrow> plainComponent c"
proof -
  have "c \<in> set (argModelsFrom j args n b cfg) \<Longrightarrow> plainComponent c" for j args n b
  proof (induction j args n b cfg rule: argModelsFrom.induct)
    case (2 i arg rest n b cfg)
    then show ?case
      by (cases "cutFirst CHR ''='' arg") (auto simp: argComponent_def Let_def split: if_splits)
  qed simp
  then show "c \<in> set (extractArgModelsAt loc ct init i cfg) \<Longrightarrow> plainComponent c"
    by (simp add: extractArgModelsAt_def argModels_def)
qed

lemma plain_volume: "c \<in> set (extractVolumeMountModelsAt loc ct vs init i cfg) \<Longrightarrow> plainComponent c"
proof -
  have "c \<in> set (volumeMountModel b vs n cfg im) \<Longrightarrow> plainComponent c" for b n im
    by (cases im; cases "lookupVolumeSource (vm_name (snd im)) vs")
      (auto simp: volumeMountModel_def split: if_splits)
  then show "c \<in> set (extractVolumeMountModelsAt loc ct vs init i cfg) \<Longrightarrow> plainComponent c"
    by (auto simp: extractVolumeMountModelsAt_def)
qed

lemma plain_annotation: "c \<in> set (extractAnnotationModels as src base) \<Longrightarrow> plainComponent c"
  by (auto simp: extractAnnotationModels_def annotationModel_def split: prod.splits if_splits)

lemmas plain_extractors = plain_container plain_env plain_arg plain_volume plain_annotation

subsection \<open>Properties\<close>

lemma bestDigest_reported:
  fixes n c pods init
  defines "es \<equiv> countDigests n c pods init" and "ds \<equiv> reportedDigests n c pods init"
  assumes "ds \<noteq> []"
  shows "bestDigest (countOf es) es \<in> set ds \<and> (\<forall>d \<in> set ds. beats (count_list ds) (bestDigest (countOf es) es) d)"
proof -
  have keys: "fst ` set es = set ds"
    unfolding es_def ds_def by (rule countDigests_entries(3))
  then have "es \<noteq> []" using assms(3) by auto
  moreover have "countOf es = count_list ds"
    by (rule ext) (simp add: es_def ds_def countDigests_entries(2))
  moreover have "\<forall>(d, k) \<in> set es. d \<noteq> '''' \<and> countOf es d = k"
    unfolding es_def by (rule countDigests_entries(1))
  ultimately show ?thesis
    using bestDigest_spec [of es "countOf es", unfolded keys] by simp
qed

text \<open>
  Digest resolution for an image reference without a digest: the result is the digest most
  container statuses report, the lowest one on a tie, always of the form sha256 and 64 hex digits; when no
  status reports one, nothing is returned. It does not depend on the order in which the pods are listed.
\<close>

theorem resolveContainerDigest_majority:
  assumes "parseImageRef img = (n, tag, '''')" and "mset pods = mset pods'"
  shows "let ds = reportedDigests n c pods init in
    resolveContainerDigest img c pods' init =
      (if ds = [] then ('''', SourceNone) else (fst (resolveContainerDigest img c pods init), SourcePodStatus)) \<and>
    (ds \<noteq> [] \<longrightarrow> fst (resolveContainerDigest img c pods init) \<in> set ds \<and>
      isDigest (fst (resolveContainerDigest img c pods init)) \<and>
      (\<forall>d \<in> set ds. count_list ds d < count_list ds (fst (resolveContainerDigest img c pods init)) \<or>
         count_list ds d = count_list ds (fst (resolveContainerDigest img c pods init)) \<and>
           fst (resolveContainerDigest img c pods init) \<le> d))"
proof -
  let ?ds = "reportedDigests n c pods init" and ?es = "countDigests n c pods init"
  let ?best = "bestDigest (countOf ?es) ?es"
  have res: "resolveContainerDigest img c pods init =
      (if ?best = '''' then ('''', SourceNone) else (?best, SourcePodStatus))"
    by (simp add: resolveContainerDigest_def assms(1) Let_def)
  have perm: "resolveContainerDigest img c pods' init = resolveContainerDigest img c pods init"
    using resolveContainerDigest_perm [OF assms(2)] by simp
  show ?thesis
  proof (cases "?ds = []")
    case True
    then have "?best = ''''" by (simp add: countDigests_fold bestDigest_def)
    with True res perm show ?thesis by simp
  next
    case False
    note best = bestDigest_reported [OF False]
    then have "isDigest ?best" using reportedDigests_valid by blast
    moreover from this have "?best \<noteq> ''''" by auto
    ultimately show ?thesis
      using best res perm False by (simp add: beats_def)
  qed
qed

theorem resolveContainerDigest_majority_witness:
  "let img = ''vllm/vllm-openai:latest''; st = (\<lambda>d. \<lparr>cs_name = ''m'', cs_image = '''', cs_imageID = ''sha256:'' @ replicate 64 d\<rparr>);
       mk = (\<lambda>d. \<lparr>pod_meta = emptyMeta, pod_spec = emptyPodSpec, pod_containerStatuses = [st d], pod_initContainerStatuses = []\<rparr>)
   in parseImageRef img = (''vllm/vllm-openai'', ''latest'', '''') \<and>
      (let ds = reportedDigests ''vllm/vllm-openai'' ''m'' [mk CHR ''b'', mk CHR ''a''] False in
       resolveContainerDigest img ''m'' [mk CHR ''a'', mk CHR ''b''] False =
         (if ds = [] then ('''', SourceNone)
          else (fst (resolveContainerDigest img ''m'' [mk CHR ''b'', mk CHR ''a''] False), SourcePodStatus)))"
proof -
  have p: "parseImageRef ''vllm/vllm-openai:latest'' = (''vllm/vllm-openai'', ''latest'', '''')"
    by (simp add: parseImageRef_def cutLast_def cutFirst_def)
  show ?thesis
    unfolding Let_def
    by (intro conjI p resolveContainerDigest_majority [OF p, unfolded Let_def, THEN conjunct1]) simp
qed

text \<open>
  An image reference assembled from a directory part, a name, a tag and a digest is taken apart into
  exactly these, and a digest is only ever reported in the canonical sha256 form.
\<close>

theorem parseImageRef_roundtrip:
  assumes "CHR ''@'' \<notin> set dir" "CHR ''@'' \<notin> set base" "CHR ''@'' \<notin> set tag"
    and "CHR ''/'' \<notin> set base" "CHR '':'' \<notin> set base" "CHR ''/'' \<notin> set tag" "CHR '':'' \<notin> set tag"
    and "dir = '''' \<or> last dir = CHR ''/''" and "length h = 64" "\<forall>x \<in> set h. inCls hexR False x"
  shows "parseImageRef (dir @ base @ '':'' @ tag @ ''@sha256:'' @ h) = (dir @ base, tag, ''sha256:'' @ h)"
proof -
  have d: "isDigest (''sha256:'' @ h)" using assms(9,10) by (auto simp: isDigest_def)
  have at: "\<not> inCls hexR False CHR ''@''"
    by (simp add: inCls_def hexR_def digitR_def less_eq_char_def)
  have "CHR ''@'' \<notin> set (''sha256:'' @ h)"
    using assms(10) at by auto
  from parseImageRef_parts [OF assms(1-3) this assms(4-8)] d show ?thesis
    by (simp add: cleanSHA256Digest_cases)
qed

theorem parseImageRef_roundtrip_witness:
  "parseImageRef (''ghcr.io:443/org/'' @ ''vllm'' @ '':'' @ ''v0.6.3'' @ ''@sha256:'' @ replicate 64 CHR ''a'') =
     (''ghcr.io:443/org/'' @ ''vllm'', ''v0.6.3'', ''sha256:'' @ replicate 64 CHR ''a'')"
  by (rule parseImageRef_roundtrip) (simp_all add: inCls_def hexR_def less_eq_char_def)

text \<open>
  Truncation never exceeds the limit in runes, leaves a string within the limit as it is, and never
  yields an empty name for a value that is not empty.
\<close>

theorem TruncateString_bound:
  "length (runes (TruncateString s (Suc n))) \<le> Suc n \<and>
   (length (runes s) \<le> Suc n \<longrightarrow> TruncateString s (Suc n) = s) \<and>
   (s \<noteq> '''' \<longrightarrow> TruncateString s (Suc n) \<noteq> '''')"
  using length_runes_TruncateString TruncateString_short TruncateString_nonempty by blast

theorem TruncateString_bound_witness:
  "length (runes ''llama'') \<le> Suc 9 \<and> TruncateString ''llama'' (Suc 9) = ''llama'' \<and> ''llama'' \<noteq> '''' \<and>
   TruncateString ''llama'' (Suc 9) \<noteq> ''''"
proof -
  have "length (runes ''llama'') \<le> Suc 9" by (simp add: byteIn_def)
  then show ?thesis using TruncateString_bound [of "''llama''" 9] by simp
qed

end
