(* ===== verification/Signature.thy ===== *)
theory Signature
  imports Inference_Extract
begin

text \<open>
  \<^verbatim>\<open>internal/scraper/signature.go\<close> and \<^verbatim>\<open>signature_apply.go\<close>: the signature claim handed to a verifier,
  the three-state result and its recording on the ML-model components. A verifier is a function from
  a claim to an error text or a result; the contract of the interface is the locale
  \<open>signature_verifier\<close>.
\<close>

datatype SignatureStatus = SignatureUnsigned | SignatureClaimed | SignatureVerified

fun status_str :: "SignatureStatus \<Rightarrow> string" where
  "status_str SignatureUnsigned = ''unsigned''"
| "status_str SignatureClaimed = ''claimed''"
| "status_str SignatureVerified = ''verified''"

record SignatureClaim =
  sc_modelIdentity :: string
  sc_signatureRef :: string
  sc_declaredDigest :: string
  sc_evidence :: Evidence

record SignatureResult =
  sr_status :: SignatureStatus
  sr_identity :: string
  sr_rekorEntry :: string
  sr_outcome :: string
  sr_reason :: string
  sr_subjectNameMismatch :: bool
  sr_timestamp :: time

type_synonym SignatureVerifier = "SignatureClaim \<Rightarrow> string + SignatureResult"

definition bareResult :: "SignatureStatus \<Rightarrow> SignatureResult" where
  "bareResult st = \<lparr>sr_status = st, sr_identity = '''', sr_rekorEntry = '''', sr_outcome = '''',
     sr_reason = '''', sr_subjectNameMismatch = False, sr_timestamp = 0\<rparr>"

definition NoopVerifier :: SignatureVerifier where
  "NoopVerifier claim = (if sc_signatureRef claim = '''' then Inr (bareResult SignatureUnsigned)
     else Inr (bareResult SignatureClaimed))"

definition propSignatureStatus :: string where "propSignatureStatus = ''signature.status''"
definition propSignatureOutcome :: string where "propSignatureOutcome = ''signature.outcome''"
definition propSignatureReason :: string where "propSignatureReason = ''signature.reason''"
definition propSignatureIdentity :: string where "propSignatureIdentity = ''signature.identity''"
definition propSignatureRekorEntry :: string where "propSignatureRekorEntry = ''signature.rekorEntry''"
definition propSignatureNameNote :: string where "propSignatureNameNote = ''signature.subjectNameMismatch''"

lemmas signature_props = propSignatureStatus_def propSignatureOutcome_def propSignatureReason_def
  propSignatureIdentity_def propSignatureRekorEntry_def propSignatureNameNote_def

text \<open>The value a key has in the first map where it is present and not empty.\<close>

fun firstNonEmpty :: "string \<Rightarrow> gomap list \<Rightarrow> string" where
  "firstNonEmpty k [] = ''''"
| "firstNonEmpty k (m # ms) = (case map_of m k of
     Some v \<Rightarrow> if v = '''' then firstNonEmpty k ms else v
   | None \<Rightarrow> firstNonEmpty k ms)"

definition mkClaim :: "string \<Rightarrow> string \<Rightarrow> Component \<Rightarrow> SignatureClaim" where
  "mkClaim ref digest c = \<lparr>sc_modelIdentity = cName c, sc_signatureRef = ref, sc_declaredDigest = digest,
     sc_evidence = \<lparr>ev_source = SourceWorkloadAnnotation,
       ev_locator = ''metadata.annotations['' @ AnnotationSignatureRef @ '']''\<rparr>\<rparr>"

definition putIf :: "bool \<Rightarrow> string \<Rightarrow> string \<Rightarrow> gomap \<Rightarrow> gomap" where
  "putIf b k v m = (if b then gm_put k v m else m)"

definition recordResult :: "string + SignatureResult \<Rightarrow> gomap \<Rightarrow> gomap" where
  "recordResult r p = (case r of
     Inl err \<Rightarrow> gm_put propSignatureReason (TruncateString err 256)
        (gm_put propSignatureOutcome ''error'' (gm_put propSignatureStatus (status_str SignatureClaimed) p))
   | Inr res \<Rightarrow>
       putIf (sr_subjectNameMismatch res) propSignatureNameNote ''true''
       (putIf (sr_rekorEntry res \<noteq> '''') propSignatureRekorEntry (sr_rekorEntry res)
       (putIf (sr_identity res \<noteq> '''') propSignatureIdentity (sr_identity res)
       (putIf (sr_reason res \<noteq> '''') propSignatureReason (TruncateString (sr_reason res) 256)
       (putIf (sr_outcome res \<noteq> '''') propSignatureOutcome (sr_outcome res)
       (gm_put propSignatureStatus (status_str (sr_status res)) p))))))"

definition withProperties :: "gomap \<Rightarrow> Component \<Rightarrow> Component" where
  "withProperties p c = Component (cType c) (cName c) (cVersion c) (cPURL c) (cHashes c) (cEvidence c)
     (cConfidence c) p (cChildren c)"

definition applySignature :: "SignatureVerifier \<Rightarrow> string \<Rightarrow> string \<Rightarrow> Component \<Rightarrow> Component" where
  "applySignature v ref digest c = (if cType c \<noteq> ComponentMLModel then c
     else withProperties (recordResult (v (mkClaim ref digest c)) (cProperties c)) c)"

definition applySignatures :: "SignatureVerifier option \<Rightarrow> Component list \<Rightarrow> gomap list \<Rightarrow> Component list" where
  "applySignatures vo comps annotationMaps =
    (let v = (case vo of None \<Rightarrow> NoopVerifier | Some v \<Rightarrow> v);
         ref = firstNonEmpty AnnotationSignatureRef annotationMaps;
         digest = firstNonEmpty AnnotationModelDigest annotationMaps
     in if ref = '''' then comps else map (applySignature v ref digest) comps)"

subsection \<open>Recording\<close>

lemma withProperties_sel [simp]:
  "cType (withProperties p c) = cType c" "cName (withProperties p c) = cName c"
  "cVersion (withProperties p c) = cVersion c" "cPURL (withProperties p c) = cPURL c"
  "cHashes (withProperties p c) = cHashes c" "cEvidence (withProperties p c) = cEvidence c"
  "cConfidence (withProperties p c) = cConfidence c" "cProperties (withProperties p c) = p"
  "cChildren (withProperties p c) = cChildren c"
  by (simp_all add: withProperties_def)

lemma applySignature_sel [simp]:
  "cType (applySignature v r d c) = cType c" "cName (applySignature v r d c) = cName c"
  "cVersion (applySignature v r d c) = cVersion c" "cPURL (applySignature v r d c) = cPURL c"
  "cHashes (applySignature v r d c) = cHashes c" "cEvidence (applySignature v r d c) = cEvidence c"
  "cConfidence (applySignature v r d c) = cConfidence c"
  "cChildren (applySignature v r d c) = cChildren c"
  by (simp_all add: applySignature_def)

lemma gm_sorted_putIf [simp]: "gm_sorted m \<Longrightarrow> gm_sorted (putIf b k v m)"
  by (simp add: putIf_def)

lemma map_of_putIf:
  "gm_sorted m \<Longrightarrow> map_of (putIf b k v m) = (if b then (map_of m)(k \<mapsto> v) else map_of m)"
  by (simp add: putIf_def map_of_gm_put)

lemma gm_sorted_recordResult [simp]: "gm_sorted p \<Longrightarrow> gm_sorted (recordResult r p)"
  by (simp add: recordResult_def split: sum.splits)

text \<open>The status recorded on the component, and that only signature properties are written.\<close>

definition recordedStatus :: "string + SignatureResult \<Rightarrow> SignatureStatus" where
  "recordedStatus r = (case r of Inl _ \<Rightarrow> SignatureClaimed | Inr res \<Rightarrow> sr_status res)"

lemma recordResult_status:
  "gm_sorted p \<Longrightarrow> map_of (recordResult r p) propSignatureStatus = Some (status_str (recordedStatus r))"
  by (simp add: recordResult_def recordedStatus_def map_of_gm_put map_of_putIf signature_props split: sum.splits)

lemma recordResult_other:
  assumes "gm_sorted p" "k \<notin> {propSignatureStatus, propSignatureOutcome, propSignatureReason,
    propSignatureIdentity, propSignatureRekorEntry, propSignatureNameNote}"
  shows "map_of (recordResult r p) k = map_of p k"
  using assms by (simp add: recordResult_def map_of_gm_put map_of_putIf split: sum.splits)

lemma recordResult_error:
  assumes "gm_sorted p"
  shows "map_of (recordResult (Inl e) p) propSignatureOutcome = Some ''error''"
    and "map_of (recordResult (Inl e) p) propSignatureReason = Some (TruncateString e 256)"
  using assms by (simp_all add: recordResult_def map_of_gm_put signature_props)

lemma status_str_inj [simp]: "status_str a = status_str b \<longleftrightarrow> a = b"
  by (cases a; cases b; simp)

subsection \<open>The verifier contract\<close>

text \<open>
  What every \<^verbatim>\<open>SignatureVerifier\<close> promises: no reference gives Unsigned, and a reference never does.
  The lemma in the locale is what the scraper relies on: with a reference present, every ML model is
  marked claimed or verified, and an error is recorded as claimed.
\<close>

locale signature_verifier =
  fixes verify :: SignatureVerifier
  assumes empty_ref: "sc_signatureRef c = '''' \<Longrightarrow> \<exists>r. verify c = Inr r \<and> sr_status r = SignatureUnsigned"
    and some_ref: "sc_signatureRef c \<noteq> '''' \<Longrightarrow> verify c = Inr r \<Longrightarrow> sr_status r \<noteq> SignatureUnsigned"
begin

lemma status_recorded:
  assumes "ref \<noteq> ''''" "cType c = ComponentMLModel" "gm_sorted (cProperties c)"
  shows "\<exists>st. st \<noteq> SignatureUnsigned \<and>
    map_of (cProperties (applySignature verify ref digest c)) propSignatureStatus = Some (status_str st)"
proof -
  have "recordedStatus (verify (mkClaim ref digest c)) \<noteq> SignatureUnsigned"
    using some_ref [of "mkClaim ref digest c"] assms(1)
    by (cases "verify (mkClaim ref digest c)") (auto simp: recordedStatus_def mkClaim_def)
  then show ?thesis
    using assms by (auto simp: applySignature_def recordResult_status)
qed

end

text \<open>A verifier that in addition never reports Verified, as v1 required.\<close>

locale claim_only_verifier = signature_verifier +
  assumes never_verified: "verify c = Inr r \<Longrightarrow> sr_status r \<noteq> SignatureVerified"
begin

lemma only_claimed:
  assumes "ref \<noteq> ''''" "cType c = ComponentMLModel" "gm_sorted (cProperties c)"
  shows "map_of (cProperties (applySignature verify ref digest c)) propSignatureStatus = Some ''claimed''"
proof -
  have "recordedStatus (verify (mkClaim ref digest c)) = SignatureClaimed"
    using some_ref [of "mkClaim ref digest c"] never_verified [of "mkClaim ref digest c"] assms(1)
    by (cases "verify (mkClaim ref digest c)")
      (auto simp: recordedStatus_def mkClaim_def, metis SignatureStatus.exhaust)
  then show ?thesis
    using assms by (simp add: applySignature_def recordResult_status)
qed

end

interpretation noop: claim_only_verifier NoopVerifier
  by unfold_locales (auto simp: NoopVerifier_def bareResult_def split: if_splits)

subsection \<open>Properties\<close>

text \<open>
  Recording signatures never disturbs the inventory: without a signature reference the components
  are returned unchanged; with one, components that are not ML models are unchanged, every other field of
  an ML model is kept, and only \<^verbatim>\<open>signature.*\<close> properties are written.
\<close>

theorem applySignatures_inventory:
  assumes "\<forall>c \<in> set cs. gm_sorted (cProperties c)"
  shows "(firstNonEmpty AnnotationSignatureRef ms = '''' \<longrightarrow> applySignatures v cs ms = cs) \<and>
    list_all2 (\<lambda>c d. (cType c \<noteq> ComponentMLModel \<longrightarrow> d = c) \<and> d = withProperties (cProperties d) c \<and>
       (\<forall>k. \<not> hasPrefix k ''signature.'' \<longrightarrow> map_of (cProperties d) k = map_of (cProperties c) k))
      cs (applySignatures v cs ms)"
proof -
  let ?P = "\<lambda>c d. (cType c \<noteq> ComponentMLModel \<longrightarrow> d = c) \<and> d = withProperties (cProperties d) c \<and>
       (\<forall>k. \<not> hasPrefix k ''signature.'' \<longrightarrow> map_of (cProperties d) k = map_of (cProperties c) k)"
  have refl: "?P c c" for c by (cases c) (simp add: withProperties_def)
  have one: "?P c (applySignature vf r d c)" if "gm_sorted (cProperties c)" for vf r d c
  proof (cases "cType c = ComponentMLModel")
    case False
    then show ?thesis using refl by (simp add: applySignature_def)
  next
    case True
    have "\<not> hasPrefix k ''signature.'' \<Longrightarrow> k \<notin> {propSignatureStatus, propSignatureOutcome,
      propSignatureReason, propSignatureIdentity, propSignatureRekorEntry, propSignatureNameNote}" for k
      by (auto simp: signature_props hasPrefix_def)
    then show ?thesis using True that recordResult_other by (simp add: applySignature_def)
  qed
  have "list_all2 ?P cs (applySignatures v cs ms)"
    using assms one refl by (auto simp: applySignatures_def Let_def list_all2_conv_all_nth)
  then show ?thesis by (simp add: applySignatures_def)
qed

definition exampleModel :: Component where
  "exampleModel = mkComponent ComponentMLModel ''llama'' '''' ConfidenceDeclared
     \<lparr>ev_source = SourceEnvVar, ev_locator = ''env''\<rparr> [(''identity.confidence'', ''claimed'')]"

theorem applySignatures_inventory_witness:
  "list_all2 (\<lambda>c d. (cType c \<noteq> ComponentMLModel \<longrightarrow> d = c) \<and> d = withProperties (cProperties d) c \<and>
       (\<forall>k. \<not> hasPrefix k ''signature.'' \<longrightarrow> map_of (cProperties d) k = map_of (cProperties c) k))
     [exampleModel] (applySignatures None [exampleModel] [[(AnnotationSignatureRef, ''base64:AA=='')]])"
  by (rule applySignatures_inventory [THEN conjunct2]) (simp add: exampleModel_def mkComponent_def)

text \<open>
  With the default verifier a signature claim is always reported as claimed and never as verified,
  and a verifier error is recorded as claimed with the outcome error, never lost and never fatal.
\<close>

theorem signature_never_overstated:
  assumes "cType c = ComponentMLModel" "gm_sorted (cProperties c)" "ref \<noteq> ''''"
  shows "map_of (cProperties (applySignature NoopVerifier ref digest c)) propSignatureStatus = Some ''claimed'' \<and>
    (v (mkClaim ref digest c) = Inl err \<longrightarrow>
      map_of (cProperties (applySignature v ref digest c)) propSignatureStatus = Some ''claimed'' \<and>
      map_of (cProperties (applySignature v ref digest c)) propSignatureOutcome = Some ''error'' \<and>
      map_of (cProperties (applySignature v ref digest c)) propSignatureReason = Some (TruncateString err 256))"
  using assms noop.only_claimed [OF assms(3,1,2)] recordResult_status [OF assms(2), of "Inl err"]
    recordResult_error [OF assms(2), of err]
  by (simp add: applySignature_def recordedStatus_def)

theorem signature_never_overstated_witness:
  "map_of (cProperties (applySignature NoopVerifier ''r'' '''' exampleModel)) propSignatureStatus = Some ''claimed'' \<and>
   map_of (cProperties (applySignature (\<lambda>_. Inl ''down'') ''r'' '''' exampleModel)) propSignatureOutcome = Some ''error''"
proof -
  have "cType exampleModel = ComponentMLModel" "gm_sorted (cProperties exampleModel)" "''r'' \<noteq> ''''"
    by (simp_all add: exampleModel_def mkComponent_def)
  from signature_never_overstated [OF this, of "''''" "\<lambda>_. Inl ''down''" "''down''"] show ?thesis by simp
qed

end
