(* ===== verification/Scraper_Hash.thy ===== *)
theory Scraper_Hash
  imports Scraper_Types
begin

text \<open>
  \<^verbatim>\<open>internal/scraper/hash.go\<close> and the contract of \<^verbatim>\<open>scraper.go\<close>. \<^verbatim>\<open>json.Marshal\<close> and \<^verbatim>\<open>sha256.Sum256\<close> are
  the parameters \<open>marshal\<close> and \<open>shaSum\<close>; the \<^verbatim>\<open>Errors\<close> field is tagged \<^verbatim>\<open>json:"-"\<close>, so the marshaller
  receives the inputs without it.
\<close>

definition hexDigit :: "nat \<Rightarrow> char" where
  "hexDigit d = (if d < 10 then char_of (48 + d) else char_of (87 + d))"

definition hexEncode :: "string \<Rightarrow> string" where
  "hexEncode s = concat (map (\<lambda>c. [hexDigit ((of_char c :: nat) div 16), hexDigit ((of_char c :: nat) mod 16)]) s)"

definition zeroProvenanceTimestamps :: "Provenance list \<Rightarrow> Provenance list" where
  "zeroProvenanceTimestamps ps = (if ps = [] then ps else map (\<lambda>p. p\<lparr>pv_scrapeTimestamp := 0\<rparr>) ps)"

definition zeroTimestamps :: "BOMInputs \<Rightarrow> BOMInputs" where
  "zeroTimestamps b = b\<lparr>bi_scrapeTimestamp := 0, bi_provenance := zeroProvenanceTimestamps (bi_provenance b)\<rparr>"

definition HashBOMInputs ::
  "(BOMInputs \<Rightarrow> string + string) \<Rightarrow> (string \<Rightarrow> string) \<Rightarrow> BOMInputs option \<Rightarrow> string + string" where
  "HashBOMInputs marshal shaSum inp = (case inp of
     None \<Rightarrow> Inr ''''
   | Some b \<Rightarrow> (case marshal ((zeroTimestamps b)\<lparr>bi_errors := []\<rparr>) of
        Inl e \<Rightarrow> Inl (''hash BOMInputs: marshal: '' @ e)
      | Inr bs \<Rightarrow> Inr (hexEncode (shaSum bs))))"

text \<open>What the hash can see of the inputs.\<close>

definition hashView :: "BOMInputs \<Rightarrow> BOMInputs" where
  "hashView b = (zeroTimestamps b)\<lparr>bi_errors := []\<rparr>"

lemma zeroProvenanceTimestamps_map: "zeroProvenanceTimestamps ps = map (\<lambda>p. p\<lparr>pv_scrapeTimestamp := 0\<rparr>) ps"
  by (simp add: zeroProvenanceTimestamps_def)

lemma zeroProvenanceTimestamps_append [simp]:
  "zeroProvenanceTimestamps (a @ b) = zeroProvenanceTimestamps a @ zeroProvenanceTimestamps b"
  by (simp add: zeroProvenanceTimestamps_map)

lemma zeroTimestamps_idem [simp]: "zeroTimestamps (zeroTimestamps b) = zeroTimestamps b"
  by (simp add: zeroTimestamps_def zeroProvenanceTimestamps_map comp_def)

lemma HashBOMInputs_view:
  "HashBOMInputs marshal shaSum (Some b) = (case marshal (hashView b) of
     Inl e \<Rightarrow> Inl (''hash BOMInputs: marshal: '' @ e) | Inr bs \<Rightarrow> Inr (hexEncode (shaSum bs)))"
  by (simp add: HashBOMInputs_def hashView_def)

lemma hexDigit_inj: "a < 16 \<Longrightarrow> b < 16 \<Longrightarrow> hexDigit a = hexDigit b \<Longrightarrow> a = b"
proof -
  assume a: "a < 16" and b: "b < 16" and eq: "hexDigit a = hexDigit b"
  have c: "(of_char (hexDigit d) :: nat) = (if d < 10 then 48 + d else 87 + d)" if "d < 16" for d
    using that by (simp add: hexDigit_def)
  have "(if a < 10 then 48 + a else 87 + a) = (if b < 10 then 48 + b else 87 + b)"
    using c [OF a] c [OF b] eq by metis
  then show "a = b" using a b by presburger
qed

lemma hexEncode_inj: "hexEncode s = hexEncode t \<Longrightarrow> s = t"
proof (induction s arbitrary: t)
  case Nil
  then show ?case by (cases t) (auto simp: hexEncode_def)
next
  case (Cons c s)
  then obtain d t' where t: "t = d # t'" by (cases t) (auto simp: hexEncode_def)
  have b: "(of_char x :: nat) div 16 < 16" for x :: char
  proof -
    have "(of_char x :: nat) < 256" by simp
    then show ?thesis by linarith
  qed
  from Cons.prems t have h: "hexDigit ((of_char c :: nat) div 16) = hexDigit ((of_char d :: nat) div 16)"
    "hexDigit ((of_char c :: nat) mod 16) = hexDigit ((of_char d :: nat) mod 16)"
    and s: "hexEncode s = hexEncode t'"
    by (simp_all add: hexEncode_def)
  have "(of_char c :: nat) div 16 = of_char d div 16" "(of_char c :: nat) mod 16 = of_char d mod 16"
    using hexDigit_inj [OF b b h(1)] hexDigit_inj [OF _ _ h(2)] by simp_all
  then have "(of_char c :: nat) = of_char d" by (metis div_mult_mod_eq)
  then show ?case using Cons.IH [OF s] t by simp
qed

subsection \<open>The scraper contract\<close>

type_synonym 'c scrape = "time \<Rightarrow> Workload \<Rightarrow> 'c \<Rightarrow> go_error + BOMInputs"

text \<open>
  \<open>scraper_clock\<close>: two scrapes of the same workload at different times return the same error or the
  same inputs up to the scrape timestamps. This is the law the reconciler's hash-based skip rests on,
  which is the lemma proved in the locale. \<open>named_scraper\<close> adds the rules on the name and the
  timestamp of the result.
\<close>

locale scraper_clock =
  fixes scrape :: "'c scrape"
  assumes clock: "map_sum id zeroTimestamps (scrape t w c) = map_sum id zeroTimestamps (scrape t' w c)"
begin

lemma hash_stable:
  assumes "scrape t w c = Inr b" "scrape t' w c = Inr b'"
  shows "HashBOMInputs marshal shaSum (Some b) = HashBOMInputs marshal shaSum (Some b')"
proof -
  have "zeroTimestamps b = zeroTimestamps b'"
    using clock [of t w c t'] assms by simp
  then show ?thesis by (simp add: HashBOMInputs_view hashView_def)
qed

lemma error_stable: "scrape t w c = Inl e \<Longrightarrow> scrape t' w c = Inl e"
  using clock [of t w c t'] by (cases "scrape t' w c") auto

end

locale named_scraper = scraper_clock scrape for scrape :: "'c scrape" +
  fixes name :: string
  assumes result_name: "scrape t w c = Inr b \<Longrightarrow> bi_scraperName b = name"
    and result_time: "scrape t w c = Inr b \<Longrightarrow> bi_scrapeTimestamp b = t"

text \<open>
  The input hash ignores scrape times and non-fatal errors and nothing else: inputs that agree up to
  these have the same hash, and when two inputs have the same hash either their JSON forms are equal or
  the digest function collided on two different texts.
\<close>

theorem HashBOMInputs_clock_insensitive:
  "HashBOMInputs marshal shaSum (Some (b\<lparr>bi_scrapeTimestamp := t, bi_errors := es,
      bi_provenance := map (\<lambda>p. p\<lparr>pv_scrapeTimestamp := t'\<rparr>) (bi_provenance b)\<rparr>)) =
     HashBOMInputs marshal shaSum (Some b) \<and>
   (HashBOMInputs marshal shaSum (Some a) = Inr h \<and> HashBOMInputs marshal shaSum (Some b) = Inr h \<longrightarrow>
     (\<exists>x y. marshal (hashView a) = Inr x \<and> marshal (hashView b) = Inr y \<and> (x = y \<or> x \<noteq> y \<and> shaSum x = shaSum y)))"
proof (intro conjI impI)
  have "hashView (b\<lparr>bi_scrapeTimestamp := t, bi_errors := es,
      bi_provenance := map (\<lambda>p. p\<lparr>pv_scrapeTimestamp := t'\<rparr>) (bi_provenance b)\<rparr>) = hashView b"
    by (simp add: hashView_def zeroTimestamps_def zeroProvenanceTimestamps_map comp_def)
  then show "HashBOMInputs marshal shaSum (Some (b\<lparr>bi_scrapeTimestamp := t, bi_errors := es,
      bi_provenance := map (\<lambda>p. p\<lparr>pv_scrapeTimestamp := t'\<rparr>) (bi_provenance b)\<rparr>)) =
     HashBOMInputs marshal shaSum (Some b)"
    by (simp add: HashBOMInputs_view)
  assume "HashBOMInputs marshal shaSum (Some a) = Inr h \<and> HashBOMInputs marshal shaSum (Some b) = Inr h"
  then show "\<exists>x y. marshal (hashView a) = Inr x \<and> marshal (hashView b) = Inr y \<and> (x = y \<or> x \<noteq> y \<and> shaSum x = shaSum y)"
    by (auto simp: HashBOMInputs_view split: sum.splits dest: hexEncode_inj)
qed

theorem HashBOMInputs_clock_insensitive_witness:
  "HashBOMInputs (\<lambda>_. Inr ''json'') (\<lambda>x. x) (Some emptyInputs) = Inr (hexEncode ''json'') \<and>
   (\<exists>x y. (Inr ''json'' :: string + string) = Inr x \<and> (Inr ''json'' :: string + string) = Inr y \<and> (x = y \<or> x \<noteq> y \<and> (x :: string) = y))"
proof -
  have h: "HashBOMInputs (\<lambda>_. Inr ''json'') (\<lambda>x. x) (Some emptyInputs) = Inr (hexEncode ''json'')"
    by (simp add: HashBOMInputs_view)
  from HashBOMInputs_clock_insensitive [where marshal = "\<lambda>_. Inr ''json''" and shaSum = "\<lambda>x. x"
      and a = emptyInputs and b = emptyInputs and h = "hexEncode ''json''", THEN conjunct2] h
  show ?thesis by blast
qed

end
