(* ===== verification/Inference_Spec.thy ===== *)
theory Inference_Spec
  imports Signature Scraper_Hash
begin

text \<open>
  \<^verbatim>\<open>internal/scraper/inference.go\<close>: the inference scraper. A \<^verbatim>\<open>Scrape\<close> call reads the clock once, so the
  time is an argument. \<open>sort.SliceStable\<close> is the library's stable \<open>sort_key\<close>.
\<close>

definition ScraperVersion :: string where "ScraperVersion = ''0.1.0''"

definition inferenceSpecHandledKinds :: "WorkloadKind list" where
  "inferenceSpecHandledKinds =
    [\<lparr>wk_group = ''apps'', wk_version = ''v1'', wk_kind = ''Deployment''\<rparr>,
     \<lparr>wk_group = ''apps'', wk_version = ''v1'', wk_kind = ''StatefulSet''\<rparr>,
     \<lparr>wk_group = ''apps'', wk_version = ''v1'', wk_kind = ''DaemonSet''\<rparr>]"

definition inference_HandlesKind :: "WorkloadKind \<Rightarrow> bool" where
  "inference_HandlesKind k = list_ex (\<lambda>kk. kk = k) inferenceSpecHandledKinds"

definition componentOrder :: "Component \<Rightarrow> ComponentType \<times> string \<times> string" where
  "componentOrder c = (cType c, cName c, ev_locator (cEvidence c))"

lemma size_children: "c \<in> set cs \<Longrightarrow> size_list size (cChildren c) < size_list size cs"
proof -
  assume "c \<in> set cs"
  then have "size c \<le> size_list size cs" by (rule size_list_estimation') simp
  moreover have "size_list size (cChildren c) < size c" by (cases c) simp
  ultimately show ?thesis by simp
qed

function sortComponents :: "Component list \<Rightarrow> Component list" where
  "sortComponents cs = map (\<lambda>c. if cChildren c = [] then c
     else Component (cType c) (cName c) (cVersion c) (cPURL c) (cHashes c) (cEvidence c)
       (cConfidence c) (cProperties c) (sortComponents (cChildren c))) (sort_key componentOrder cs)"
  by pat_completeness auto
termination by (relation "measure (size_list size)") (auto simp: size_children)

declare sortComponents.simps [simp del]

definition aggregateConfidence :: "Component list \<Rightarrow> Confidence" where
  "aggregateConfidence cs =
    (let (seenDeclared, seenInferred, seenAny) = fold (\<lambda>c (d, i, a).
        if cType c \<noteq> ComponentApplication \<and> cType c \<noteq> ComponentMLModel then (d, i, a)
        else case cConfidence c of
            ConfidenceDeclared \<Rightarrow> (True, i, True)
          | ConfidenceInferred \<Rightarrow> (d, True, True)
          | _ \<Rightarrow> (d, i, a)) cs (False, False, False)
     in if \<not> seenAny then ConfidenceUnresolved
        else if seenInferred then ConfidenceInferred
        else if seenDeclared then ConfidenceDeclared
        else ConfidenceUnresolved)"

definition scrapePodSpecAt ::
  "BOMInputs \<Rightarrow> pod_spec \<Rightarrow> gomap \<Rightarrow> pod list \<Rightarrow> InferenceConfig option \<Rightarrow> string \<Rightarrow> string \<Rightarrow> BOMInputs" where
  "scrapePodSpecAt inputs spec podTemplateAnnotations pods cfg specLocator annotationsLocator =
    inputs\<lparr>bi_components := bi_components inputs @
      concat (map (\<lambda>(i, c).
          extractContainerComponentAt specLocator c False i pods cfg @
          extractEnvVarModelsAt specLocator c False i cfg @
          extractArgModelsAt specLocator c False i cfg @
          extractVolumeMountModelsAt specLocator c (ps_volumes spec) False i cfg)
        (enumerate 0 (ps_containers spec))) @
      concat (map (\<lambda>(i, c). extractContainerComponentAt specLocator c True i pods cfg)
        (enumerate 0 (ps_initContainers spec))) @
      extractAnnotationModels podTemplateAnnotations SourcePodTemplateAnnotation annotationsLocator\<rparr>"

definition defaultPodSpecLocator :: string where
  "defaultPodSpecLocator = ''spec.template.spec''"

definition defaultPodTemplateAnnotationsLocator :: string where
  "defaultPodTemplateAnnotationsLocator = ''spec.template.metadata.annotations''"

definition scrapePodSpec ::
  "BOMInputs \<Rightarrow> pod_spec \<Rightarrow> gomap \<Rightarrow> pod list \<Rightarrow> InferenceConfig option \<Rightarrow> BOMInputs" where
  "scrapePodSpec inputs spec podTemplateAnnotations pods cfg =
     scrapePodSpecAt inputs spec podTemplateAnnotations pods cfg
       defaultPodSpecLocator defaultPodTemplateAnnotationsLocator"

definition kindPath :: "WorkloadKind \<Rightarrow> string" where
  "kindPath k = wk_group k @ ''/'' @ wk_version k @ ''/'' @ wk_kind k"

definition unsupportedObject :: "string \<Rightarrow> k8s_object \<Rightarrow> WorkloadKind \<Rightarrow> go_error" where
  "unsupportedObject scraper obj k = ErrorString (scraper @ '': unsupported object type '' @
     object_typename obj @ '' for kind '' @ kindPath k)"

definition nilObject :: "string \<Rightarrow> WorkloadKind \<Rightarrow> go_error" where
  "nilObject scraper k = ErrorString (scraper @ '': workload Object is nil for kind '' @ kindPath k)"

definition nilConfig :: go_error where
  "nilConfig = ErrorString ''inference.spec: cfg is nil; reconciler must pass a non-nil InferenceConfig''"

definition provenanceOf :: "string \<Rightarrow> time \<Rightarrow> Provenance" where
  "provenanceOf name t = \<lparr>pv_scraperName = name, pv_scraperVersion = ScraperVersion,
     pv_scrapeMethod = ''spec'', pv_scrapeTimestamp = t\<rparr>"

fun appsTemplate :: "k8s_object \<Rightarrow> pod_template option" where
  "appsTemplate (Deployment _ t) = Some t"
| "appsTemplate (StatefulSet _ t) = Some t"
| "appsTemplate (DaemonSet _ t) = Some t"
| "appsTemplate _ = None"

text \<open>The part of \<^verbatim>\<open>Scrape\<close> after extraction: sort, cap, aggregate.\<close>

definition capComponents :: "BOMInputs \<Rightarrow> BOMInputs" where
  "capComponents b = (if length (bi_components b) > MaxComponentsPerDocument
     then b\<lparr>bi_truncatedComponents := int (length (bi_components b)) - int MaxComponentsPerDocument,
            bi_components := take MaxComponentsPerDocument (bi_components b)\<rparr>
     else b)"

definition inference_Scrape ::
  "SignatureVerifier option \<Rightarrow> time \<Rightarrow> Workload \<Rightarrow> InferenceConfig option \<Rightarrow> go_error + BOMInputs" where
  "inference_Scrape v t w cfg = (case w_object w of
     None \<Rightarrow> Inl (nilObject ''inference.spec'' (w_kind w))
   | Some obj \<Rightarrow>
      if cfg = None then Inl nilConfig
      else (case appsTemplate obj of
        None \<Rightarrow> Inl (unsupportedObject ''inference.spec'' obj (w_kind w))
      | Some tmpl \<Rightarrow>
         (let inputs0 = emptyInputs\<lparr>bi_scraperName := ''inference.spec'', bi_category := CategoryInference,
                          bi_scrapeTimestamp := t\<rparr>;
              inputs1 = scrapePodSpec inputs0 (pt_spec tmpl) (pt_annotations tmpl) (w_pods w) cfg;
              annotations = om_annotations (object_metadata obj);
              comps = bi_components inputs1 @
                extractAnnotationModels annotations SourceWorkloadAnnotation ''metadata.annotations'';
              signed = applySignatures v comps [annotations, pt_annotations tmpl];
              capped = capComponents (inputs1\<lparr>bi_components := sortComponents signed\<rparr>)
          in Inr (capped\<lparr>bi_confidence := aggregateConfidence (bi_components capped),
                    bi_provenance := [provenanceOf ''inference.spec'' t]\<rparr>))))"

subsection \<open>Confidence\<close>

definition countsForConfidence :: "Component \<Rightarrow> bool" where
  "countsForConfidence c \<longleftrightarrow> cType c = ComponentApplication \<or> cType c = ComponentMLModel"

lemma aggregateConfidence_spec:
  "aggregateConfidence cs =
    (if \<exists>c \<in> set cs. countsForConfidence c \<and> cConfidence c = ConfidenceInferred then ConfidenceInferred
     else if \<exists>c \<in> set cs. countsForConfidence c \<and> cConfidence c = ConfidenceDeclared then ConfidenceDeclared
     else ConfidenceUnresolved)"
proof -
  let ?step = "\<lambda>c (d, i, a). if cType c \<noteq> ComponentApplication \<and> cType c \<noteq> ComponentMLModel then (d, i, a)
        else case cConfidence c of
            ConfidenceDeclared \<Rightarrow> (True, i, True) | ConfidenceInferred \<Rightarrow> (d, True, True) | _ \<Rightarrow> (d, i, a)"
  let ?D = "\<lambda>cs. \<exists>c \<in> set cs. countsForConfidence c \<and> cConfidence c = ConfidenceDeclared"
  let ?I = "\<lambda>cs. \<exists>c \<in> set cs. countsForConfidence c \<and> cConfidence c = ConfidenceInferred"
  have "fold ?step cs (d, i, a) = (d \<or> ?D cs, i \<or> ?I cs, a \<or> ?D cs \<or> ?I cs)" for d i a
  proof (induction cs arbitrary: d i a)
    case (Cons c cs)
    show ?case
      by (cases "cConfidence c") (auto simp: Cons.IH countsForConfidence_def)
  qed simp
  then have "aggregateConfidence cs = (if \<not> (?D cs \<or> ?I cs) then ConfidenceUnresolved
      else if ?I cs then ConfidenceInferred else if ?D cs then ConfidenceDeclared else ConfidenceUnresolved)"
    unfolding aggregateConfidence_def by simp
  then show ?thesis by argo
qed

lemma aggregateConfidence_set: "set cs = set ds \<Longrightarrow> aggregateConfidence cs = aggregateConfidence ds"
  by (simp add: aggregateConfidence_spec)

subsection \<open>Sorting\<close>

lemma sortComponents_flat:
  assumes "\<forall>c \<in> set cs. cChildren c = []"
  shows "sortComponents cs = sort_key componentOrder cs"
  using assms by (subst sortComponents.simps) (auto intro!: map_idI)

lemma sortComponents_order:
  "map componentOrder (sortComponents cs) = map componentOrder (sort_key componentOrder cs)"
  by (subst sortComponents.simps) (simp add: componentOrder_def)

lemma sorted_sortComponents: "sorted (map componentOrder (sortComponents cs))"
  by (simp add: sortComponents_order)

lemma length_sortComponents [simp]: "length (sortComponents cs) = length cs"
  by (subst sortComponents.simps) simp

subsection \<open>Determinism\<close>

text \<open>
  The list of extracted components, its sorted form, and their independence from the order in which
  pods are listed and annotation maps are visited.
\<close>

definition specComponents :: "pod_spec \<Rightarrow> pod list \<Rightarrow> InferenceConfig option \<Rightarrow> Component list" where
  "specComponents spec pods cfg =
    concat (map (\<lambda>(i, c).
        extractContainerComponentAt defaultPodSpecLocator c False i pods cfg @
        extractEnvVarModelsAt defaultPodSpecLocator c False i cfg @
        extractArgModelsAt defaultPodSpecLocator c False i cfg @
        extractVolumeMountModelsAt defaultPodSpecLocator c (ps_volumes spec) False i cfg)
      (enumerate 0 (ps_containers spec))) @
    concat (map (\<lambda>(i, c). extractContainerComponentAt defaultPodSpecLocator c True i pods cfg)
      (enumerate 0 (ps_initContainers spec)))"

lemma specComponents_perm:
  assumes "mset pods = mset pods'"
  shows "specComponents spec pods cfg = specComponents spec pods' cfg"
  by (simp only: specComponents_def extractContainerComponentAt_perm [OF assms])

lemma specComponents_plain: "c \<in> set (specComponents spec pods cfg) \<Longrightarrow> plainComponent c"
  by (auto simp: specComponents_def intro: plain_extractors)

definition rawComponents :: "k8s_object \<Rightarrow> pod_template \<Rightarrow> pod list \<Rightarrow> InferenceConfig option \<Rightarrow> Component list" where
  "rawComponents obj tmpl pods cfg = specComponents (pt_spec tmpl) pods cfg @
     extractAnnotationModels (pt_annotations tmpl) SourcePodTemplateAnnotation defaultPodTemplateAnnotationsLocator @
     extractAnnotationModels (om_annotations (object_metadata obj)) SourceWorkloadAnnotation ''metadata.annotations''"

lemma rawComponents_plain: "c \<in> set (rawComponents obj tmpl pods cfg) \<Longrightarrow> plainComponent c"
  by (auto simp: rawComponents_def intro: specComponents_plain plain_annotation)

lemma applySignatures_map:
  "applySignatures v cs ms =
     map (if firstNonEmpty AnnotationSignatureRef ms = '''' then (\<lambda>c. c)
          else applySignature (case v of None \<Rightarrow> NoopVerifier | Some v \<Rightarrow> v)
            (firstNonEmpty AnnotationSignatureRef ms) (firstNonEmpty AnnotationModelDigest ms)) cs"
  by (simp add: applySignatures_def Let_def)

lemma applySignatures_plain:
  "\<forall>c \<in> set cs. plainComponent c \<Longrightarrow> c \<in> set (applySignatures v cs ms) \<Longrightarrow> plainComponent c"
  by (auto simp: applySignatures_map plainComponent_def applySignature_def split: if_splits)

text \<open>The result of a successful scrape, as one expression.\<close>

definition signedComponents ::
  "SignatureVerifier option \<Rightarrow> k8s_object \<Rightarrow> pod_template \<Rightarrow> pod list \<Rightarrow> InferenceConfig option \<Rightarrow> Component list" where
  "signedComponents v obj tmpl pods cfg = sort_key componentOrder
     (applySignatures v (rawComponents obj tmpl pods cfg)
        [om_annotations (object_metadata obj), pt_annotations tmpl])"

definition finishInputs :: "time \<Rightarrow> Component list \<Rightarrow> BOMInputs" where
  "finishInputs t cs =
    (let kept = take MaxComponentsPerDocument cs
     in emptyInputs\<lparr>bi_scraperName := ''inference.spec'', bi_category := CategoryInference,
          bi_scrapeTimestamp := t, bi_components := kept, bi_confidence := aggregateConfidence kept,
          bi_truncatedComponents := int (length cs - length kept),
          bi_provenance := [provenanceOf ''inference.spec'' t]\<rparr>)"

lemma inference_Scrape_ok:
  assumes "w_object w = Some obj" "appsTemplate obj = Some tmpl" "cfg \<noteq> None"
  shows "inference_Scrape v t w cfg = Inr (finishInputs t (signedComponents v obj tmpl (w_pods w) cfg))"
proof -
  let ?anns = "[om_annotations (object_metadata obj), pt_annotations tmpl]"
  let ?signed = "applySignatures v (rawComponents obj tmpl (w_pods w) cfg) ?anns"
  have "\<forall>c \<in> set (rawComponents obj tmpl (w_pods w) cfg). plainComponent c"
    using rawComponents_plain by blast
  then have "\<forall>c \<in> set ?signed. plainComponent c"
    using applySignatures_plain by blast
  then have "\<forall>c \<in> set ?signed. cChildren c = []"
    by (simp add: plainComponent_def)
  then have sort: "sortComponents ?signed = signedComponents v obj tmpl (w_pods w) cfg"
    by (simp add: signedComponents_def sortComponents_flat)
  have raw: "bi_components (scrapePodSpec (emptyInputs\<lparr>bi_scraperName := ''inference.spec'',
        bi_category := CategoryInference, bi_scrapeTimestamp := t\<rparr>) (pt_spec tmpl) (pt_annotations tmpl) (w_pods w) cfg) @
      extractAnnotationModels (om_annotations (object_metadata obj)) SourceWorkloadAnnotation ''metadata.annotations''
      = rawComponents obj tmpl (w_pods w) cfg"
    by (simp add: scrapePodSpec_def scrapePodSpecAt_def rawComponents_def specComponents_def emptyInputs_def)
  show ?thesis
    using assms
    by (simp add: inference_Scrape_def Let_def raw sort)
      (simp add: finishInputs_def capComponents_def scrapePodSpec_def scrapePodSpecAt_def emptyInputs_def Let_def
        of_nat_diff)
qed

text \<open>\<open>withAnnotations A T obj\<close> is the object with its own and its template's annotations replaced.\<close>

fun withAnnotations :: "gomap \<Rightarrow> gomap \<Rightarrow> k8s_object \<Rightarrow> k8s_object" where
  "withAnnotations A T (Deployment m t) = Deployment (m\<lparr>om_annotations := A\<rparr>) (t\<lparr>pt_annotations := T\<rparr>)"
| "withAnnotations A T (StatefulSet m t) = StatefulSet (m\<lparr>om_annotations := A\<rparr>) (t\<lparr>pt_annotations := T\<rparr>)"
| "withAnnotations A T (DaemonSet m t) = DaemonSet (m\<lparr>om_annotations := A\<rparr>) (t\<lparr>pt_annotations := T\<rparr>)"
| "withAnnotations A T (Job m t) = Job (m\<lparr>om_annotations := A\<rparr>) (t\<lparr>pt_annotations := T\<rparr>)"
| "withAnnotations A T (CronJob m t) = CronJob (m\<lparr>om_annotations := A\<rparr>) (t\<lparr>pt_annotations := T\<rparr>)"
| "withAnnotations A T (Unstructured m j) = Unstructured (m\<lparr>om_annotations := A\<rparr>) j"

lemma withAnnotations_simps [simp]:
  "om_annotations (object_metadata (withAnnotations A T obj)) = A"
  "appsTemplate (withAnnotations A T obj) = map_option (\<lambda>t. t\<lparr>pt_annotations := T\<rparr>) (appsTemplate obj)"
  "object_typename (withAnnotations A T obj) = object_typename obj"
  by (cases obj; simp)+

lemma annotation_block:
  assumes "distinct (map fst A)" "mset A = mset A'"
    and key: "\<And>c. componentOrder (f c) = componentOrder c"
  shows "sort_key componentOrder (xs @ map f (extractAnnotationModels A src b) @ zs) =
    sort_key componentOrder (xs @ map f (extractAnnotationModels A' src b) @ zs)"
proof (rule sort_key_block)
  let ?ys = "map f (extractAnnotationModels A src b)"
  have "distinct (map (\<lambda>c. ev_locator (cEvidence c)) (extractAnnotationModels A src b))"
    using assms(1) by (rule extractAnnotationModels_locators)
  moreover have "map (\<lambda>c. ev_locator (cEvidence c)) ?ys = map (\<lambda>c. ev_locator (cEvidence c)) (extractAnnotationModels A src b)"
    using key by (simp add: componentOrder_def)
  ultimately have "distinct (map (\<lambda>c. ev_locator (cEvidence c)) ?ys)" by (simp only:)
  then show "inj_on componentOrder (set ?ys)" "distinct ?ys"
    by (auto simp: inj_on_def componentOrder_def distinct_map)
  show "mset ?ys = mset (map f (extractAnnotationModels A' src b))"
    using extractAnnotationModels_perm [OF assms(2)] by simp
qed

lemma signedComponents_perm:
  assumes "distinct (map fst A)" "mset A = mset A'" "distinct (map fst T)" "mset T = mset T'"
    and "mset pods = mset pods'"
  shows "signedComponents v (withAnnotations A T obj) (tmpl\<lparr>pt_annotations := T\<rparr>) pods cfg =
    signedComponents v (withAnnotations A' T' obj) (tmpl\<lparr>pt_annotations := T'\<rparr>) pods' cfg"
proof -
  have maps: "map_of A' = map_of A" "map_of T' = map_of T"
    using assms(1-4) map_of_perm by blast+
  have ref: "firstNonEmpty k [A', T'] = firstNonEmpty k [A, T]" for k
    by (simp add: maps split: option.split)
  define f where "f = (if firstNonEmpty AnnotationSignatureRef [A, T] = '''' then (\<lambda>c. c)
          else applySignature (case v of None \<Rightarrow> NoopVerifier | Some v \<Rightarrow> v)
            (firstNonEmpty AnnotationSignatureRef [A, T]) (firstNonEmpty AnnotationModelDigest [A, T]))"
  have app: "applySignatures v cs [A, T] = map f cs" "applySignatures v cs [A', T'] = map f cs" for cs
    by (simp_all only: applySignatures_map f_def ref)
  have key: "componentOrder (f c) = componentOrder c" for c
    by (simp add: f_def componentOrder_def)
  let ?s = "specComponents (pt_spec tmpl)"
  let ?T = "\<lambda>T. extractAnnotationModels T SourcePodTemplateAnnotation defaultPodTemplateAnnotationsLocator"
  let ?A = "\<lambda>A. extractAnnotationModels A SourceWorkloadAnnotation ''metadata.annotations''"
  have "sort_key componentOrder (map f (?s pods cfg) @ map f (?T T) @ map f (?A A)) =
        sort_key componentOrder (map f (?s pods' cfg) @ map f (?T T') @ map f (?A A))"
    using annotation_block [OF assms(3,4) key] specComponents_perm [OF assms(5)] by simp
  also have "\<dots> = sort_key componentOrder (map f (?s pods' cfg) @ map f (?T T') @ map f (?A A'))"
    using annotation_block [OF assms(1,2) key, of "map f (?s pods' cfg) @ map f (?T T')" _ _ "[]"] by simp
  finally show ?thesis
    by (simp add: signedComponents_def app rawComponents_def)
qed

subsection \<open>The contract, and what a scrape returns\<close>

lemma zeroTimestamps_finish: "zeroTimestamps (finishInputs t cs) = zeroTimestamps (finishInputs t' cs)"
  by (simp add: zeroTimestamps_def finishInputs_def zeroProvenanceTimestamps_map provenanceOf_def Let_def)

lemma inference_Scrape_cases:
  "(\<exists>e. \<forall>t. inference_Scrape v t w cfg = Inl e) \<or>
   (\<exists>obj tmpl. w_object w = Some obj \<and> appsTemplate obj = Some tmpl \<and> cfg \<noteq> None \<and>
      (\<forall>t. inference_Scrape v t w cfg = Inr (finishInputs t (signedComponents v obj tmpl (w_pods w) cfg))))"
proof (cases "w_object w")
  case None
  then show ?thesis by (simp add: inference_Scrape_def)
next
  case (Some obj)
  show ?thesis
  proof (cases "cfg = None \<or> appsTemplate obj = None")
    case True
    then show ?thesis using Some by (cases cfg) (auto simp: inference_Scrape_def)
  next
    case False
    then obtain tmpl where "appsTemplate obj = Some tmpl" "cfg \<noteq> None" by auto
    with Some show ?thesis using inference_Scrape_ok by blast
  qed
qed

interpretation inference: named_scraper "inference_Scrape v" "''inference.spec''"
proof unfold_locales
  fix t t' w cfg b
  show "map_sum id zeroTimestamps (inference_Scrape v t w cfg) =
        map_sum id zeroTimestamps (inference_Scrape v t' w cfg)"
    using inference_Scrape_cases [of v w cfg] zeroTimestamps_finish [of t _ t'] by auto
  show "bi_scraperName b = ''inference.spec''" if "inference_Scrape v t w cfg = Inr b"
    using inference_Scrape_cases [of v w cfg] that by (auto simp: finishInputs_def Let_def)
  show "bi_scrapeTimestamp b = t" if "inference_Scrape v t w cfg = Inr b"
    using inference_Scrape_cases [of v w cfg] that by (auto simp: finishInputs_def Let_def)
qed

lemma length_signedComponents:
  "length (signedComponents v obj tmpl pods cfg) = length (rawComponents obj tmpl pods cfg)"
  by (simp add: signedComponents_def applySignatures_map)

lemma map_take_sorted: "sorted (map f xs) \<Longrightarrow> sorted (map f (take n xs))"
  by (metis sorted_wrt_take take_map)

text \<open>
  C6. The inference scraper is deterministic: listing the pods, the workload's annotations or the
  template's annotations in another order gives the same error or the same inputs.
\<close>

theorem inference_scrape_deterministic:
  assumes "distinct (map fst A)" "mset A = mset A'" "distinct (map fst T)" "mset T = mset T'"
    and "mset pods = mset pods'"
  shows "inference_Scrape v t (w\<lparr>w_object := Some (withAnnotations A T obj), w_pods := pods\<rparr>) cfg =
         inference_Scrape v t (w\<lparr>w_object := Some (withAnnotations A' T' obj), w_pods := pods'\<rparr>) cfg"
proof (cases "cfg = None \<or> appsTemplate obj = None")
  case True
  then show ?thesis by (auto simp: inference_Scrape_def unsupportedObject_def)
next
  case False
  then obtain tmpl where "appsTemplate obj = Some tmpl" "cfg \<noteq> None" by auto
  then show ?thesis
    using signedComponents_perm [OF assms] by (simp add: inference_Scrape_ok)
qed

text \<open>
  C2. A scrape of an apps/v1 object with a configuration always succeeds; its components are sorted by
  type, name and locator, at most 256 of them are kept, the number dropped is recorded exactly, and the
  confidence is the aggregate of the kept components.
\<close>

theorem inference_scrape_bounded:
  assumes "w_object w = Some obj" "appsTemplate obj = Some tmpl"
  shows "\<exists>b. inference_Scrape v t w (Some cfg) = Inr b \<and>
    length (bi_components b) \<le> 256 \<and>
    int (length (bi_components b)) + bi_truncatedComponents b = int (length (rawComponents obj tmpl (w_pods w) (Some cfg))) \<and>
    (bi_truncatedComponents b > 0 \<longrightarrow> length (bi_components b) = 256) \<and>
    sorted (map componentOrder (bi_components b)) \<and>
    bi_confidence b = aggregateConfidence (bi_components b)"
proof -
  let ?cs = "signedComponents v obj tmpl (w_pods w) (Some cfg)"
  have "sorted (map componentOrder ?cs)" by (simp add: signedComponents_def)
  then have "sorted (map componentOrder (take MaxComponentsPerDocument ?cs))" by (rule map_take_sorted)
  then show ?thesis
    using inference_Scrape_ok [OF assms, of "Some cfg" v t] length_signedComponents [of v obj tmpl "w_pods w" "Some cfg"]
    by (simp add: finishInputs_def Let_def MaxComponentsPerDocument_def)
qed

text \<open>
  The workload confidence: inferred as soon as one application or model component is inferred,
  otherwise declared if one is declared, otherwise unresolved; containers and data never count.
\<close>

theorem aggregateConfidence_meaning:
  "aggregateConfidence cs =
    (let counted = {cConfidence c |c. c \<in> set cs \<and> cType c \<in> {ComponentApplication, ComponentMLModel}}
     in if ConfidenceInferred \<in> counted then ConfidenceInferred
        else if ConfidenceDeclared \<in> counted then ConfidenceDeclared else ConfidenceUnresolved)"
proof -
  have "x \<in> {cConfidence c |c. c \<in> set cs \<and> cType c \<in> {ComponentApplication, ComponentMLModel}} \<longleftrightarrow>
      (\<exists>c \<in> set cs. countsForConfidence c \<and> cConfidence c = x)" for x
    by (auto simp: countsForConfidence_def)
  then show ?thesis unfolding aggregateConfidence_spec Let_def by presburger
qed

definition exampleConfig :: InferenceConfig where
  "exampleConfig = \<lparr>ic_runtimeImagePatterns = [], ic_modelEnvVarNames = [''HF_MODEL_ID''],
     ic_modelArgFlags = [''--model''], ic_modelVolumePathPrefixes = [''/models'']\<rparr>"

definition exampleTemplate :: pod_template where
  "exampleTemplate = \<lparr>pt_annotations = [], pt_spec = emptyPodSpec\<lparr>ps_containers :=
     [\<lparr>ct_name = ''m'', ct_image = ''vllm/vllm-openai:v0.6.3'', ct_args = [''--model'', ''llama''],
       ct_env = [], ct_volumeMounts = []\<rparr>]\<rparr>\<rparr>"

definition exampleWorkload :: Workload where
  "exampleWorkload = \<lparr>w_kind = \<lparr>wk_group = ''apps'', wk_version = ''v1'', wk_kind = ''Deployment''\<rparr>,
     w_category = CategoryInference, w_namespace = ''ml'', w_name = ''llm'', w_uid = ''u1'',
     w_object = Some (Deployment emptyMeta exampleTemplate), w_pods = []\<rparr>"

theorem inference_scrape_bounded_witness:
  "\<exists>b. inference_Scrape None 0 exampleWorkload (Some exampleConfig) = Inr b \<and> length (bi_components b) \<le> 256 \<and>
     sorted (map componentOrder (bi_components b))"
  using inference_scrape_bounded [of exampleWorkload "Deployment emptyMeta exampleTemplate" exampleTemplate None 0 exampleConfig]
  by (auto simp: exampleWorkload_def)

theorem inference_scrape_deterministic_witness:
  "inference_Scrape None 0 (exampleWorkload\<lparr>w_object := Some (withAnnotations [(''model.k8saibom.dev/a'', ''x''), (''model.k8saibom.dev/b'', ''y'')] []
        (Deployment emptyMeta exampleTemplate)), w_pods := []\<rparr>) (Some exampleConfig) =
   inference_Scrape None 0 (exampleWorkload\<lparr>w_object := Some (withAnnotations [(''model.k8saibom.dev/b'', ''y''), (''model.k8saibom.dev/a'', ''x'')] []
        (Deployment emptyMeta exampleTemplate)), w_pods := []\<rparr>) (Some exampleConfig)"
  by (rule inference_scrape_deterministic) simp_all

end
