(* ===== verification/Category_Scrapers.thy ===== *)
theory Category_Scrapers
  imports Inference_Spec
begin

text \<open>
  The four category scrapers of \<^verbatim>\<open>internal/scraper\<close>: \<^verbatim>\<open>training.go\<close>, \<^verbatim>\<open>eval.go\<close>, \<^verbatim>\<open>vectordb.go\<close> and \<^verbatim>\<open>agent.go\<close>.
  Their fixed image patterns are values of the pattern type of \<open>Go_Regexp\<close> next to their source text, which the
  scrapers copy into a property.
\<close>

record ImagePattern =
  ip_name :: string
  ip_text :: string
  ip_pattern :: re

text \<open>\<^verbatim>\<open>(?:[:@]|$)\<close> and \<^verbatim>\<open>^(?:.*/)?\<close>\<close>

definition refEnd :: re where "refEnd = RAlt (RCls [one CHR '':'', one CHR ''@''] False) REnd"
definition anyPath :: re where "anyPath = opt (RSeq (RStar dot) (chr CHR ''/''))"

definition prefixPattern :: "string \<Rightarrow> string \<Rightarrow> string \<Rightarrow> ImagePattern" where
  "prefixPattern name text w = \<lparr>ip_name = name, ip_text = text, ip_pattern = seqs [RBegin, lit w, RStar dot]\<rparr>"

definition repoPattern :: "string \<Rightarrow> string \<Rightarrow> re \<Rightarrow> ImagePattern" where
  "repoPattern name text r = \<lparr>ip_name = name, ip_text = text, ip_pattern = seqs [RBegin, r, refEnd]\<rparr>"

definition DefaultTrainingImagePatterns :: "ImagePattern list" where
  "DefaultTrainingImagePatterns =
    [prefixPattern ''pytorch'' ''^pytorch/pytorch.*'' ''pytorch/pytorch'',
     prefixPattern ''kuberay'' ''^rayproject/ray.*'' ''rayproject/ray'',
     prefixPattern ''jax'' (''^ghcr'' @ [CHR 0x5C] @ ''.io/google/jax.*'') ''ghcr.io/google/jax'',
     prefixPattern ''accelerate'' ''^huggingface/accelerate.*'' ''huggingface/accelerate'']"

definition TrainingEnvSignatures :: gomap where
  "TrainingEnvSignatures = [(''WANDB_API_KEY'', ''wandb'')]"

definition DefaultEvalImagePatterns :: "ImagePattern list" where
  "DefaultEvalImagePatterns =
    [prefixPattern ''lm-eval'' ''^eleutherai/lm-eval.*'' ''eleutherai/lm-eval'',
     repoPattern ''ragas'' ''^(?:.*/)?ragas(?:[:@]|$)'' (RSeq anyPath (lit ''ragas'')),
     repoPattern ''trulens'' ''^(?:.*/)?trulens(?:[:@]|$)'' (RSeq anyPath (lit ''trulens''))]"

definition DefaultVectorDBPatterns :: "ImagePattern list" where
  "DefaultVectorDBPatterns =
    [repoPattern ''milvus'' ''^milvusdb/milvus(?:-dev)?(?:[:@]|$)'' (RSeq (lit ''milvusdb/milvus'') (opt (lit ''-dev''))),
     repoPattern ''qdrant'' ''^qdrant/qdrant(?:[:@]|$)'' (lit ''qdrant/qdrant''),
     repoPattern ''weaviate'' ''^(?:.*/)?weaviate(?:[:@]|$)'' (RSeq anyPath (lit ''weaviate'')),
     repoPattern ''chroma'' ''^chromadb/chroma(?:[:@]|$)'' (lit ''chromadb/chroma''),
     repoPattern ''pgvector'' ''^(?:.*/)?pgvector(?:[:@]|$)'' (RSeq anyPath (lit ''pgvector'')),
     repoPattern ''vespa'' ''^vespaengine/vespa(?:-generic-intel-x86_64)?(?:[:@]|$)''
       (RSeq (lit ''vespaengine/vespa'') (opt (lit ''-generic-intel-x86_64'')))]"

definition DefaultAgentImagePatterns :: "ImagePattern list" where
  "DefaultAgentImagePatterns =
    [prefixPattern ''langflow'' ''^langflowai/langflow.*'' ''langflowai/langflow'',
     prefixPattern ''flowise'' ''^flowiseai/flowise.*'' ''flowiseai/flowise'',
     prefixPattern ''chainlit'' ''^chainlit/chainlit.*'' ''chainlit/chainlit'',
     prefixPattern ''haystack'' ''^deepset/haystack.*'' ''deepset/haystack'',
     repoPattern ''llamaindex'' ''^(?:.*/)?llama-index(?:[:@]|$)'' (RSeq anyPath (lit ''llama-index''))]"

definition AgentEnvSignatures :: gomap where
  "AgentEnvSignatures =
    [(''LANGCHAIN_TRACING_V2'', ''langchain''), (''LANGCHAIN_API_KEY'', ''langchain''),
     (''AUTOGEN_USE_DOCKER'', ''autogen''), (''CREWAI_TELEMETRY_OPT_OUT'', ''crewai''),
     (''PIPELINE_YAML_PATH'', ''haystack''), (''DSPY_PROFILES_PATH'', ''dspy''),
     (''LLAMA_CLOUD_API_KEY'', ''llamaindex'')]"

definition ExternalAPISignatures :: gomap where
  "ExternalAPISignatures =
    [(''OPENAI_API_KEY'', ''openai-api''), (''ANTHROPIC_API_KEY'', ''anthropic-api''),
     (''GEMINI_API_KEY'', ''gemini-api''), (''COHERE_API_KEY'', ''cohere-api''),
     (''AZURE_OPENAI_API_KEY'', ''azure-openai-api''), (''AZURE_OPENAI_ENDPOINT'', ''azure-openai-api'')]"

subsection \<open>Component builders\<close>

definition imageMatches :: "ImagePattern list \<Rightarrow> string \<Rightarrow> string \<Rightarrow> Component list" where
  "imageMatches pats img locator =
     map (\<lambda>p. mkComponent ComponentApplication (ip_name p) '''' ConfidenceInferred
          \<lparr>ev_source = SourceImagePattern, ev_locator = locator\<rparr>
          [(''runtime.name'', ip_name p), (''runtime.pattern'', ip_text p)])
       (filter (\<lambda>p. matchString (ip_pattern p) img) pats)"

text \<open>One component per environment variable whose name is a signature key.\<close>

definition envMatches :: "gomap \<Rightarrow> env_var list \<Rightarrow> (string \<Rightarrow> string \<Rightarrow> Component) \<Rightarrow> Component list" where
  "envMatches sigs env mk = concat (map (\<lambda>e. case map_of sigs (env_name e) of
     None \<Rightarrow> [] | Some fw \<Rightarrow> [mk fw (env_name e)]) env)"

definition isDatasetMount :: "volume_mount \<Rightarrow> bool" where
  "isDatasetMount vm \<longleftrightarrow> vm_name vm = ''dataset'' \<or> vm_name vm = ''training-data'' \<or> vm_mountPath vm = ''/data''"

definition datasetComponent :: "string \<Rightarrow> volume_mount \<Rightarrow> Component" where
  "datasetComponent locator vm = mkComponent ComponentData (vm_name vm) '''' ConfidenceInferred
     \<lparr>ev_source = SourceVolumeSource, ev_locator = locator\<rparr> [(''dataset.path'', vm_mountPath vm)]"

definition datasetMountComponents :: "container \<Rightarrow> nat \<Rightarrow> string \<Rightarrow> Component list" where
  "datasetMountComponents c idx specLocator =
     map (\<lambda>vm. datasetComponent (specLocator @ ''.containers['' @ showNat idx @ ''].volumeMounts['' @ vm_name vm @ '']'') vm)
       (filter isDatasetMount (ct_volumeMounts c))"

fun jobTemplate :: "k8s_object \<Rightarrow> (pod_template \<times> string) option" where
  "jobTemplate (Job _ t) = Some (t, ''spec.template.spec'')"
| "jobTemplate (CronJob _ t) = Some (t, ''spec.jobTemplate.spec.template.spec'')"
| "jobTemplate _ = None"

definition startInputs :: "string \<Rightarrow> time \<Rightarrow> BOMInputs" where
  "startInputs name t = emptyInputs\<lparr>bi_scraperName := name, bi_scrapeTimestamp := t,
     bi_confidence := ConfidenceUnresolved\<rparr>"

text \<open>What a scraper records once it has recognised the workload.\<close>

definition recognised :: "string \<Rightarrow> WorkloadCategory \<Rightarrow> time \<Rightarrow> BOMInputs \<Rightarrow> BOMInputs" where
  "recognised name cat t b = b\<lparr>bi_confidence := ConfidenceInferred, bi_category := cat,
     bi_provenance := [provenanceOf name t]\<rparr>"

subsection \<open>training.spec\<close>

definition training_HandlesKind :: "WorkloadKind \<Rightarrow> bool" where
  "training_HandlesKind k \<longleftrightarrow>
     wk_group k = ''batch'' \<and> (wk_kind k = ''Job'' \<or> wk_kind k = ''CronJob'') \<or>
     wk_group k = ''kubeflow.org'' \<and> wk_kind k = ''PyTorchJob'' \<or>
     wk_group k = ''ray.io'' \<and> wk_kind k = ''RayJob''"

definition envPresent :: "string \<Rightarrow> string \<Rightarrow> Component" where
  "envPresent locator fwName = mkComponent ComponentApplication fwName '''' ConfidenceInferred
     \<lparr>ev_source = SourceEnvVarNamePresent, ev_locator = locator\<rparr> []"

definition trainingSignals :: "string \<Rightarrow> nat \<times> container \<Rightarrow> Component list" where
  "trainingSignals specLocator ic = (case ic of (i, c) \<Rightarrow>
     let base = specLocator @ ''.containers['' @ showNat i @ '']'' in
     imageMatches DefaultTrainingImagePatterns (ct_image c) (base @ ''.image'') @
     envMatches TrainingEnvSignatures (ct_env c) (\<lambda>fw n. envPresent (base @ ''.env['' @ n @ '']'') fw))"

definition training_scrapePodTemplate :: "BOMInputs \<Rightarrow> pod_template \<Rightarrow> string \<Rightarrow> BOMInputs" where
  "training_scrapePodTemplate inputs tmpl specLocator =
    (let cts = enumerate 0 (ps_containers (pt_spec tmpl));
         out = inputs\<lparr>bi_components := bi_components inputs @
           concat (map (\<lambda>(i, c). trainingSignals specLocator (i, c) @ datasetMountComponents c i specLocator) cts)\<rparr>
     in if list_ex (\<lambda>ic. trainingSignals specLocator ic \<noteq> []) cts
        then recognised ''training.spec'' CategoryTraining (bi_scrapeTimestamp inputs) out else out)"

definition podSignals :: "container \<Rightarrow> Component list" where
  "podSignals c = imageMatches DefaultTrainingImagePatterns (ct_image c) ''spec.containers.image'' @
     envMatches TrainingEnvSignatures (ct_env c) (\<lambda>fw n. envPresent (''spec.containers.env['' @ n @ '']'') fw)"

definition training_scrapePods :: "BOMInputs \<Rightarrow> pod list \<Rightarrow> BOMInputs" where
  "training_scrapePods inputs pods =
    (let cts = concat (map (\<lambda>p. ps_containers (pod.pod_spec p)) pods);
         out = inputs\<lparr>bi_components := bi_components inputs @
           concat (map (\<lambda>c. podSignals c @
             map (\<lambda>vm. datasetComponent (''spec.containers.volumeMounts['' @ vm_name vm @ '']'') vm)
               (filter isDatasetMount (ct_volumeMounts c))) cts)\<rparr>
     in if list_ex (\<lambda>c. podSignals c \<noteq> []) cts
        then recognised ''training.spec'' CategoryTraining (bi_scrapeTimestamp inputs) out else out)"

text \<open>A nil object takes the default branch of the type switch, like any other object.\<close>

definition training_Scrape :: "time \<Rightarrow> Workload \<Rightarrow> InferenceConfig option \<Rightarrow> go_error + BOMInputs" where
  "training_Scrape t w cfg =
    (let inputs = startInputs ''training.spec'' t in
     case Option.bind (w_object w) jobTemplate of
       Some (tmpl, specLocator) \<Rightarrow> Inr (training_scrapePodTemplate inputs tmpl specLocator)
     | None \<Rightarrow> Inr (Deduplicate (training_scrapePods inputs (w_pods w))))"

subsection \<open>eval.spec\<close>

definition eval_HandlesKind :: "WorkloadKind \<Rightarrow> bool" where
  "eval_HandlesKind k \<longleftrightarrow> wk_group k = ''batch'' \<and> wk_kind k = ''Job'' \<or> wk_group k = ''batch'' \<and> wk_kind k = ''CronJob''"

definition evalSignals :: "string \<Rightarrow> nat \<times> container \<Rightarrow> Component list" where
  "evalSignals specLocator ic = (case ic of (i, c) \<Rightarrow>
     imageMatches DefaultEvalImagePatterns (ct_image c) (specLocator @ ''.containers['' @ showNat i @ ''].image''))"

definition eval_scrapePodTemplate :: "BOMInputs \<Rightarrow> pod_template \<Rightarrow> string \<Rightarrow> BOMInputs \<times> bool" where
  "eval_scrapePodTemplate inputs tmpl specLocator =
    (let cts = enumerate 0 (ps_containers (pt_spec tmpl)) in
     (inputs\<lparr>bi_components := bi_components inputs @
        concat (map (\<lambda>(i, c). evalSignals specLocator (i, c) @ datasetMountComponents c i specLocator) cts)\<rparr>,
      list_ex (\<lambda>ic. evalSignals specLocator ic \<noteq> []) cts))"

text \<open>\<^verbatim>\<open>%T\<close> of a nil object prints \<^verbatim>\<open><nil>\<close>.\<close>

definition unsupportedOrNil :: "string \<Rightarrow> Workload \<Rightarrow> go_error" where
  "unsupportedOrNil name w = (case w_object w of
     Some obj \<Rightarrow> unsupportedObject name obj (w_kind w)
   | None \<Rightarrow> ErrorString (name @ '': unsupported object type <nil> for kind '' @ kindPath (w_kind w)))"

definition eval_Scrape :: "time \<Rightarrow> Workload \<Rightarrow> InferenceConfig option \<Rightarrow> go_error + BOMInputs" where
  "eval_Scrape t w cfg =
    (case Option.bind (w_object w) jobTemplate of
       None \<Rightarrow> Inl (unsupportedOrNil ''eval.spec'' w)
     | Some (tmpl, specLocator) \<Rightarrow>
        (case eval_scrapePodTemplate (startInputs ''eval.spec'' t) tmpl specLocator of
           (inputs, isEval) \<Rightarrow> Inr (if isEval then recognised ''eval.spec'' CategoryEvaluation t inputs else inputs)))"

subsection \<open>vectordb.spec\<close>

definition apps_HandlesKind :: "WorkloadKind \<Rightarrow> bool" where
  "apps_HandlesKind k \<longleftrightarrow> wk_group k = ''apps'' \<and>
     (wk_kind k = ''Deployment'' \<or> wk_kind k = ''StatefulSet'' \<or> wk_kind k = ''DaemonSet'')"

definition vectordbSignals :: "nat \<times> container \<Rightarrow> Component list" where
  "vectordbSignals ic = (case ic of (i, c) \<Rightarrow>
     imageMatches DefaultVectorDBPatterns (ct_image c) (''spec.template.spec.containers['' @ showNat i @ ''].image''))"

definition vectordb_scrapePodTemplate :: "BOMInputs \<Rightarrow> pod_template \<Rightarrow> time \<Rightarrow> BOMInputs" where
  "vectordb_scrapePodTemplate inputs tmpl t =
    (let found = concat (map vectordbSignals (enumerate 0 (ps_containers (pt_spec tmpl))));
         out = inputs\<lparr>bi_components := bi_components inputs @ found,
                 bi_confidence := (if found \<noteq> [] then ConfidenceInferred else bi_confidence inputs)\<rparr>
     in if length (bi_components out) > 0
        then out\<lparr>bi_category := CategoryVectorDB, bi_provenance := [provenanceOf ''vectordb.spec'' t]\<rparr> else out)"

definition vectordb_Scrape :: "time \<Rightarrow> Workload \<Rightarrow> InferenceConfig option \<Rightarrow> go_error + BOMInputs" where
  "vectordb_Scrape t w cfg =
    (case Option.bind (w_object w) appsTemplate of
       None \<Rightarrow> Inl (unsupportedOrNil ''vectordb.spec'' w)
     | Some tmpl \<Rightarrow> Inr (vectordb_scrapePodTemplate (startInputs ''vectordb.spec'' t) tmpl t))"

subsection \<open>agent.spec\<close>

definition agentFrameworks :: "nat \<times> container \<Rightarrow> Component list" where
  "agentFrameworks ic = (case ic of (i, c) \<Rightarrow>
     let base = ''spec.template.spec.containers['' @ showNat i @ '']'' in
     imageMatches DefaultAgentImagePatterns (ct_image c) (base @ ''.image'') @
     envMatches AgentEnvSignatures (ct_env c) (\<lambda>fw n.
       mkComponent ComponentApplication fw '''' ConfidenceInferred
         \<lparr>ev_source = SourceEnvVarNamePresent, ev_locator = base @ ''.env['' @ n @ '']''\<rparr> [(''runtime.name'', fw)]))"

definition agentAPIs :: "nat \<times> container \<Rightarrow> Component list" where
  "agentAPIs ic = (case ic of (i, c) \<Rightarrow>
     let base = ''spec.template.spec.containers['' @ showNat i @ '']'' in
     concat (map (\<lambda>e. case map_of ExternalAPISignatures (env_name e) of
         None \<Rightarrow> []
       | Some api \<Rightarrow>
          if env_valueFrom e then
            [mkComponent ComponentMLModel api '''' ConfidenceUnresolved
               \<lparr>ev_source = SourceEnvVarNamePresent, ev_locator = base @ ''.env['' @ env_name e @ ''].valueFrom''\<rparr>
               [(''dependency.type'', ''remote-api'')]]
          else
            [mkComponent ComponentMLModel api '''' ConfidenceInferred
               \<lparr>ev_source = SourceEnvVarNamePresent, ev_locator = base @ ''.env['' @ env_name e @ '']''\<rparr>
               [(''dependency.type'', ''remote-api'')]]) (ct_env c)))"

definition agent_scrapePodTemplate :: "BOMInputs \<Rightarrow> pod_template \<Rightarrow> BOMInputs \<times> bool \<times> bool" where
  "agent_scrapePodTemplate inputs tmpl =
    (let cts = enumerate 0 (ps_containers (pt_spec tmpl)) in
     (inputs\<lparr>bi_components := bi_components inputs @ concat (map (\<lambda>ic. agentFrameworks ic @ agentAPIs ic) cts)\<rparr>,
      list_ex (\<lambda>ic. agentFrameworks ic \<noteq> []) cts,
      list_ex (\<lambda>ic. agentFrameworks ic \<noteq> [] \<or> agentAPIs ic \<noteq> []) cts))"

definition agent_Scrape :: "time \<Rightarrow> Workload \<Rightarrow> InferenceConfig option \<Rightarrow> go_error + BOMInputs" where
  "agent_Scrape t w cfg =
    (case Option.bind (w_object w) appsTemplate of
       None \<Rightarrow> Inl (unsupportedOrNil ''agent.spec'' w)
     | Some tmpl \<Rightarrow>
        (case agent_scrapePodTemplate (startInputs ''agent.spec'' t) tmpl of
           (inputs, hasFramework, hasComponents) \<Rightarrow>
             Inr (if hasComponents
                  then inputs\<lparr>bi_confidence := ConfidenceInferred, bi_provenance := [provenanceOf ''agent.spec'' t],
                         bi_category := (if hasFramework then CategoryAgent else bi_category inputs)\<rparr>
                  else inputs)))"

subsection \<open>The contract\<close>

lemmas category_defs = startInputs_def emptyInputs_def recognised_def provenanceOf_def zeroTimestamps_def
  zeroProvenanceTimestamps_map Let_def

lemma scrapePodTemplate_clock:
  "zeroTimestamps (training_scrapePodTemplate (startInputs n t) tmpl loc) =
   zeroTimestamps (training_scrapePodTemplate (startInputs n t') tmpl loc)"
  "zeroTimestamps (Deduplicate (training_scrapePods (startInputs n t) pods)) =
   zeroTimestamps (Deduplicate (training_scrapePods (startInputs n t') pods))"
  "zeroTimestamps (vectordb_scrapePodTemplate (startInputs n t) tmpl t) =
   zeroTimestamps (vectordb_scrapePodTemplate (startInputs n t') tmpl t')"
  by (simp_all add: training_scrapePodTemplate_def training_scrapePods_def vectordb_scrapePodTemplate_def
      Deduplicate_def category_defs)

interpretation training: named_scraper training_Scrape "''training.spec''"
proof unfold_locales
  fix t t' w cfg b
  show "map_sum id zeroTimestamps (training_Scrape t w cfg) = map_sum id zeroTimestamps (training_Scrape t' w cfg)"
    using scrapePodTemplate_clock by (auto simp: training_Scrape_def Let_def split: option.splits)
  show "bi_scraperName b = ''training.spec''" "bi_scrapeTimestamp b = t" if "training_Scrape t w cfg = Inr b"
    using that by (auto simp: training_Scrape_def training_scrapePodTemplate_def training_scrapePods_def
        Deduplicate_def category_defs split: option.splits if_splits)
qed

interpretation eval: named_scraper eval_Scrape "''eval.spec''"
proof unfold_locales
  fix t t' w cfg b
  show "map_sum id zeroTimestamps (eval_Scrape t w cfg) = map_sum id zeroTimestamps (eval_Scrape t' w cfg)"
    by (auto simp: eval_Scrape_def eval_scrapePodTemplate_def category_defs split: option.splits)
  show "bi_scraperName b = ''eval.spec''" "bi_scrapeTimestamp b = t" if "eval_Scrape t w cfg = Inr b"
    using that by (auto simp: eval_Scrape_def eval_scrapePodTemplate_def category_defs split: option.splits if_splits)
qed

interpretation vectordb: named_scraper vectordb_Scrape "''vectordb.spec''"
proof unfold_locales
  fix t t' w cfg b
  show "map_sum id zeroTimestamps (vectordb_Scrape t w cfg) = map_sum id zeroTimestamps (vectordb_Scrape t' w cfg)"
    using scrapePodTemplate_clock by (auto simp: vectordb_Scrape_def split: option.splits)
  show "bi_scraperName b = ''vectordb.spec''" "bi_scrapeTimestamp b = t" if "vectordb_Scrape t w cfg = Inr b"
    using that by (auto simp: vectordb_Scrape_def vectordb_scrapePodTemplate_def category_defs split: option.splits if_splits)
qed

interpretation agent: named_scraper agent_Scrape "''agent.spec''"
proof unfold_locales
  fix t t' w cfg b
  show "map_sum id zeroTimestamps (agent_Scrape t w cfg) = map_sum id zeroTimestamps (agent_Scrape t' w cfg)"
    by (auto simp: agent_Scrape_def agent_scrapePodTemplate_def category_defs split: option.splits)
  show "bi_scraperName b = ''agent.spec''" "bi_scrapeTimestamp b = t" if "agent_Scrape t w cfg = Inr b"
    using that by (auto simp: agent_Scrape_def agent_scrapePodTemplate_def category_defs split: option.splits if_splits)
qed

subsection \<open>No environment value is ever read\<close>

text \<open>\<open>setEnvValues g\<close> replaces the value of every environment variable of every container.\<close>

definition setEnvValues :: "(env_var \<Rightarrow> string) \<Rightarrow> pod_template \<Rightarrow> pod_template" where
  "setEnvValues g t = t\<lparr>pt_spec := (pt_spec t)\<lparr>ps_containers :=
     map (\<lambda>c. c\<lparr>ct_env := map (\<lambda>e. e\<lparr>env_value := g e\<rparr>) (ct_env c)\<rparr>) (ps_containers (pt_spec t))\<rparr>\<rparr>"

fun mapTemplate :: "(pod_template \<Rightarrow> pod_template) \<Rightarrow> k8s_object \<Rightarrow> k8s_object" where
  "mapTemplate f (Deployment m t) = Deployment m (f t)"
| "mapTemplate f (StatefulSet m t) = StatefulSet m (f t)"
| "mapTemplate f (DaemonSet m t) = DaemonSet m (f t)"
| "mapTemplate f (Job m t) = Job m (f t)"
| "mapTemplate f (CronJob m t) = CronJob m (f t)"
| "mapTemplate f (Unstructured m j) = Unstructured m j"

lemma mapTemplate_simps [simp]:
  "appsTemplate (mapTemplate f obj) = map_option f (appsTemplate obj)"
  "jobTemplate (mapTemplate f obj) = map_option (\<lambda>(t, l). (f t, l)) (jobTemplate obj)"
  "object_typename (mapTemplate f obj) = object_typename obj"
  by (cases obj; simp)+

lemma envMatches_values:
  "envMatches sigs (map (\<lambda>e. e\<lparr>env_value := g e\<rparr>) env) mk = envMatches sigs env mk"
  by (simp add: envMatches_def comp_def cong: option.case_cong)

lemma signals_values:
  fixes c g
  defines "c' \<equiv> c\<lparr>ct_env := map (\<lambda>e. e\<lparr>env_value := g e\<rparr>) (ct_env c)\<rparr>"
  shows "agentFrameworks (i, c') = agentFrameworks (i, c)" "agentAPIs (i, c') = agentAPIs (i, c)"
    and "trainingSignals loc (i, c') = trainingSignals loc (i, c)"
    and "evalSignals loc (i, c') = evalSignals loc (i, c)" "vectordbSignals (i, c') = vectordbSignals (i, c)"
    and "datasetMountComponents c' i loc = datasetMountComponents c i loc"
  by (simp_all add: c'_def agentFrameworks_def agentAPIs_def trainingSignals_def evalSignals_def
      vectordbSignals_def datasetMountComponents_def envMatches_values comp_def Let_def
      cong: option.case_cong if_cong)

lemma enumerate_map: "enumerate n (map f xs) = map (\<lambda>(i, x). (i, f x)) (enumerate n xs)"
  by (induction xs arbitrary: n) simp_all

lemma setEnvValues_containers:
  "enumerate 0 (ps_containers (pt_spec (setEnvValues g t))) =
   map (\<lambda>(i, c). (i, c\<lparr>ct_env := map (\<lambda>e. e\<lparr>env_value := g e\<rparr>) (ct_env c)\<rparr>)) (enumerate 0 (ps_containers (pt_spec t)))"
  by (simp add: setEnvValues_def enumerate_map)

lemma list_ex_map: "list_ex P (map f xs) = list_ex (\<lambda>x. P (f x)) xs"
  by (induction xs) simp_all

lemma templates_values:
  "training_scrapePodTemplate b (setEnvValues g t) loc = training_scrapePodTemplate b t loc"
  "eval_scrapePodTemplate b (setEnvValues g t) loc = eval_scrapePodTemplate b t loc"
  "vectordb_scrapePodTemplate b (setEnvValues g t) tm = vectordb_scrapePodTemplate b t tm"
  "agent_scrapePodTemplate b (setEnvValues g t) = agent_scrapePodTemplate b t"
  unfolding training_scrapePodTemplate_def eval_scrapePodTemplate_def vectordb_scrapePodTemplate_def
    agent_scrapePodTemplate_def setEnvValues_containers
  by (simp_all add: comp_def case_prod_unfold signals_values list_ex_map Let_def)

text \<open>
  The category scrapers never read a value of an environment variable: changing any values in the
  pod template (API keys, tokens) leaves the result of the agent, training, evaluation and vector-database
  scrapers of that template unchanged.
\<close>

theorem category_scrapers_ignore_env_values:
  "let w' = w\<lparr>w_object := map_option (mapTemplate (setEnvValues g)) (w_object w)\<rparr> in
   agent_Scrape t w' cfg = agent_Scrape t w cfg \<and> training_Scrape t w' cfg = training_Scrape t w cfg \<and>
   eval_Scrape t w' cfg = eval_Scrape t w cfg \<and> vectordb_Scrape t w' cfg = vectordb_Scrape t w cfg"
proof -
  have nt: "unsupportedOrNil n (w\<lparr>w_object := map_option (mapTemplate (setEnvValues g)) (w_object w)\<rparr>) = unsupportedOrNil n w" for n
    by (simp add: unsupportedOrNil_def unsupportedObject_def split: option.split)
  show ?thesis
    unfolding Let_def agent_Scrape_def training_Scrape_def eval_Scrape_def vectordb_Scrape_def nt
    by (cases "w_object w") (auto simp: templates_values split: option.splits)
qed

end
