(* ===== verification/Multi_Scraper.thy ===== *)
theory Multi_Scraper
  imports Category_Scrapers
begin

text \<open>
  \<^verbatim>\<open>internal/scraper/multi.go\<close>: several scrapers run over one workload and their results are merged. The
  i-th scraper reads the clock as \<open>clock i\<close>. \<open>multiLoop\<close> is the loop of \<^verbatim>\<open>Scrape\<close>; \<open>multi_meaning\<close> shows
  what it computes.
\<close>

record Scraper =
  scr_name :: string
  scr_handlesKind :: "WorkloadKind \<Rightarrow> bool"
  scr_scrape :: "time \<Rightarrow> Workload \<Rightarrow> InferenceConfig option \<Rightarrow> go_error + BOMInputs"

definition containerComponents :: "Component list \<Rightarrow> Component list" where
  "containerComponents cs = filter (\<lambda>c. cType c = ComponentContainer) cs"

fun categoryPriority :: "WorkloadCategory \<Rightarrow> int" where
  "categoryPriority CategoryAgent = 7"
| "categoryPriority CategoryTraining = 6"
| "categoryPriority CategoryEvaluation = 5"
| "categoryPriority CategoryVectorDB = 4"
| "categoryPriority CategoryPipeline = 3"
| "categoryPriority CategoryNotebook = 2"
| "categoryPriority CategoryInference = 1"
| "categoryPriority CategoryNone = 0"

record multi_state =
  ms_final :: "BOMInputs option"
  ms_merged :: bool
  ms_carried :: "Component list"
  ms_carriedProvenance :: "Provenance list"
  ms_carriedTruncated :: int

definition mergeInputs :: "BOMInputs \<Rightarrow> BOMInputs \<Rightarrow> BOMInputs" where
  "mergeInputs final inputs = final\<lparr>
     bi_components := bi_components final @ bi_components inputs,
     bi_services := bi_services final @ bi_services inputs,
     bi_provenance := bi_provenance final @ bi_provenance inputs,
     bi_errors := bi_errors final @ bi_errors inputs,
     bi_truncatedComponents := bi_truncatedComponents final + bi_truncatedComponents inputs,
     bi_confidence := (if bi_confidence inputs = ConfidenceInferred then ConfidenceInferred else bi_confidence final),
     bi_category := (if bi_category inputs \<noteq> CategoryNone \<and>
         (bi_category final = CategoryNone \<or> categoryPriority (bi_category inputs) > categoryPriority (bi_category final))
       then bi_category inputs else bi_category final)\<rparr>"

definition multiStep :: "BOMInputs \<Rightarrow> multi_state \<Rightarrow> multi_state" where
  "multiStep inputs st =
    (if bi_confidence inputs = ConfidenceUnresolved then
       (let cs = containerComponents (bi_components inputs) in
        if length cs > 0 then st\<lparr>ms_carried := ms_carried st @ cs,
             ms_carriedProvenance := ms_carriedProvenance st @ bi_provenance inputs,
             ms_carriedTruncated := ms_carriedTruncated st + bi_truncatedComponents inputs\<rparr>
        else st)
     else (case ms_final st of
        None \<Rightarrow> st\<lparr>ms_final := Some inputs\<rparr>
      | Some final \<Rightarrow> st\<lparr>ms_merged := True, ms_final := Some (mergeInputs final inputs)\<rparr>))"

fun multiLoop :: "(nat \<Rightarrow> time) \<Rightarrow> nat \<Rightarrow> Scraper list \<Rightarrow> Workload \<Rightarrow> InferenceConfig option \<Rightarrow> multi_state \<Rightarrow> go_error + multi_state" where
  "multiLoop clock i [] w cfg st = Inr st"
| "multiLoop clock i (s # ss) w cfg st =
    (if \<not> scr_handlesKind s (w_kind w) then multiLoop clock (Suc i) ss w cfg st
     else case scr_scrape s (clock i) w cfg of
        Inl e \<Rightarrow> Inl e
      | Inr inputs \<Rightarrow> multiLoop clock (Suc i) ss w cfg (multiStep inputs st))"

definition multiStart :: multi_state where
  "multiStart = \<lparr>ms_final = None, ms_merged = False, ms_carried = [], ms_carriedProvenance = [], ms_carriedTruncated = 0\<rparr>"

definition multiFinish :: "multi_state \<Rightarrow> BOMInputs" where
  "multiFinish st = (case ms_final st of
     None \<Rightarrow> emptyInputs\<lparr>bi_scraperName := ''multi.spec'', bi_confidence := ConfidenceUnresolved\<rparr>
   | Some final \<Rightarrow>
      (let with_carried = (if length (ms_carried st) > 0
             then final\<lparr>bi_components := ms_carried st @ bi_components final,
                    bi_provenance := ms_carriedProvenance st @ bi_provenance final,
                    bi_truncatedComponents := bi_truncatedComponents final + ms_carriedTruncated st\<rparr>
             else final);
           merged = (ms_merged st \<or> length (ms_carried st) > 0);
           deduped = (if merged then Deduplicate with_carried else with_carried);
           n = length (bi_components deduped)
       in if n > MaxComponentsPerDocument
          then deduped\<lparr>bi_truncatedComponents := bi_truncatedComponents deduped + (int n - int MaxComponentsPerDocument),
                 bi_components := take MaxComponentsPerDocument (bi_components deduped)\<rparr>
          else deduped))"

definition multi_Scrape :: "(nat \<Rightarrow> time) \<Rightarrow> Scraper list \<Rightarrow> Workload \<Rightarrow> InferenceConfig option \<Rightarrow> go_error + BOMInputs" where
  "multi_Scrape clock scrapers w cfg = map_sum id multiFinish (multiLoop clock 0 scrapers w cfg multiStart)"

definition multi_HandlesKind :: "Scraper list \<Rightarrow> WorkloadKind \<Rightarrow> bool" where
  "multi_HandlesKind scrapers k = list_ex (\<lambda>s. scr_handlesKind s k) scrapers"

subsection \<open>What the loop computes\<close>

text \<open>The results of the scrapers that handle the kind, in order, up to the first error.\<close>

fun scrapeAll :: "(nat \<Rightarrow> time) \<Rightarrow> nat \<Rightarrow> Scraper list \<Rightarrow> Workload \<Rightarrow> InferenceConfig option \<Rightarrow> go_error + BOMInputs list" where
  "scrapeAll clock i [] w cfg = Inr []"
| "scrapeAll clock i (s # ss) w cfg =
    (if \<not> scr_handlesKind s (w_kind w) then scrapeAll clock (Suc i) ss w cfg
     else case scr_scrape s (clock i) w cfg of
        Inl e \<Rightarrow> Inl e
      | Inr b \<Rightarrow> map_sum id (\<lambda>bs. b # bs) (scrapeAll clock (Suc i) ss w cfg))"

lemma multiLoop_scrapeAll:
  "multiLoop clock i ss w cfg st = map_sum id (\<lambda>bs. fold multiStep bs st) (scrapeAll clock i ss w cfg)"
proof (induction clock i ss w cfg st rule: multiLoop.induct)
  case (2 clock i s ss w cfg st)
  then show ?case
    by (cases "scr_scrape s (clock i) w cfg"; cases "scrapeAll clock (Suc i) ss w cfg") auto
qed simp

definition resolved :: "BOMInputs list \<Rightarrow> BOMInputs list" where
  "resolved bs = filter (\<lambda>b. bi_confidence b \<noteq> ConfidenceUnresolved) bs"

definition carriers :: "BOMInputs list \<Rightarrow> BOMInputs list" where
  "carriers bs = filter (\<lambda>b. bi_confidence b = ConfidenceUnresolved \<and> containerComponents (bi_components b) \<noteq> []) bs"

definition finalOf :: "BOMInputs option \<Rightarrow> BOMInputs list \<Rightarrow> BOMInputs option" where
  "finalOf o1 bs = (case o1 of
     None \<Rightarrow> (case bs of [] \<Rightarrow> None | r # rs \<Rightarrow> Some (foldl mergeInputs r rs))
   | Some a \<Rightarrow> Some (foldl mergeInputs a bs))"

lemma finalOf_Cons:
  "finalOf (Some a) (b # bs) = finalOf (Some (mergeInputs a b)) bs" "finalOf None (b # bs) = finalOf (Some b) bs"
  by (simp_all add: finalOf_def)

lemma finalOf_Nil [simp]: "finalOf o1 [] = o1"
  by (simp add: finalOf_def split: option.splits)

lemma fold_multiStep:
  "fold multiStep bs st = \<lparr>
     ms_final = finalOf (ms_final st) (resolved bs),
     ms_merged = (ms_merged st \<or> (if ms_final st = None then length (resolved bs) > 1 else resolved bs \<noteq> [])),
     ms_carried = ms_carried st @ concat (map (\<lambda>b. containerComponents (bi_components b)) (carriers bs)),
     ms_carriedProvenance = ms_carriedProvenance st @ concat (map bi_provenance (carriers bs)),
     ms_carriedTruncated = ms_carriedTruncated st + sum_list (map bi_truncatedComponents (carriers bs))\<rparr>"
proof (induction bs arbitrary: st)
  case Nil
  then show ?case by (simp add: resolved_def carriers_def)
next
  case (Cons b bs)
  have unfold: "fold multiStep (b # bs) st = fold multiStep bs (multiStep b st)" by simp
  show ?case
  proof (cases "bi_confidence b = ConfidenceUnresolved")
    case True
    then have r: "resolved (b # bs) = resolved bs"
      "carriers (b # bs) = (if containerComponents (bi_components b) = [] then carriers bs else b # carriers bs)"
      by (simp_all add: resolved_def carriers_def)
    have step: "multiStep b st = (if containerComponents (bi_components b) = [] then st
        else st\<lparr>ms_carried := ms_carried st @ containerComponents (bi_components b),
             ms_carriedProvenance := ms_carriedProvenance st @ bi_provenance b,
             ms_carriedTruncated := ms_carriedTruncated st + bi_truncatedComponents b\<rparr>)"
      using True by (simp add: multiStep_def Let_def)
    show ?thesis unfolding unfold Cons.IH step r by auto
  next
    case False
    then have r: "resolved (b # bs) = b # resolved bs" "carriers (b # bs) = carriers bs"
      by (simp_all add: resolved_def carriers_def)
    have step: "multiStep b st = (case ms_final st of None \<Rightarrow> st\<lparr>ms_final := Some b\<rparr>
        | Some final \<Rightarrow> st\<lparr>ms_merged := True, ms_final := Some (mergeInputs final b)\<rparr>)"
      using False by (simp add: multiStep_def)
    show ?thesis unfolding unfold Cons.IH step r
      by (cases "ms_final st") (auto simp: finalOf_Cons)
  qed
qed

text \<open>The fields of a merge of several results.\<close>

lemma foldl_mergeInputs:
  "bi_components (foldl mergeInputs r rs) = concat (map bi_components (r # rs))"
  "bi_services (foldl mergeInputs r rs) = concat (map bi_services (r # rs))"
  "bi_provenance (foldl mergeInputs r rs) = concat (map bi_provenance (r # rs))"
  "bi_errors (foldl mergeInputs r rs) = concat (map bi_errors (r # rs))"
  "bi_truncatedComponents (foldl mergeInputs r rs) = sum_list (map bi_truncatedComponents (r # rs))"
  "bi_scraperName (foldl mergeInputs r rs) = bi_scraperName r"
  "bi_confidence (foldl mergeInputs r rs) =
     (if \<exists>b \<in> set rs. bi_confidence b = ConfidenceInferred then ConfidenceInferred else bi_confidence r)"
  by (induction rs arbitrary: r; simp add: mergeInputs_def)+

lemma categoryPriority_None: "categoryPriority c = 0 \<longleftrightarrow> c = CategoryNone" "categoryPriority c \<ge> 0"
  by (cases c; simp)+

lemma category_mergeInputs:
  "categoryPriority (bi_category (mergeInputs a b)) = max (categoryPriority (bi_category a)) (categoryPriority (bi_category b))"
  by (cases "bi_category a"; cases "bi_category b") (simp_all add: mergeInputs_def)

lemma category_foldl:
  "categoryPriority (bi_category (foldl mergeInputs r rs)) =
     foldl max (categoryPriority (bi_category r)) (map (categoryPriority \<circ> bi_category) rs)"
  by (induction rs arbitrary: r) (simp_all add: category_mergeInputs)

definition mergedComponents :: "BOMInputs list \<Rightarrow> Component list" where
  "mergedComponents bs =
    (let carried = concat (map (\<lambda>b. containerComponents (bi_components b)) (carriers bs));
         all = carried @ concat (map bi_components (resolved bs))
     in if length (resolved bs) > 1 \<or> carried \<noteq> [] then deduplicateComponents all else all)"

lemma carried_empty: "concat (map (\<lambda>b. containerComponents (bi_components b)) (carriers bs)) = [] \<longleftrightarrow> carriers bs = []"
  by (auto simp: carriers_def filter_empty_conv)

lemma multi_result:
  assumes "scrapeAll clock 0 ss w cfg = Inr bs" and "resolved bs = r # rs"
  shows "\<exists>b. multi_Scrape clock ss w cfg = Inr b \<and>
    bi_components b = take 256 (mergedComponents bs) \<and>
    bi_truncatedComponents b = sum_list (map bi_truncatedComponents (resolved bs)) +
      sum_list (map bi_truncatedComponents (carriers bs)) + int (length (mergedComponents bs) - 256) \<and>
    bi_confidence b = (if \<exists>x \<in> set rs. bi_confidence x = ConfidenceInferred then ConfidenceInferred else bi_confidence r) \<and>
    bi_errors b = concat (map bi_errors (resolved bs)) \<and>
    bi_provenance b = concat (map bi_provenance (carriers bs)) @ concat (map bi_provenance (resolved bs)) \<and>
    bi_category b = bi_category (foldl mergeInputs r rs) \<and> bi_scraperName b = bi_scraperName r"
proof -
  let ?carried = "concat (map (\<lambda>b. containerComponents (bi_components b)) (carriers bs))"
  let ?f = "foldl mergeInputs r rs"
  define st where "st = fold multiStep bs multiStart"
  have st: "ms_final st = Some ?f" "ms_merged st = (length (resolved bs) > 1)" "ms_carried st = ?carried"
    "ms_carriedProvenance st = concat (map bi_provenance (carriers bs))"
    "ms_carriedTruncated st = sum_list (map bi_truncatedComponents (carriers bs))"
    using assms(2) by (simp_all add: st_def fold_multiStep multiStart_def finalOf_def)
  have "multi_Scrape clock ss w cfg = Inr (multiFinish st)"
    using assms(1) by (simp add: multi_Scrape_def multiLoop_scrapeAll st_def)
  moreover have comps: "mergedComponents bs =
      (if length (resolved bs) > 1 \<or> ?carried \<noteq> [] then deduplicateComponents (?carried @ bi_components ?f)
       else bi_components ?f)"
    unfolding mergedComponents_def Let_def foldl_mergeInputs(1) assms(2) [symmetric] by auto
  ultimately show ?thesis
    using carried_empty [of bs] assms(2)
    by (cases "carriers bs = []")
      (auto simp: multiFinish_def st Let_def Deduplicate_def MaxComponentsPerDocument_def foldl_mergeInputs of_nat_diff)
qed

subsection \<open>The scrapers the manager runs\<close>

definition InferenceSpecScraper :: "SignatureVerifier option \<Rightarrow> Scraper" where
  "InferenceSpecScraper v = \<lparr>scr_name = ''inference.spec'', scr_handlesKind = inference_HandlesKind,
     scr_scrape = inference_Scrape v\<rparr>"

definition VectorDBSpecScraper :: Scraper where
  "VectorDBSpecScraper = \<lparr>scr_name = ''vectordb.spec'', scr_handlesKind = apps_HandlesKind, scr_scrape = vectordb_Scrape\<rparr>"

definition AgentSpecScraper :: Scraper where
  "AgentSpecScraper = \<lparr>scr_name = ''agent.spec'', scr_handlesKind = apps_HandlesKind, scr_scrape = agent_Scrape\<rparr>"

definition TrainingSpecScraper :: Scraper where
  "TrainingSpecScraper = \<lparr>scr_name = ''training.spec'', scr_handlesKind = training_HandlesKind, scr_scrape = training_Scrape\<rparr>"

definition EvalSpecScraper :: Scraper where
  "EvalSpecScraper = \<lparr>scr_name = ''eval.spec'', scr_handlesKind = eval_HandlesKind, scr_scrape = eval_Scrape\<rparr>"

definition managerScrapers :: "SignatureVerifier option \<Rightarrow> Scraper list" where
  "managerScrapers v = [InferenceSpecScraper v, VectorDBSpecScraper, AgentSpecScraper, TrainingSpecScraper, EvalSpecScraper]"

lemmas scraper_defs = InferenceSpecScraper_def VectorDBSpecScraper_def AgentSpecScraper_def
  TrainingSpecScraper_def EvalSpecScraper_def

subsection \<open>The clock law for merged results\<close>

definition zeroState :: "multi_state \<Rightarrow> multi_state" where
  "zeroState st = st\<lparr>ms_final := map_option zeroTimestamps (ms_final st),
     ms_carriedProvenance := zeroProvenanceTimestamps (ms_carriedProvenance st)\<rparr>"

lemma zeroTimestamps_fields [simp]:
  "bi_confidence (zeroTimestamps b) = bi_confidence b" "bi_components (zeroTimestamps b) = bi_components b"
  "bi_services (zeroTimestamps b) = bi_services b" "bi_errors (zeroTimestamps b) = bi_errors b"
  "bi_category (zeroTimestamps b) = bi_category b" "bi_scraperName (zeroTimestamps b) = bi_scraperName b"
  "bi_truncatedComponents (zeroTimestamps b) = bi_truncatedComponents b"
  "bi_provenance (zeroTimestamps b) = zeroProvenanceTimestamps (bi_provenance b)"
  by (simp_all add: zeroTimestamps_def)

lemma zeroTimestamps_merge:
  "zeroTimestamps (mergeInputs a b) = mergeInputs (zeroTimestamps a) (zeroTimestamps b)"
  by (simp add: mergeInputs_def) (simp add: zeroTimestamps_def)

lemma zeroState_step: "multiStep (zeroTimestamps b) (zeroState st) = zeroState (multiStep b st)"
  by (auto simp: multiStep_def zeroState_def Let_def zeroTimestamps_merge split: option.splits)

lemma zeroState_fold: "fold multiStep (map zeroTimestamps bs) (zeroState st) = zeroState (fold multiStep bs st)"
  by (induction bs arbitrary: st) (simp_all add: zeroState_step)

lemma zeroProvenanceTimestamps_idem [simp]:
  "zeroProvenanceTimestamps (zeroProvenanceTimestamps ps) = zeroProvenanceTimestamps ps"
  by (simp add: zeroProvenanceTimestamps_map comp_def)

lemma zeroState_finish: "zeroTimestamps (multiFinish (zeroState st)) = zeroTimestamps (multiFinish st)"
  by (cases "ms_final st")
    (simp_all add: multiFinish_def zeroState_def Let_def Deduplicate_def zeroTimestamps_def)

definition clockLaw :: "Scraper \<Rightarrow> bool" where
  "clockLaw s \<longleftrightarrow> (\<forall>t t' w cfg. map_sum id zeroTimestamps (scr_scrape s t w cfg) =
     map_sum id zeroTimestamps (scr_scrape s t' w cfg))"

lemma scrapeAll_clock:
  assumes "\<forall>s \<in> set ss. clockLaw s"
  shows "map_sum id (map zeroTimestamps) (scrapeAll clock i ss w cfg) =
         map_sum id (map zeroTimestamps) (scrapeAll clock' i ss w cfg)"
  using assms
proof (induction ss arbitrary: i)
  case (Cons s ss)
  have s: "map_sum id zeroTimestamps (scr_scrape s (clock i) w cfg) =
      map_sum id zeroTimestamps (scr_scrape s (clock' i) w cfg)"
    using Cons.prems by (auto simp: clockLaw_def)
  have IH: "map_sum id (map zeroTimestamps) (scrapeAll clock (Suc i) ss w cfg) =
      map_sum id (map zeroTimestamps) (scrapeAll clock' (Suc i) ss w cfg)"
    by (rule Cons.IH) (use Cons.prems in simp)
  show ?case
    using s IH
    by (cases "scr_scrape s (clock i) w cfg"; cases "scr_scrape s (clock' i) w cfg";
        cases "scrapeAll clock (Suc i) ss w cfg"; cases "scrapeAll clock' (Suc i) ss w cfg") auto
qed simp

lemma multi_clock:
  assumes "\<forall>s \<in> set ss. clockLaw s"
  shows "map_sum id zeroTimestamps (multi_Scrape clock ss w cfg) = map_sum id zeroTimestamps (multi_Scrape clock' ss w cfg)"
proof -
  have start: "zeroState multiStart = multiStart"
    by (simp add: zeroState_def multiStart_def zeroProvenanceTimestamps_def)
  have "zeroTimestamps (multiFinish (fold multiStep bs multiStart)) =
        zeroTimestamps (multiFinish (fold multiStep (map zeroTimestamps bs) multiStart))" for bs
    using zeroState_finish [of "fold multiStep bs multiStart"] zeroState_fold [of bs multiStart]
    by (simp add: start)
  then have "map_sum id zeroTimestamps (multi_Scrape c ss w cfg) =
      map_sum id (\<lambda>bs. zeroTimestamps (multiFinish (fold multiStep bs multiStart)))
        (map_sum id (map zeroTimestamps) (scrapeAll c 0 ss w cfg))" for c
    by (cases "scrapeAll c 0 ss w cfg") (simp_all add: multi_Scrape_def multiLoop_scrapeAll)
  then show ?thesis using scrapeAll_clock [OF assms, of clock 0 w cfg clock'] by simp
qed

lemma manager_clock: "\<forall>s \<in> set (managerScrapers v). clockLaw s"
  by (auto simp: managerScrapers_def clockLaw_def scraper_defs inference.clock vectordb.clock agent.clock
      training.clock eval.clock)

interpretation manager: scraper_clock "\<lambda>t w cfg. multi_Scrape (\<lambda>i. t + off i) (managerScrapers v) w cfg"
  by unfold_locales (rule multi_clock [OF manager_clock])

subsection \<open>Properties\<close>


text \<open>
  C4. What merging keeps, when at least one scraper recognises the workload: the container components of
  the scrapers that found no signal of their own, then everything the others found, deduplicated, cut at
  256 with the number of dropped components added to the scrapers' own counts; the confidence is inferred
  as soon as a merged result is, and the category is one of highest priority.
\<close>

theorem multi_scrape_meaning:
  assumes "scrapeAll clock 0 ss w cfg = Inr bs" and "resolved bs = r # rs"
  shows "\<exists>b. multi_Scrape clock ss w cfg = Inr b \<and>
    bi_components b = take 256 (mergedComponents bs) \<and>
    bi_truncatedComponents b = sum_list (map bi_truncatedComponents (resolved bs)) +
      sum_list (map bi_truncatedComponents (carriers bs)) + int (length (mergedComponents bs) - 256) \<and>
    bi_confidence b = (if \<exists>x \<in> set rs. bi_confidence x = ConfidenceInferred then ConfidenceInferred else bi_confidence r) \<and>
    bi_provenance b = concat (map bi_provenance (carriers bs)) @ concat (map bi_provenance (resolved bs)) \<and>
    (\<forall>x \<in> set (resolved bs). categoryPriority (bi_category x) \<le> categoryPriority (bi_category b))"
proof -
  have max: "k \<le> foldl max k ks \<and> (\<forall>x \<in> set ks. x \<le> foldl max k ks)" for k :: int and ks
  proof (induction ks arbitrary: k)
    case (Cons a ks)
    from Cons.IH [of "max k a"] show ?case by simp
  qed simp
  obtain b where b: "multi_Scrape clock ss w cfg = Inr b"
    and rest: "bi_components b = take 256 (mergedComponents bs)"
    "bi_truncatedComponents b = sum_list (map bi_truncatedComponents (resolved bs)) +
      sum_list (map bi_truncatedComponents (carriers bs)) + int (length (mergedComponents bs) - 256)"
    "bi_confidence b = (if \<exists>x \<in> set rs. bi_confidence x = ConfidenceInferred then ConfidenceInferred else bi_confidence r)"
    "bi_provenance b = concat (map bi_provenance (carriers bs)) @ concat (map bi_provenance (resolved bs))"
    "bi_category b = bi_category (foldl mergeInputs r rs)"
    using multi_result [OF assms] by blast
  have "\<forall>x \<in> set (r # rs). categoryPriority (bi_category x) \<le> categoryPriority (bi_category b)"
    using max [of "categoryPriority (bi_category r)" "map (categoryPriority \<circ> bi_category) rs"] rest(5)
    by (simp add: category_foldl)
  then have cat: "\<forall>x \<in> set (resolved bs). categoryPriority (bi_category x) \<le> categoryPriority (bi_category b)"
    unfolding assms(2) .
  from b rest(1-4) cat show ?thesis by (intro exI [of _ b] conjI)
qed

text \<open>
  The name of a merged result is that of the first scraper that recognised the workload, while
  the scraper's own name is \<^verbatim>\<open>multi.spec\<close>: the merged result does not follow the rule that the two agree.
\<close>

theorem multi_scraper_name:
  assumes "scrapeAll clock 0 (managerScrapers v) w cfg = Inr bs" and "resolved bs = r # rs"
  shows "\<exists>b. multi_Scrape clock (managerScrapers v) w cfg = Inr b \<and> bi_scraperName b = bi_scraperName r \<and>
    bi_scraperName b \<noteq> ''multi.spec''"
proof -
  have "r \<in> set (resolved bs)" using assms(2) by simp
  then have "r \<in> set bs" by (simp add: resolved_def)
  moreover have "bi_scraperName x \<in> {''inference.spec'', ''vectordb.spec'', ''agent.spec'', ''training.spec'', ''eval.spec''}"
    if "x \<in> set bs" for x
    using assms(1) that
    by (auto simp: managerScrapers_def scraper_defs split: if_splits sum.splits
        dest: inference.result_name vectordb.result_name agent.result_name training.result_name eval.result_name)
  ultimately have "bi_scraperName r \<noteq> ''multi.spec''" by fastforce
  then show ?thesis using multi_result [OF assms] by auto
qed

subsection \<open>A workload that two scrapers see\<close>

definition qdrantWorkload :: Workload where
  "qdrantWorkload = exampleWorkload\<lparr>w_object := Some (Deployment emptyMeta (exampleTemplate\<lparr>pt_spec :=
     emptyPodSpec\<lparr>ps_containers := [\<lparr>ct_name = ''db'', ct_image = ''qdrant/qdrant:v1'', ct_args = [],
       ct_env = [], ct_volumeMounts = []\<rparr>]\<rparr>\<rparr>))\<rparr>"

lemma qdrant_scrapes:
  "\<exists>bs r. scrapeAll (\<lambda>_. 0) 0 (managerScrapers None) qdrantWorkload (Some exampleConfig) = Inr bs \<and> resolved bs = [r]"
proof -
  have c: "map_sum id (map bi_confidence) (scrapeAll (\<lambda>_. 0) 0 (managerScrapers None) qdrantWorkload (Some exampleConfig)) =
     Inr [ConfidenceUnresolved, ConfidenceInferred, ConfidenceUnresolved]"
    by code_simp
  then obtain bs where "scrapeAll (\<lambda>_. 0) 0 (managerScrapers None) qdrantWorkload (Some exampleConfig) = Inr bs"
    and bs: "map bi_confidence bs = [ConfidenceUnresolved, ConfidenceInferred, ConfidenceUnresolved]"
    by (cases "scrapeAll (\<lambda>_. 0) 0 (managerScrapers None) qdrantWorkload (Some exampleConfig)") auto
  moreover from bs have "\<exists>r. resolved bs = [r]"
    by (auto simp: resolved_def map_eq_Cons_conv)
  ultimately show ?thesis by blast
qed


theorem multi_scrape_meaning_witness:
  "\<exists>bs b. scrapeAll (\<lambda>_. 0) 0 (managerScrapers None) qdrantWorkload (Some exampleConfig) = Inr bs \<and>
     multi_Scrape (\<lambda>_. 0) (managerScrapers None) qdrantWorkload (Some exampleConfig) = Inr b \<and>
     bi_components b = take 256 (mergedComponents bs)"
proof -
  obtain bs r where bs: "scrapeAll (\<lambda>_. 0) 0 (managerScrapers None) qdrantWorkload (Some exampleConfig) = Inr bs"
    and r: "resolved bs = [r]"
    using qdrant_scrapes by blast
  from multi_scrape_meaning [OF bs r] bs show ?thesis by blast
qed

theorem multi_scraper_name_witness:
  "\<exists>b. multi_Scrape (\<lambda>_. 0) (managerScrapers None) qdrantWorkload (Some exampleConfig) = Inr b \<and>
     bi_scraperName b \<noteq> ''multi.spec''"
proof -
  obtain bs r where bs: "scrapeAll (\<lambda>_. 0) 0 (managerScrapers None) qdrantWorkload (Some exampleConfig) = Inr bs"
    and r: "resolved bs = [r]"
    using qdrant_scrapes by blast
  from multi_scraper_name [OF bs r] show ?thesis by blast
qed

end
