(* ===== verification/Workload_Kinds.thy ===== *)
theory Workload_Kinds
  imports Go_Prelude
begin

text \<open>
  The allowlist of workload kinds: \<^verbatim>\<open>internal/config/workloadkinds.go\<close> and the part of
  \<^verbatim>\<open>internal/config/errors.go\<close> it needs. A \<^verbatim>\<open>map[GroupKind]struct{}\<close> is the list of its keys without
  repetitions, in the order in which ranging over the map yields them; the theorems hold for every
  order. The lemmas show that the text form of a kind and the parser are inverse to each other, that
  parsing a list reports every bad entry and otherwise allows exactly the listed kinds, and that the
  comparison of two allowlists decides whether they allow the same kinds.
\<close>

record GroupKind =
  gk_group :: string
  gk_kind :: string

definition gkind :: "string \<Rightarrow> string \<Rightarrow> GroupKind" where
  "gkind g k = \<lparr>gk_group = g, gk_kind = k\<rparr>"

definition KnownWorkloadKinds :: "GroupKind list" where
  "KnownWorkloadKinds =
    [gkind ''apps'' ''Deployment'', gkind ''apps'' ''StatefulSet'', gkind ''apps'' ''DaemonSet'',
     gkind ''batch'' ''Job'', gkind ''batch'' ''CronJob'',
     gkind ''serving.kserve.io'' ''InferenceService'',
     gkind ''nvidia.com'' ''DynamoGraphDeployment'', gkind ''nvidia.com'' ''DynamoComponentDeployment'',
     gkind ''apps.nvidia.com'' ''NIMService'',
     gkind ''leaderworkerset.x-k8s.io'' ''LeaderWorkerSet'',
     gkind ''disaggregatedset.x-k8s.io'' ''DisaggregatedSet'']"

definition coreGroupSpelling :: string where "coreGroupSpelling = ''core''"

record WorkloadKindSet =
  wk_restricted :: bool
  wk_kinds :: "GroupKind list"

definition AllWorkloadKinds :: WorkloadKindSet where
  "AllWorkloadKinds = \<lparr>wk_restricted = False, wk_kinds = []\<rparr>"

definition NewWorkloadKindSet :: "GroupKind list \<Rightarrow> WorkloadKindSet" where
  "NewWorkloadKindSet kinds = \<lparr>wk_restricted = True, wk_kinds = fold List.insert kinds []\<rparr>"

definition Allows :: "WorkloadKindSet \<Rightarrow> GroupKind \<Rightarrow> bool" where
  "Allows s gk \<longleftrightarrow> (if \<not> wk_restricted s then True else gk \<in> set (wk_kinds s))"

definition AllowsAll :: "WorkloadKindSet \<Rightarrow> bool" where
  "AllowsAll s \<longleftrightarrow> \<not> wk_restricted s"

definition kindSet_Equal :: "WorkloadKindSet \<Rightarrow> WorkloadKindSet \<Rightarrow> bool" where
  "kindSet_Equal s t \<longleftrightarrow>
    (if wk_restricted s \<noteq> wk_restricted t then False
     else if \<not> wk_restricted s then True
     else if length (wk_kinds s) \<noteq> length (wk_kinds t) then False
     else list_all (\<lambda>gk. gk \<in> set (wk_kinds t)) (wk_kinds s))"

definition FormatWorkloadKind :: "GroupKind \<Rightarrow> string" where
  "FormatWorkloadKind gk = (if gk_group gk = '''' then coreGroupSpelling @ ''/'' @ gk_kind gk
     else gk_group gk @ ''/'' @ gk_kind gk)"

definition Kinds :: "WorkloadKindSet \<Rightarrow> GroupKind list" where
  "Kinds s = (if \<not> wk_restricted s then [] else sort_key FormatWorkloadKind (wk_kinds s))"

definition kindSet_String :: "WorkloadKindSet \<Rightarrow> string" where
  "kindSet_String s = (if \<not> wk_restricted s then ''all''
     else joinWith '','' (map FormatWorkloadKind (Kinds s)))"

definition ParseWorkloadKind :: "string \<Rightarrow> string + GroupKind" where
  "ParseWorkloadKind entry =
    (let parts = splitOn CHR ''/'' entry in
     if length parts \<noteq> 2 \<or> parts ! 0 = '''' \<or> parts ! 1 = ''''
     then Inl ''want Group/Kind (for example apps/Deployment; the core group is written core/Kind)''
     else if list_ex (\<lambda>c. c = CHR '' '' \<or> c = CHR 0x09) entry then Inl ''must not contain whitespace''
     else let gk = \<lparr>gk_group = parts ! 0, gk_kind = parts ! 1\<rparr> in
       Inr (if gk_group gk = coreGroupSpelling then gk\<lparr>gk_group := ''''\<rparr> else gk))"

definition knownWorkloadKindsList :: string where
  "knownWorkloadKindsList = joinWith '', '' (map FormatWorkloadKind KnownWorkloadKinds)"

definition isKnownWorkloadKind :: "GroupKind \<Rightarrow> bool" where
  "isKnownWorkloadKind gk \<longleftrightarrow> list_ex (\<lambda>k. k = gk) KnownWorkloadKinds"

record LoadError =
  le_field :: string
  le_message :: string

definition kindField :: "nat \<Rightarrow> string" where
  "kindField index = ''spec.discovery.workloadKinds['' @ showNat index @ '']''"

definition errWorkloadKindMalformed :: "nat \<Rightarrow> string \<Rightarrow> string \<Rightarrow> LoadError" where
  "errWorkloadKindMalformed index entry shapeErr = \<lparr>le_field = kindField index,
     le_message = ''workloadKinds entry '' @ goQuote entry @ '' is malformed: '' @ shapeErr @ ''.''\<rparr>"

definition errWorkloadKindUnknown :: "nat \<Rightarrow> string \<Rightarrow> LoadError" where
  "errWorkloadKindUnknown index entry = \<lparr>le_field = kindField index,
     le_message = ''workloadKinds entry '' @ goQuote entry @
       '' is not a kind this controller inventories. Known kinds: '' @ knownWorkloadKindsList @ ''.''\<rparr>"

definition errWorkloadKindDuplicate :: "nat \<Rightarrow> string \<Rightarrow> nat \<Rightarrow> LoadError" where
  "errWorkloadKindDuplicate index entry firstIndex = \<lparr>le_field = kindField index,
     le_message = ''workloadKinds entry '' @ goQuote entry @ '' duplicates entry ['' @ showNat firstIndex @ ''].''\<rparr>"

text \<open>The loop of \<^verbatim>\<open>parseWorkloadKinds\<close>: index, the map \<^verbatim>\<open>seen\<close>, the rest of the entries.\<close>

fun kindsLoop :: "nat \<Rightarrow> (GroupKind \<times> nat) list \<Rightarrow> string list \<Rightarrow> GroupKind list \<times> LoadError list" where
  "kindsLoop i seen [] = ([], [])"
| "kindsLoop i seen (entry # rest) = (case ParseWorkloadKind entry of
     Inl err \<Rightarrow> (let (ks, es) = kindsLoop (Suc i) seen rest in (ks, errWorkloadKindMalformed i entry err # es))
   | Inr gk \<Rightarrow>
       if \<not> isKnownWorkloadKind gk
       then let (ks, es) = kindsLoop (Suc i) seen rest in (ks, errWorkloadKindUnknown i entry # es)
       else case map_of seen gk of
         Some first \<Rightarrow> (let (ks, es) = kindsLoop (Suc i) seen rest in (ks, errWorkloadKindDuplicate i entry first # es))
       | None \<Rightarrow> (let (ks, es) = kindsLoop (Suc i) ((gk, i) # seen) rest in (gk # ks, es)))"

definition parseWorkloadKinds :: "string list \<Rightarrow> WorkloadKindSet \<times> LoadError list" where
  "parseWorkloadKinds entries =
    (if entries = [] then (AllWorkloadKinds, [])
     else let (kinds, errs) = kindsLoop 0 [] entries in
       if errs \<noteq> [] then (AllWorkloadKinds, errs) else (NewWorkloadKindSet kinds, []))"

subsection \<open>The text form of a kind\<close>

definition kindText :: "string \<Rightarrow> bool" where
  "kindText s \<longleftrightarrow> s \<noteq> '''' \<and> CHR ''/'' \<notin> set s \<and> CHR '' '' \<notin> set s \<and> CHR 0x09 \<notin> set s"

lemma splitOn_pair: "splitOn c s = [a, b] \<longleftrightarrow> s = a @ c # b \<and> c \<notin> set a \<and> c \<notin> set b"
proof
  assume h: "splitOn c s = [a, b]"
  then have "joinWith [c] [a, b] = s" by (metis joinWith_splitOn)
  moreover have "c \<notin> set a" "c \<notin> set b" using h splitOn_no_sep [of _ c s] by auto
  ultimately show "s = a @ c # b \<and> c \<notin> set a \<and> c \<notin> set b" by simp
qed (simp add: splitOn_append splitOn_notin)

lemma ParseWorkloadKind_Inr:
  "ParseWorkloadKind entry = Inr gk \<longleftrightarrow>
    (\<exists>g k. entry = g @ ''/'' @ k \<and> kindText g \<and> kindText k \<and>
       gk = gkind (if g = coreGroupSpelling then '''' else g) k)"
proof -
  have two: "length ps = 2 \<longleftrightarrow> (\<exists>a b. ps = [a, b])" for ps :: "string list"
    by (auto simp: length_Suc_conv numeral_2_eq_2)
  have "ParseWorkloadKind entry = Inr gk \<longleftrightarrow>
    (\<exists>g k. splitOn CHR ''/'' entry = [g, k] \<and> g \<noteq> '''' \<and> k \<noteq> '''' \<and>
       \<not> list_ex (\<lambda>c. c = CHR '' '' \<or> c = CHR 0x09) entry \<and>
       gk = gkind (if g = coreGroupSpelling then '''' else g) k)" (is "_ \<longleftrightarrow> ?R")
  proof
    assume "ParseWorkloadKind entry = Inr gk"
    then show ?R by (auto simp: ParseWorkloadKind_def Let_def gkind_def two split: if_splits)
  next
    assume ?R
    then show "ParseWorkloadKind entry = Inr gk"
      by (auto simp: ParseWorkloadKind_def Let_def gkind_def)
  qed
  also have "\<dots> \<longleftrightarrow> (\<exists>g k. entry = g @ ''/'' @ k \<and> kindText g \<and> kindText k \<and>
       gk = gkind (if g = coreGroupSpelling then '''' else g) k)"
  proof (intro ex_cong1)
    fix g k
    have "entry = g @ ''/'' @ k \<Longrightarrow> \<not> list_ex (\<lambda>c. c = CHR '' '' \<or> c = CHR 0x09) entry \<longleftrightarrow>
      CHR '' '' \<notin> set g \<union> set k \<and> CHR 0x09 \<notin> set g \<union> set k"
      unfolding list_ex_iff by (simp, blast)
    then show "(splitOn CHR ''/'' entry = [g, k] \<and> g \<noteq> '''' \<and> k \<noteq> '''' \<and>
       \<not> list_ex (\<lambda>c. c = CHR '' '' \<or> c = CHR 0x09) entry \<and>
       gk = gkind (if g = coreGroupSpelling then '''' else g) k) \<longleftrightarrow>
      (entry = g @ ''/'' @ k \<and> kindText g \<and> kindText k \<and>
       gk = gkind (if g = coreGroupSpelling then '''' else g) k)"
      unfolding splitOn_pair kindText_def by (cases "entry = g @ ''/'' @ k") auto
  qed
  finally show ?thesis .
qed

lemma Format_Parse: "ParseWorkloadKind entry = Inr gk \<Longrightarrow> FormatWorkloadKind gk = entry"
  by (auto simp: ParseWorkloadKind_Inr FormatWorkloadKind_def gkind_def coreGroupSpelling_def kindText_def split: if_splits)

lemma kindText_core: "kindText coreGroupSpelling"
  by (simp add: kindText_def coreGroupSpelling_def)

text \<open>
  The text form of a kind and its parser are inverse to each other: a group and kind that can be
  written are read back from their text form, the core group included, and an entry that is read is the
  text form of the kind it stands for; so two different entries never mean the same kind.
\<close>

theorem ParseWorkloadKind_roundtrip:
  "(kindText k \<and> (g = '''' \<or> kindText g) \<and> g \<noteq> coreGroupSpelling \<longrightarrow>
      ParseWorkloadKind (FormatWorkloadKind (gkind g k)) = Inr (gkind g k)) \<and>
   (ParseWorkloadKind entry = Inr gk \<longrightarrow> FormatWorkloadKind gk = entry) \<and>
   (ParseWorkloadKind entry = Inr gk \<and> ParseWorkloadKind entry' = Inr gk \<longrightarrow> entry = entry')"
proof (intro conjI impI)
  assume h: "kindText k \<and> (g = '''' \<or> kindText g) \<and> g \<noteq> coreGroupSpelling"
  let ?w = "if g = '''' then coreGroupSpelling else g"
  have "FormatWorkloadKind (gkind g k) = ?w @ ''/'' @ k"
    by (simp add: FormatWorkloadKind_def gkind_def)
  moreover have "kindText ?w" "gkind g k = gkind (if ?w = coreGroupSpelling then '''' else ?w) k"
    using h kindText_core by auto
  ultimately show "ParseWorkloadKind (FormatWorkloadKind (gkind g k)) = Inr (gkind g k)"
    using h ParseWorkloadKind_Inr by blast
qed (auto dest: Format_Parse)

theorem ParseWorkloadKind_roundtrip_witness:
  "ParseWorkloadKind ''core/Pod'' = Inr (gkind '''' ''Pod'')"
  using ParseWorkloadKind_roundtrip [of "''Pod''" "''''"]
  by (simp add: FormatWorkloadKind_def gkind_def kindText_def coreGroupSpelling_def)

subsection \<open>Parsing the list\<close>

definition goodEntry :: "string \<Rightarrow> bool" where
  "goodEntry e \<longleftrightarrow> (case ParseWorkloadKind e of Inl _ \<Rightarrow> False | Inr gk \<Rightarrow> isKnownWorkloadKind gk)"

text \<open>The entry at an index is accepted when it names a known kind that no earlier entry names.\<close>

definition accepted :: "string list \<Rightarrow> nat \<Rightarrow> bool" where
  "accepted entries i \<longleftrightarrow> goodEntry (entries ! i) \<and> entries ! i \<notin> set (take i entries)"

definition seenKinds :: "string list \<Rightarrow> GroupKind set" where
  "seenKinds pre = {gk. \<exists>e \<in> set pre. ParseWorkloadKind e = Inr gk \<and> isKnownWorkloadKind gk}"

lemma accepted_append [simp]: "accepted (pre @ e # es) (length pre) \<longleftrightarrow> goodEntry e \<and> e \<notin> set pre"
  by (simp add: accepted_def)

lemma seen_iff:
  assumes "ParseWorkloadKind e = Inr gk" "isKnownWorkloadKind gk" "dom (map_of seen) = seenKinds pre"
  shows "map_of seen gk = None \<longleftrightarrow> e \<notin> set pre"
proof -
  have "map_of seen gk \<noteq> None \<longleftrightarrow> gk \<in> seenKinds pre" using assms(3) by auto
  also have "\<dots> \<longleftrightarrow> e \<in> set pre"
    using assms(1,2) Format_Parse [OF assms(1)] by (auto simp: seenKinds_def dest: Format_Parse)
  finally show ?thesis by blast
qed

lemma error_fields [simp]:
  "le_field (errWorkloadKindMalformed i e m) = kindField i" "le_field (errWorkloadKindUnknown i e) = kindField i"
  "le_field (errWorkloadKindDuplicate i e j) = kindField i"
  by (simp_all add: errWorkloadKindMalformed_def errWorkloadKindUnknown_def errWorkloadKindDuplicate_def)

lemma upt_Suc_split: "[n..<n + length (e # es)] = n # [Suc n..<Suc n + length es]"
  by (subst upt_conv_Cons) (simp_all del: upt_Suc)

lemma kindsLoop_spec:
  assumes "dom (map_of seen) = seenKinds pre"
  shows "map le_field (snd (kindsLoop (length pre) seen es)) =
      map kindField (filter (\<lambda>j. \<not> accepted (pre @ es) j) [length pre..<length pre + length es]) \<and>
    map FormatWorkloadKind (fst (kindsLoop (length pre) seen es)) =
      map ((!) (pre @ es)) (filter (accepted (pre @ es)) [length pre..<length pre + length es])"
  using assms
proof (induction es arbitrary: pre seen)
  case (Cons e es)
  define ix where "ix = [Suc (length pre)..<Suc (length pre) + length es]"
  have split: "[length pre..<length pre + length (e # es)] = length pre # ix"
    unfolding ix_def by (rule upt_Suc_split)
  have step: "map le_field (snd (kindsLoop (Suc (length pre)) seen' es)) =
      map kindField (filter (\<lambda>j. \<not> accepted (pre @ e # es) j) ix)"
    "map FormatWorkloadKind (fst (kindsLoop (Suc (length pre)) seen' es)) =
      map ((!) (pre @ e # es)) (filter (accepted (pre @ e # es)) ix)"
    if "dom (map_of seen') = seenKinds (pre @ [e])" for seen'
    using Cons.IH [OF that] by (simp_all add: ix_def)
  show ?case
  proof (cases "goodEntry e")
    case False
    then have same: "seenKinds (pre @ [e]) = seenKinds pre"
      by (auto simp: seenKinds_def goodEntry_def)
    have "\<exists>x. kindsLoop (length pre) seen (e # es) =
        (fst (kindsLoop (Suc (length pre)) seen es), x # snd (kindsLoop (Suc (length pre)) seen es)) \<and> le_field x = kindField (length pre)"
      using False by (auto simp: goodEntry_def split_beta Let_def split: sum.splits)
    then show ?thesis
      unfolding split using False step [of seen] Cons.prems same
      by (auto simp del: kindsLoop.simps)
  next
    case True
    then obtain gk where gk: "ParseWorkloadKind e = Inr gk" "isKnownWorkloadKind gk"
      by (auto simp: goodEntry_def split: sum.splits)
    show ?thesis
    proof (cases "e \<in> set pre")
      case True
      then have same: "seenKinds (pre @ [e]) = seenKinds pre" by (auto simp: seenKinds_def)
      from True obtain first where "map_of seen gk = Some first"
        using seen_iff [OF gk Cons.prems] by blast
      then show ?thesis
        unfolding split using True gk step [of seen] Cons.prems same by (simp add: Let_def split_beta)
    next
      case False
      then have "map_of seen gk = None" using seen_iff [OF gk Cons.prems] by blast
      moreover have "dom (map_of ((gk, length pre) # seen)) = seenKinds (pre @ [e])"
        using Cons.prems gk by (auto simp: seenKinds_def)
      ultimately show ?thesis
        unfolding split
        using False gk \<open>goodEntry e\<close> step [of "(gk, length pre) # seen"] Format_Parse [OF gk(1)]
        by (simp add: Let_def split_beta)
    qed
  qed
qed simp

lemma set_insert_fold: "set (fold List.insert xs ys) = set xs \<union> set ys"
  by (induction xs arbitrary: ys) auto

lemma distinct_insert_fold: "distinct ys \<Longrightarrow> distinct (fold List.insert xs ys)"
  by (induction xs arbitrary: ys) auto

lemma fold_insert_distinct: "distinct (xs @ ys) \<Longrightarrow> fold List.insert xs ys = rev xs @ ys"
  by (induction xs arbitrary: ys) (auto simp: List.insert_def)

lemma map_sort_key: "map f (sort_key f xs) = sort (map f xs)"
  using properties_for_sort [of "map f (sort_key f xs)" "map f xs"] by simp

lemma Allows_New: "Allows (NewWorkloadKindSet kinds) gk \<longleftrightarrow> gk \<in> set kinds"
  by (simp add: Allows_def NewWorkloadKindSet_def set_insert_fold)

lemma kindsLoop_good: "gk \<in> set (fst (kindsLoop i seen es)) \<Longrightarrow> \<exists>e \<in> set es. ParseWorkloadKind e = Inr gk"
proof (induction i seen es rule: kindsLoop.induct)
  case (2 i seen entry rest)
  then show ?case
    by (auto simp: Let_def split_beta split: sum.splits if_splits option.splits)
qed simp

lemma parseWorkloadKinds_clean:
  assumes "entries \<noteq> []" "snd (parseWorkloadKinds entries) = []"
  shows "parseWorkloadKinds entries = (NewWorkloadKindSet (fst (kindsLoop 0 [] entries)), [])"
    and "map FormatWorkloadKind (fst (kindsLoop 0 [] entries)) = entries"
    and "distinct entries"
proof -
  have none: "snd (kindsLoop 0 [] entries) = []"
    using assms by (auto simp: parseWorkloadKinds_def split_beta Let_def split: if_splits)
  then show "parseWorkloadKinds entries = (NewWorkloadKindSet (fst (kindsLoop 0 [] entries)), [])"
    using assms(1) by (simp add: parseWorkloadKinds_def split_beta Let_def)
  have spec: "filter (\<lambda>j. \<not> accepted entries j) [0..<length entries] = []"
    "map FormatWorkloadKind (fst (kindsLoop 0 [] entries)) = map ((!) entries) (filter (accepted entries) [0..<length entries])"
    using kindsLoop_spec [of "[]" "[]" entries] none by (simp_all add: seenKinds_def)
  have acc: "\<forall>j < length entries. accepted entries j"
    using spec(1) by (auto simp: filter_empty_conv)
  then have "filter (accepted entries) [0..<length entries] = [0..<length entries]"
    by (intro filter_True) simp
  then show "map FormatWorkloadKind (fst (kindsLoop 0 [] entries)) = entries"
    using spec(2) by (simp add: map_nth)
  have fresh: "entries ! j \<noteq> entries ! i" if "i < length entries" "j < i" for i j
  proof -
    have "entries ! j \<in> set (take i entries)" using that by (force simp: in_set_conv_nth)
    then show ?thesis using acc that(1) by (auto simp: accepted_def)
  qed
  then show "distinct entries"
    by (auto simp: distinct_conv_nth) (metis linorder_neq_iff)
qed

text \<open>
  Parsing the configured list of kinds reports one error for every entry that is malformed, unknown
  or a repetition, in order and with its index, and then restricts nothing; without errors exactly the
  listed kinds are allowed and the set prints as the sorted list of the entries; an empty list allows all.
\<close>

theorem parseWorkloadKinds_spec:
  assumes "parseWorkloadKinds entries = (s, errs)"
  shows "map le_field errs = map kindField (filter (\<lambda>i. \<not> accepted entries i) [0..<length entries]) \<and>
    (AllowsAll s \<longleftrightarrow> errs \<noteq> [] \<or> entries = []) \<and>
    (errs = [] \<and> entries \<noteq> [] \<longrightarrow>
      (\<forall>gk. Allows s gk \<longleftrightarrow> (\<exists>e \<in> set entries. ParseWorkloadKind e = Inr gk)) \<and>
      kindSet_String s = joinWith '','' (sort entries))"
proof (cases "entries = []")
  case True
  then show ?thesis using assms by (auto simp: parseWorkloadKinds_def AllWorkloadKinds_def AllowsAll_def)
next
  case False
  have "errs = snd (kindsLoop 0 [] entries)"
    using assms False by (auto simp: parseWorkloadKinds_def split_beta Let_def split: if_splits)
  then have fields: "map le_field errs = map kindField (filter (\<lambda>i. \<not> accepted entries i) [0..<length entries])"
    using kindsLoop_spec [of "[]" "[]" entries] by (simp add: seenKinds_def)
  have all: "AllowsAll s \<longleftrightarrow> errs \<noteq> []"
    using assms False
    by (auto simp: parseWorkloadKinds_def AllowsAll_def AllWorkloadKinds_def NewWorkloadKindSet_def split_beta Let_def split: if_splits)
  have "(\<forall>gk. Allows s gk \<longleftrightarrow> (\<exists>e \<in> set entries. ParseWorkloadKind e = Inr gk)) \<and>
      kindSet_String s = joinWith '','' (sort entries)" if "errs = []"
  proof -
    let ?ks = "fst (kindsLoop 0 [] entries)"
    note clean = parseWorkloadKinds_clean [OF False]
    have s: "s = NewWorkloadKindSet ?ks" and fm: "map FormatWorkloadKind ?ks = entries" and d: "distinct entries"
      using clean assms that by simp_all
    have "gk \<in> set ?ks \<longleftrightarrow> (\<exists>e \<in> set entries. ParseWorkloadKind e = Inr gk)" for gk
    proof
      assume "\<exists>e \<in> set entries. ParseWorkloadKind e = Inr gk"
      then obtain e where e: "e \<in> set entries" "ParseWorkloadKind e = Inr gk" by blast
      then obtain gk' where gk': "gk' \<in> set ?ks" "FormatWorkloadKind gk' = e"
        using fm by (metis (no_types, lifting) image_iff list.set_map)
      then obtain e' where "e' \<in> set entries" "ParseWorkloadKind e' = Inr gk'"
        using kindsLoop_good by blast
      then show "gk \<in> set ?ks" using gk' e by (metis Format_Parse sum.inject(2))
    qed (rule kindsLoop_good)
    moreover have "fold List.insert ?ks [] = rev ?ks"
      using fold_insert_distinct [of ?ks "[]"] fm d by (metis append_Nil2 distinct_map)
    then have "kindSet_String s = joinWith '','' (sort (rev (map FormatWorkloadKind ?ks)))"
      by (simp add: s kindSet_String_def Kinds_def NewWorkloadKindSet_def map_sort_key rev_map)
    then have "kindSet_String s = joinWith '','' (sort entries)"
      using properties_for_sort [of "sort entries" "rev entries"] by (simp add: fm)
    ultimately show ?thesis by (simp add: s Allows_New)
  qed
  then show ?thesis using fields all False by blast
qed

theorem parseWorkloadKinds_spec_witness:
  "map le_field (snd (parseWorkloadKinds [''apps/Deployment'', ''apps/Deploment'', ''apps/Deployment''])) =
     [kindField 1, kindField 2] \<and>
   kindSet_String (fst (parseWorkloadKinds [''batch/Job'', ''apps/Deployment''])) = ''apps/Deployment,batch/Job''"
proof -
  have acc: "\<not> accepted [''apps/Deployment'', ''apps/Deploment'', ''apps/Deployment''] 1"
    "\<not> accepted [''apps/Deployment'', ''apps/Deploment'', ''apps/Deployment''] 2"
    "accepted [''apps/Deployment'', ''apps/Deploment'', ''apps/Deployment''] 0"
    by code_simp+
  have "map le_field (snd (parseWorkloadKinds [''apps/Deployment'', ''apps/Deploment'', ''apps/Deployment''])) =
     map kindField (filter (\<lambda>i. \<not> accepted [''apps/Deployment'', ''apps/Deploment'', ''apps/Deployment''] i)
       [0..<length [''apps/Deployment'', ''apps/Deploment'', ''apps/Deployment'']])"
    using parseWorkloadKinds_spec [OF prod.collapse [symmetric]] by blast
  also have "\<dots> = [kindField 1, kindField 2]"
    using acc by (simp add: upt_rec numeral_2_eq_2)
  moreover have "snd (parseWorkloadKinds [''batch/Job'', ''apps/Deployment'']) = []"
    by code_simp
  then have "kindSet_String (fst (parseWorkloadKinds [''batch/Job'', ''apps/Deployment''])) =
      joinWith '','' (sort [''batch/Job'', ''apps/Deployment''])"
    using parseWorkloadKinds_spec [of "[''batch/Job'', ''apps/Deployment'']", OF prod.collapse [symmetric]] by blast
  moreover have "joinWith '','' (sort [''batch/Job'', ''apps/Deployment'']) = ''apps/Deployment,batch/Job''"
    by code_simp
  ultimately show ?thesis by simp
qed

subsection \<open>Comparing allowlists\<close>

definition wfKinds :: "WorkloadKindSet \<Rightarrow> bool" where
  "wfKinds s \<longleftrightarrow> distinct (wk_kinds s)"

lemma wfKinds_ops [simp]: "wfKinds AllWorkloadKinds" "wfKinds (NewWorkloadKindSet kinds)"
  by (simp_all add: wfKinds_def AllWorkloadKinds_def NewWorkloadKindSet_def distinct_insert_fold)

lemma wfKinds_parse: "wfKinds (fst (parseWorkloadKinds entries))"
  by (simp add: parseWorkloadKinds_def split_beta Let_def)

lemma infinite_GroupKind: "infinite (UNIV :: GroupKind set)"
proof
  assume "finite (UNIV :: GroupKind set)"
  then have "finite (gk_group ` (UNIV :: GroupKind set))" by (rule finite_imageI)
  moreover have "gk_group ` (UNIV :: GroupKind set) = UNIV"
    by (rule surjI [of _ "\<lambda>g. gkind g ''''"]) (simp add: gkind_def)
  ultimately have "finite (UNIV :: string set)" by (simp only:)
  then show False using infinite_UNIV_listI by blast
qed

text \<open>
  The comparison of two allowlists answers exactly whether they allow the same kinds; in particular
  a restricted list, however long, never equals the unrestricted one.
\<close>

theorem kindSet_Equal_iff:
  assumes "wfKinds s" "wfKinds t"
  shows "kindSet_Equal s t \<longleftrightarrow> (\<forall>gk. Allows s gk \<longleftrightarrow> Allows t gk)"
proof -
  have fin: "\<exists>gk. gk \<notin> set ks" for ks :: "GroupKind list"
    using infinite_GroupKind by (metis List.finite_set UNIV_I finite_subset subsetI)
  have "length (wk_kinds s) = length (wk_kinds t) \<and> set (wk_kinds s) \<subseteq> set (wk_kinds t) \<longleftrightarrow>
      set (wk_kinds s) = set (wk_kinds t)"
    using assms by (metis List.finite_set card_subset_eq distinct_card order_refl wfKinds_def)
  moreover have "wk_restricted s \<noteq> wk_restricted t \<Longrightarrow> \<not> (\<forall>gk. Allows s gk \<longleftrightarrow> Allows t gk)"
    using fin [of "wk_kinds s"] fin [of "wk_kinds t"] by (auto simp: Allows_def)
  ultimately show ?thesis
    by (auto simp: kindSet_Equal_def Allows_def list_all_iff)
qed

theorem kindSet_Equal_iff_witness:
  "kindSet_Equal (NewWorkloadKindSet [gkind ''batch'' ''Job'', gkind ''apps'' ''Deployment''])
     (NewWorkloadKindSet [gkind ''apps'' ''Deployment'', gkind ''batch'' ''Job'', gkind ''batch'' ''Job'']) \<and>
   \<not> kindSet_Equal (NewWorkloadKindSet KnownWorkloadKinds) AllWorkloadKinds"
proof
  show "kindSet_Equal (NewWorkloadKindSet [gkind ''batch'' ''Job'', gkind ''apps'' ''Deployment''])
     (NewWorkloadKindSet [gkind ''apps'' ''Deployment'', gkind ''batch'' ''Job'', gkind ''batch'' ''Job''])"
    by (subst kindSet_Equal_iff) (auto simp: Allows_New)
  have "\<not> Allows (NewWorkloadKindSet KnownWorkloadKinds) (gkind '''' ''Pod'')"
    by (simp add: Allows_New KnownWorkloadKinds_def gkind_def)
  moreover have "Allows AllWorkloadKinds (gkind '''' ''Pod'')"
    by (simp add: Allows_def AllWorkloadKinds_def)
  ultimately show "\<not> kindSet_Equal (NewWorkloadKindSet KnownWorkloadKinds) AllWorkloadKinds"
    by (subst kindSet_Equal_iff) auto
qed

end
