(* ===== verification/Verifier_Outcome.thy ===== *)
theory Verifier_Outcome
  imports Inference_Config
begin

text \<open>
  \<^verbatim>\<open>verifier/verifier.go\<close>, \<^verbatim>\<open>outcome.go\<close> and \<^verbatim>\<open>fetch.go\<close>: the binding rules that turn cryptographic findings into an
  outcome, and the fetch rules for a signature reference. The regexp compiler, the URL parser, the
  base64 decoder and the HTTP client are parameters.
\<close>

datatype TrustRootMode = TrustEmpty | TrustPublic | TrustTUFMirror | TrustStaticBundle | TrustUnknown string

record IdentityConstraint =
  ict_issuer :: string
  ict_subjectPattern :: string

record Config =
  vc_trustRootMode :: TrustRootMode
  vc_tufMirrorURL :: string
  vc_staticBundlePath :: string
  vc_rekorURL :: string
  vc_identities :: "IdentityConstraint list"
  vc_perClaimTimeout :: int
  vc_cacheTTL :: int

definition DefaultPerClaimTimeout :: int where "DefaultPerClaimTimeout = 10 * 10 ^ 9"
definition DefaultCacheTTL :: int where "DefaultCacheTTL = 24 * 3600 * 10 ^ 9"
definition MaxBundleBytes :: nat where "MaxBundleBytes = 2 ^ 20"

record Claim =
  cl_modelIdentity :: string
  cl_signatureRef :: string
  cl_declaredDigest :: string

datatype Outcome =
    OutcomeNone
  | OutcomeVerified
  | OutcomeUnconstrained
  | OutcomeFailed
  | OutcomeIdentityMismatch
  | OutcomeSubjectNameMismatch
  | OutcomeDigestMismatch
  | OutcomeError

fun outcome_str :: "Outcome \<Rightarrow> string" where
  "outcome_str OutcomeNone = ''''"
| "outcome_str OutcomeVerified = ''verified''"
| "outcome_str OutcomeUnconstrained = ''signature-valid-unconstrained''"
| "outcome_str OutcomeFailed = ''failed''"
| "outcome_str OutcomeIdentityMismatch = ''identity-mismatch''"
| "outcome_str OutcomeSubjectNameMismatch = ''subject-name-mismatch''"
| "outcome_str OutcomeDigestMismatch = ''digest-mismatch''"
| "outcome_str OutcomeError = ''error''"

record Result =
  rs_verified :: bool
  rs_outcome :: Outcome
  rs_reason :: string
  rs_identity :: string
  rs_rekorEntry :: string
  rs_subjectName :: string
  rs_rootDigest :: string
  rs_subjectNameMismatch :: bool
  rs_verifiedAt :: time

record findings =
  fd_chainValid :: bool
  fd_chainErr :: string
  fd_errClass :: string
  fd_identity :: string
  fd_issuer :: string
  fd_rekorProven :: bool
  fd_rekorEntry :: string
  fd_subjectName :: string
  fd_rootDigest :: string

definition noFindings :: findings where
  "noFindings = \<lparr>fd_chainValid = False, fd_chainErr = '''', fd_errClass = '''', fd_identity = '''', fd_issuer = '''',
     fd_rekorProven = False, fd_rekorEntry = '''', fd_subjectName = '''', fd_rootDigest = ''''\<rparr>"

definition constraintMatches :: "compiler \<Rightarrow> string \<Rightarrow> string \<Rightarrow> IdentityConstraint \<Rightarrow> bool" where
  "constraintMatches compile issuer san ic \<longleftrightarrow>
     \<not> (ict_issuer ic \<noteq> '''' \<and> ict_issuer ic \<noteq> issuer) \<and>
     (ict_subjectPattern ic \<noteq> '''' \<longrightarrow> (case compile (ict_subjectPattern ic) of Inl _ \<Rightarrow> False | Inr m \<Rightarrow> m san))"

definition identityMatches :: "compiler \<Rightarrow> IdentityConstraint list \<Rightarrow> string \<Rightarrow> string \<Rightarrow> bool" where
  "identityMatches compile constraints issuer san = list_ex (constraintMatches compile issuer san) constraints"

definition digestEqual :: "string \<Rightarrow> string \<Rightarrow> bool" where
  "digestEqual declared root \<longleftrightarrow> declared = root \<or> ''sha256:'' @ declared = root"

definition decideOutcome :: "compiler \<Rightarrow> Config \<Rightarrow> Claim \<Rightarrow> findings \<Rightarrow> time \<Rightarrow> Result" where
  "decideOutcome compile cfg c f now =
    (let base = \<lparr>rs_verified = False, rs_outcome = OutcomeNone, rs_reason = '''', rs_identity = fd_identity f,
           rs_rekorEntry = fd_rekorEntry f, rs_subjectName = fd_subjectName f, rs_rootDigest = fd_rootDigest f,
           rs_subjectNameMismatch = False, rs_verifiedAt = now\<rparr>;
         constrained = (vc_trustRootMode cfg \<noteq> TrustPublic \<and> vc_trustRootMode cfg \<noteq> TrustEmpty) \<or> vc_identities cfg \<noteq> [];
         digestDeclared = (cl_declaredDigest c \<noteq> '''');
         nameMatches = (fd_subjectName f = cl_modelIdentity c)
     in if fd_errClass f \<noteq> '''' then base\<lparr>rs_outcome := OutcomeError, rs_reason := fd_errClass f\<rparr>
        else if \<not> fd_chainValid f then base\<lparr>rs_outcome := OutcomeFailed, rs_reason := fd_chainErr f\<rparr>
        else if \<not> fd_rekorProven f then base\<lparr>rs_outcome := OutcomeFailed, rs_reason := ''rekor-inclusion-not-proven''\<rparr>
        else if vc_identities cfg \<noteq> [] \<and> \<not> identityMatches compile (vc_identities cfg) (fd_issuer f) (fd_identity f)
          then base\<lparr>rs_outcome := OutcomeIdentityMismatch\<rparr>
        else if \<not> constrained then base\<lparr>rs_outcome := OutcomeUnconstrained\<rparr>
        else if digestDeclared \<and> \<not> digestEqual (cl_declaredDigest c) (fd_rootDigest f)
          then base\<lparr>rs_outcome := OutcomeDigestMismatch\<rparr>
        else if \<not> nameMatches \<and> \<not> digestDeclared then base\<lparr>rs_outcome := OutcomeSubjectNameMismatch\<rparr>
        else base\<lparr>rs_verified := True, rs_outcome := OutcomeVerified, rs_subjectNameMismatch := \<not> nameMatches\<rparr>)"

subsection \<open>Fetching a bundle\<close>

record url =
  url_scheme :: string
  url_host :: string
  url_user :: "string option"

datatype http_response = HttpError string | HttpStatus nat | HttpBody string

definition inlinePrefix :: string where "inlinePrefix = ''base64:''"

definition base64DecodedLen :: "nat \<Rightarrow> nat" where "base64DecodedLen n = n div 4 * 3"

datatype fetch_error =
    InlineTooLarge
  | InlineInvalid string
  | RefUnparsable string
  | SchemeNotAllowed string
  | CarriesCredentials
  | FetchFailed string
  | FetchStatus nat
  | BundleTooLarge

text \<open>The body of a 200 response is read up to one byte beyond the limit.\<close>

definition fetchBundle ::
  "(string \<Rightarrow> string + string) \<Rightarrow> (string \<Rightarrow> string + url) \<Rightarrow> (url \<Rightarrow> http_response) \<Rightarrow> string \<Rightarrow> fetch_error + string" where
  "fetchBundle b64 parseURL httpGet ref =
    (if hasPrefix ref inlinePrefix then
       (let enc = drop (length inlinePrefix) ref in
        if base64DecodedLen (length enc) > MaxBundleBytes then Inl InlineTooLarge
        else (case b64 enc of Inl e \<Rightarrow> Inl (InlineInvalid e) | Inr raw \<Rightarrow> Inr raw))
     else (case parseURL ref of
        Inl e \<Rightarrow> Inl (RefUnparsable e)
      | Inr u \<Rightarrow>
         if url_scheme u \<noteq> ''https'' then Inl (SchemeNotAllowed (url_scheme u))
         else if url_user u \<noteq> None then Inl CarriesCredentials
         else (case httpGet u of
            HttpError e \<Rightarrow> Inl (FetchFailed e)
          | HttpStatus n \<Rightarrow> Inl (FetchStatus n)
          | HttpBody body \<Rightarrow>
             (let raw = take (MaxBundleBytes + 1) body in
              if length raw > MaxBundleBytes then Inl BundleTooLarge else Inr raw))))"

datatype redirect_error = TooManyRedirects | RedirectNotHTTPS string | CrossHostRedirect string string

definition checkRedirect :: "url \<Rightarrow> url list \<Rightarrow> redirect_error option" where
  "checkRedirect req via =
    (if length via \<ge> 5 then Some TooManyRedirects
     else if url_scheme req \<noteq> ''https'' then Some (RedirectNotHTTPS (url_scheme req))
     else if length via > 0 \<and> url_host req \<noteq> url_host (hd via) then Some (CrossHostRedirect (url_host (hd via)) (url_host req))
     else None)"

text \<open>The requests the client makes: the first, then each redirect that is accepted.\<close>

inductive follows :: "url \<Rightarrow> url list \<Rightarrow> bool" for u where
  start: "follows u [u]"
| step: "follows u via \<Longrightarrow> checkRedirect req via = None \<Longrightarrow> follows u (via @ [req])"

subsection \<open>Properties\<close>

text \<open>
  C1. Verified is reported exactly when the whole chain holds: no infrastructure error, a valid
  signature chain, proven log inclusion, a constraint on the signer that is satisfied, no contradicted
  declared digest, and a matching subject name unless a digest was declared.
\<close>

theorem decideOutcome_verified_iff:
  "rs_verified (decideOutcome compile cfg c f now) \<longleftrightarrow>
     fd_errClass f = '''' \<and> fd_chainValid f \<and> fd_rekorProven f \<and>
     (vc_identities cfg \<noteq> [] \<or> vc_trustRootMode cfg \<notin> {TrustPublic, TrustEmpty}) \<and>
     (vc_identities cfg = [] \<or> identityMatches compile (vc_identities cfg) (fd_issuer f) (fd_identity f)) \<and>
     (cl_declaredDigest c = '''' \<or> digestEqual (cl_declaredDigest c) (fd_rootDigest f)) \<and>
     (cl_declaredDigest c \<noteq> '''' \<or> fd_subjectName f = cl_modelIdentity c)"
  by (simp add: decideOutcome_def Let_def)

theorem decideOutcome_verified_iff_witness:
  "\<not> rs_verified (decideOutcome (\<lambda>_. Inl '''')
      \<lparr>vc_trustRootMode = TrustPublic, vc_tufMirrorURL = '''', vc_staticBundlePath = '''', vc_rekorURL = '''',
       vc_identities = [], vc_perClaimTimeout = 0, vc_cacheTTL = 0\<rparr>
      \<lparr>cl_modelIdentity = ''a'', cl_signatureRef = ''r'', cl_declaredDigest = ''''\<rparr>
      (noFindings\<lparr>fd_chainValid := True, fd_rekorProven := True, fd_subjectName := ''a''\<rparr>) 0) \<and>
   rs_verified (decideOutcome (\<lambda>_. Inl '''')
      \<lparr>vc_trustRootMode = TrustTUFMirror, vc_tufMirrorURL = ''m'', vc_staticBundlePath = '''', vc_rekorURL = '''',
       vc_identities = [], vc_perClaimTimeout = 0, vc_cacheTTL = 0\<rparr>
      \<lparr>cl_modelIdentity = ''a'', cl_signatureRef = ''r'', cl_declaredDigest = ''''\<rparr>
      (noFindings\<lparr>fd_chainValid := True, fd_rekorProven := True, fd_subjectName := ''a''\<rparr>) 0)"
  by (simp add: decideOutcome_verified_iff noFindings_def)

text \<open>
  The flag, the outcome and the recorded facts of a result agree: Verified goes with the outcome
  verified and only with it, a name mismatch is only ever noted on a verified result that has a declared
  digest, the result never has the empty outcome, and the signer facts are always recorded.
\<close>

theorem decideOutcome_consistent:
  "let r = decideOutcome compile cfg c f now in
   (rs_verified r \<longleftrightarrow> rs_outcome r = OutcomeVerified) \<and>
   (rs_subjectNameMismatch r \<longrightarrow> rs_verified r \<and> cl_declaredDigest c \<noteq> '''') \<and>
   rs_outcome r \<noteq> OutcomeNone \<and>
   (rs_outcome r = OutcomeError \<longleftrightarrow> fd_errClass f \<noteq> '''') \<and>
   rs_identity r = fd_identity f \<and> rs_rekorEntry r = fd_rekorEntry f \<and> rs_rootDigest r = fd_rootDigest f"
  by (simp add: decideOutcome_def Let_def)

theorem decideOutcome_consistent_witness:
  "let f = noFindings\<lparr>fd_chainValid := True, fd_rekorProven := True, fd_subjectName := ''a'', fd_rootDigest := ''sha256:d''\<rparr>;
       cfg = \<lparr>vc_trustRootMode = TrustTUFMirror, vc_tufMirrorURL = ''m'', vc_staticBundlePath = '''', vc_rekorURL = '''',
              vc_identities = [], vc_perClaimTimeout = 0, vc_cacheTTL = 0\<rparr>;
       c = \<lparr>cl_modelIdentity = ''b'', cl_signatureRef = ''r'', cl_declaredDigest = ''d''\<rparr>;
       r = decideOutcome (\<lambda>_. Inl '''') cfg c f 0
   in rs_subjectNameMismatch r \<and> rs_verified r \<and> cl_declaredDigest c \<noteq> ''''"
  using decideOutcome_consistent [of "\<lambda>_. Inl ''''"
      "\<lparr>vc_trustRootMode = TrustTUFMirror, vc_tufMirrorURL = ''m'', vc_staticBundlePath = '''', vc_rekorURL = '''',
        vc_identities = [], vc_perClaimTimeout = 0, vc_cacheTTL = 0\<rparr>"
      "\<lparr>cl_modelIdentity = ''b'', cl_signatureRef = ''r'', cl_declaredDigest = ''d''\<rparr>"
      "noFindings\<lparr>fd_chainValid := True, fd_rekorProven := True, fd_subjectName := ''a'', fd_rootDigest := ''sha256:d''\<rparr>" 0]
  by (simp add: decideOutcome_def digestEqual_def noFindings_def Let_def)

lemma follows_nonempty: "follows u via \<Longrightarrow> via \<noteq> [] \<and> hd via = u"
  by (induction rule: follows.induct) auto

lemma follows_host: "follows u via \<Longrightarrow> \<forall>x \<in> set via. url_host x = url_host u"
proof (induction rule: follows.induct)
  case (step via req)
  then show ?case
    using follows_nonempty [OF step.hyps(1)] by (auto simp: checkRedirect_def split: if_splits)
qed simp

lemma follows_https: "follows u via \<Longrightarrow> url_scheme u = ''https'' \<Longrightarrow> \<forall>x \<in> set via. url_scheme x = ''https''"
proof (induction rule: follows.induct)
  case (step via req)
  then show ?case by (auto simp: checkRedirect_def split: if_splits)
qed simp

lemma follows_length: "follows u via \<Longrightarrow> length via \<le> 5"
proof (induction rule: follows.induct)
  case (step via req)
  then show ?case by (auto simp: checkRedirect_def split: if_splits)
qed simp

text \<open>
  A fetch that returns is bounded and stays where it was pointed: a bundle is at most one MiB, and the
  requests made for a reference are at most five, all over https and all to the host of the reference.
\<close>

theorem fetchBundle_safe:
  assumes "\<And>e raw. b64 e = Inr raw \<Longrightarrow> length raw \<le> base64DecodedLen (length e)"
  shows "(fetchBundle b64 parseURL httpGet ref = Inr raw \<longrightarrow> length raw \<le> MaxBundleBytes) \<and>
    (fetchBundle b64 parseURL httpGet ref = Inr raw \<and> \<not> hasPrefix ref inlinePrefix \<longrightarrow>
      (\<exists>u. parseURL ref = Inr u \<and> url_user u = None \<and>
        (\<forall>via. follows u via \<longrightarrow> length via \<le> 5 \<and>
           (\<forall>x \<in> set via. url_scheme x = ''https'' \<and> url_host x = url_host u))))"
proof (intro conjI impI)
  assume "fetchBundle b64 parseURL httpGet ref = Inr raw"
  then show "length raw \<le> MaxBundleBytes"
    using assms by (auto simp: fetchBundle_def Let_def split: if_splits sum.splits http_response.splits
        dest!: assms)
next
  assume "fetchBundle b64 parseURL httpGet ref = Inr raw \<and> \<not> hasPrefix ref inlinePrefix"
  then obtain u where u: "parseURL ref = Inr u" "url_user u = None" "url_scheme u = ''https''"
    by (auto simp: fetchBundle_def Let_def split: if_splits sum.splits)
  then show "\<exists>u. parseURL ref = Inr u \<and> url_user u = None \<and>
        (\<forall>via. follows u via \<longrightarrow> length via \<le> 5 \<and>
           (\<forall>x \<in> set via. url_scheme x = ''https'' \<and> url_host x = url_host u))"
    using follows_length follows_host follows_https by blast
qed

theorem fetchBundle_safe_witness:
  "fetchBundle (\<lambda>e. if e = ''QUJD'' then Inr ''ABC'' else Inl ''bad'') (\<lambda>_. Inl ''no'') (\<lambda>_. HttpStatus 404) ''base64:QUJD'' = Inr ''ABC'' \<and>
   length ''ABC'' \<le> MaxBundleBytes"
proof -
  have f: "fetchBundle (\<lambda>e. if e = ''QUJD'' then Inr ''ABC'' else Inl ''bad'') (\<lambda>_. Inl ''no'') (\<lambda>_. HttpStatus 404) ''base64:QUJD'' = Inr ''ABC''"
    by (simp add: fetchBundle_def hasPrefix_def inlinePrefix_def base64DecodedLen_def MaxBundleBytes_def)
  have h: "length raw \<le> base64DecodedLen (length e)"
    if "(if e = ''QUJD'' then Inr ''ABC'' else Inl ''bad'' :: string + string) = Inr raw" for e raw
    using that by (auto simp: base64DecodedLen_def split: if_splits)
  from fetchBundle_safe [OF h, THEN conjunct1, rule_format, OF _ f] f show ?thesis by simp
qed

end
