(* ===== verification/Verifier_Rekor.thy ===== *)
theory Verifier_Rekor
  imports Verifier_Outcome Signature Scraper_Hash
begin

text \<open>
  \<^verbatim>\<open>verifier/cache.go\<close>, \<^verbatim>\<open>verifier/rekor.go\<close> and \<^verbatim>\<open>internal/sigverify/adapter.go\<close>: the result cache with its in-flight
  deduplication, the Rekor verifier and its adapter to the scraper's verifier interface. The sigstore
  library, the TUF client, the clock, SHA-256 and the JSON encoder are parameters.
\<close>

subsection \<open>The result cache, one caller at a time\<close>

definition errorCacheTTL :: int where "errorCacheTTL = 60 * 10 ^ 9"

record cacheEntry =
  ce_result :: Result
  ce_expires :: time

type_synonym entries = "string \<Rightarrow> cacheEntry option"

definition entryTTL :: "int \<Rightarrow> Result \<Rightarrow> int" where
  "entryTTL ttl res = (if rs_outcome res = OutcomeError then errorCacheTTL else ttl)"

definition cacheHit :: "entries \<Rightarrow> string \<Rightarrow> time \<Rightarrow> Result option" where
  "cacheHit es key now = (case es key of
     Some e \<Rightarrow> if now < ce_expires e then Some (ce_result e) else None
   | None \<Rightarrow> None)"

definition cacheStore :: "int \<Rightarrow> entries \<Rightarrow> string \<Rightarrow> Result \<Rightarrow> time \<Rightarrow> entries" where
  "cacheStore ttl es key res now = es(key \<mapsto> \<lparr>ce_result = res, ce_expires = now + entryTTL ttl res\<rparr>)"

text \<open>\<open>cache_do\<close> reads the clock on entry and again when it stores; \<open>fn\<close> runs on a miss only.\<close>

definition cache_do :: "int \<Rightarrow> time \<Rightarrow> time \<Rightarrow> entries \<Rightarrow> string \<Rightarrow> (unit \<Rightarrow> Result) \<Rightarrow> Result \<times> entries" where
  "cache_do ttl now0 now1 es key fn = (case cacheHit es key now0 of
     Some r \<Rightarrow> (r, es)
   | None \<Rightarrow> (let res = fn () in (res, cacheStore ttl es key res now1)))"

subsection \<open>The result cache under concurrency\<close>

text \<open>
  Each call of \<^verbatim>\<open>do\<close> is a caller with a phase. The critical sections of the code are the steps: a hit,
  joining an in-flight call, becoming the leader, storing the leader's result and removing the call,
  publishing it by closing the channel, and a waiter's wake-up.
\<close>

datatype phase =
    Arrived string
  | Leading string
  | Waiting string nat
  | Stored string Result
  | Returned string Result

record cache_state =
  cc_entries :: entries
  cc_inflight :: "string \<Rightarrow> nat option"
  cc_phase :: "nat \<Rightarrow> phase option"
  cc_closed :: "nat \<Rightarrow> Result option"

inductive cache_step :: "int \<Rightarrow> cache_state \<Rightarrow> cache_state \<Rightarrow> bool" for ttl where
  arrive: "cc_phase s c = None \<Longrightarrow> cache_step ttl s (s\<lparr>cc_phase := (cc_phase s)(c \<mapsto> Arrived k)\<rparr>)"
| hit: "cc_phase s c = Some (Arrived k) \<Longrightarrow> cacheHit (cc_entries s) k now = Some r \<Longrightarrow>
    cache_step ttl s (s\<lparr>cc_phase := (cc_phase s)(c \<mapsto> Returned k r)\<rparr>)"
| join: "cc_phase s c = Some (Arrived k) \<Longrightarrow> cacheHit (cc_entries s) k now = None \<Longrightarrow> cc_inflight s k = Some l \<Longrightarrow>
    cache_step ttl s (s\<lparr>cc_phase := (cc_phase s)(c \<mapsto> Waiting k l)\<rparr>)"
| lead: "cc_phase s c = Some (Arrived k) \<Longrightarrow> cacheHit (cc_entries s) k now = None \<Longrightarrow> cc_inflight s k = None \<Longrightarrow>
    cache_step ttl s (s\<lparr>cc_phase := (cc_phase s)(c \<mapsto> Leading k), cc_inflight := (cc_inflight s)(k \<mapsto> c)\<rparr>)"
| store: "cc_phase s c = Some (Leading k) \<Longrightarrow>
    cache_step ttl s (s\<lparr>cc_phase := (cc_phase s)(c \<mapsto> Stored k r),
      cc_entries := cacheStore ttl (cc_entries s) k r now, cc_inflight := (cc_inflight s)(k := None)\<rparr>)"
| publish: "cc_phase s c = Some (Stored k r) \<Longrightarrow>
    cache_step ttl s (s\<lparr>cc_phase := (cc_phase s)(c \<mapsto> Returned k r), cc_closed := (cc_closed s)(c \<mapsto> r)\<rparr>)"
| wake: "cc_phase s c = Some (Waiting k l) \<Longrightarrow> cc_closed s l = Some r \<Longrightarrow>
    cache_step ttl s (s\<lparr>cc_phase := (cc_phase s)(c \<mapsto> Returned k r)\<rparr>)"

definition cacheStart :: cache_state where
  "cacheStart = \<lparr>cc_entries = (\<lambda>_. None), cc_inflight = (\<lambda>_. None), cc_phase = (\<lambda>_. None), cc_closed = (\<lambda>_. None)\<rparr>"

inductive cache_reach :: "int \<Rightarrow> cache_state \<Rightarrow> bool" for ttl where
  init: "cache_reach ttl cacheStart"
| step: "cache_reach ttl s \<Longrightarrow> cache_step ttl s s' \<Longrightarrow> cache_reach ttl s'"

text \<open>A waiter's leader is still working, has stored its result, or has published it.\<close>

definition leaderAlive :: "cache_state \<Rightarrow> string \<Rightarrow> nat \<Rightarrow> bool" where
  "leaderAlive s k l \<longleftrightarrow> cc_phase s l = Some (Leading k) \<or>
     (\<exists>r. cc_phase s l = Some (Stored k r)) \<or> (\<exists>r. cc_phase s l = Some (Returned k r) \<and> cc_closed s l = Some r)"

definition leadersUnique :: "cache_state \<Rightarrow> bool" where
  "leadersUnique s \<longleftrightarrow> (\<forall>k c. cc_inflight s k = Some c \<longleftrightarrow> cc_phase s c = Some (Leading k))"

definition closedReturned :: "cache_state \<Rightarrow> bool" where
  "closedReturned s \<longleftrightarrow> (\<forall>c r. cc_closed s c = Some r \<longrightarrow> (\<exists>k. cc_phase s c = Some (Returned k r)))"

definition waitersServed :: "cache_state \<Rightarrow> bool" where
  "waitersServed s \<longleftrightarrow> (\<forall>c k l. cc_phase s c = Some (Waiting k l) \<longrightarrow> leaderAlive s k l)"

subsection \<open>The Rekor verifier\<close>

definition validateConfig :: "Config \<Rightarrow> string + Config" where
  "validateConfig cfg =
    (let timeouts = (\<lambda>c. c\<lparr>vc_perClaimTimeout := (if vc_perClaimTimeout c \<le> 0 then DefaultPerClaimTimeout else vc_perClaimTimeout c),
            vc_cacheTTL := (if vc_cacheTTL c \<le> 0 then DefaultCacheTTL else vc_cacheTTL c)\<rparr>)
     in case vc_trustRootMode cfg of
          TrustPublic \<Rightarrow> Inr (timeouts (cfg\<lparr>vc_trustRootMode := TrustPublic\<rparr>))
        | TrustEmpty \<Rightarrow> Inr (timeouts (cfg\<lparr>vc_trustRootMode := TrustPublic\<rparr>))
        | TrustTUFMirror \<Rightarrow> if vc_tufMirrorURL cfg = '''' then Inl ''verifier: trustRootMode tufMirror requires tufMirrorURL''
             else Inr (timeouts cfg)
        | TrustStaticBundle \<Rightarrow> if vc_staticBundlePath cfg = '''' then Inl ''verifier: trustRootMode staticBundle requires staticBundlePath''
             else Inr (timeouts cfg)
        | TrustUnknown m \<Rightarrow> Inl (''verifier: unknown trustRootMode '' @ goQuote m))"

record 'm RekorVerifier =
  rv_cfg :: Config
  rv_entries :: entries
  rv_trusted :: "('m \<times> string) option"

definition NewRekorVerifier :: "Config \<Rightarrow> string + 'm RekorVerifier" where
  "NewRekorVerifier cfg = map_sum id (\<lambda>c. \<lparr>rv_cfg = c, rv_entries = (\<lambda>_. None), rv_trusted = None\<rparr>) (validateConfig cfg)"

text \<open>\<open>resolve\<close> reads the trust root for a configuration: the parsed material and its epoch, or an error.\<close>

definition trustedMaterial :: "(Config \<Rightarrow> string + 'm \<times> string) \<Rightarrow> 'm RekorVerifier \<Rightarrow> (string + 'm \<times> string) \<times> 'm RekorVerifier" where
  "trustedMaterial resolve v = (case rv_trusted v of
     Some t \<Rightarrow> (Inr t, v)
   | None \<Rightarrow> (case resolve (rv_cfg v) of
        Inl e \<Rightarrow> (Inl e, v)
      | Inr t \<Rightarrow> (Inr t, v\<lparr>rv_trusted := Some t\<rparr>)))"

text \<open>
  The sigstore results that \<^verbatim>\<open>gatherFindings\<close> reads: the fetched bytes, the parsed bundle, the verifier's
  verdict with identity, certificate and statement subjects, and the bundle's log indexes.
\<close>

record verdict =
  vd_identity :: "(string \<times> string) option"
  vd_certificate :: "(string \<times> string) option"
  vd_subjects :: "(string \<times> gomap) list"

datatype fetch_result = FetchTimeout string | FetchErr string | FetchOK string

definition gatherFindings ::
  "(string \<Rightarrow> fetch_result) \<Rightarrow> (string \<Rightarrow> string + 'b) \<Rightarrow> (unit \<Rightarrow> string option) \<Rightarrow> ('b \<Rightarrow> string + verdict) \<Rightarrow>
   ('b \<Rightarrow> nat list) \<Rightarrow> Claim \<Rightarrow> findings" where
  "gatherFindings fetch parse initErr sevVerify logIndexes c = (case fetch (cl_signatureRef c) of
     FetchTimeout e \<Rightarrow> noFindings\<lparr>fd_errClass := ''timeout: '' @ e\<rparr>
   | FetchErr e \<Rightarrow> noFindings\<lparr>fd_errClass := ''fetch: '' @ e\<rparr>
   | FetchOK raw \<Rightarrow> (case parse raw of
        Inl e \<Rightarrow> noFindings\<lparr>fd_chainErr := ''bundle parse: '' @ e\<rparr>
      | Inr b \<Rightarrow> (case initErr () of
           Some e \<Rightarrow> noFindings\<lparr>fd_errClass := ''verifier init: '' @ e\<rparr>
         | None \<Rightarrow> (case sevVerify b of
              Inl e \<Rightarrow> noFindings\<lparr>fd_chainErr := e\<rparr>
            | Inr res \<Rightarrow>
               (let signer = (case vd_identity res of Some i \<Rightarrow> i
                      | None \<Rightarrow> (case vd_certificate res of Some i \<Rightarrow> i | None \<Rightarrow> ('''', '''')))
                in noFindings\<lparr>fd_chainValid := True, fd_rekorProven := True,
                     fd_identity := fst signer, fd_issuer := snd signer,
                     fd_subjectName := (case vd_subjects res of [] \<Rightarrow> '''' | (n, d) # _ \<Rightarrow> n),
                     fd_rootDigest := (case vd_subjects res of [] \<Rightarrow> '''' | (n, d) # _ \<Rightarrow>
                        (case map_of d ''sha256'' of Some x \<Rightarrow> if x \<noteq> '''' then ''sha256:'' @ x else '''' | None \<Rightarrow> '''')),
                     fd_rekorEntry := (case logIndexes b of [] \<Rightarrow> '''' | i # _ \<Rightarrow> showNat i)\<rparr>)))))"

definition hashKey :: "(string \<Rightarrow> string) \<Rightarrow> string \<Rightarrow> string" where
  "hashKey shaSum s = hexEncode (take 8 (shaSum s))"

record 'm rekor_env =
  env_compile :: compiler
  env_shaSum :: "string \<Rightarrow> string"
  env_resolve :: "Config \<Rightarrow> string + 'm \<times> string"
  env_gather :: "'m \<Rightarrow> Claim \<Rightarrow> findings"

definition cacheKey :: "(string \<Rightarrow> string) \<Rightarrow> Claim \<Rightarrow> string \<Rightarrow> string" where
  "cacheKey shaSum c epoch = hashKey shaSum (cl_signatureRef c) @ '':'' @ epoch"

definition rekor_Verify :: "'m rekor_env \<Rightarrow> time \<Rightarrow> time \<Rightarrow> 'm RekorVerifier \<Rightarrow> Claim \<Rightarrow> Result \<times> 'm RekorVerifier" where
  "rekor_Verify env now0 now1 v c =
    (if cl_signatureRef c = '''' then
       (\<lparr>rs_verified = False, rs_outcome = OutcomeFailed, rs_reason = ''empty signature reference'', rs_identity = '''',
         rs_rekorEntry = '''', rs_subjectName = '''', rs_rootDigest = '''', rs_subjectNameMismatch = False, rs_verifiedAt = 0\<rparr>, v)
     else (case trustedMaterial (env_resolve env) v of
        (Inl e, v') \<Rightarrow>
          (case cache_do (vc_cacheTTL (rv_cfg v')) now0 now1 (rv_entries v')
                  (''trust-unresolved:'' @ hashKey (env_shaSum env) (cl_signatureRef c))
                  (\<lambda>_. decideOutcome (env_compile env) (rv_cfg v') c (noFindings\<lparr>fd_errClass := ''tuf-refresh: '' @ e\<rparr>) now1) of
             (r, es) \<Rightarrow> (r, v'\<lparr>rv_entries := es\<rparr>))
      | (Inr (trusted, epoch), v') \<Rightarrow>
          (case cache_do (vc_cacheTTL (rv_cfg v')) now0 now1 (rv_entries v') (cacheKey (env_shaSum env) c epoch)
                  (\<lambda>_. decideOutcome (env_compile env) (rv_cfg v') c (env_gather env trusted c) now1) of
             (r, es) \<Rightarrow> (r, v'\<lparr>rv_entries := es\<rparr>))))"

subsection \<open>The adapter\<close>

record 'm Adapter =
  ad_cfgKey :: string
  ad_rv :: "'m RekorVerifier option"

definition configKey :: "(Config \<Rightarrow> string) \<Rightarrow> (string \<Rightarrow> string) \<Rightarrow> Config \<Rightarrow> string" where
  "configKey marshal shaSum vc = hexEncode (take 8 (shaSum (marshal vc)))"

definition adapter_current :: "(Config \<Rightarrow> string) \<Rightarrow> (string \<Rightarrow> string) \<Rightarrow> 'm Adapter \<Rightarrow> Config \<Rightarrow> (string + 'm RekorVerifier) \<times> 'm Adapter" where
  "adapter_current marshal shaSum a vc =
    (let key = configKey marshal shaSum vc in
     case ad_rv a of
       Some rv \<Rightarrow> if ad_cfgKey a = key then (Inr rv, a)
          else (case NewRekorVerifier vc of Inl e \<Rightarrow> (Inl e, a) | Inr rv' \<Rightarrow> (Inr rv', \<lparr>ad_cfgKey = key, ad_rv = Some rv'\<rparr>))
     | None \<Rightarrow> (case NewRekorVerifier vc of Inl e \<Rightarrow> (Inl e, a) | Inr rv' \<Rightarrow> (Inr rv', \<lparr>ad_cfgKey = key, ad_rv = Some rv'\<rparr>)))"

definition adapterResult :: "Result \<Rightarrow> SignatureResult" where
  "adapterResult res = \<lparr>sr_status = (if rs_verified res then SignatureVerified else SignatureClaimed),
     sr_identity = rs_identity res, sr_rekorEntry = rs_rekorEntry res, sr_outcome = outcome_str (rs_outcome res),
     sr_reason = rs_reason res, sr_subjectNameMismatch = rs_subjectNameMismatch res, sr_timestamp = rs_verifiedAt res\<rparr>"

definition adapter_Verify ::
  "'m rekor_env \<Rightarrow> (Config \<Rightarrow> string) \<Rightarrow> time \<Rightarrow> time \<Rightarrow> 'm Adapter \<Rightarrow> Config option \<Rightarrow> SignatureClaim \<Rightarrow> SignatureResult \<times> 'm Adapter" where
  "adapter_Verify env marshal now0 now1 a verification claim =
    (if sc_signatureRef claim = '''' then (bareResult SignatureUnsigned, a)
     else case verification of
        None \<Rightarrow> (bareResult SignatureClaimed, a)
      | Some vc \<Rightarrow> (case adapter_current marshal (env_shaSum env) a vc of
           (Inl e, a') \<Rightarrow> ((bareResult SignatureClaimed)\<lparr>sr_outcome := outcome_str OutcomeError,
                             sr_reason := ''verifier construction: '' @ e\<rparr>, a')
         | (Inr rv, a') \<Rightarrow>
            (case rekor_Verify env now0 now1 rv \<lparr>cl_modelIdentity = sc_modelIdentity claim,
                    cl_signatureRef = sc_signatureRef claim, cl_declaredDigest = sc_declaredDigest claim\<rparr> of
               (res, rv') \<Rightarrow> (adapterResult res, a'\<lparr>ad_rv := Some rv'\<rparr>))))"

subsection \<open>Cache lemmas\<close>

lemma cacheHit_store:
  "cacheHit (cacheStore ttl es key res now1) k now =
     (if k = key then (if now < now1 + entryTTL ttl res then Some res else None) else cacheHit es k now)"
  by (simp add: cacheHit_def cacheStore_def)

lemma leadersUnique_step: "cache_step ttl s s' \<Longrightarrow> leadersUnique s \<Longrightarrow> leadersUnique s'"
proof (induction rule: cache_step.induct)
  case (store s c k r now)
  then have iff: "cc_inflight s k' = Some d \<longleftrightarrow> cc_phase s d = Some (Leading k')" for k' d
    by (simp add: leadersUnique_def)
  have inf: "cc_inflight s k = Some c" using iff store by simp
  have "((cc_inflight s)(k := None)) k' = Some d \<longleftrightarrow> ((cc_phase s)(c \<mapsto> Stored k r)) d = Some (Leading k')" for k' d
  proof (cases "d = c")
    case True
    then show ?thesis using iff [of k' c] store.hyps inf by auto
  next
    case False
    then show ?thesis using iff [of k' d] inf by auto
  qed
  then show ?case by (simp add: leadersUnique_def)
next
  case (lead s c k now)
  then have "cc_phase s d \<noteq> Some (Leading k)" for d
    unfolding leadersUnique_def by (metis option.distinct(1))
  with lead show ?case by (auto simp: leadersUnique_def)
qed (auto simp: leadersUnique_def)

lemma closed_None:
  "closedReturned s \<Longrightarrow> (\<And>k r. cc_phase s c \<noteq> Some (Returned k r)) \<Longrightarrow> cc_closed s c = None"
  unfolding closedReturned_def by (metis option.exhaust)

lemma closedReturned_step: "cache_step ttl s s' \<Longrightarrow> closedReturned s \<Longrightarrow> closedReturned s'"
proof (induction rule: cache_step.induct)
  case (arrive s c k)
  with closed_None [of s c] show ?case by (auto simp: closedReturned_def)
next
  case (hit s c k now r)
  with closed_None [of s c] show ?case by (auto simp: closedReturned_def)
next
  case (join s c k now l)
  with closed_None [of s c] show ?case by (auto simp: closedReturned_def)
next
  case (lead s c k now)
  with closed_None [of s c] show ?case by (auto simp: closedReturned_def)
next
  case (store s c k r now)
  with closed_None [of s c] show ?case by (auto simp: closedReturned_def)
next
  case (publish s c k r)
  then show ?case by (auto simp: closedReturned_def)
next
  case (wake s c k l r)
  with closed_None [of s c] show ?case by (auto simp: closedReturned_def)
qed


lemma waitersServed_step:
  "cache_step ttl s s' \<Longrightarrow> leadersUnique s \<Longrightarrow> waitersServed s \<Longrightarrow> waitersServed s'"
proof (induction rule: cache_step.induct)
  case (arrive s c k)
  then show ?case by (force simp: waitersServed_def leaderAlive_def)
next
  case (hit s c k now r)
  then show ?case by (force simp: waitersServed_def leaderAlive_def)
next
  case (join s c k now l)
  then have "cc_phase s l = Some (Leading k)" by (simp add: leadersUnique_def)
  with join show ?case by (force simp: waitersServed_def leaderAlive_def)
next
  case (lead s c k now)
  then show ?case by (force simp: waitersServed_def leaderAlive_def)
next
  case (store s c k r now)
  then show ?case by (force simp: waitersServed_def leaderAlive_def)
next
  case (publish s c k r)
  then show ?case by (force simp: waitersServed_def leaderAlive_def)
next
  case (wake s c k l r)
  then show ?case by (force simp: waitersServed_def leaderAlive_def)
qed

lemma cache_reach_inv: "cache_reach ttl s \<Longrightarrow> leadersUnique s \<and> closedReturned s \<and> waitersServed s"
proof (induction rule: cache_reach.induct)
  case init
  show ?case by (simp add: cacheStart_def leadersUnique_def closedReturned_def waitersServed_def)
next
  case (step s s')
  then show ?case using leadersUnique_step closedReturned_step waitersServed_step by blast
qed


definition exampleLeader :: cache_state where
  "exampleLeader = cacheStart\<lparr>cc_phase := [0 \<mapsto> Leading ''k''], cc_inflight := [''k'' \<mapsto> 0]\<rparr>"

lemma exampleLeader_reach: "cache_reach 5 exampleLeader"
proof -
  define s where "s = cacheStart\<lparr>cc_phase := (cc_phase cacheStart)(0 \<mapsto> Arrived ''k'')\<rparr>"
  have "cache_step 5 cacheStart s"
    unfolding s_def by (rule cache_step.arrive) (simp add: cacheStart_def)
  then have r: "cache_reach 5 s" by (rule cache_reach.step [OF cache_reach.init])
  have "cache_step 5 s (s\<lparr>cc_phase := (cc_phase s)(0 \<mapsto> Leading ''k''), cc_inflight := (cc_inflight s)(''k'' \<mapsto> 0)\<rparr>)"
    by (rule cache_step.lead [where now = 0]) (simp_all add: s_def cacheStart_def cacheHit_def)
  moreover have "s\<lparr>cc_phase := (cc_phase s)(0 \<mapsto> Leading ''k''), cc_inflight := (cc_inflight s)(''k'' \<mapsto> 0)\<rparr> = exampleLeader"
    by (simp add: s_def exampleLeader_def cacheStart_def)
  ultimately show ?thesis using cache_reach.step [OF r] by simp
qed


text \<open>
  A result is reused until it expires and not longer: within the time to live of its outcome (one
  minute for an error) a second call returns the stored result without running the verification and leaves
  the cache as it is; once that time has passed the verification runs again.
\<close>

theorem cache_reuse:
  assumes "cache_do ttl t0 t1 es key fn = (r, es')" and "cacheHit es key t0 = None"
  shows "r = fn () \<and>
    (t2 < t1 + (if rs_outcome r = OutcomeError then 60 * 10 ^ 9 else ttl) \<longrightarrow> cache_do ttl t2 t3 es' key fn' = (r, es')) \<and>
    (t2 \<ge> t1 + (if rs_outcome r = OutcomeError then 60 * 10 ^ 9 else ttl) \<longrightarrow> fst (cache_do ttl t2 t3 es' key fn') = fn' ())"
proof -
  have r: "r = fn ()" "es' = cacheStore ttl es key r t1"
    using assms by (auto simp: cache_do_def Let_def)
  have hit: "cacheHit es' key t2 = (if t2 < t1 + entryTTL ttl r then Some r else None)"
    by (simp add: r(2) cacheHit_store)
  have ttl: "entryTTL ttl r = (if rs_outcome r = OutcomeError then 60 * 10 ^ 9 else ttl)"
    by (simp add: entryTTL_def errorCacheTTL_def)
  show ?thesis using r(1) hit unfolding ttl [symmetric] by (simp add: cache_do_def Let_def)
qed

definition exampleResult :: "string \<Rightarrow> Result" where
  "exampleResult reason = \<lparr>rs_verified = False, rs_outcome = OutcomeError, rs_reason = reason, rs_identity = '''',
     rs_rekorEntry = '''', rs_subjectName = '''', rs_rootDigest = '''', rs_subjectNameMismatch = False, rs_verifiedAt = 0\<rparr>"

theorem cache_reuse_witness:
  "fst (cache_do 1000 30 30 (snd (cache_do 1000 0 1 (\<lambda>_. None) ''k'' (\<lambda>_. exampleResult ''a''))) ''k'' (\<lambda>_. exampleResult ''b'')) = exampleResult ''a'' \<and>
   fst (cache_do 1000 (61 * 10 ^ 9) 0 (snd (cache_do 1000 0 1 (\<lambda>_. None) ''k'' (\<lambda>_. exampleResult ''a''))) ''k'' (\<lambda>_. exampleResult ''b'')) = exampleResult ''b''"
proof -
  obtain r es' where d: "cache_do 1000 0 1 (\<lambda>_. None) ''k'' (\<lambda>_. exampleResult ''a'') = (r, es')" by (meson surj_pair)
  have m: "cacheHit (\<lambda>_. None) ''k'' 0 = None" by (simp add: cacheHit_def)
  have o: "rs_outcome (exampleResult ''a'') = OutcomeError" by (simp add: exampleResult_def)
  from cache_reuse [OF d m, of 30 30 "\<lambda>_. exampleResult ''b''"]
    cache_reuse [OF d m, of "61 * 10 ^ 9" 0 "\<lambda>_. exampleResult ''b''"] d o
  show ?thesis by simp
qed

subsection \<open>The verifier behind the cache\<close>

text \<open>
  The cache key of the Rekor verifier is the signature reference and the trust epoch only: after a
  claim was verified, any other claim with the same reference, whatever model identity and digest it
  declares, gets that same result while the entry lives.
\<close>

theorem rekor_cache_shared:
  assumes "cl_signatureRef c = cl_signatureRef c'" "cl_signatureRef c \<noteq> ''''"
    and "rv_trusted v = Some (trusted, epoch)"
    and "rekor_Verify env t0 t1 v c = (r, v')"
    and "cacheHit (rv_entries v) (cacheKey (env_shaSum env) c epoch) t0 = None"
    and "t2 < t1 + entryTTL (vc_cacheTTL (rv_cfg v)) r"
  shows "r = decideOutcome (env_compile env) (rv_cfg v) c (env_gather env trusted c) t1 \<and>
    rekor_Verify env t2 t3 v' c' = (r, v')"
proof -
  have key: "cacheKey (env_shaSum env) c' epoch = cacheKey (env_shaSum env) c epoch"
    using assms(1) by (simp add: cacheKey_def)
  from assms(2-5) have r: "r = decideOutcome (env_compile env) (rv_cfg v) c (env_gather env trusted c) t1"
    and v': "v' = v\<lparr>rv_entries := cacheStore (vc_cacheTTL (rv_cfg v)) (rv_entries v) (cacheKey (env_shaSum env) c epoch) r t1\<rparr>"
    by (auto simp: rekor_Verify_def trustedMaterial_def cache_do_def Let_def)
  have "cacheHit (rv_entries v') (cacheKey (env_shaSum env) c' epoch) t2 = Some r"
    using assms(6) by (simp add: v' key cacheHit_store)
  then show ?thesis
    using assms(1-3) r by (simp add: rekor_Verify_def trustedMaterial_def cache_do_def v' Let_def)
qed

definition exampleVerifier :: "unit RekorVerifier" where
  "exampleVerifier = \<lparr>rv_cfg = \<lparr>vc_trustRootMode = TrustTUFMirror, vc_tufMirrorURL = ''m'', vc_staticBundlePath = '''',
     vc_rekorURL = '''', vc_identities = [], vc_perClaimTimeout = 1, vc_cacheTTL = 1000\<rparr>,
     rv_entries = (\<lambda>_. None), rv_trusted = Some ((), ''e'')\<rparr>"

definition exampleEnv :: "unit rekor_env" where
  "exampleEnv = \<lparr>env_compile = (\<lambda>_. Inl ''''), env_shaSum = id, env_resolve = (\<lambda>_. Inr ((), ''e'')),
     env_gather = (\<lambda>_ _. noFindings\<lparr>fd_chainValid := True, fd_rekorProven := True, fd_subjectName := ''llama''\<rparr>)\<rparr>"

definition exampleClaim :: "string \<Rightarrow> Claim" where
  "exampleClaim m = \<lparr>cl_modelIdentity = m, cl_signatureRef = ''r'', cl_declaredDigest = ''''\<rparr>"

text \<open>A model that the signed statement does not name is reported verified, right after one that it does.\<close>

theorem rekor_cache_shared_witness:
  "let (r, v) = rekor_Verify exampleEnv 0 0 exampleVerifier (exampleClaim ''llama'') in
   rs_verified (fst (rekor_Verify exampleEnv 1 1 v (exampleClaim ''other''))) \<and>
   rs_outcome (decideOutcome (env_compile exampleEnv) (rv_cfg v) (exampleClaim ''other'')
     (env_gather exampleEnv () (exampleClaim ''other'')) 1) = OutcomeSubjectNameMismatch"
proof -
  obtain r v where v: "rekor_Verify exampleEnv 0 0 exampleVerifier (exampleClaim ''llama'') = (r, v)"
    by (meson surj_pair)
  have cfg: "rv_cfg v = rv_cfg exampleVerifier"
    using v by (auto simp: rekor_Verify_def exampleClaim_def exampleVerifier_def trustedMaterial_def split: prod.splits)
  have r: "rs_verified r" "rs_outcome r = OutcomeVerified"
    using v by (auto simp: rekor_Verify_def exampleClaim_def exampleVerifier_def trustedMaterial_def exampleEnv_def
        cache_do_def cacheHit_def decideOutcome_def noFindings_def Let_def)
  have "rekor_Verify exampleEnv 1 1 v (exampleClaim ''other'') = (r, v)"
    by (rule rekor_cache_shared [where c = "exampleClaim ''llama''" and v = exampleVerifier and trusted = "()" and epoch = "''e''",
          OF _ _ _ v, THEN conjunct2])
      (simp_all add: exampleClaim_def exampleVerifier_def cacheHit_def entryTTL_def r)
  then show ?thesis
    using v r cfg by (simp add: decideOutcome_def exampleEnv_def exampleVerifier_def exampleClaim_def noFindings_def Let_def)
qed

subsection \<open>The adapter as a signature verifier\<close>

lemma adapter_claim_status:
  assumes "sc_signatureRef claim \<noteq> ''''"
  shows "sr_status (fst (adapter_Verify env marshal t0 t1 a vc claim)) \<noteq> SignatureUnsigned"
  using assms
  by (auto simp: adapter_Verify_def bareResult_def adapterResult_def split: option.splits prod.splits sum.splits)

interpretation adapter: signature_verifier "\<lambda>claim. Inr (fst (adapter_Verify env marshal t0 t1 a vc claim))"
proof unfold_locales
  fix c :: SignatureClaim and r
  show "\<exists>r. Inr (fst (adapter_Verify env marshal t0 t1 a vc c)) = Inr r \<and> sr_status r = SignatureUnsigned"
    if "sc_signatureRef c = ''''"
    using that by (simp add: adapter_Verify_def bareResult_def)
  show "sr_status r \<noteq> SignatureUnsigned"
    if "sc_signatureRef c \<noteq> ''''" "Inr (fst (adapter_Verify env marshal t0 t1 a vc c)) = Inr r"
    using adapter_claim_status [OF that(1), of env marshal t0 t1 a vc] that(2) by auto
qed

lemma NewRekorVerifier_cfg:
  "NewRekorVerifier vc = Inr v \<Longrightarrow> validateConfig vc = Inr (rv_cfg v) \<and> rv_entries v = (\<lambda>_. None) \<and> rv_trusted v = None"
  by (cases "validateConfig vc") (auto simp: NewRekorVerifier_def)

text \<open>
  The adapter: with verification disabled it behaves exactly like the default verifier; a model it
  marks on a scraped component is always claimed or verified; and after a change of the trust policy no
  result of the previous policy is reused, the claim is decided afresh under the new configuration.
\<close>

theorem adapter_contract:
  fixes env :: "'m rekor_env" and a :: "'m Adapter"
  assumes "sc_signatureRef claim \<noteq> ''''" "ad_cfgKey a \<noteq> configKey marshal (env_shaSum env) vc"
    and "validateConfig vc = Inr cfg" "env_resolve env cfg = Inr (trusted, epoch)"
  shows "Inr (fst (adapter_Verify env marshal t0 t1 a None claim)) = NoopVerifier claim \<and>
    (cType c = ComponentMLModel \<and> gm_sorted (cProperties c) \<longrightarrow>
      map_of (cProperties (applySignature (\<lambda>cl. Inr (fst (adapter_Verify env marshal t0 t1 a (Some vc) cl)))
        (sc_signatureRef claim) digest c)) propSignatureStatus \<in> {Some ''claimed'', Some ''verified''}) \<and>
    fst (adapter_Verify env marshal t0 t1 a (Some vc) claim) =
      adapterResult (decideOutcome (env_compile env) cfg
        \<lparr>cl_modelIdentity = sc_modelIdentity claim, cl_signatureRef = sc_signatureRef claim, cl_declaredDigest = sc_declaredDigest claim\<rparr>
        (env_gather env trusted \<lparr>cl_modelIdentity = sc_modelIdentity claim, cl_signatureRef = sc_signatureRef claim,
           cl_declaredDigest = sc_declaredDigest claim\<rparr>) t1)"
proof (intro conjI impI)
  show "Inr (fst (adapter_Verify env marshal t0 t1 a None claim)) = NoopVerifier claim"
    using assms(1) by (simp add: adapter_Verify_def NoopVerifier_def)
next
  assume c: "cType c = ComponentMLModel \<and> gm_sorted (cProperties c)"
  obtain st where "st \<noteq> SignatureUnsigned"
    "map_of (cProperties (applySignature (\<lambda>cl. Inr (fst (adapter_Verify env marshal t0 t1 a (Some vc) cl)))
        (sc_signatureRef claim) digest c)) propSignatureStatus = Some (status_str st)"
    using adapter.status_recorded [OF assms(1)] c by blast
  then show "map_of (cProperties (applySignature (\<lambda>cl. Inr (fst (adapter_Verify env marshal t0 t1 a (Some vc) cl)))
        (sc_signatureRef claim) digest c)) propSignatureStatus \<in> {Some ''claimed'', Some ''verified''}"
    by (cases st) auto
next
  have new: "(NewRekorVerifier vc :: string + 'm RekorVerifier) = Inr \<lparr>rv_cfg = cfg, rv_entries = (\<lambda>_. None), rv_trusted = None\<rparr>"
    using assms(3) by (simp add: NewRekorVerifier_def)
  then have "fst (adapter_current marshal (env_shaSum env) a vc) = Inr \<lparr>rv_cfg = cfg, rv_entries = (\<lambda>_. None), rv_trusted = None\<rparr>"
    using assms(2) by (simp add: adapter_current_def Let_def split: option.split)
  then obtain a' where cur: "adapter_current marshal (env_shaSum env) a vc =
      (Inr \<lparr>rv_cfg = cfg, rv_entries = (\<lambda>_. None), rv_trusted = None\<rparr>, a')"
    by (metis prod.collapse)
  show "fst (adapter_Verify env marshal t0 t1 a (Some vc) claim) =
      adapterResult (decideOutcome (env_compile env) cfg
        \<lparr>cl_modelIdentity = sc_modelIdentity claim, cl_signatureRef = sc_signatureRef claim, cl_declaredDigest = sc_declaredDigest claim\<rparr>
        (env_gather env trusted \<lparr>cl_modelIdentity = sc_modelIdentity claim, cl_signatureRef = sc_signatureRef claim,
           cl_declaredDigest = sc_declaredDigest claim\<rparr>) t1)"
    using assms(1,4) cur
    by (simp add: adapter_Verify_def rekor_Verify_def trustedMaterial_def cache_do_def cacheHit_def Let_def)
qed

theorem adapter_contract_witness:
  "let claim = \<lparr>sc_modelIdentity = ''llama'', sc_signatureRef = ''r'', sc_declaredDigest = '''',
         sc_evidence = \<lparr>ev_source = SourceEnvVar, ev_locator = ''''\<rparr>\<rparr>;
       a = \<lparr>ad_cfgKey = ''old'', ad_rv = Some (exampleVerifier\<lparr>rv_entries := (\<lambda>_. Some \<lparr>ce_result = exampleResult ''stale'', ce_expires = 99\<rparr>)\<rparr>)\<rparr>
   in sr_status (fst (adapter_Verify exampleEnv (\<lambda>_. ''new'') 0 0 a (Some (rv_cfg exampleVerifier)) claim)) = SignatureVerified"
proof -
  let ?claim = "\<lparr>sc_modelIdentity = ''llama'', sc_signatureRef = ''r'', sc_declaredDigest = '''',
         sc_evidence = \<lparr>ev_source = SourceEnvVar, ev_locator = ''''\<rparr>\<rparr>"
  let ?a = "\<lparr>ad_cfgKey = ''old'', ad_rv = Some (exampleVerifier\<lparr>rv_entries := (\<lambda>_. Some \<lparr>ce_result = exampleResult ''stale'', ce_expires = 99\<rparr>)\<rparr>)\<rparr>"
  have key: "ad_cfgKey ?a \<noteq> configKey (\<lambda>_. ''new'') (env_shaSum exampleEnv) (rv_cfg exampleVerifier)"
    by (simp add: configKey_def exampleEnv_def hexEncode_def hexDigit_def)
  have cfg: "validateConfig (rv_cfg exampleVerifier) = Inr (rv_cfg exampleVerifier)"
    by (simp add: validateConfig_def exampleVerifier_def Let_def)
  have "env_resolve exampleEnv (rv_cfg exampleVerifier) = Inr ((), ''e'')" "sc_signatureRef ?claim \<noteq> ''''"
    by (simp_all add: exampleEnv_def)
  from adapter_contract [OF this(2) key cfg this(1), of 0 0]
  show ?thesis
    by (simp add: adapterResult_def decideOutcome_def exampleEnv_def exampleVerifier_def noFindings_def Let_def)
qed

end
