(* ===== verification/Config_Types.thy ===== *)
theory Config_Types
  imports Workload_Kinds Verifier_Rekor
begin

text \<open>
  The controller's configuration: the custom resource of
  \<^verbatim>\<open>api/v1beta1/aibomcontrollerconfig_types.go\<close>, the errors of \<^verbatim>\<open>internal/config/errors.go\<close>, the snapshot
  of \<^verbatim>\<open>snapshot.go\<close> and the compiled-in defaults of \<^verbatim>\<open>defaults.go\<close>. A label selector of the Kubernetes
  library is represented by what the controller asks of it, whether it matches a label set and how it
  prints; materialising one and the embedded pattern file are parameters. Sinks are of any type \<open>'s\<close>.
\<close>

subsection \<open>The custom resource\<close>

record label_selector =
  ls_matchLabels :: gomap
  ls_matchExpressions :: "(string \<times> string \<times> string list) list"

record selector =
  sel_matches :: "gomap \<Rightarrow> bool"
  sel_string :: string

record CRRuntimeImagePattern =
  crp_runtime :: string
  crp_pattern :: string

record DiscoveryConfig =
  dc_namespaceSelector :: "label_selector option"
  dc_inferenceRuntimeImagePatterns :: "CRRuntimeImagePattern list"
  dc_workloadKinds :: "string list"

record BOMGenerationConfig =
  bg_inlineThresholdBytes :: int
  bg_staleThresholdReconciles :: int

datatype SinkType = SinkTypeGCS | SinkTypeWebhook | SinkTypeOther string

fun sinkType_str :: "SinkType \<Rightarrow> string" where
  "sinkType_str SinkTypeGCS = ''GCS''"
| "sinkType_str SinkTypeWebhook = ''Webhook''"
| "sinkType_str (SinkTypeOther s) = s"

record SecretKeyRef =
  skr_name :: string
  skr_key :: string

record MTLSAuth =
  mt_clientCertSecretRef :: SecretKeyRef
  mt_clientKeySecretRef :: SecretKeyRef
  mt_caSecretRef :: "SecretKeyRef option"

record WebhookAuth =
  wa_bearerToken :: "SecretKeyRef option"
  wa_mtls :: "MTLSAuth option"

record GCSSinkSpec =
  gs_bucket :: string
  gs_pathTemplate :: string
  gs_credentialsSecretRef :: "SecretKeyRef option"

record WebhookSinkSpec =
  ws_endpoint :: string
  ws_auth :: "WebhookAuth option"

record SinkConfig =
  sk_name :: string
  sk_type :: SinkType
  sk_gcs :: "GCSSinkSpec option"
  sk_webhook :: "WebhookSinkSpec option"

record VerificationConfig =
  vf_enabled :: bool
  vf_trustRootMode :: string
  vf_tufMirrorURL :: string
  vf_staticBundlePath :: string
  vf_rekorURL :: string
  vf_identities :: "IdentityConstraint list"
  vf_perClaimTimeoutSeconds :: int
  vf_cacheTTLMinutes :: int

record AIBOMControllerConfig =
  cr_generation :: int
  cr_discovery :: DiscoveryConfig
  cr_bomGeneration :: BOMGenerationConfig
  cr_sinks :: "SinkConfig list"
  cr_loggingLevel :: string
  cr_verification :: "VerificationConfig option"

subsection \<open>Load errors\<close>

definition loadError_Error :: "LoadError \<Rightarrow> string" where
  "loadError_Error e = (if le_field e = '''' then le_message e else le_field e @ '': '' @ le_message e)"

definition sinkField :: "string \<Rightarrow> string" where
  "sinkField name = ''spec.sinks[name='' @ name @ '']''"

definition errWebhookAuthOverCleartext :: "string \<Rightarrow> LoadError" where
  "errWebhookAuthOverCleartext sinkName = \<lparr>le_field = sinkField sinkName @ ''.webhook.endpoint'',
     le_message = ''Sink '' @ goQuote sinkName @ '' configures auth with an http:// URL: credentials must not be sent over cleartext. Use https://, or remove auth for an unauthenticated in-cluster receiver.''\<rparr>"

definition errSinkMissingTypeBody :: "string \<Rightarrow> string \<Rightarrow> LoadError" where
  "errSinkMissingTypeBody sinkName sinkType = (let subfield = toLower sinkType in
     \<lparr>le_field = sinkField sinkName @ ''.'' @ subfield,
      le_message = ''Sink '' @ goQuote sinkName @ '' has Type='' @ sinkType @ '' but '' @ sinkField sinkName @ ''.'' @ subfield @
        '' is nil. Set the '' @ subfield @ '' subfield with the sink configuration, or change Type if a different sink was intended.''\<rparr>)"

definition errSinkExtraTypeBody :: "string \<Rightarrow> string \<Rightarrow> string \<Rightarrow> LoadError" where
  "errSinkExtraTypeBody sinkName sinkType extraField =
     \<lparr>le_field = sinkField sinkName @ ''.'' @ extraField,
      le_message = ''Sink '' @ goQuote sinkName @ '' has Type='' @ sinkType @ '' but '' @ sinkField sinkName @ ''.'' @ extraField @
        '' is also populated. Exactly one of {gcs, webhook} may be set per sink; the populated subfield must match Type.''\<rparr>"

definition errSinkDuplicateName :: "string \<Rightarrow> LoadError" where
  "errSinkDuplicateName sinkName = \<lparr>le_field = sinkField sinkName,
     le_message = ''Sink name '' @ goQuote sinkName @ '' is used by multiple entries in spec.sinks. Sink names must be unique within the AIBOMControllerConfig.''\<rparr>"

definition errSinkUnknownType :: "string \<Rightarrow> string \<Rightarrow> LoadError" where
  "errSinkUnknownType sinkName sinkType = \<lparr>le_field = sinkField sinkName @ ''.type'',
     le_message = ''Sink '' @ goQuote sinkName @ '' has unknown Type='' @ goQuote sinkType @ ''. Allowed values: GCS, Webhook.''\<rparr>"

definition errPatternCompileFailed :: "nat \<Rightarrow> string \<Rightarrow> string \<Rightarrow> string \<Rightarrow> LoadError" where
  "errPatternCompileFailed index runtime pattern compileErr =
     \<lparr>le_field = ''spec.discovery.inferenceRuntimeImagePatterns['' @ showNat index @ ''].pattern'',
      le_message = ''Runtime '' @ goQuote runtime @ '' pattern '' @ goQuote pattern @ '' failed to compile as a Go regexp: '' @ compileErr @
        ''. Anchor the pattern (e.g., ^vllm/.*) and escape regex metacharacters in literal path segments.''\<rparr>"

definition errNamespaceSelectorInvalid :: "string \<Rightarrow> LoadError" where
  "errNamespaceSelectorInvalid reason = \<lparr>le_field = ''spec.discovery.namespaceSelector'',
     le_message = ''namespaceSelector cannot be materialized: '' @ reason @
       ''. Common causes: invalid label-key syntax, malformed matchExpressions operator.''\<rparr>"

subsection \<open>Snapshots\<close>

datatype SnapshotSource = SourceConfigCR | SourceCompiledDefaults | SourceLastKnownGood

record 's Snapshot =
  sn_patterns :: "InferenceConfig option"
  sn_verification :: "Config option"
  sn_inlineThreshold :: int
  sn_staleThresholdReconciles :: int
  sn_namespaceSelector :: "selector option"
  sn_workloadKinds :: WorkloadKindSet
  sn_logLevel :: string
  sn_externalSinks :: "'s list"
  sn_source :: SnapshotSource
  sn_sourceGeneration :: int
  sn_loadedAt :: time

record 's LoadResult =
  lr_snapshot :: "'s Snapshot option"
  lr_errors :: "LoadError list"

definition HasErrors :: "'s LoadResult \<Rightarrow> bool" where
  "HasErrors r \<longleftrightarrow> lr_errors r \<noteq> []"

definition AggregateMessage :: "'s LoadResult \<Rightarrow> string" where
  "AggregateMessage r = (if \<not> HasErrors r then '''' else joinWith ''; '' (map loadError_Error (lr_errors r)))"

definition DefaultInlineThresholdBytes :: int where "DefaultInlineThresholdBytes = 262144"
definition DefaultStaleThresholdReconciles :: int where "DefaultStaleThresholdReconciles = 3"
definition DefaultNamespaceOptInLabel :: string where "DefaultNamespaceOptInLabel = ''aibom.k8saibom.dev/enabled''"
definition DefaultConfigName :: string where "DefaultConfigName = ''default''"
definition MinInlineThresholdBytes :: int where "MinInlineThresholdBytes = 1024"
definition MaxInlineThresholdBytes :: int where "MaxInlineThresholdBytes = 1048576"

text \<open>The library functions the package calls, and the embedded pattern file.\<close>

record config_env =
  ce_selectorFromSet :: "gomap \<Rightarrow> selector"
  ce_asSelector :: "label_selector \<Rightarrow> string + selector"
  ce_compile :: compiler
  ce_defaultV1Config :: InferenceConfig

definition DefaultNamespaceSelector :: "config_env \<Rightarrow> selector" where
  "DefaultNamespaceSelector env = ce_selectorFromSet env [(DefaultNamespaceOptInLabel, ''true'')]"

definition DefaultSnapshot :: "config_env \<Rightarrow> time \<Rightarrow> 's Snapshot" where
  "DefaultSnapshot env now =
    \<lparr>sn_patterns = Some (ce_defaultV1Config env), sn_verification = None,
     sn_inlineThreshold = DefaultInlineThresholdBytes,
     sn_staleThresholdReconciles = DefaultStaleThresholdReconciles,
     sn_namespaceSelector = Some (DefaultNamespaceSelector env), sn_workloadKinds = AllWorkloadKinds,
     sn_logLevel = '''', sn_externalSinks = [], sn_source = SourceCompiledDefaults,
     sn_sourceGeneration = 0, sn_loadedAt = now\<rparr>"

definition MarkAsLastKnownGood :: "'s Snapshot option \<Rightarrow> 's Snapshot option" where
  "MarkAsLastKnownGood snap = (case snap of None \<Rightarrow> None
     | Some s \<Rightarrow> if sn_source s = SourceLastKnownGood then Some s else Some (s\<lparr>sn_source := SourceLastKnownGood\<rparr>))"

end
