(* ===== verification/Config_Loader.thy ===== *)
theory Config_Loader
  imports Config_Types
begin

text \<open>
  \<^verbatim>\<open>internal/config/loader.go\<close>: from the custom resource to a snapshot. Every check collects its errors;
  any error at all yields the compiled-in defaults and closes the sinks that were already built. The
  sink factory and the API read are parameters; the signature of \<open>parseSpec\<close> also returns the list
  of sinks it closes. The lemmas show the all-or-nothing rule, what an accepted resource guarantees
  about its sinks and thresholds, and that an accepted verification block is one the verifier accepts.
\<close>

text \<open>\<^verbatim>\<open>strings.TrimSpace\<close>: the UTF-8 encodings of the white-space runes, removed at both ends.\<close>

definition spaceRunes :: "string list" where
  "spaceRunes = map (map char_of)
    [[9::nat], [10], [11], [12], [13], [32], [194, 133], [194, 160], [225, 154, 128],
     [226, 128, 128], [226, 128, 129], [226, 128, 130], [226, 128, 131], [226, 128, 132], [226, 128, 133],
     [226, 128, 134], [226, 128, 135], [226, 128, 136], [226, 128, 137], [226, 128, 138],
     [226, 128, 168], [226, 128, 169], [226, 128, 175], [226, 129, 159], [227, 128, 128]]"

lemma drop_prefix_shorter: "find (\<lambda>p. p \<noteq> '''' \<and> hasPrefix s p) ps = Some p \<Longrightarrow> length s - length p < length s"
  by (auto simp: find_Some_iff elim!: hasPrefixE)

function trimPrefixes :: "string list \<Rightarrow> string \<Rightarrow> string" where
  "trimPrefixes ps s = (case find (\<lambda>p. p \<noteq> '''' \<and> hasPrefix s p) ps of
     None \<Rightarrow> s | Some p \<Rightarrow> trimPrefixes ps (drop (length p) s))"
  by pat_completeness auto
termination
  by (relation "measure (\<lambda>(ps, s). length s)") (auto dest: drop_prefix_shorter)

declare trimPrefixes.simps [simp del]

definition TrimSpace :: "string \<Rightarrow> string" where
  "TrimSpace s = rev (trimPrefixes (map rev spaceRunes) (rev (trimPrefixes spaceRunes s)))"

definition resolveInlineThreshold :: "int \<Rightarrow> int" where
  "resolveInlineThreshold crValue =
    (if crValue \<le> 0 then DefaultInlineThresholdBytes
     else if crValue < MinInlineThresholdBytes then MinInlineThresholdBytes
     else if crValue > MaxInlineThresholdBytes then MaxInlineThresholdBytes
     else crValue)"

definition resolveStaleThreshold :: "int \<Rightarrow> int" where
  "resolveStaleThreshold crValue = (if crValue \<le> 0 then DefaultStaleThresholdReconciles else crValue)"

definition parseNamespaceSelector :: "config_env \<Rightarrow> label_selector option \<Rightarrow> LoadError + selector" where
  "parseNamespaceSelector env sel = (case sel of
     None \<Rightarrow> Inr (DefaultNamespaceSelector env)
   | Some ls \<Rightarrow> (case ce_asSelector env ls of
        Inl err \<Rightarrow> Inl (errNamespaceSelectorInvalid err)
      | Inr s \<Rightarrow> Inr s))"

fun patternsLoop :: "compiler \<Rightarrow> nat \<Rightarrow> CRRuntimeImagePattern list \<Rightarrow> RuntimeImagePattern list \<times> LoadError list" where
  "patternsLoop compile i [] = ([], [])"
| "patternsLoop compile i (p # ps) = (let (rs, es) = patternsLoop compile (Suc i) ps in
     case NewRuntimeImagePattern compile (crp_runtime p) (crp_pattern p) of
       Inl err \<Rightarrow> (rs, errPatternCompileFailed i (crp_runtime p) (crp_pattern p) err # es)
     | Inr rp \<Rightarrow> (rp # rs, es))"

definition parsePatterns :: "config_env \<Rightarrow> CRRuntimeImagePattern list \<Rightarrow> InferenceConfig \<times> LoadError list" where
  "parsePatterns env specs =
    (if specs = [] then (ce_defaultV1Config env, [])
     else let (rps, errs) = patternsLoop (ce_compile env) 0 specs in
       ((ce_defaultV1Config env)\<lparr>ic_runtimeImagePatterns := rps\<rparr>, errs))"

text \<open>One iteration of \<^verbatim>\<open>validateSinkShapes\<close>: the type switch.\<close>

definition cleartextEndpoint :: "string \<Rightarrow> bool" where
  "cleartextEndpoint endpoint \<longleftrightarrow> hasPrefix (toLower (TrimSpace endpoint)) ''http://''"

definition sinkTypeErrors :: "SinkConfig \<Rightarrow> LoadError list" where
  "sinkTypeErrors s = (case sk_type s of
     SinkTypeGCS \<Rightarrow>
       (if sk_gcs s = None then [errSinkMissingTypeBody (sk_name s) (sinkType_str (sk_type s))] else []) @
       (if sk_webhook s \<noteq> None then [errSinkExtraTypeBody (sk_name s) (sinkType_str (sk_type s)) ''webhook''] else [])
   | SinkTypeWebhook \<Rightarrow>
       (if sk_webhook s = None then [errSinkMissingTypeBody (sk_name s) (sinkType_str (sk_type s))] else []) @
       (if sk_gcs s \<noteq> None then [errSinkExtraTypeBody (sk_name s) (sinkType_str (sk_type s)) ''gcs''] else []) @
       (case sk_webhook s of None \<Rightarrow> [] | Some w \<Rightarrow>
          if ws_auth w \<noteq> None \<and> cleartextEndpoint (ws_endpoint w) then [errWebhookAuthOverCleartext (sk_name s)] else [])
   | SinkTypeOther t \<Rightarrow> [errSinkUnknownType (sk_name s) t])"

fun sinkShapesLoop :: "string list \<Rightarrow> SinkConfig list \<Rightarrow> LoadError list" where
  "sinkShapesLoop seenNames [] = []"
| "sinkShapesLoop seenNames (s # ss) =
    (if sk_name s \<in> set seenNames
     then errSinkDuplicateName (sk_name s) # sinkTypeErrors s @ sinkShapesLoop seenNames ss
     else sinkTypeErrors s @ sinkShapesLoop (sk_name s # seenNames) ss)"

definition validateSinkShapes :: "SinkConfig list \<Rightarrow> LoadError list" where
  "validateSinkShapes sinks = sinkShapesLoop [] sinks"

definition toTrustRootMode :: "string \<Rightarrow> TrustRootMode" where
  "toTrustRootMode s = (if s = '''' then TrustEmpty else if s = ''public'' then TrustPublic
     else if s = ''tufMirror'' then TrustTUFMirror else if s = ''staticBundle'' then TrustStaticBundle
     else TrustUnknown s)"

text \<open>Two's-complement wrap-around of a 64-bit signed product.\<close>

definition int64 :: "int \<Rightarrow> int" where
  "int64 x = (x + 2 ^ 63) mod 2 ^ 64 - 2 ^ 63"

definition verifErr :: "string \<Rightarrow> string \<Rightarrow> LoadError" where
  "verifErr field msg = \<lparr>le_field = ''spec.verification.'' @ field, le_message = msg\<rparr>"

definition trustModeErrors :: "VerificationConfig \<Rightarrow> LoadError list" where
  "trustModeErrors v = (case toTrustRootMode (vf_trustRootMode v) of
     TrustEmpty \<Rightarrow> [] | TrustPublic \<Rightarrow> []
   | TrustTUFMirror \<Rightarrow> if vf_tufMirrorURL v = '''' then [verifErr ''tufMirrorURL'' ''required when trustRootMode is tufMirror''] else []
   | TrustStaticBundle \<Rightarrow> if vf_staticBundlePath v = '''' then [verifErr ''staticBundlePath'' ''required when trustRootMode is staticBundle''] else []
   | TrustUnknown m \<Rightarrow> [verifErr ''trustRootMode'' (''unknown mode '' @ goQuote m)])"

fun identitiesLoop :: "compiler \<Rightarrow> nat \<Rightarrow> IdentityConstraint list \<Rightarrow> IdentityConstraint list \<times> LoadError list" where
  "identitiesLoop compile i [] = ([], [])"
| "identitiesLoop compile i (ic # ics) = (let (ids, es) = identitiesLoop compile (Suc i) ics in
     if ict_subjectPattern ic \<noteq> ''''
     then (case compile (ict_subjectPattern ic) of
         Inl err \<Rightarrow> (ids, verifErr (''identities['' @ showNat i @ ''].subjectPattern'') err # es)
       | Inr _ \<Rightarrow> (ic # ids, es))
     else (ic # ids, es))"

definition parseVerification :: "config_env \<Rightarrow> VerificationConfig option \<Rightarrow> Config option \<times> LoadError list" where
  "parseVerification env inp = (case inp of None \<Rightarrow> (None, []) | Some v \<Rightarrow>
     if \<not> vf_enabled v then (None, [])
     else let mode = (case toTrustRootMode (vf_trustRootMode v) of TrustEmpty \<Rightarrow> TrustPublic | md \<Rightarrow> md);
              (ids, idErrs) = identitiesLoop (ce_compile env) 0 (vf_identities v);
              errs = trustModeErrors v @ idErrs
       in if errs \<noteq> [] then (None, errs)
          else (Some \<lparr>vc_trustRootMode = mode, vc_tufMirrorURL = vf_tufMirrorURL v,
                 vc_staticBundlePath = vf_staticBundlePath v, vc_rekorURL = vf_rekorURL v, vc_identities = ids,
                 vc_perClaimTimeout = (if vf_perClaimTimeoutSeconds v > 0 then int64 (vf_perClaimTimeoutSeconds v * 10 ^ 9) else 0),
                 vc_cacheTTL = (if vf_cacheTTLMinutes v > 0 then int64 (vf_cacheTTLMinutes v * (60 * 10 ^ 9)) else 0)\<rparr>, []))"

text \<open>The result, and the sinks that were built and closed again.\<close>

definition parseSpec ::
  "config_env \<Rightarrow> (SinkConfig list \<Rightarrow> 's list \<times> LoadError list) \<Rightarrow> time \<Rightarrow> AIBOMControllerConfig \<Rightarrow> 's LoadResult \<times> 's list" where
  "parseSpec env buildSinks now cr =
    (let nsr = parseNamespaceSelector env (dc_namespaceSelector (cr_discovery cr));
         nsErrs = (case nsr of Inl e \<Rightarrow> [e] | Inr _ \<Rightarrow> []);
         (patterns, patternErrs) = parsePatterns env (dc_inferenceRuntimeImagePatterns (cr_discovery cr));
         (workloadKinds, kindErrs) = parseWorkloadKinds (dc_workloadKinds (cr_discovery cr));
         (verification, verifErrs) = parseVerification env (cr_verification cr);
         shapeErrs = validateSinkShapes (cr_sinks cr);
         (sinks, buildErrs) = (if shapeErrs = [] then buildSinks (cr_sinks cr) else ([], []));
         errs = nsErrs @ patternErrs @ kindErrs @ verifErrs @ shapeErrs @ buildErrs
     in if errs \<noteq> [] then (\<lparr>lr_snapshot = Some (DefaultSnapshot env now), lr_errors = errs\<rparr>, sinks)
        else (\<lparr>lr_snapshot = Some
               \<lparr>sn_patterns = Some patterns, sn_verification = verification,
                sn_inlineThreshold = resolveInlineThreshold (bg_inlineThresholdBytes (cr_bomGeneration cr)),
                sn_staleThresholdReconciles = resolveStaleThreshold (bg_staleThresholdReconciles (cr_bomGeneration cr)),
                sn_namespaceSelector = (case nsr of Inl _ \<Rightarrow> None | Inr s \<Rightarrow> Some s),
                sn_workloadKinds = workloadKinds, sn_logLevel = cr_loggingLevel cr, sn_externalSinks = sinks,
                sn_source = SourceConfigCR, sn_sourceGeneration = cr_generation cr, sn_loadedAt = now\<rparr>,
               lr_errors = []\<rparr>, []))"

definition Load ::
  "config_env \<Rightarrow> (SinkConfig list \<Rightarrow> 's list \<times> LoadError list) \<Rightarrow> (string \<Rightarrow> AIBOMControllerConfig api_result) \<Rightarrow> time \<Rightarrow> string \<Rightarrow>
   string + 's LoadResult \<times> 's list" where
  "Load env buildSinks get now configName =
    (let name = (if configName = '''' then DefaultConfigName else configName) in
     case get name of
       NotFound \<Rightarrow> Inr (\<lparr>lr_snapshot = Some (DefaultSnapshot env now), lr_errors = []\<rparr>, [])
     | ApiError err \<Rightarrow> Inl (''get AIBOMControllerConfig/'' @ name @ '': '' @ err)
     | Found cr \<Rightarrow> Inr (parseSpec env buildSinks now cr))"

subsection \<open>What the checks accept\<close>

lemma patternsLoop_ok:
  "snd (patternsLoop compile i ps) = [] \<longleftrightarrow> (\<forall>p \<in> set ps. \<exists>m. compile (crp_pattern p) = Inr m)"
  "length (fst (patternsLoop compile i ps)) + length (snd (patternsLoop compile i ps)) = length ps"
  by (induction compile i ps rule: patternsLoop.induct)
    (auto simp: Let_def split_beta NewRuntimeImagePattern_def split: sum.splits)

lemma patternsLoop_patterns:
  "snd (patternsLoop compile i ps) = [] \<Longrightarrow>
   map (\<lambda>r. \<lparr>crp_runtime = rip_runtime r, crp_pattern = rip_pattern r\<rparr>) (fst (patternsLoop compile i ps)) = ps"
  by (induction compile i ps rule: patternsLoop.induct)
    (auto simp: Let_def split_beta NewRuntimeImagePattern_def split: sum.splits)

definition wellShaped :: "SinkConfig \<Rightarrow> bool" where
  "wellShaped s \<longleftrightarrow> (case sk_type s of
     SinkTypeGCS \<Rightarrow> sk_gcs s \<noteq> None \<and> sk_webhook s = None
   | SinkTypeWebhook \<Rightarrow> sk_gcs s = None \<and>
       (\<exists>w. sk_webhook s = Some w \<and> (ws_auth w = None \<or> \<not> cleartextEndpoint (ws_endpoint w)))
   | SinkTypeOther _ \<Rightarrow> False)"

lemma sinkTypeErrors_Nil: "sinkTypeErrors s = [] \<longleftrightarrow> wellShaped s"
  by (auto simp: sinkTypeErrors_def wellShaped_def split: SinkType.splits option.splits)

lemma sinkShapesLoop_Nil:
  "sinkShapesLoop seen ss = [] \<longleftrightarrow>
    distinct (map sk_name ss) \<and> set (map sk_name ss) \<inter> set seen = {} \<and> (\<forall>s \<in> set ss. wellShaped s)"
  by (induction seen ss rule: sinkShapesLoop.induct) (auto simp: sinkTypeErrors_Nil)

lemma validateSinkShapes_Nil:
  "validateSinkShapes ss = [] \<longleftrightarrow> distinct (map sk_name ss) \<and> (\<forall>s \<in> set ss. wellShaped s)"
  by (simp add: validateSinkShapes_def sinkShapesLoop_Nil)

lemma identitiesLoop_Nil:
  "snd (identitiesLoop compile i ics) = [] \<longleftrightarrow>
    (\<forall>ic \<in> set ics. ict_subjectPattern ic = '''' \<or> (\<exists>m. compile (ict_subjectPattern ic) = Inr m))"
  by (induction compile i ics rule: identitiesLoop.induct) (auto simp: Let_def split_beta split: sum.splits)

lemma identitiesLoop_all: "snd (identitiesLoop compile i ics) = [] \<Longrightarrow> fst (identitiesLoop compile i ics) = ics"
  by (induction compile i ics rule: identitiesLoop.induct) (auto simp: Let_def split_beta split: sum.splits if_splits)

lemma thresholds_in_range:
  "MinInlineThresholdBytes \<le> resolveInlineThreshold x" "resolveInlineThreshold x \<le> MaxInlineThresholdBytes"
  "1 \<le> resolveStaleThreshold y"
  by (simp_all add: resolveInlineThreshold_def resolveStaleThreshold_def MinInlineThresholdBytes_def
      MaxInlineThresholdBytes_def DefaultInlineThresholdBytes_def DefaultStaleThresholdReconciles_def)

definition specAccepted :: "config_env \<Rightarrow> (SinkConfig list \<Rightarrow> 's list \<times> LoadError list) \<Rightarrow> AIBOMControllerConfig \<Rightarrow> bool" where
  "specAccepted env buildSinks cr \<longleftrightarrow>
    (case dc_namespaceSelector (cr_discovery cr) of None \<Rightarrow> True | Some ls \<Rightarrow> (\<exists>s. ce_asSelector env ls = Inr s)) \<and>
    (\<forall>p \<in> set (dc_inferenceRuntimeImagePatterns (cr_discovery cr)). \<exists>m. ce_compile env (crp_pattern p) = Inr m) \<and>
    snd (parseWorkloadKinds (dc_workloadKinds (cr_discovery cr))) = [] \<and>
    snd (parseVerification env (cr_verification cr)) = [] \<and>
    distinct (map sk_name (cr_sinks cr)) \<and> (\<forall>s \<in> set (cr_sinks cr). wellShaped s) \<and>
    snd (buildSinks (cr_sinks cr)) = []"

lemma parsePatterns_Nil:
  "snd (parsePatterns env ps) = [] \<longleftrightarrow> (\<forall>p \<in> set ps. \<exists>m. ce_compile env (crp_pattern p) = Inr m)"
  by (auto simp: parsePatterns_def Let_def split_beta patternsLoop_ok)

lemma parseSpec_errors_iff: "lr_errors (fst (parseSpec env build now cr)) = [] \<longleftrightarrow> specAccepted env build cr"
proof -
  have shapes: "distinct (map sk_name (cr_sinks cr)) \<and> (\<forall>s \<in> set (cr_sinks cr). wellShaped s) \<longleftrightarrow>
      validateSinkShapes (cr_sinks cr) = []"
    by (simp add: validateSinkShapes_Nil)
  have "(case dc_namespaceSelector (cr_discovery cr) of None \<Rightarrow> True | Some ls \<Rightarrow> (\<exists>s. ce_asSelector env ls = Inr s)) \<longleftrightarrow>
      (case parseNamespaceSelector env (dc_namespaceSelector (cr_discovery cr)) of Inl e \<Rightarrow> [e] | Inr _ \<Rightarrow> []) = []"
    by (auto simp: parseNamespaceSelector_def split: option.splits sum.splits)
  then show ?thesis
    unfolding specAccepted_def conj_assoc [symmetric] using shapes
    by (auto simp: parseSpec_def Let_def split_beta parsePatterns_Nil [symmetric])
qed

lemma parseSpec_rejected:
  "lr_errors (fst (parseSpec env build now cr)) \<noteq> [] \<Longrightarrow>
   parseSpec env build now cr = (\<lparr>lr_snapshot = Some (DefaultSnapshot env now), lr_errors = lr_errors (fst (parseSpec env build now cr))\<rparr>,
     if validateSinkShapes (cr_sinks cr) = [] then fst (build (cr_sinks cr)) else [])"
  by (auto simp: parseSpec_def Let_def split_beta)

lemma parseSpec_accepted:
  assumes "specAccepted env build cr"
  shows "\<exists>s. parseSpec env build now cr = (\<lparr>lr_snapshot = Some s, lr_errors = []\<rparr>, []) \<and>
    sn_source s = SourceConfigCR \<and> sn_sourceGeneration s = cr_generation cr \<and> sn_loadedAt s = now \<and>
    sn_externalSinks s = fst (build (cr_sinks cr)) \<and>
    sn_workloadKinds s = fst (parseWorkloadKinds (dc_workloadKinds (cr_discovery cr))) \<and>
    sn_verification s = fst (parseVerification env (cr_verification cr)) \<and>
    sn_patterns s = Some (fst (parsePatterns env (dc_inferenceRuntimeImagePatterns (cr_discovery cr)))) \<and>
    parseNamespaceSelector env (dc_namespaceSelector (cr_discovery cr)) = Inr (the (sn_namespaceSelector s)) \<and>
    sn_namespaceSelector s \<noteq> None \<and>
    sn_inlineThreshold s = resolveInlineThreshold (bg_inlineThresholdBytes (cr_bomGeneration cr)) \<and>
    sn_staleThresholdReconciles s = resolveStaleThreshold (bg_staleThresholdReconciles (cr_bomGeneration cr))"
proof -
  obtain sel where sel: "parseNamespaceSelector env (dc_namespaceSelector (cr_discovery cr)) = Inr sel"
    using assms by (auto simp: specAccepted_def parseNamespaceSelector_def split: option.splits)
  have "validateSinkShapes (cr_sinks cr) = []" "snd (build (cr_sinks cr)) = []"
    "snd (parsePatterns env (dc_inferenceRuntimeImagePatterns (cr_discovery cr))) = []"
    "snd (parseWorkloadKinds (dc_workloadKinds (cr_discovery cr))) = []"
    "snd (parseVerification env (cr_verification cr)) = []"
    using assms by (auto simp: specAccepted_def validateSinkShapes_Nil parsePatterns_Nil)
  then show ?thesis using sel by (simp add: parseSpec_def Let_def split_beta)
qed

text \<open>
  C10. Loading is all or nothing: a configuration is accepted exactly when every selector, pattern, kind,
  verification field and sink passes its check; then the snapshot carries the built sinks and thresholds
  within their bounds; otherwise it is the compiled-in defaults, at least one error is reported, and
  exactly the sinks that were built are closed, so none is leaked.
\<close>

theorem load_all_or_nothing:
  assumes "get (if configName = '''' then DefaultConfigName else configName) = Found cr"
  shows "\<exists>r closed. Load env build get now configName = Inr (r, closed) \<and>
    (HasErrors r \<longleftrightarrow> \<not> specAccepted env build cr) \<and>
    (HasErrors r \<longrightarrow> lr_snapshot r = Some (DefaultSnapshot env now) \<and>
       closed = (if validateSinkShapes (cr_sinks cr) = [] then fst (build (cr_sinks cr)) else [])) \<and>
    (\<not> HasErrors r \<longrightarrow> closed = [] \<and> (\<exists>s. lr_snapshot r = Some s \<and> sn_source s = SourceConfigCR \<and>
       sn_externalSinks s = fst (build (cr_sinks cr)) \<and>
       1024 \<le> sn_inlineThreshold s \<and> sn_inlineThreshold s \<le> 1048576 \<and> 1 \<le> sn_staleThresholdReconciles s))"
proof -
  let ?p = "parseSpec env build now cr"
  have L: "Load env build get now configName = Inr (fst ?p, snd ?p)"
    using assms by (simp add: Load_def)
  show ?thesis
  proof (cases "specAccepted env build cr")
    case True
    then obtain s where "?p = (\<lparr>lr_snapshot = Some s, lr_errors = []\<rparr>, [])" "sn_source s = SourceConfigCR"
      "sn_externalSinks s = fst (build (cr_sinks cr))"
      "sn_inlineThreshold s = resolveInlineThreshold (bg_inlineThresholdBytes (cr_bomGeneration cr))"
      "sn_staleThresholdReconciles s = resolveStaleThreshold (bg_staleThresholdReconciles (cr_bomGeneration cr))"
      using parseSpec_accepted by blast
    then show ?thesis
      using L True thresholds_in_range unfolding HasErrors_def MinInlineThresholdBytes_def MaxInlineThresholdBytes_def by simp
  next
    case False
    then have err: "lr_errors (fst ?p) \<noteq> []" by (simp add: parseSpec_errors_iff)
    note rej = parseSpec_rejected [OF err]
    have "lr_snapshot (fst ?p) = Some (DefaultSnapshot env now)"
      "snd ?p = (if validateSinkShapes (cr_sinks cr) = [] then fst (build (cr_sinks cr)) else [])"
      by (subst rej, simp)+
    then show ?thesis
      using L False err unfolding HasErrors_def by blast
  qed
qed

subsection \<open>What an accepted configuration guarantees\<close>

text \<open>
  An accepted configuration never sends a credential over cleartext: its sink names are pairwise
  different, every sink has exactly the body its type asks for, and a webhook that configures
  authentication has an endpoint that does not start with http:// in any spelling of case or white space.
\<close>

theorem accepted_sinks_safe:
  assumes "Load env build get now configName = Inr (r, closed)" "\<not> HasErrors r" "lr_snapshot r = Some s"
    and "get (if configName = '''' then DefaultConfigName else configName) = Found cr"
  shows "distinct (map sk_name (cr_sinks cr)) \<and>
    (\<forall>k \<in> set (cr_sinks cr). (sk_gcs k = None) \<noteq> (sk_webhook k = None) \<and>
      (sk_type k = SinkTypeGCS \<longleftrightarrow> sk_gcs k \<noteq> None) \<and>
      (\<forall>w. sk_webhook k = Some w \<and> ws_auth w \<noteq> None \<longrightarrow> \<not> cleartextEndpoint (ws_endpoint w)))"
proof -
  have "specAccepted env build cr"
    using assms parseSpec_errors_iff [of env build now cr] by (auto simp: Load_def HasErrors_def)
  then have names: "distinct (map sk_name (cr_sinks cr))" and ws: "\<forall>k \<in> set (cr_sinks cr). wellShaped k"
    by (auto simp: specAccepted_def)
  have shape: "(sk_gcs k = None) \<noteq> (sk_webhook k = None) \<and> (sk_type k = SinkTypeGCS \<longleftrightarrow> sk_gcs k \<noteq> None) \<and>
      (\<forall>w. sk_webhook k = Some w \<and> ws_auth w \<noteq> None \<longrightarrow> \<not> cleartextEndpoint (ws_endpoint w))"
    if "wellShaped k" for k
    using that by (auto simp: wellShaped_def split: SinkType.splits)
  show ?thesis by (intro conjI [OF names] ballI shape) (rule bspec [OF ws])
qed

text \<open>
  A verification block that loads is one the verifier accepts: constructing a verifier from it does
  not fail, all its identity constraints are kept and their patterns compile, and its time limits are
  positive for settings within the bounds of the resource definition.
\<close>

theorem accepted_verification_constructs:
  assumes "parseVerification env (Some v) = (Some cfg, errs)"
  shows "errs = [] \<and> (\<exists>cfg'. validateConfig cfg = Inr cfg' \<and>
      (\<exists>rv :: 'm RekorVerifier. NewRekorVerifier cfg = Inr rv \<and> rv_cfg rv = cfg') \<and>
      (vf_perClaimTimeoutSeconds v \<in> {1..30} \<longrightarrow> vc_perClaimTimeout cfg' = vf_perClaimTimeoutSeconds v * 10 ^ 9) \<and>
      (vf_cacheTTLMinutes v \<in> {1..10080} \<longrightarrow> vc_cacheTTL cfg' = vf_cacheTTLMinutes v * (60 * 10 ^ 9))) \<and>
    vc_identities cfg = vf_identities v \<and>
    (\<forall>ic \<in> set (vc_identities cfg). ict_subjectPattern ic = '''' \<or> (\<exists>m. ce_compile env (ict_subjectPattern ic) = Inr m))"
proof -
  let ?ids = "identitiesLoop (ce_compile env) 0 (vf_identities v)"
  have ok: "errs = []" "trustModeErrors v = []" "snd ?ids = []" "vf_enabled v"
    and cfg: "cfg = \<lparr>vc_trustRootMode = (case toTrustRootMode (vf_trustRootMode v) of TrustEmpty \<Rightarrow> TrustPublic | md \<Rightarrow> md),
       vc_tufMirrorURL = vf_tufMirrorURL v, vc_staticBundlePath = vf_staticBundlePath v, vc_rekorURL = vf_rekorURL v,
       vc_identities = fst ?ids,
       vc_perClaimTimeout = (if vf_perClaimTimeoutSeconds v > 0 then int64 (vf_perClaimTimeoutSeconds v * 10 ^ 9) else 0),
       vc_cacheTTL = (if vf_cacheTTLMinutes v > 0 then int64 (vf_cacheTTLMinutes v * (60 * 10 ^ 9)) else 0)\<rparr>"
    using assms by (auto simp: parseVerification_def Let_def split_beta split: if_splits)
  have w: "int64 x = x" if "0 < x" "x < 2 ^ 63" for x
    using that by (simp add: int64_def)
  have "\<exists>cfg'. validateConfig cfg = Inr cfg' \<and>
      vc_perClaimTimeout cfg' = (if vc_perClaimTimeout cfg \<le> 0 then DefaultPerClaimTimeout else vc_perClaimTimeout cfg) \<and>
      vc_cacheTTL cfg' = (if vc_cacheTTL cfg \<le> 0 then DefaultCacheTTL else vc_cacheTTL cfg)"
    using ok(2) by (auto simp: cfg validateConfig_def trustModeErrors_def Let_def split: TrustRootMode.splits if_splits)
  then obtain cfg' where val: "validateConfig cfg = Inr cfg'"
    and t: "vc_perClaimTimeout cfg' = (if vc_perClaimTimeout cfg \<le> 0 then DefaultPerClaimTimeout else vc_perClaimTimeout cfg)"
    "vc_cacheTTL cfg' = (if vc_cacheTTL cfg \<le> 0 then DefaultCacheTTL else vc_cacheTTL cfg)"
    by blast
  have "vf_perClaimTimeoutSeconds v \<in> {1..30} \<longrightarrow> vc_perClaimTimeout cfg' = vf_perClaimTimeoutSeconds v * 10 ^ 9"
    using t(1) w [of "vf_perClaimTimeoutSeconds v * 10 ^ 9"] by (auto simp: cfg)
  moreover have "vf_cacheTTLMinutes v \<in> {1..10080} \<longrightarrow> vc_cacheTTL cfg' = vf_cacheTTLMinutes v * (60 * 10 ^ 9)"
    using t(2) w [of "vf_cacheTTLMinutes v * (60 * 10 ^ 9)"] by (auto simp: cfg)
  moreover have "\<exists>rv :: 'm RekorVerifier. NewRekorVerifier cfg = Inr rv \<and> rv_cfg rv = cfg'"
    using val by (simp add: NewRekorVerifier_def)
  moreover have "vc_identities cfg = vf_identities v" using identitiesLoop_all [OF ok(3)] by (simp add: cfg)
  ultimately show ?thesis
    using ok val identitiesLoop_Nil [of "ce_compile env" 0 "vf_identities v"] by auto
qed

text \<open>
  An explicitly empty namespace selector is taken literally: with the library's rule that an empty
  selector matches everything, every namespace is opted in, whatever its labels.
\<close>

theorem empty_selector_opts_in_everything:
  assumes "ce_asSelector env \<lparr>ls_matchLabels = [], ls_matchExpressions = []\<rparr> = Inr everything"
    and "\<And>ls. sel_matches everything ls"
    and "dc_namespaceSelector (cr_discovery cr) = Some \<lparr>ls_matchLabels = [], ls_matchExpressions = []\<rparr>"
    and "specAccepted env build cr"
  shows "\<exists>r s sel. parseSpec env build now cr = (r, []) \<and> lr_snapshot r = Some s \<and> sn_namespaceSelector s = Some sel \<and>
    (\<forall>ls. sel_matches sel ls)"
proof -
  obtain s where s: "parseSpec env build now cr = (\<lparr>lr_snapshot = Some s, lr_errors = []\<rparr>, [])"
    "parseNamespaceSelector env (dc_namespaceSelector (cr_discovery cr)) = Inr (the (sn_namespaceSelector s))"
    "sn_namespaceSelector s \<noteq> None"
    using parseSpec_accepted [OF assms(4), of now] by blast
  then have "the (sn_namespaceSelector s) = everything"
    using assms(1,3) by (simp add: parseNamespaceSelector_def)
  then have "sn_namespaceSelector s = Some everything" using s(3) by auto
  then show ?thesis using s(1) assms(2) by auto
qed

subsection \<open>Examples\<close>

definition exampleConfigEnv :: config_env where
  "exampleConfigEnv = \<lparr>ce_selectorFromSet = (\<lambda>m. \<lparr>sel_matches = (\<lambda>ls. list_all (\<lambda>(k, v). map_of ls k = Some v) m), sel_string = ''''\<rparr>),
     ce_asSelector = (\<lambda>l. if ls_matchExpressions l = [] then Inr \<lparr>sel_matches = (\<lambda>ls. list_all (\<lambda>(k, v). map_of ls k = Some v) (ls_matchLabels l)), sel_string = ''''\<rparr>
        else Inl ''unsupported operator''),
     ce_compile = (\<lambda>p. if p = ''('' then Inl ''missing )'' else Inr (\<lambda>s. s = p)),
     ce_defaultV1Config = \<lparr>ic_runtimeImagePatterns = [], ic_modelEnvVarNames = [], ic_modelArgFlags = [], ic_modelVolumePathPrefixes = []\<rparr>\<rparr>"

definition exampleCR :: "string \<Rightarrow> AIBOMControllerConfig" where
  "exampleCR endpoint = \<lparr>cr_generation = 7,
     cr_discovery = \<lparr>dc_namespaceSelector = Some \<lparr>ls_matchLabels = [], ls_matchExpressions = []\<rparr>,
       dc_inferenceRuntimeImagePatterns = [\<lparr>crp_runtime = ''vllm'', crp_pattern = ''vllm/vllm-openai''\<rparr>],
       dc_workloadKinds = [''apps/Deployment'']\<rparr>,
     cr_bomGeneration = \<lparr>bg_inlineThresholdBytes = 0, bg_staleThresholdReconciles = 0\<rparr>,
     cr_sinks = [\<lparr>sk_name = ''audit'', sk_type = SinkTypeWebhook, sk_gcs = None,
       sk_webhook = Some \<lparr>ws_endpoint = endpoint, ws_auth = Some \<lparr>wa_bearerToken = Some \<lparr>skr_name = ''s'', skr_key = ''k''\<rparr>, wa_mtls = None\<rparr>\<rparr>\<rparr>],
     cr_loggingLevel = ''info'', cr_verification = None\<rparr>"

definition exampleFactory :: "SinkConfig list \<Rightarrow> string list \<times> LoadError list" where
  "exampleFactory ks = (map sk_name ks, [])"

lemma exampleCR_accepted: "specAccepted exampleConfigEnv exampleFactory (exampleCR ''https://audit.example'')"
proof -
  have "\<not> cleartextEndpoint ''https://audit.example''" by code_simp
  moreover have "snd (parseWorkloadKinds [''apps/Deployment'']) = []" by code_simp
  ultimately show ?thesis
    by (simp add: specAccepted_def exampleCR_def exampleConfigEnv_def exampleFactory_def wellShaped_def parseVerification_def)
qed

lemma exampleCR_rejected: "\<not> specAccepted exampleConfigEnv exampleFactory (exampleCR '' HTTP://audit.example'')"
proof -
  have "cleartextEndpoint '' HTTP://audit.example''" by code_simp
  then show ?thesis by (simp add: specAccepted_def exampleCR_def wellShaped_def)
qed

theorem load_all_or_nothing_witness:
  "(\<exists>r closed. Load exampleConfigEnv exampleFactory (\<lambda>_. Found (exampleCR '' HTTP://audit.example'')) 5 '''' = Inr (r, closed) \<and>
     HasErrors r \<and> lr_snapshot r = Some (DefaultSnapshot exampleConfigEnv 5)) \<and>
   (\<exists>r closed. Load exampleConfigEnv exampleFactory (\<lambda>_. Found (exampleCR ''https://audit.example'')) 5 '''' = Inr (r, closed) \<and> \<not> HasErrors r)"
  using load_all_or_nothing [of "\<lambda>_. Found (exampleCR '' HTTP://audit.example'')" "''''" "exampleCR '' HTTP://audit.example''" exampleConfigEnv exampleFactory 5]
    load_all_or_nothing [of "\<lambda>_. Found (exampleCR ''https://audit.example'')" "''''" "exampleCR ''https://audit.example''" exampleConfigEnv exampleFactory 5]
    exampleCR_accepted exampleCR_rejected by blast

theorem accepted_sinks_safe_witness:
  "\<not> cleartextEndpoint ''https://audit.example''"
proof -
  obtain s where s: "parseSpec exampleConfigEnv exampleFactory 5 (exampleCR ''https://audit.example'') = (\<lparr>lr_snapshot = Some s, lr_errors = []\<rparr>, [])"
    using parseSpec_accepted [OF exampleCR_accepted] by blast
  then have "Load exampleConfigEnv exampleFactory (\<lambda>_. Found (exampleCR ''https://audit.example'')) 5 '''' = Inr (\<lparr>lr_snapshot = Some s, lr_errors = []\<rparr>, [])"
    by (simp add: Load_def)
  from accepted_sinks_safe [OF this, of s "exampleCR ''https://audit.example''"] show ?thesis
    by (simp add: HasErrors_def exampleCR_def)
qed

definition exampleVerification :: VerificationConfig where
  "exampleVerification = \<lparr>vf_enabled = True, vf_trustRootMode = ''tufMirror'', vf_tufMirrorURL = ''https://tuf.example'',
     vf_staticBundlePath = '''', vf_rekorURL = '''', vf_identities = [\<lparr>ict_issuer = ''i'', ict_subjectPattern = ''p''\<rparr>],
     vf_perClaimTimeoutSeconds = 10, vf_cacheTTLMinutes = 1440\<rparr>"

theorem accepted_verification_constructs_witness:
  "\<exists>cfg cfg'. parseVerification exampleConfigEnv (Some exampleVerification) = (Some cfg, []) \<and> validateConfig cfg = Inr cfg' \<and>
     vc_cacheTTL cfg' = 86400 * 10 ^ 9"
proof -
  obtain cfg where "parseVerification exampleConfigEnv (Some exampleVerification) = (Some cfg, [])"
    by (simp add: parseVerification_def exampleVerification_def exampleConfigEnv_def toTrustRootMode_def trustModeErrors_def Let_def)
  then show ?thesis
    using accepted_verification_constructs [of exampleConfigEnv exampleVerification cfg "[]"]
    by (auto simp: exampleVerification_def)
qed

theorem empty_selector_opts_in_everything_witness:
  "\<exists>r s sel. parseSpec exampleConfigEnv exampleFactory 5 (exampleCR ''https://audit.example'') = (r, []) \<and> lr_snapshot r = Some s \<and>
    sn_namespaceSelector s = Some sel \<and> sel_matches sel []"
proof -
  have "ce_asSelector exampleConfigEnv \<lparr>ls_matchLabels = [], ls_matchExpressions = []\<rparr> = Inr \<lparr>sel_matches = (\<lambda>_. True), sel_string = ''''\<rparr>"
    by (simp add: exampleConfigEnv_def)
  moreover have "dc_namespaceSelector (cr_discovery (exampleCR ''https://audit.example'')) = Some \<lparr>ls_matchLabels = [], ls_matchExpressions = []\<rparr>"
    by (simp add: exampleCR_def)
  ultimately show ?thesis
    using empty_selector_opts_in_everything [OF _ _ _ exampleCR_accepted] by fastforce
qed

end
