(* ===== verification/Config_Store.thy ===== *)
theory Config_Store
  imports Config_Loader
begin

text \<open>
  The snapshot store of \<^verbatim>\<open>internal/config/snapshot.go\<close> and the log-level subscriber of \<^verbatim>\<open>loglevel.go\<close>. The
  atomic pointer is a field that is never nil; a subscriber is a function of the previous and the new
  snapshot on the state \<open>'w\<close> it maintains, and all subscribers run, in order of registration, after
  every swap. The locale states what the readers of a store rely on.
\<close>

record ('s, 'w) Store =
  st_current :: "'s Snapshot"
  st_subs :: "('s Snapshot \<Rightarrow> 's Snapshot \<Rightarrow> 'w \<Rightarrow> 'w) list"
  st_configInvalid :: bool

definition NewStore :: "config_env \<Rightarrow> time \<Rightarrow> 's Snapshot option \<Rightarrow> ('s, 'w) Store" where
  "NewStore env now initial = \<lparr>st_current = (case initial of None \<Rightarrow> DefaultSnapshot env now | Some s \<Rightarrow> s),
     st_subs = [], st_configInvalid = False\<rparr>"

definition store_Load :: "('s, 'w) Store \<Rightarrow> 's Snapshot" where
  "store_Load st = st_current st"

definition SetConfigInvalid :: "bool \<Rightarrow> ('s, 'w) Store \<Rightarrow> ('s, 'w) Store" where
  "SetConfigInvalid invalid st = st\<lparr>st_configInvalid := invalid\<rparr>"

definition ConfigInvalid :: "('s, 'w) Store \<Rightarrow> bool" where
  "ConfigInvalid st = st_configInvalid st"

definition store_Store :: "'s Snapshot option \<Rightarrow> ('s, 'w) Store \<times> 'w \<Rightarrow> ('s, 'w) Store \<times> 'w" where
  "store_Store snap stw = (case snap of None \<Rightarrow> stw | Some s \<Rightarrow>
     (let (st, w) = stw; prev = st_current st in
      (st\<lparr>st_current := s\<rparr>, fold (\<lambda>fn. fn prev s) (st_subs st) w)))"

definition Subscribe :: "('s Snapshot \<Rightarrow> 's Snapshot \<Rightarrow> 'w \<Rightarrow> 'w) option \<Rightarrow> ('s, 'w) Store \<Rightarrow> ('s, 'w) Store" where
  "Subscribe fn st = (case fn of None \<Rightarrow> st | Some f \<Rightarrow> st\<lparr>st_subs := st_subs st @ [f]\<rparr>)"

subsection \<open>Log levels\<close>

datatype Level = DebugLevel | InfoLevel | WarnLevel | ErrorLevel

definition logLevels :: "(string \<times> Level) list" where
  "logLevels = [(''debug'', DebugLevel), (''info'', InfoLevel), (''warn'', WarnLevel), (''error'', ErrorLevel)]"

definition LogLevelSubscriber :: "'s Snapshot \<Rightarrow> 's Snapshot \<Rightarrow> Level \<Rightarrow> Level" where
  "LogLevelSubscriber prev snap level =
    (let name = (if sn_logLevel snap = '''' then ''info'' else sn_logLevel snap) in
     case map_of logLevels name of Some l \<Rightarrow> l | None \<Rightarrow> level)"

subsection \<open>The contract of a store\<close>

locale snapshot_store =
  fixes load :: "'st \<Rightarrow> 'snap" and put :: "'snap option \<Rightarrow> 'st \<Rightarrow> 'st"
  assumes load_put_Some: "load (put (Some s) st) = s"
    and put_None: "put None st = st"
begin

text \<open>A reader always sees the last snapshot that was stored.\<close>

lemma load_fold: "load (fold put xs st) = last (load st # [s. Some s \<leftarrow> xs])"
proof (induction xs rule: rev_induct)
  case (snoc x xs)
  then show ?case by (cases x) (simp_all add: load_put_Some put_None)
qed simp

end

interpretation store: snapshot_store "\<lambda>(st, w). store_Load st" store_Store
  by unfold_locales (auto simp: store_Store_def store_Load_def Let_def split: prod.splits)

lemma store_Store_keeps: "st_subs (fst (store_Store s stw)) = st_subs (fst stw)"
  "st_configInvalid (fst (store_Store s stw)) = st_configInvalid (fst stw)"
  by (simp_all add: store_Store_def Let_def split_beta split: option.splits)

lemma log_level_follows:
  assumes "st_subs st = [LogLevelSubscriber]" "\<forall>s \<in> set ss. sn_logLevel s \<in> {'''', ''debug'', ''info'', ''warn'', ''error''}" "ss \<noteq> []"
  shows "snd (fold store_Store (map Some ss) (st, l)) = LogLevelSubscriber p (last ss) l'"
  using assms
proof (induction ss arbitrary: st l)
  case (Cons s ss)
  have one: "LogLevelSubscriber a s b = LogLevelSubscriber c s d" for a b c d
    using Cons.prems(2) by (auto simp: LogLevelSubscriber_def logLevels_def)
  show ?case
  proof (cases "ss = []")
    case True
    then show ?thesis using Cons.prems(1) one by (simp add: store_Store_def)
  next
    case False
    then show ?thesis using Cons.IH [of "st\<lparr>st_current := s\<rparr>"] Cons.prems by (simp add: store_Store_def)
  qed
qed simp

end
