(* ===== verification/Go_Time.thy ===== *)
theory Go_Time
  imports Go_Prelude
begin

text \<open>
  \<^verbatim>\<open>time.Time\<close> as used by the controller: a UTC instant is the number of nanoseconds since the zero
  time, 1 January of year 1, and \<^verbatim>\<open>Format(time.RFC3339)\<close> prints it to the second.
\<close>

definition leapYear :: "nat \<Rightarrow> bool" where
  "leapYear y \<longleftrightarrow> y mod 4 = 0 \<and> (y mod 100 \<noteq> 0 \<or> y mod 400 = 0)"

text \<open>Year and zero-based day of the year of a day count from 1 January of year 1.\<close>

definition civilYear :: "nat \<Rightarrow> nat \<times> nat" where
  "civilYear days =
    (let n400 = days div 146097; r400 = days mod 146097;
         n100 = min 3 (r400 div 36524); r100 = r400 - n100 * 36524;
         n4 = r100 div 1461; r4 = r100 mod 1461;
         n1 = min 3 (r4 div 365); r1 = r4 - n1 * 365
     in (400 * n400 + 100 * n100 + 4 * n4 + n1 + 1, r1))"

fun monthDay :: "nat list \<Rightarrow> nat \<Rightarrow> nat \<Rightarrow> nat \<times> nat" where
  "monthDay [] m d = (m, d + 1)"
| "monthDay (l # ls) m d = (if d < l then (m, d + 1) else monthDay ls (m + 1) (d - l))"

definition monthLengths :: "nat \<Rightarrow> nat list" where
  "monthLengths y = [31, if leapYear y then 29 else 28, 31, 30, 31, 30, 31, 31, 30, 31, 30, 31]"

definition pad :: "nat \<Rightarrow> nat \<Rightarrow> string" where
  "pad w n = replicate (w - length (showNat n)) CHR ''0'' @ showNat n"

definition formatRFC3339 :: "int \<Rightarrow> string" where
  "formatRFC3339 t =
    (let secs = nat t div 1000000000; days = secs div 86400; sod = secs mod 86400;
         (y, yd) = civilYear days; (mo, d) = monthDay (monthLengths y) 1 yd
     in pad 4 y @ ''-'' @ pad 2 mo @ ''-'' @ pad 2 d @ ''T'' @ pad 2 (sod div 3600) @ '':'' @
        pad 2 (sod mod 3600 div 60) @ '':'' @ pad 2 (sod mod 60) @ ''Z'')"

end
