(* ===== verification/Watch_Health.thy ===== *)
theory Watch_Health
  imports Scraper_Types Go_Time
begin

text \<open>
  \<^verbatim>\<open>internal/controller/watch_health.go\<close>: the registry of the health of the third-party watches. Each
  operation runs under the registry's lock, so it is a function on the registry, which is the Go map
  with its keys in order; it also returns the transition handed to the subscribers, if any. Four
  phases describe a kind; the lemmas show that the flags of a status always describe exactly one phase,
  that every operation implements its step on phases, and that subscribers hear of a kind exactly when
  its phase changes to healthy, unhealthy or disabled, so once per outage and not once per retry.
\<close>

datatype DisabledReason = NotDisabled | DisabledByConfig | DisabledCRDRemoved

fun disabledReason_str :: "DisabledReason \<Rightarrow> string" where
  "disabledReason_str NotDisabled = ''''"
| "disabledReason_str DisabledByConfig = ''config''"
| "disabledReason_str DisabledCRDRemoved = ''crd-removed''"

record WatchStatus =
  wst_kind :: string
  wst_healthy :: bool
  wst_lastError :: string
  wst_since :: time
  wst_failures :: int
  wst_disabled :: bool
  wst_disabledReason :: DisabledReason

definition Degraded :: "WatchStatus \<Rightarrow> bool" where
  "Degraded s \<longleftrightarrow> \<not> wst_healthy s \<and> wst_lastError s \<noteq> ''''"

record WatchTransition =
  wt_kind :: string
  wt_healthy :: bool
  wt_disabled :: bool
  wt_started :: bool
  wt_message :: string

type_synonym health = "(string \<times> WatchStatus) list"

definition freshStatus :: "string \<Rightarrow> time \<Rightarrow> WatchStatus" where
  "freshStatus kind now = \<lparr>wst_kind = kind, wst_healthy = False, wst_lastError = '''', wst_since = now,
     wst_failures = 0, wst_disabled = False, wst_disabledReason = NotDisabled\<rparr>"

definition health_get :: "health \<Rightarrow> string \<Rightarrow> time \<Rightarrow> WatchStatus" where
  "health_get h kind now = (case map_of h kind of Some s \<Rightarrow> s | None \<Rightarrow> freshStatus kind now)"

definition Register :: "time \<Rightarrow> string \<Rightarrow> health \<Rightarrow> health" where
  "Register now kind h = (case map_of h kind of Some _ \<Rightarrow> h | None \<Rightarrow> gm_put kind (freshStatus kind now) h)"

definition markHealthy :: "time \<Rightarrow> string \<Rightarrow> bool \<Rightarrow> health \<Rightarrow> health \<times> WatchTransition option" where
  "markHealthy now kind started h =
    (let s = health_get h kind now;
         transition = (\<not> wst_healthy s);
         s' = s\<lparr>wst_healthy := True, wst_disabled := False, wst_disabledReason := NotDisabled,
                wst_lastError := '''', wst_failures := 0, wst_since := (if transition then now else wst_since s)\<rparr>;
         msg = (if started then kind @ '' watch started'' else kind @ '' watch is healthy'')
     in (gm_put kind s' h, if transition then Some \<lparr>wt_kind = kind, wt_healthy = True, wt_disabled = False,
           wt_started = started, wt_message = msg\<rparr> else None))"

definition MarkHealthy :: "time \<Rightarrow> string \<Rightarrow> health \<Rightarrow> health \<times> WatchTransition option" where
  "MarkHealthy now kind = markHealthy now kind False"

definition MarkStarted :: "time \<Rightarrow> string \<Rightarrow> health \<Rightarrow> health \<times> WatchTransition option" where
  "MarkStarted now kind = markHealthy now kind True"

definition MarkUnhealthy :: "time \<Rightarrow> string \<Rightarrow> string option \<Rightarrow> health \<Rightarrow> health \<times> WatchTransition option" where
  "MarkUnhealthy now kind err h = (case err of None \<Rightarrow> (h, None) | Some e \<Rightarrow>
    (let s = health_get h kind now;
         transition = (wst_healthy s \<or> wst_lastError s = '''');
         s' = s\<lparr>wst_healthy := False, wst_disabled := False, wst_disabledReason := NotDisabled,
                wst_lastError := e, wst_failures := wst_failures s + 1,
                wst_since := (if transition then now else wst_since s)\<rparr>
     in (gm_put kind s' h, if transition then Some \<lparr>wt_kind = kind, wt_healthy = False, wt_disabled = False,
           wt_started = False, wt_message = kind @ '' watch is unhealthy: '' @ e\<rparr> else None)))"

definition MarkDisabled :: "time \<Rightarrow> string \<Rightarrow> DisabledReason \<Rightarrow> health \<Rightarrow> health \<times> WatchTransition option" where
  "MarkDisabled now kind reason h =
    (let s = health_get h kind now;
         transition = (\<not> wst_disabled s);
         s' = s\<lparr>wst_disabled := True, wst_disabledReason := reason, wst_healthy := False,
                wst_lastError := '''', wst_failures := 0, wst_since := (if transition then now else wst_since s)\<rparr>;
         msg = (if reason = DisabledCRDRemoved then kind @ '' watch disabled: its CRD was removed (reason: '' @ disabledReason_str reason @ '')''
                else kind @ '' watch disabled by spec.discovery.workloadKinds (reason: '' @ disabledReason_str reason @ '')'')
     in (gm_put kind s' h, if transition then Some \<lparr>wt_kind = kind, wt_healthy = False, wt_disabled = True,
           wt_started = False, wt_message = msg\<rparr> else None))"

definition MarkStarting :: "time \<Rightarrow> string \<Rightarrow> health \<Rightarrow> health" where
  "MarkStarting now kind h =
    (let s = health_get h kind now in
     gm_put kind (s\<lparr>wst_disabled := False, wst_disabledReason := NotDisabled, wst_healthy := False,
       wst_lastError := '''', wst_failures := 0, wst_since := now\<rparr>) h)"

definition IsHealthy :: "health \<Rightarrow> string \<Rightarrow> bool" where
  "IsHealthy h kind = (case map_of h kind of None \<Rightarrow> False | Some s \<Rightarrow> wst_healthy s)"

definition Status :: "health \<Rightarrow> string \<Rightarrow> WatchStatus option" where
  "Status h kind = map_of h kind"

definition DegradedKinds :: "health \<Rightarrow> WatchStatus list" where
  "DegradedKinds h = sort_key wst_kind (filter Degraded (map snd h))"

definition watchHealthMessage :: "WatchStatus list \<Rightarrow> string" where
  "watchHealthMessage degraded = (if degraded = [] then '''' else
     ''Third-party watch unhealthy; existing AIBOMs for these kinds are kept as last known, new or changed workloads of these kinds are not inventoried until the watch recovers, all other kinds are unaffected: '' @
     joinWith ''; '' (map (\<lambda>s. wst_kind s @ '' (since '' @ formatRFC3339 (wst_since s) @ ''): '' @ wst_lastError s) degraded))"

subsection \<open>Phases\<close>

datatype phase_of_watch = Starting | Healthy | Unhealthy string | Disabled DisabledReason

definition statusPhase :: "WatchStatus \<Rightarrow> phase_of_watch" where
  "statusPhase s = (if wst_disabled s then Disabled (wst_disabledReason s)
     else if wst_healthy s then Healthy
     else if wst_lastError s \<noteq> '''' then Unhealthy (wst_lastError s) else Starting)"

definition watchPhase :: "health \<Rightarrow> string \<Rightarrow> phase_of_watch" where
  "watchPhase h kind = (case map_of h kind of None \<Rightarrow> Starting | Some s \<Rightarrow> statusPhase s)"

definition wfStatus :: "string \<Rightarrow> WatchStatus \<Rightarrow> bool" where
  "wfStatus kind s \<longleftrightarrow> wst_kind s = kind \<and> \<not> (wst_healthy s \<and> wst_disabled s) \<and>
     (wst_disabled s \<longleftrightarrow> wst_disabledReason s \<noteq> NotDisabled) \<and>
     (wst_healthy s \<or> wst_disabled s \<longrightarrow> wst_lastError s = '''') \<and>
     wst_failures s \<ge> 0 \<and> (wst_failures s > 0 \<longleftrightarrow> wst_lastError s \<noteq> '''')"

definition wfHealth :: "health \<Rightarrow> bool" where
  "wfHealth h \<longleftrightarrow> gm_sorted h \<and> (\<forall>kind s. map_of h kind = Some s \<longrightarrow> wfStatus kind s)"

text \<open>The operations as one step function, and their meaning on phases.\<close>

datatype watch_op =
    OpRegister string
  | OpHealthy string bool
  | OpUnhealthy string string
  | OpDisabled string DisabledReason
  | OpStarting string

fun opKind :: "watch_op \<Rightarrow> string" where
  "opKind (OpRegister k) = k"
| "opKind (OpHealthy k _) = k"
| "opKind (OpUnhealthy k _) = k"
| "opKind (OpDisabled k _) = k"
| "opKind (OpStarting k) = k"

fun opAllowed :: "watch_op \<Rightarrow> bool" where
  "opAllowed (OpUnhealthy k e) \<longleftrightarrow> e \<noteq> ''''"
| "opAllowed (OpDisabled k r) \<longleftrightarrow> r \<noteq> NotDisabled"
| "opAllowed _ \<longleftrightarrow> True"

fun health_step :: "time \<Rightarrow> watch_op \<Rightarrow> health \<Rightarrow> health \<times> WatchTransition option" where
  "health_step now (OpRegister k) h = (Register now k h, None)"
| "health_step now (OpHealthy k started) h = markHealthy now k started h"
| "health_step now (OpUnhealthy k e) h = MarkUnhealthy now k (Some e) h"
| "health_step now (OpDisabled k r) h = MarkDisabled now k r h"
| "health_step now (OpStarting k) h = (MarkStarting now k h, None)"

fun phaseStep :: "watch_op \<Rightarrow> phase_of_watch \<Rightarrow> phase_of_watch" where
  "phaseStep (OpRegister _) p = p"
| "phaseStep (OpHealthy _ _) p = Healthy"
| "phaseStep (OpUnhealthy _ e) p = Unhealthy e"
| "phaseStep (OpDisabled _ r) p = Disabled r"
| "phaseStep (OpStarting _) p = Starting"

text \<open>A change that subscribers must hear of: into another phase than before, starting excepted.\<close>

fun announced :: "phase_of_watch \<Rightarrow> phase_of_watch \<Rightarrow> bool" where
  "announced p Starting = False"
| "announced p Healthy = (p \<noteq> Healthy)"
| "announced p (Unhealthy _) = (case p of Unhealthy _ \<Rightarrow> False | _ \<Rightarrow> True)"
| "announced p (Disabled _) = (case p of Disabled _ \<Rightarrow> False | _ \<Rightarrow> True)"

lemma wfHealthI: "gm_sorted h \<Longrightarrow> (\<And>k s. map_of h k = Some s \<Longrightarrow> wfStatus k s) \<Longrightarrow> wfHealth h"
  by (simp add: wfHealth_def)

lemma wf_get: "wfHealth h \<Longrightarrow> wfStatus kind (health_get h kind now)"
  by (auto simp: wfHealth_def health_get_def wfStatus_def freshStatus_def split: option.splits)

lemma phase_get: "statusPhase (health_get h kind now) = watchPhase h kind"
  by (simp add: health_get_def watchPhase_def freshStatus_def statusPhase_def split: option.splits)

lemma wf_put: "wfHealth h \<Longrightarrow> wfStatus kind s \<Longrightarrow> wfHealth (gm_put kind s h)"
  by (auto simp: wfHealth_def map_of_gm_put)

lemma phase_put: "wfHealth h \<Longrightarrow> watchPhase (gm_put kind s h) k = (if k = kind then statusPhase s else watchPhase h k)"
  by (auto simp: wfHealth_def watchPhase_def map_of_gm_put)

lemmas mark_defs = markHealthy_def MarkUnhealthy_def MarkDisabled_def MarkStarting_def Let_def

lemma step_put:
  assumes "wfHealth h" "opAllowed op" "\<forall>k. op \<noteq> OpRegister k"
  shows "\<exists>s. fst (health_step now op h) = gm_put (opKind op) s h \<and> wfStatus (opKind op) s \<and>
    statusPhase s = phaseStep op (watchPhase h (opKind op))"
proof -
  have wf: "wfStatus (opKind op) (health_get h (opKind op) now)" by (rule wf_get [OF assms(1)])
  show ?thesis
  proof (cases op)
    case (OpRegister k)
    then show ?thesis using assms(3) by simp
  next
    case (OpHealthy k st)
    with wf show ?thesis
      by (simp add: mark_defs split del: if_split) (intro exI conjI, rule refl, simp_all add: wfStatus_def statusPhase_def)
  next
    case (OpUnhealthy k e)
    with wf assms(2) show ?thesis
      by (simp add: mark_defs split del: if_split) (intro exI conjI, rule refl, simp_all add: wfStatus_def statusPhase_def)
  next
    case (OpDisabled k r)
    with wf assms(2) show ?thesis
      by (simp add: mark_defs split del: if_split) (intro exI conjI, rule refl, simp_all add: wfStatus_def statusPhase_def)
  next
    case (OpStarting k)
    with wf show ?thesis
      by (simp add: mark_defs split del: if_split) (intro exI conjI, rule refl, simp_all add: wfStatus_def statusPhase_def)
  qed
qed

lemma step_notice:
  assumes "wfHealth h" "opAllowed op"
  shows "(snd (health_step now op h) \<noteq> None) = announced (watchPhase h (opKind op)) (phaseStep op (watchPhase h (opKind op)))"
proof -
  have "wfStatus (opKind op) (health_get h (opKind op) now)" using wf_get [OF assms(1)] .
  moreover have "announced p p = False" for p by (cases p) auto
  ultimately show ?thesis
    using assms(2) unfolding phase_get [symmetric, where now = now]
    by (cases op) (auto simp: mark_defs wfStatus_def statusPhase_def split: if_splits)
qed

lemma Register_wf: "wfHealth h \<Longrightarrow> wfHealth (Register now k h) \<and> watchPhase (Register now k h) = watchPhase h"
  by (auto simp: Register_def wf_put wfStatus_def freshStatus_def phase_put fun_eq_iff split: option.splits)
    (simp add: statusPhase_def watchPhase_def)+

lemma step_wf: "wfHealth h \<Longrightarrow> opAllowed op \<Longrightarrow> wfHealth (fst (health_step now op h))"
proof (cases "\<exists>k. op = OpRegister k")
  case True
  then show "wfHealth h \<Longrightarrow> ?thesis" using Register_wf by auto
next
  case False
  assume "wfHealth h" "opAllowed op"
  then show ?thesis using step_put [of h op now] False wf_put by metis
qed

lemma step_phase:
  assumes "wfHealth h" "opAllowed op"
  shows "watchPhase (fst (health_step now op h)) = (watchPhase h)(opKind op := phaseStep op (watchPhase h (opKind op)))"
proof (cases "\<exists>k. op = OpRegister k")
  case True
  then show ?thesis using Register_wf [OF assms(1)] by (auto simp: fun_eq_iff)
next
  case False
  then obtain s where "fst (health_step now op h) = gm_put (opKind op) s h"
    "statusPhase s = phaseStep op (watchPhase h (opKind op))"
    using step_put [OF assms] by blast
  then show ?thesis by (simp add: phase_put [OF assms(1)] fun_eq_iff)
qed

subsection \<open>Sequences of operations\<close>

fun runOps :: "('op \<Rightarrow> 'h \<Rightarrow> 'h \<times> 'n option) \<Rightarrow> 'op list \<Rightarrow> 'h \<Rightarrow> 'h \<times> 'n option list" where
  "runOps step [] h = (h, [])"
| "runOps step (x # xs) h = (let (h', n) = step x h; (h'', ns) = runOps step xs h' in (h'', n # ns))"

fun runPhases :: "('op \<Rightarrow> string) \<Rightarrow> ('op \<Rightarrow> 'p \<Rightarrow> 'p) \<Rightarrow> ('p \<Rightarrow> 'p \<Rightarrow> bool) \<Rightarrow> 'op list \<Rightarrow> (string \<Rightarrow> 'p) \<Rightarrow> (string \<Rightarrow> 'p) \<times> bool list" where
  "runPhases kind pstep heard [] ph = (ph, [])"
| "runPhases kind pstep heard (x # xs) ph =
    (let p = ph (kind x); p' = pstep x p; (ph'', bs) = runPhases kind pstep heard xs (ph(kind x := p')) in (ph'', heard p p' # bs))"

text \<open>
  What a registry promises: its operations keep the invariant, move the phase of their kind, leave the
  other kinds alone, and notify exactly on the changes that are to be heard.
\<close>

locale phase_registry =
  fixes step :: "'op \<Rightarrow> 'h \<Rightarrow> 'h \<times> 'n option"
    and inv :: "'h \<Rightarrow> bool"
    and ok :: "'op \<Rightarrow> bool"
    and phase :: "'h \<Rightarrow> string \<Rightarrow> 'p"
    and kind :: "'op \<Rightarrow> string"
    and pstep :: "'op \<Rightarrow> 'p \<Rightarrow> 'p"
    and heard :: "'p \<Rightarrow> 'p \<Rightarrow> bool"
  assumes step_inv: "inv h \<Longrightarrow> ok x \<Longrightarrow> inv (fst (step x h))"
    and step_moves: "inv h \<Longrightarrow> ok x \<Longrightarrow> phase (fst (step x h)) = (phase h)(kind x := pstep x (phase h (kind x)))"
    and step_notifies: "inv h \<Longrightarrow> ok x \<Longrightarrow> (snd (step x h) \<noteq> None) = heard (phase h (kind x)) (pstep x (phase h (kind x)))"
begin

lemma run_refines:
  "inv h \<Longrightarrow> \<forall>x \<in> set xs. ok x \<Longrightarrow>
   inv (fst (runOps step xs h)) \<and>
   (phase (fst (runOps step xs h)), map (\<lambda>n. n \<noteq> None) (snd (runOps step xs h))) = runPhases kind pstep heard xs (phase h)"
proof (induction xs arbitrary: h)
  case (Cons x xs)
  let ?h' = "fst (step x h)"
  have i: "inv ?h'" and ph: "phase ?h' = (phase h)(kind x := pstep x (phase h (kind x)))"
    and nt: "(snd (step x h) \<noteq> None) = heard (phase h (kind x)) (pstep x (phase h (kind x)))"
    using Cons.prems step_inv step_moves step_notifies by auto
  have ih: "inv (fst (runOps step xs ?h')) \<and>
    (phase (fst (runOps step xs ?h')), map (\<lambda>n. n \<noteq> None) (snd (runOps step xs ?h'))) = runPhases kind pstep heard xs (phase ?h')"
    by (rule Cons.IH [OF i]) (use Cons.prems in auto)
  have "fst (runOps step (x # xs) h) = fst (runOps step xs ?h')"
    "snd (runOps step (x # xs) h) = snd (step x h) # snd (runOps step xs ?h')"
    by (simp_all add: Let_def split_beta)
  moreover have "runPhases kind pstep heard (x # xs) (phase h) =
    (fst (runPhases kind pstep heard xs (phase ?h')), (snd (step x h) \<noteq> None) # snd (runPhases kind pstep heard xs (phase ?h')))"
    unfolding ph nt by (simp add: Let_def split_beta)
  ultimately show ?case
    using conjunct1 [OF ih] by (simp add: conjunct2 [OF ih, symmetric] del: runOps.simps runPhases.simps)
qed simp

end

interpretation registry: phase_registry "\<lambda>(now, op). health_step now op" wfHealth "\<lambda>(now, op). opAllowed op" watchPhase
  "\<lambda>(now, op). opKind op" "\<lambda>(now, op). phaseStep op" announced
  by unfold_locales (use step_wf step_phase step_notice in \<open>fastforce split: prod.splits\<close>)+

lemma wfHealth_Nil [simp]: "wfHealth []"
  by (simp add: wfHealth_def)

lemma Degraded_phase: "wfStatus k s \<Longrightarrow> Degraded s \<longleftrightarrow> (\<exists>e. statusPhase s = Unhealthy e)"
  by (auto simp: Degraded_def statusPhase_def wfStatus_def)

lemma DegradedKinds_spec:
  assumes "wfHealth h"
  shows "set (map wst_kind (DegradedKinds h)) = {k. \<exists>e. watchPhase h k = Unhealthy e}"
    and "sorted (map wst_kind (DegradedKinds h))"
proof -
  have d: "distinct (map fst h)" using assms by (simp add: wfHealth_def gm_sorted_def strict_sorted_iff)
  have "k \<in> set (map wst_kind (DegradedKinds h)) \<longleftrightarrow> (\<exists>e. watchPhase h k = Unhealthy e)" for k
  proof -
    have "k \<in> set (map wst_kind (DegradedKinds h)) \<longleftrightarrow> (\<exists>k' s. map_of h k' = Some s \<and> Degraded s \<and> wst_kind s = k)"
      using d by (force simp: DegradedKinds_def)
    also have "\<dots> \<longleftrightarrow> (\<exists>s. map_of h k = Some s \<and> (\<exists>e. statusPhase s = Unhealthy e))"
      using assms Degraded_phase unfolding wfHealth_def by (metis wfStatus_def)
    also have "\<dots> \<longleftrightarrow> (\<exists>e. watchPhase h k = Unhealthy e)"
      by (auto simp: watchPhase_def split: option.splits)
    finally show ?thesis .
  qed
  then show "set (map wst_kind (DegradedKinds h)) = {k. \<exists>e. watchPhase h k = Unhealthy e}" by blast
  show "sorted (map wst_kind (DegradedKinds h))" by (simp add: DegradedKinds_def)
qed

text \<open>
  C12. The health registry implements the phase machine: after any sequence of registrations, successes,
  failures, disablings and restarts, with any clock readings, every kind is in the phase the machine
  gives it, subscribers were told exactly of the changes into healthy, unhealthy and disabled, and the
  kinds reported as degraded, in order, are those whose phase is unhealthy.
\<close>

theorem watch_health_refines_phases:
  assumes "\<forall>(now, op) \<in> set ops. opAllowed op" and "runOps (\<lambda>(now, op). health_step now op) ops [] = (h, notices)"
  shows "wfHealth h \<and> (watchPhase h, map (\<lambda>n. n \<noteq> None) notices) =
      runPhases (\<lambda>(now, op). opKind op) (\<lambda>(now, op). phaseStep op) announced ops (\<lambda>_. Starting) \<and>
    set (map wst_kind (DegradedKinds h)) = {k. \<exists>e. watchPhase h k = Unhealthy e} \<and> sorted (map wst_kind (DegradedKinds h))"
proof -
  have "watchPhase [] = (\<lambda>_. Starting)" by (simp add: watchPhase_def fun_eq_iff)
  moreover have "\<forall>x \<in> set ops. (\<lambda>(now, op). opAllowed op) x" using assms(1) by blast
  ultimately show ?thesis
    using registry.run_refines [of "[]" ops] assms(2) DegradedKinds_spec [of h] by simp
qed

theorem watch_health_refines_phases_witness:
  "let (h, notices) = runOps (\<lambda>(now, op). health_step now op)
      [(1, OpUnhealthy ''K'' ''down''), (2, OpUnhealthy ''K'' ''down''), (3, OpHealthy ''K'' False)] [] in
   watchPhase h ''K'' = Healthy \<and> map (\<lambda>n. n \<noteq> None) notices = [True, False, True]"
proof -
  obtain h notices where r: "runOps (\<lambda>(now, op). health_step now op)
      [(1, OpUnhealthy ''K'' ''down''), (2, OpUnhealthy ''K'' ''down''), (3, OpHealthy ''K'' False)] [] = (h, notices)"
    by fastforce
  then have "(watchPhase h, map (\<lambda>n. n \<noteq> None) notices) =
     runPhases (\<lambda>(now, op). opKind op) (\<lambda>(now, op). phaseStep op) announced
      [(1, OpUnhealthy ''K'' ''down''), (2, OpUnhealthy ''K'' ''down''), (3, OpHealthy ''K'' False)] (\<lambda>_. Starting)"
    using watch_health_refines_phases [OF _ r] by simp
  then show ?thesis using r by (simp add: Let_def)
qed

end
