(* ===== verification/Schema_Skew.thy ===== *)
theory Schema_Skew
  imports Go_Prelude
begin

text \<open>
  \<^verbatim>\<open>internal/controller/schema_skew.go\<close>: comparing the fields of the configuration that the binary was built
  with against the schema the API server serves. A Go struct type is described by its JSON field names
  and the structs nested in it; decoding an OpenAPI document is a parameter with two parts, the document's
  component schemas with the raw text of their properties, and the properties of one raw schema node. The
  lemmas show that the reported fields are exactly those the server is known to discard.
\<close>

datatype go_type =
    TStruct bool "(string \<times> go_type) list"
  | TOther

text \<open>The type \<^verbatim>\<open>AIBOMControllerConfigSpec\<close>: the flag says that the struct is declared in the API package.\<close>

definition leaves :: "string list \<Rightarrow> (string \<times> go_type) list" where
  "leaves ns = map (\<lambda>n. (n, TOther)) ns"

definition AIBOMControllerConfigSpec_fields :: "(string \<times> go_type) list" where
  "AIBOMControllerConfigSpec_fields =
    [(''discovery'', TStruct True ((''namespaceSelector'', TStruct False (leaves [''matchLabels'', ''matchExpressions''])) #
        leaves [''inferenceRuntimeImagePatterns'', ''workloadKinds''])),
     (''bomGeneration'', TStruct True (leaves [''inlineThresholdBytes'', ''staleThresholdReconciles''])),
     (''sinks'', TOther),
     (''logging'', TStruct True (leaves [''level'', ''format''])),
     (''verification'', TStruct True (leaves [''enabled'', ''trustRootMode'', ''tufMirrorURL'', ''staticBundlePath'', ''rekorURL'',
        ''identities'', ''perClaimTimeoutSeconds'', ''cacheTTLMinutes'']))]"

text \<open>\<^verbatim>\<open>walk\<close> at depth one lists the fields; at depth zero it also enters the package's own structs.\<close>

definition walkNested :: "string \<Rightarrow> (string \<times> go_type) list \<Rightarrow> string list" where
  "walkNested prefix fs = map (\<lambda>(n, _). prefix @ n) (filter (\<lambda>(n, _). n \<noteq> '''' \<and> n \<noteq> ''-'') fs)"

fun walkTop :: "(string \<times> go_type) list \<Rightarrow> string list" where
  "walkTop [] = []"
| "walkTop ((n, t) # fs) = (if n = '''' \<or> n = ''-'' then walkTop fs
     else n # (case t of TStruct True sub \<Rightarrow> walkNested (n @ ''.'') sub | _ \<Rightarrow> []) @ walkTop fs)"

definition expectedSpecFields :: "string list" where
  "expectedSpecFields = sort (walkTop AIBOMControllerConfigSpec_fields)"

definition openAPIConfigGroupVersionPath :: string where
  "openAPIConfigGroupVersionPath = ''apis/aibom.k8saibom.dev/v1beta1''"

definition openAPIConfigSchemaName :: string where
  "openAPIConfigSchemaName = ''dev.k8saibom.aibom.v1beta1.AIBOMControllerConfig''"

record openapi =
  oa_paths :: "string + (string \<times> (string + string)) list"
  oa_parseDoc :: "string \<Rightarrow> string + (string \<times> gomap) list"
  oa_parseNode :: "string \<Rightarrow> string + gomap option"

definition servedNode :: "(string \<Rightarrow> string + gomap option) \<Rightarrow> string \<times> string \<Rightarrow> string list" where
  "servedNode parseNode kr = (case kr of (k, raw) \<Rightarrow> k # (case parseNode raw of
     Inr (Some children) \<Rightarrow> (k @ ''.*'') # map (\<lambda>(ck, _). k @ ''.'' @ ck) children
   | _ \<Rightarrow> []))"

definition servedSpecFieldsFromOpenAPI :: "openapi \<Rightarrow> string \<Rightarrow> string + string list" where
  "servedSpecFieldsFromOpenAPI oa doc = (case oa_parseDoc oa doc of
     Inl e \<Rightarrow> Inl (''openapi v3: parse: '' @ e)
   | Inr schemas \<Rightarrow> (case map_of schemas openAPIConfigSchemaName of
       None \<Rightarrow> Inl (''openapi v3: schema '' @ goQuote openAPIConfigSchemaName @ '' not found'')
     | Some props \<Rightarrow> (case map_of props ''spec'' of
         None \<Rightarrow> Inl (''openapi v3: schema '' @ goQuote openAPIConfigSchemaName @ '' has no spec'')
       | Some specRaw \<Rightarrow> (case oa_parseNode oa specRaw of
           Inl e \<Rightarrow> Inl (''openapi v3: parse spec: '' @ e)
         | Inr node \<Rightarrow> Inr (concat (map (servedNode (oa_parseNode oa)) (case node of None \<Rightarrow> [] | Some ps \<Rightarrow> ps)))))))"

definition missingFields :: "string list \<Rightarrow> string list \<Rightarrow> string list" where
  "missingFields expected served = sort (filter (\<lambda>f.
     (case cutFirst CHR ''.'' f of None \<Rightarrow> True | Some (parent, _) \<Rightarrow> parent @ ''.*'' \<in> set served) \<and> f \<notin> set served) expected)"

definition MissingSpecFields :: "openapi \<Rightarrow> string + string list" where
  "MissingSpecFields oa = (case oa_paths oa of
     Inl e \<Rightarrow> Inl (''openapi v3 paths: '' @ e)
   | Inr paths \<Rightarrow> (case map_of paths openAPIConfigGroupVersionPath of
       None \<Rightarrow> Inl (''openapi v3: '' @ goQuote openAPIConfigGroupVersionPath @ '' not published'')
     | Some (Inl e) \<Rightarrow> Inl (''openapi v3 schema for '' @ goQuote openAPIConfigGroupVersionPath @ '': '' @ e)
     | Some (Inr doc) \<Rightarrow> (case servedSpecFieldsFromOpenAPI oa doc of
         Inl e \<Rightarrow> Inl e | Inr served \<Rightarrow> Inr (missingFields expectedSpecFields served))))"

definition schemaSkewMessage :: "string list \<Rightarrow> string" where
  "schemaSkewMessage missing =
    ''The served AIBOMControllerConfig CRD schema predates this controller: spec field(s) ['' @ joinWith '', '' missing @
    ''] are not declared, so any stored values for them were pruned by the API server and the corresponding features are OFF. If the k8s-aibom-crds chart manages these CRDs, upgrade it to this controller's version; otherwise apply the matching CRDs directly (helm show crds oci://ghcr.io/googlecloudplatform/charts/k8s-aibom --version <chart-version> | kubectl apply --server-side --force-conflicts --field-manager=k8s-aibom-crds -f -), then re-apply your configuration and restart the controller.''"

subsection \<open>What is reported\<close>

definition plainName :: "string \<Rightarrow> bool" where
  "plainName k \<longleftrightarrow> CHR ''.'' \<notin> set k"

lemma in_servedNode:
  "x \<in> set (servedNode pn (k, raw)) \<longleftrightarrow> x = k \<or> (\<exists>children. pn raw = Inr (Some children) \<and>
     (x = k @ ''.*'' \<or> x \<in> (\<lambda>c. k @ ''.'' @ c) ` fst ` set children))"
proof (cases "\<exists>children. pn raw = Inr (Some children)")
  case True
  then obtain children where "pn raw = Inr (Some children)" by blast
  then show ?thesis by (auto simp: servedNode_def image_iff split_beta)
next
  case False
  then have "servedNode pn (k, raw) = [k]" by (auto simp: servedNode_def split: sum.splits option.splits)
  with False show ?thesis by simp
qed

lemma dotted_inj: "plainName p \<Longrightarrow> plainName k \<Longrightarrow> p @ ''.'' @ c = k @ ''.'' @ d \<longleftrightarrow> p = k \<and> c = d"
  using cutFirst_Some [of "CHR ''.''" "p @ ''.'' @ c" p c] cutFirst_Some [of "CHR ''.''" "p @ ''.'' @ c" k d]
  by (auto simp: plainName_def)

lemma dotted_not_plain: "plainName f \<Longrightarrow> f \<noteq> k @ ''.'' @ c"
  by (auto simp: plainName_def)

lemma nested_in_node:
  assumes "plainName p" "plainName k"
  shows "p @ ''.'' @ c \<in> set (servedNode pn (k, raw)) \<longleftrightarrow>
      k = p \<and> (\<exists>children. pn raw = Inr (Some children) \<and> (c = ''*'' \<or> c \<in> fst ` set children))"
proof -
  have "p @ ''.'' @ c \<noteq> k" using dotted_not_plain [OF assms(2)] by metis
  moreover have "p @ ''.'' @ c = k @ ''.*'' \<longleftrightarrow> p = k \<and> c = ''*''"
    using dotted_inj [OF assms, of c "''*''"] by simp
  moreover have "p @ ''.'' @ c \<in> (\<lambda>c. k @ ''.'' @ c) ` X \<longleftrightarrow> p = k \<and> c \<in> X" for X
    using dotted_inj [OF assms, of c] by (auto simp: image_iff)
  ultimately show ?thesis unfolding in_servedNode by metis
qed

lemma top_in_node: "plainName f \<Longrightarrow> f \<in> set (servedNode pn (k, raw)) \<longleftrightarrow> f = k"
  unfolding in_servedNode using dotted_not_plain [of f k "''*''"] dotted_not_plain [of f k] by auto

definition servedBy :: "(string \<Rightarrow> string + gomap option) \<Rightarrow> gomap \<Rightarrow> string list" where
  "servedBy pn props = concat (map (servedNode pn) props)"

lemma in_servedBy: "x \<in> set (servedBy pn props) \<longleftrightarrow> (\<exists>kr \<in> set props. x \<in> set (servedNode pn kr))"
  by (auto simp: servedBy_def)

text \<open>
  A field of the configuration is reported as discarded exactly when the binary knows it and the
  served schema is known not to declare it: a top-level field that the schema's spec lacks, or a nested
  field whose parent the schema describes without it; a nested field below an undescribed parent is
  never reported, and the report is sorted.
\<close>

theorem missing_fields_exact:
  assumes "oa_paths oa = Inr paths" "map_of paths openAPIConfigGroupVersionPath = Some (Inr doc)"
    and "oa_parseDoc oa doc = Inr schemas" "map_of schemas openAPIConfigSchemaName = Some props"
    and "map_of props ''spec'' = Some specRaw" "oa_parseNode oa specRaw = Inr (Some props0)"
    and "\<forall>k \<in> fst ` set props0. plainName k"
  shows "\<exists>missing. MissingSpecFields oa = Inr missing \<and> sorted missing \<and>
    (\<forall>f. plainName f \<longrightarrow> (f \<in> set missing \<longleftrightarrow> f \<in> set expectedSpecFields \<and> f \<notin> fst ` set props0)) \<and>
    (\<forall>p c. plainName p \<and> c \<noteq> ''*'' \<longrightarrow> (p @ ''.'' @ c \<in> set missing \<longleftrightarrow> p @ ''.'' @ c \<in> set expectedSpecFields \<and>
       (\<exists>raw children. (p, raw) \<in> set props0 \<and> oa_parseNode oa raw = Inr (Some children)) \<and>
       \<not> (\<exists>raw children. (p, raw) \<in> set props0 \<and> oa_parseNode oa raw = Inr (Some children) \<and> c \<in> fst ` set children)))"
proof -
  let ?served = "servedBy (oa_parseNode oa) props0"
  have m: "MissingSpecFields oa = Inr (missingFields expectedSpecFields ?served)"
    using assms(1-6) by (simp add: MissingSpecFields_def servedSpecFieldsFromOpenAPI_def servedBy_def)
  have top: "f \<in> set ?served \<longleftrightarrow> f \<in> fst ` set props0" if "plainName f" for f
    unfolding in_servedBy using top_in_node [OF that] by (metis image_iff prod.collapse)
  have nested: "p @ ''.'' @ c \<in> set ?served \<longleftrightarrow> (\<exists>raw children. (p, raw) \<in> set props0 \<and>
      oa_parseNode oa raw = Inr (Some children) \<and> (c = ''*'' \<or> c \<in> fst ` set children))" if "plainName p" for p c
  proof
    assume "p @ ''.'' @ c \<in> set ?served"
    then obtain k raw where kr: "(k, raw) \<in> set props0" "p @ ''.'' @ c \<in> set (servedNode (oa_parseNode oa) (k, raw))"
      unfolding in_servedBy by auto
    moreover have "plainName k" using assms(7) kr(1) by force
    ultimately show "\<exists>raw children. (p, raw) \<in> set props0 \<and> oa_parseNode oa raw = Inr (Some children) \<and> (c = ''*'' \<or> c \<in> fst ` set children)"
      using nested_in_node [OF that, of k c "oa_parseNode oa" raw] by auto
  next
    assume "\<exists>raw children. (p, raw) \<in> set props0 \<and> oa_parseNode oa raw = Inr (Some children) \<and> (c = ''*'' \<or> c \<in> fst ` set children)"
    then show "p @ ''.'' @ c \<in> set ?served"
      unfolding in_servedBy using nested_in_node [OF that that] by blast
  qed
  have cut: "cutFirst CHR ''.'' (p @ ''.'' @ c) = Some (p, c)" if "plainName p" for p c
    using that by (simp add: cutFirst_Some plainName_def)
  have cutN: "cutFirst CHR ''.'' f = None" if "plainName f" for f
    using that by (simp add: cutFirst_None plainName_def)
  have "\<forall>f. plainName f \<longrightarrow> (f \<in> set (missingFields expectedSpecFields ?served) \<longleftrightarrow> f \<in> set expectedSpecFields \<and> f \<notin> fst ` set props0)"
    using top cutN by (auto simp: missingFields_def)
  moreover have nst: "p @ ''.'' @ c \<in> set (missingFields expectedSpecFields ?served) \<longleftrightarrow> p @ ''.'' @ c \<in> set expectedSpecFields \<and>
       p @ ''.*'' \<in> set ?served \<and> p @ ''.'' @ c \<notin> set ?served" if "plainName p" for p c
    using cut [OF that, of c] by (auto simp: missingFields_def)
  moreover have "\<forall>p c. plainName p \<and> c \<noteq> ''*'' \<longrightarrow> (p @ ''.'' @ c \<in> set (missingFields expectedSpecFields ?served) \<longleftrightarrow>
      p @ ''.'' @ c \<in> set expectedSpecFields \<and>
       (\<exists>raw children. (p, raw) \<in> set props0 \<and> oa_parseNode oa raw = Inr (Some children)) \<and>
       \<not> (\<exists>raw children. (p, raw) \<in> set props0 \<and> oa_parseNode oa raw = Inr (Some children) \<and> c \<in> fst ` set children))"
  proof (intro allI impI)
    fix p c :: string
    assume h: "plainName p \<and> c \<noteq> ''*''"
    have star: "p @ ''.*'' \<in> set ?served \<longleftrightarrow> (\<exists>raw children. (p, raw) \<in> set props0 \<and> oa_parseNode oa raw = Inr (Some children))"
      using nested [of p "''*''"] h by simp
    have child: "p @ ''.'' @ c \<in> set ?served \<longleftrightarrow> (\<exists>raw children. (p, raw) \<in> set props0 \<and> oa_parseNode oa raw = Inr (Some children) \<and> c \<in> fst ` set children)"
      using nested [of p c] h by simp
    show "p @ ''.'' @ c \<in> set (missingFields expectedSpecFields ?served) \<longleftrightarrow>
      p @ ''.'' @ c \<in> set expectedSpecFields \<and>
       (\<exists>raw children. (p, raw) \<in> set props0 \<and> oa_parseNode oa raw = Inr (Some children)) \<and>
       \<not> (\<exists>raw children. (p, raw) \<in> set props0 \<and> oa_parseNode oa raw = Inr (Some children) \<and> c \<in> fst ` set children)"
      unfolding nst [OF conjunct1 [OF h]] star [symmetric] child [symmetric] by (rule refl)
  qed
  moreover have "sorted (missingFields expectedSpecFields ?served)" by (simp add: missingFields_def)
  ultimately show ?thesis using m by blast
qed

definition oldSchema :: openapi where
  "oldSchema = \<lparr>oa_paths = Inr [(openAPIConfigGroupVersionPath, Inr ''doc'')],
     oa_parseDoc = (\<lambda>_. Inr [(openAPIConfigSchemaName, [(''spec'', ''spec'')])]),
     oa_parseNode = (\<lambda>raw. if raw = ''spec'' then Inr (Some [(''discovery'', ''discovery''), (''sinks'', ''sinks'')])
        else if raw = ''discovery'' then Inr (Some [(''namespaceSelector'', ''x'')]) else Inr None)\<rparr>"

theorem missing_fields_exact_witness:
  "\<exists>missing. MissingSpecFields oldSchema = Inr missing \<and> ''verification'' \<in> set missing \<and>
     ''discovery.workloadKinds'' \<in> set missing \<and> ''sinks'' \<notin> set missing"
proof -
  have e: "''verification'' \<in> set expectedSpecFields" "''discovery.workloadKinds'' \<in> set expectedSpecFields"
    by (simp_all add: expectedSpecFields_def AIBOMControllerConfigSpec_fields_def walkNested_def leaves_def)
  have hyps: "oa_paths oldSchema = Inr [(openAPIConfigGroupVersionPath, Inr ''doc'')]"
    "map_of [(openAPIConfigGroupVersionPath, Inr ''doc'' :: string + string)] openAPIConfigGroupVersionPath = Some (Inr ''doc'')"
    "oa_parseDoc oldSchema ''doc'' = Inr [(openAPIConfigSchemaName, [(''spec'', ''spec'')])]"
    "map_of [(openAPIConfigSchemaName, [(''spec'', ''spec'')])] openAPIConfigSchemaName = Some [(''spec'', ''spec'')]"
    "map_of [(''spec'', ''spec'')] ''spec'' = Some ''spec''"
    "oa_parseNode oldSchema ''spec'' = Inr (Some [(''discovery'', ''discovery''), (''sinks'', ''sinks'')])"
    "\<forall>k \<in> fst ` set [(''discovery'', ''discovery''), (''sinks'', ''sinks'')]. plainName k"
    by (simp_all add: oldSchema_def plainName_def)
  from missing_fields_exact [OF hyps] obtain missing where m: "MissingSpecFields oldSchema = Inr missing"
    and tp: "\<And>f. plainName f \<Longrightarrow> f \<in> set missing \<longleftrightarrow> f \<in> set expectedSpecFields \<and> f \<notin> {''discovery'', ''sinks''}"
    and ns: "\<And>p c. plainName p \<and> c \<noteq> ''*'' \<Longrightarrow> (p @ ''.'' @ c \<in> set missing \<longleftrightarrow> p @ ''.'' @ c \<in> set expectedSpecFields \<and>
       (\<exists>raw children. (p, raw) \<in> set [(''discovery'', ''discovery''), (''sinks'', ''sinks'')] \<and> oa_parseNode oldSchema raw = Inr (Some children)) \<and>
       \<not> (\<exists>raw children. (p, raw) \<in> set [(''discovery'', ''discovery''), (''sinks'', ''sinks'')] \<and> oa_parseNode oldSchema raw = Inr (Some children) \<and> c \<in> fst ` set children))"
    by auto
  have "''verification'' \<in> set missing" "''sinks'' \<notin> set missing"
    using tp [of "''verification''"] tp [of "''sinks''"] e by (simp_all add: plainName_def)
  moreover have "''discovery.workloadKinds'' \<in> set missing"
    using ns [of "''discovery''" "''workloadKinds''"] e(2) by (simp add: plainName_def oldSchema_def)
  ultimately show ?thesis using m by blast
qed

end
