(* ===== verification/Config_Reconciler.thy ===== *)
theory Config_Reconciler
  imports Config_Store Watch_Health Schema_Skew
begin

text \<open>
  \<^verbatim>\<open>internal/controller/aibomcontrollerconfig_reconciler.go\<close>: the state machine that turns loads of the
  configuration resource into stored snapshots, events and status conditions. One reconcile is a function
  of the reconciler's state and of what the cluster answers: the loader's result, the schema check, the
  fresh read of the resource, the namespaces, the degraded watches and the outcome of the status write.
  Reconciles run one at a time, so a run is a list of such answers. The library's
  \<^verbatim>\<open>meta.SetStatusCondition\<close> is a parameter. The lemmas show which snapshot is in effect after any run, that no
  sink in use is ever closed and none is leaked, and what the events and the invalid flag record.
\<close>

datatype observedState = stateUnknown | stateMissing | stateValid | stateInvalid

fun observedState_String :: "observedState \<Rightarrow> string" where
  "observedState_String stateUnknown = ''unknown''"
| "observedState_String stateMissing = ''missing''"
| "observedState_String stateValid = ''valid''"
| "observedState_String stateInvalid = ''invalid''"

datatype event_target = OnPod | OnConfig

record event =
  ev_target :: event_target
  ev_warning :: bool
  ev_reason :: string
  ev_message :: string

record ConfigStatus =
  cst_conditions :: "Condition list"
  cst_observedGeneration :: int
  cst_lastLoadedAt :: "time option"
  cst_effectivePatterns :: "CRRuntimeImagePattern list"

record ConfigObject =
  co_generation :: int
  co_status :: ConfigStatus

record 's reconcile_input =
  ri_load :: "string + 's LoadResult"
  ri_schema :: "(string + string list) option"
  ri_get :: "ConfigObject api_result"
  ri_namespaces :: "string + namespace list"
  ri_degradedWatches :: "WatchStatus list"
  ri_write :: api_write
  ri_now :: time

record ('s, 'w) ConfigReconciler =
  rc_store :: "('s, 'w) Store \<times> 'w"
  rc_hasPod :: bool
  rc_configName :: string
  rc_lastSkew :: string
  rc_lastOptedIn :: "bool option"
  rc_lastObserved :: observedState
  rc_events :: "event list"
  rc_closing :: "'s list"
  rc_status :: "ConfigStatus option"

definition classify :: "'s LoadResult \<Rightarrow> observedState" where
  "classify result = (case lr_snapshot result of None \<Rightarrow> stateMissing
     | Some s \<Rightarrow> if HasErrors result then stateInvalid
         else if sn_source s = SourceCompiledDefaults then stateMissing else stateValid)"

definition detectSchemaSkew :: "(string + string list) option \<Rightarrow> string list" where
  "detectSchemaSkew checker = (case checker of Some (Inr missing) \<Rightarrow> missing | _ \<Rightarrow> [])"

text \<open>Which snapshot to store, and whether it is the very object that is stored already.\<close>

definition chooseSnapshot :: "observedState \<Rightarrow> 's LoadResult \<Rightarrow> 's Snapshot \<Rightarrow> 's Snapshot option \<times> bool" where
  "chooseSnapshot newState result prev = (case newState of
     stateInvalid \<Rightarrow>
       if sn_source prev = SourceConfigCR then (MarkAsLastKnownGood (Some prev), False)
       else if sn_source prev = SourceLastKnownGood then (Some prev, True)
       else (lr_snapshot result, False)
   | stateUnknown \<Rightarrow> (None, False)
   | _ \<Rightarrow> (lr_snapshot result, False))"

definition sinksToClose :: "'s Snapshot \<Rightarrow> 's Snapshot option \<times> bool \<Rightarrow> 's list" where
  "sinksToClose prev choice = (case choice of (toStore, same) \<Rightarrow>
     if \<not> same \<and> \<not> (case toStore of Some s \<Rightarrow> sn_source s = SourceLastKnownGood | None \<Rightarrow> False)
     then sn_externalSinks prev else [])"

definition ev :: "event_target \<Rightarrow> bool \<Rightarrow> string \<Rightarrow> string \<Rightarrow> event" where
  "ev target warning reason msg = \<lparr>ev_target = target, ev_warning = warning, ev_reason = reason, ev_message = msg\<rparr>"

definition podEvent :: "bool \<Rightarrow> string \<Rightarrow> string \<Rightarrow> event list" where
  "podEvent hasPod reason msg = (if \<not> hasPod then [] else [ev OnPod True reason msg])"

definition transitionEvents :: "bool \<Rightarrow> string \<Rightarrow> observedState \<Rightarrow> observedState \<Rightarrow> 's Snapshot option \<Rightarrow> event list" where
  "transitionEvents hasPod configName from to stored =
    (if to = stateMissing \<and> from = stateUnknown
     then podEvent hasPod ''AIBOMControllerConfigMissing''
       (''AIBOMControllerConfig/'' @ configName @ '' not found; running on compiled-in defaults. Create the CR to override defaults.'')
     else if to = stateMissing \<and> (from = stateValid \<or> from = stateInvalid)
     then podEvent hasPod ''AIBOMControllerConfigDeleted''
       (''AIBOMControllerConfig/'' @ configName @ '' was deleted; reverting to compiled-in defaults.'')
     else if to = stateValid \<and> from = stateInvalid
     then [ev OnConfig False ''ConfigRecovered'' ''AIBOMControllerConfig parsed cleanly; runtime snapshot updated and Degraded condition cleared.'',
           ev OnConfig False ''ConfigLoaded'' ''AIBOMControllerConfig loaded; runtime snapshot updated.'']
     else if to = stateValid
     then [ev OnConfig False ''ConfigLoaded'' ''AIBOMControllerConfig loaded; runtime snapshot updated.'']
     else if to = stateInvalid
     then (if (case stored of Some s \<Rightarrow> sn_source s = SourceLastKnownGood | None \<Rightarrow> False)
       then [ev OnConfig True ''ConfigInvalidUsingLastKnownGood'' ''AIBOMControllerConfig spec is invalid; retaining last-known-good snapshot. See Ready condition Message for the failing fields.'']
       else [ev OnConfig True ''ConfigInvalid'' ''AIBOMControllerConfig spec is invalid; running on compiled-in defaults. See Ready condition Message for the failing fields.''])
     else [])"

definition emitTransitionEvent ::
  "observedState \<Rightarrow> observedState \<Rightarrow> 's Snapshot option \<Rightarrow> ('s, 'w) ConfigReconciler \<Rightarrow> ('s, 'w) ConfigReconciler" where
  "emitTransitionEvent from to stored r =
    (if from = to then r
     else let (st, w) = rc_store r in
       r\<lparr>rc_store := (SetConfigInvalid (to = stateInvalid) st, w),
         rc_events := rc_events r @ transitionEvents (rc_hasPod r) (rc_configName r) from to stored\<rparr>)"

definition emitSchemaSkewEvent :: "string list \<Rightarrow> ('s, 'w) ConfigReconciler \<Rightarrow> ('s, 'w) ConfigReconciler" where
  "emitSchemaSkewEvent skew r =
    (let key = joinWith '','' skew in
     if key = rc_lastSkew r then r
     else r\<lparr>rc_events := rc_events r @
         (if key \<noteq> '''' then [ev OnConfig True ''SchemaPredatesController'' (schemaSkewMessage skew)]
          else [ev OnConfig False ''SchemaCurrent'' ''Served AIBOMControllerConfig CRD schema now declares every spec field this controller was built with.'']),
       rc_lastSkew := key\<rparr>)"

definition optedInNamespaces :: "string + namespace list \<Rightarrow> 's Snapshot \<Rightarrow> string + nat" where
  "optedInNamespaces namespaces snap = (case sn_namespaceSelector snap of None \<Rightarrow> Inr 0
     | Some sel \<Rightarrow> (case namespaces of Inl e \<Rightarrow> Inl e
         | Inr nss \<Rightarrow> Inr (length (filter (\<lambda>ns. \<not> ns_terminating ns \<and> sel_matches sel (ns_labels ns)) nss))))"

definition namespacesOptedInMessage :: "nat \<Rightarrow> 's Snapshot \<Rightarrow> string" where
  "namespacesOptedInMessage cnt snap =
    (if cnt = 1 then ''1 namespace matches spec.discovery.namespaceSelector; its workloads are inventoried.''
     else if cnt > 1 then showNat cnt @ '' namespaces match spec.discovery.namespaceSelector; their workloads are inventoried.''
     else let sel = (case sn_namespaceSelector snap of None \<Rightarrow> '''' | Some s \<Rightarrow> sel_string s) in
       if sel = '''' \<or> sel = DefaultNamespaceOptInLabel @ ''=true''
       then ''No namespace matches spec.discovery.namespaceSelector; nothing is inventoried until one does. Opt a namespace in with: kubectl label namespace <name> '' @ DefaultNamespaceOptInLabel @ ''=true''
       else ''No namespace matches spec.discovery.namespaceSelector ('' @ sel @ ''); nothing is inventoried until one does. Label a namespace so it matches, or change the selector.'')"

definition optedInCondition :: "int \<Rightarrow> time \<Rightarrow> 's Snapshot \<Rightarrow> nat \<Rightarrow> Condition" where
  "optedInCondition gen now snap cnt = \<lparr>cond_type = ''NamespacesOptedIn'', cond_status = (cnt > 0),
     cond_reason = (if cnt > 0 then ''NamespacesMatchSelector'' else ''NoNamespaceMatchesSelector''),
     cond_observedGeneration = gen, cond_message = namespacesOptedInMessage cnt snap, cond_lastTransitionTime = now\<rparr>"

definition setNamespacesOptedIn ::
  "set_condition \<Rightarrow> time \<Rightarrow> ConfigObject \<Rightarrow> 's Snapshot \<Rightarrow> nat \<Rightarrow> ('s, 'w) ConfigReconciler \<Rightarrow> ConfigObject \<times> ('s, 'w) ConfigReconciler" where
  "setNamespacesOptedIn setCond now cr snap cnt r =
    (let optedIn = (cnt > 0); cond = optedInCondition (co_generation cr) now snap cnt;
         cr' = cr\<lparr>co_status := (co_status cr)\<lparr>cst_conditions := setCond cond (cst_conditions (co_status cr))\<rparr>\<rparr>
     in if rc_lastOptedIn r = Some optedIn then (cr', r)
        else (cr', r\<lparr>rc_lastOptedIn := Some optedIn,
          rc_events := rc_events r @ [ev OnConfig False (if optedIn then ''NamespacesOptedIn'' else ''NoNamespacesOptedIn'') (cond_message cond)]\<rparr>))"

definition effectiveRuntimeImagePatterns :: "'s Snapshot option \<Rightarrow> CRRuntimeImagePattern list" where
  "effectiveRuntimeImagePatterns stored = (case stored of None \<Rightarrow> [] | Some s \<Rightarrow>
     (case sn_patterns s of None \<Rightarrow> []
      | Some cfg \<Rightarrow> map (\<lambda>p. \<lparr>crp_runtime = rip_runtime p, crp_pattern = rip_pattern p\<rparr>) (ic_runtimeImagePatterns cfg)))"

definition readyCondition :: "observedState \<Rightarrow> int \<Rightarrow> time \<Rightarrow> 's LoadResult \<Rightarrow> Condition" where
  "readyCondition state gen now result =
    (if state = stateValid
     then \<lparr>cond_type = ''Ready'', cond_status = True, cond_reason = ''ConfigLoaded'', cond_observedGeneration = gen,
       cond_message = ''Configuration loaded successfully; runtime snapshot is in effect.'', cond_lastTransitionTime = now\<rparr>
     else \<lparr>cond_type = ''Ready'', cond_status = False, cond_reason = ''ConfigInvalid'', cond_observedGeneration = gen,
       cond_message = AggregateMessage result, cond_lastTransitionTime = now\<rparr>)"

definition degradedCondition ::
  "observedState \<Rightarrow> int \<Rightarrow> time \<Rightarrow> 's Snapshot option \<Rightarrow> string list \<Rightarrow> WatchStatus list \<Rightarrow> Condition" where
  "degradedCondition state gen now stored skew watches =
    (let mk = (\<lambda>st reason msg. \<lparr>cond_type = ''Degraded'', cond_status = st, cond_reason = reason,
         cond_observedGeneration = gen, cond_message = msg, cond_lastTransitionTime = now\<rparr>) in
     if state = stateValid
     then (if skew \<noteq> [] then mk True ''SchemaPredatesController''
             (schemaSkewMessage skew @ (if watches \<noteq> [] then '' Also: '' @ watchHealthMessage watches else ''''))
           else if watches \<noteq> [] then mk True ''ThirdPartyWatchUnhealthy'' (watchHealthMessage watches)
           else mk False ''ConfigLoaded'' ''Controller is running on the current spec snapshot.'')
     else (case stored of
         Some s \<Rightarrow> if sn_source s = SourceLastKnownGood
           then mk True ''RunningOnLastKnownGood'' (''Spec is invalid; retaining last-known-good snapshot from generation '' @
             showInt (sn_sourceGeneration s) @ ''. Edit spec to clear Ready=False.'')
           else mk True ''RunningOnDefaults'' ''Spec is invalid; running on compiled-in defaults. Edit spec to clear Ready=False.''
       | None \<Rightarrow> mk True ''RunningOnDefaults'' ''Spec is invalid; running on compiled-in defaults. Edit spec to clear Ready=False.''))"

definition updateConditions ::
  "set_condition \<Rightarrow> 's reconcile_input \<Rightarrow> observedState \<Rightarrow> 's LoadResult \<Rightarrow> 's Snapshot option \<Rightarrow> string list \<Rightarrow>
   ('s, 'w) ConfigReconciler \<Rightarrow> api_write \<times> ('s, 'w) ConfigReconciler" where
  "updateConditions setCond inp state result stored skew r = (case ri_get inp of
     NotFound \<Rightarrow> (WriteNotFound, r)
   | ApiError e \<Rightarrow> (WriteError e, r)
   | Found cr \<Rightarrow>
      (let now = ri_now inp; gen = co_generation cr;
           conds = setCond (degradedCondition state gen now stored skew (ri_degradedWatches inp))
             (setCond (readyCondition state gen now result) (cst_conditions (co_status cr)));
           loadedAt = (case stored of Some s \<Rightarrow> if state = stateValid then Some (sn_loadedAt s) else cst_lastLoadedAt (co_status cr)
             | None \<Rightarrow> cst_lastLoadedAt (co_status cr));
           cr1 = cr\<lparr>co_status := (co_status cr)\<lparr>cst_conditions := conds, cst_lastLoadedAt := loadedAt\<rparr>\<rparr>;
           (cr2, r2) = (case stored of None \<Rightarrow> (cr1, r) | Some s \<Rightarrow>
              (case optedInNamespaces (ri_namespaces inp) s of Inl _ \<Rightarrow> (cr1, r)
               | Inr cnt \<Rightarrow> setNamespacesOptedIn setCond now cr1 s cnt r));
           final = (co_status cr2)\<lparr>cst_effectivePatterns := effectiveRuntimeImagePatterns stored, cst_observedGeneration := gen\<rparr>
       in case ri_write inp of WriteOK \<Rightarrow> (WriteOK, r2\<lparr>rc_status := Some final\<rparr>) | failed \<Rightarrow> (failed, r2)))"

definition storeAndClose :: "'s Snapshot option \<times> bool \<Rightarrow> ('s, 'w) ConfigReconciler \<Rightarrow> ('s, 'w) ConfigReconciler" where
  "storeAndClose choice r =
    r\<lparr>rc_closing := rc_closing r @ sinksToClose (store_Load (fst (rc_store r))) choice,
      rc_store := store_Store (fst choice) (rc_store r)\<rparr>"

definition config_Reconcile ::
  "set_condition \<Rightarrow> 's reconcile_input \<Rightarrow> ('s, 'w) ConfigReconciler \<Rightarrow> ('s, 'w) ConfigReconciler \<times> reconcile_result" where
  "config_Reconcile setCond inp r = (case ri_load inp of
     Inl e \<Rightarrow> (r, Failed (''load AIBOMControllerConfig: '' @ e))
   | Inr result \<Rightarrow>
      (let newState = classify result;
           skew = detectSchemaSkew (ri_schema inp);
           choice = chooseSnapshot newState result (store_Load (fst (rc_store r)));
           r1 = emitTransitionEvent (rc_lastObserved r) newState (fst choice) (storeAndClose choice r)
       in if newState = stateMissing then (r1\<lparr>rc_lastObserved := newState\<rparr>, Done)
          else case updateConditions setCond inp newState result (fst choice) skew (emitSchemaSkewEvent skew r1) of
              (WriteConflict, r2) \<Rightarrow> (r2, Requeue)
            | (WriteError e, r2) \<Rightarrow> (r2, Failed (''update status: '' @ e))
            | (_, r2) \<Rightarrow> (r2\<lparr>rc_lastObserved := newState\<rparr>, Done)))"

definition configChangeReloads :: "int \<times> gomap \<Rightarrow> int \<times> gomap \<Rightarrow> bool" where
  "configChangeReloads old new \<longleftrightarrow> fst old \<noteq> fst new \<or>
     \<not> (length (snd old) = length (snd new) \<and> list_all (\<lambda>(k, v). map_of (snd new) k = Some v) (snd old))"

definition startReconciler :: "('s, 'w) Store \<Rightarrow> 'w \<Rightarrow> bool \<Rightarrow> string \<Rightarrow> ('s, 'w) ConfigReconciler" where
  "startReconciler st w hasPod configName = \<lparr>rc_store = (st, w), rc_hasPod = hasPod,
     rc_configName = (if configName \<noteq> '''' then configName else DefaultConfigName), rc_lastSkew = '''', rc_lastOptedIn = None,
     rc_lastObserved = stateUnknown, rc_events = [], rc_closing = [], rc_status = None\<rparr>"

definition runReconciles :: "set_condition \<Rightarrow> 's reconcile_input list \<Rightarrow> ('s, 'w) ConfigReconciler \<Rightarrow> ('s, 'w) ConfigReconciler" where
  "runReconciles setCond inps r = foldl (\<lambda>r inp. fst (config_Reconcile setCond inp r)) r inps"

subsection \<open>What one reconcile changes\<close>

abbreviation currentOf :: "('s, 'w) ConfigReconciler \<Rightarrow> 's Snapshot" where
  "currentOf r \<equiv> store_Load (fst (rc_store r))"

definition coreOf :: "('s, 'w) ConfigReconciler \<Rightarrow> 's Snapshot \<times> bool \<times> 's list \<times> bool \<times> string" where
  "coreOf r = (currentOf r, ConfigInvalid (fst (rc_store r)), rc_closing r, rc_hasPod r, rc_configName r)"

definition configReasons :: "string list" where
  "configReasons = [''AIBOMControllerConfigMissing'', ''AIBOMControllerConfigDeleted'', ''ConfigLoaded'', ''ConfigInvalid'',
     ''ConfigInvalidUsingLastKnownGood'', ''ConfigRecovered'']"

definition configEvents :: "event list \<Rightarrow> event list" where
  "configEvents evs = filter (\<lambda>e. ev_reason e \<in> set configReasons) evs"

lemma configEvents_append [simp]: "configEvents (xs @ ys) = configEvents xs @ configEvents ys"
  by (simp add: configEvents_def)

lemma configEvents_transition [simp]: "configEvents (transitionEvents p n from to s) = transitionEvents p n from to s"
  by (simp add: configEvents_def transitionEvents_def podEvent_def ev_def configReasons_def split: option.splits)

lemma SetConfigInvalid_sel [simp]:
  "store_Load (SetConfigInvalid b st) = store_Load st" "ConfigInvalid (SetConfigInvalid b st) = b"
  by (simp_all add: store_Load_def SetConfigInvalid_def ConfigInvalid_def)

lemma emitSchemaSkewEvent_frame:
  "coreOf (emitSchemaSkewEvent skew r) = coreOf r" "rc_lastObserved (emitSchemaSkewEvent skew r) = rc_lastObserved r"
  "configEvents (rc_events (emitSchemaSkewEvent skew r)) = configEvents (rc_events r)"
  by (simp_all add: emitSchemaSkewEvent_def coreOf_def Let_def configEvents_def ev_def configReasons_def)

lemma setNamespacesOptedIn_frame:
  "coreOf (snd (setNamespacesOptedIn sc now cr s n r)) = coreOf r"
  "rc_lastObserved (snd (setNamespacesOptedIn sc now cr s n r)) = rc_lastObserved r"
  "configEvents (rc_events (snd (setNamespacesOptedIn sc now cr s n r))) = configEvents (rc_events r)"
  by (simp_all add: setNamespacesOptedIn_def coreOf_def Let_def configEvents_def ev_def configReasons_def)

lemma coreOf_status [simp]: "coreOf (r\<lparr>rc_status := x\<rparr>) = coreOf r" "coreOf (r\<lparr>rc_lastObserved := x'\<rparr>) = coreOf r"
  by (simp_all add: coreOf_def)

lemma updateConditions_frame:
  assumes "updateConditions sc inp state result stored skew r = (wr, r')"
  shows "coreOf r' = coreOf r \<and> rc_lastObserved r' = rc_lastObserved r \<and> configEvents (rc_events r') = configEvents (rc_events r)"
proof (cases "ri_get inp")
  case (Found cr)
  show ?thesis
    using assms unfolding updateConditions_def Found
    by (auto simp: Let_def split_beta setNamespacesOptedIn_frame split: option.splits sum.splits api_write.splits)
qed (use assms in \<open>simp_all add: updateConditions_def\<close>)

lemma emitTransitionEvent_frame:
  "coreOf (emitTransitionEvent from to stored r) =
    (currentOf r, if from = to then ConfigInvalid (fst (rc_store r)) else to = stateInvalid, rc_closing r, rc_hasPod r, rc_configName r)"
  "rc_lastObserved (emitTransitionEvent from to stored r) = rc_lastObserved r"
  "configEvents (rc_events (emitTransitionEvent from to stored r)) = configEvents (rc_events r) @
     (if from = to then [] else transitionEvents (rc_hasPod r) (rc_configName r) from to stored)"
  by (simp_all add: emitTransitionEvent_def coreOf_def split_beta Let_def)

lemma storeAndClose_frame:
  "coreOf (storeAndClose choice r) = ((case fst choice of None \<Rightarrow> currentOf r | Some s \<Rightarrow> s), ConfigInvalid (fst (rc_store r)),
     rc_closing r @ sinksToClose (currentOf r) choice, rc_hasPod r, rc_configName r)"
  "rc_events (storeAndClose choice r) = rc_events r" "rc_lastObserved (storeAndClose choice r) = rc_lastObserved r"
  by (simp_all add: storeAndClose_def coreOf_def store_Store_def store_Load_def ConfigInvalid_def Let_def split_beta split: option.splits)

definition writeFails :: "'s reconcile_input \<Rightarrow> bool" where
  "writeFails inp \<longleftrightarrow> (case ri_get inp of ApiError _ \<Rightarrow> True | NotFound \<Rightarrow> False
     | Found _ \<Rightarrow> ri_write inp \<notin> {WriteOK, WriteNotFound})"

lemma updateConditions_result:
  "fst (updateConditions sc inp state result stored skew r) \<in> {WriteOK, WriteNotFound} \<longleftrightarrow> \<not> writeFails inp"
  by (auto simp: updateConditions_def writeFails_def Let_def split_beta split: api_result.splits api_write.splits)

text \<open>The whole step on the parts that matter below.\<close>

lemma reconcile_step:
  fixes r :: "('s, 'w) ConfigReconciler" and sc :: set_condition
  assumes "ri_load inp = Inr result"
  defines "choice \<equiv> chooseSnapshot (classify result) result (currentOf r)"
  defines "r' \<equiv> fst (config_Reconcile sc inp r)"
  shows "coreOf r' = ((case fst choice of None \<Rightarrow> currentOf r | Some s \<Rightarrow> s),
      if rc_lastObserved r = classify result then ConfigInvalid (fst (rc_store r)) else classify result = stateInvalid,
      rc_closing r @ sinksToClose (currentOf r) choice, rc_hasPod r, rc_configName r) \<and>
    configEvents (rc_events r') = configEvents (rc_events r) @ (if rc_lastObserved r = classify result then []
      else transitionEvents (rc_hasPod r) (rc_configName r) (rc_lastObserved r) (classify result) (fst choice)) \<and>
    rc_lastObserved r' = (if classify result \<noteq> stateMissing \<and> writeFails inp then rc_lastObserved r else classify result)"
proof -
  define r1 where "r1 = emitTransitionEvent (rc_lastObserved r) (classify result) (fst choice) (storeAndClose choice r)"
  define u where "u = updateConditions sc inp (classify result) result (fst choice) (detectSchemaSkew (ri_schema inp))
    (emitSchemaSkewEvent (detectSchemaSkew (ri_schema inp)) r1)"
  have "fst u \<in> {WriteOK, WriteNotFound} \<longleftrightarrow> \<not> writeFails inp"
    unfolding u_def by (rule updateConditions_result)
  then have r': "r' = (if classify result = stateMissing then r1\<lparr>rc_lastObserved := classify result\<rparr>
      else if writeFails inp then snd u else (snd u)\<lparr>rc_lastObserved := classify result\<rparr>)"
    unfolding r'_def config_Reconcile_def assms(1) sum.case Let_def choice_def [symmetric] r1_def [symmetric] u_def [symmetric]
    by (auto split: prod.splits api_write.splits)
  have u: "coreOf (snd u) = coreOf r1" "rc_lastObserved (snd u) = rc_lastObserved r1"
    "configEvents (rc_events (snd u)) = configEvents (rc_events r1)"
    using updateConditions_frame [OF u_def [symmetric, THEN trans, OF prod.collapse [symmetric]]]
    by (simp_all add: emitSchemaSkewEvent_frame)
  have s: "currentOf (storeAndClose choice r) = (case fst choice of None \<Rightarrow> currentOf r | Some s \<Rightarrow> s)"
    "ConfigInvalid (fst (rc_store (storeAndClose choice r))) = ConfigInvalid (fst (rc_store r))"
    "rc_closing (storeAndClose choice r) = rc_closing r @ sinksToClose (currentOf r) choice"
    "rc_hasPod (storeAndClose choice r) = rc_hasPod r" "rc_configName (storeAndClose choice r) = rc_configName r"
    using storeAndClose_frame(1) [of choice r] by (simp_all add: coreOf_def)
  have r1: "coreOf r1 = ((case fst choice of None \<Rightarrow> currentOf r | Some s \<Rightarrow> s),
      if rc_lastObserved r = classify result then ConfigInvalid (fst (rc_store r)) else classify result = stateInvalid,
      rc_closing r @ sinksToClose (currentOf r) choice, rc_hasPod r, rc_configName r)"
    "rc_lastObserved r1 = rc_lastObserved r"
    "configEvents (rc_events r1) = configEvents (rc_events r) @ (if rc_lastObserved r = classify result then []
      else transitionEvents (rc_hasPod r) (rc_configName r) (rc_lastObserved r) (classify result) (fst choice))"
    unfolding r1_def by (simp_all add: emitTransitionEvent_frame storeAndClose_frame(2,3) s)
  show ?thesis
    unfolding r' by (simp add: u r1)
qed

subsection \<open>Runs\<close>

definition loadsOf :: "'s reconcile_input list \<Rightarrow> 's LoadResult list" where
  "loadsOf inps = concat (map (\<lambda>inp. case ri_load inp of Inl _ \<Rightarrow> [] | Inr l \<Rightarrow> [l]) inps)"

text \<open>What the loader promises of its results (see the load theorems of \<open>Config_Loader\<close>).\<close>

definition loaderResult :: "'s LoadResult \<Rightarrow> bool" where
  "loaderResult l \<longleftrightarrow> (\<exists>s. lr_snapshot l = Some s \<and>
     (HasErrors l \<longrightarrow> sn_source s = SourceCompiledDefaults \<and> sn_externalSinks s = []) \<and>
     (\<not> HasErrors l \<longrightarrow> sn_source s = SourceConfigCR \<or> sn_source s = SourceCompiledDefaults \<and> sn_externalSinks s = []))"

definition loadedSnapshot :: "'s LoadResult \<Rightarrow> 's Snapshot" where
  "loadedSnapshot l = the (lr_snapshot l)"

lemma Load_loaderResult:
  "Load env build get now name = Inr (l, closed) \<Longrightarrow> loaderResult l"
proof -
  assume "Load env build get now name = Inr (l, closed)"
  then consider "l = \<lparr>lr_snapshot = Some (DefaultSnapshot env now), lr_errors = []\<rparr>"
    | cr where "l = fst (parseSpec env build now cr)"
    by (auto simp: Load_def Let_def split: api_result.splits) (metis fst_conv)
  then show ?thesis
  proof cases
    case 1
    then show ?thesis by (simp add: loaderResult_def HasErrors_def DefaultSnapshot_def)
  next
    case 2
    show ?thesis
    proof (cases "specAccepted env build cr")
      case True
      then obtain s where "parseSpec env build now cr = (\<lparr>lr_snapshot = Some s, lr_errors = []\<rparr>, [])" "sn_source s = SourceConfigCR"
        using parseSpec_accepted by blast
      then show ?thesis by (simp add: 2 loaderResult_def HasErrors_def)
    next
      case False
      then have e: "lr_errors (fst (parseSpec env build now cr)) \<noteq> []" by (simp add: parseSpec_errors_iff)
      have "lr_snapshot (fst (parseSpec env build now cr)) = Some (DefaultSnapshot env now)"
        by (subst parseSpec_rejected [OF e]) simp
      then show ?thesis using e by (simp add: 2 loaderResult_def HasErrors_def DefaultSnapshot_def)
    qed
  qed
qed

text \<open>
  The snapshot that should be in effect after a list of loads, most recent first: that of the last load
  unless it was invalid; then the last configuration that was in effect before the invalid ones, marked
  as last known good, or the compiled-in defaults when there was none.
\<close>

fun inEffect :: "'s Snapshot \<Rightarrow> 's LoadResult list \<Rightarrow> 's Snapshot" where
  "inEffect initial [] = initial"
| "inEffect initial (l # earlier) =
    (if classify l \<noteq> stateInvalid then loadedSnapshot l
     else case find (\<lambda>x. classify x \<noteq> stateInvalid) earlier of
         Some g \<Rightarrow> if classify g = stateValid then (loadedSnapshot g)\<lparr>sn_source := SourceLastKnownGood\<rparr> else loadedSnapshot l
       | None \<Rightarrow> loadedSnapshot l)"

lemma classify_loader:
  assumes "loaderResult l"
  shows "lr_snapshot l = Some (loadedSnapshot l)"
    and "classify l = stateValid \<longleftrightarrow> sn_source (loadedSnapshot l) = SourceConfigCR"
    and "classify l \<noteq> stateValid \<longleftrightarrow> sn_source (loadedSnapshot l) = SourceCompiledDefaults"
    and "classify l \<noteq> stateValid \<Longrightarrow> sn_externalSinks (loadedSnapshot l) = []"
    and "classify l \<noteq> stateUnknown"
  using assms by (auto simp: loaderResult_def loadedSnapshot_def classify_def split: if_splits)

lemma inEffect_source:
  assumes "\<forall>l \<in> set ls. loaderResult l" "sn_source initial = SourceCompiledDefaults"
  shows "sn_source (inEffect initial ls) =
    (case find (\<lambda>x. classify x \<noteq> stateInvalid) ls of None \<Rightarrow> SourceCompiledDefaults
     | Some g \<Rightarrow> if classify g \<noteq> stateValid then SourceCompiledDefaults
         else if classify (hd ls) = stateInvalid then SourceLastKnownGood else SourceConfigCR)"
proof (cases ls)
  case (Cons l earlier)
  have "loaderResult l" using assms(1) Cons by simp
  note c = classify_loader [OF this]
  have f: "find P xs = Some g \<Longrightarrow> \<forall>l \<in> set xs. loaderResult l \<Longrightarrow> loaderResult g" for P g and xs :: "'a LoadResult list"
    by (auto simp: find_Some_iff)
  show ?thesis
    using Cons c assms(1) by (auto split: option.splits)
qed (use assms in simp)

lemma inEffect_step:
  assumes "\<forall>l \<in> set ls. loaderResult l" "loaderResult result" "sn_source initial = SourceCompiledDefaults"
  shows "(case fst (chooseSnapshot (classify result) result (inEffect initial ls)) of None \<Rightarrow> inEffect initial ls | Some s \<Rightarrow> s)
    = inEffect initial (result # ls)"
proof -
  note c = classify_loader [OF assms(2)]
  note src = inEffect_source [OF assms(1,3)]
  show ?thesis
  proof (cases "classify result = stateInvalid")
    case False
    then show ?thesis using c(1,5) by (cases "classify result") (simp_all add: chooseSnapshot_def)
  next
    case True
    show ?thesis
    proof (cases "find (\<lambda>x. classify x \<noteq> stateInvalid) ls")
      case None
      then show ?thesis using True c(1) src by (simp add: chooseSnapshot_def)
    next
      case (Some g)
      show ?thesis
      proof (cases "classify g = stateValid")
        case False
        then show ?thesis using True c(1) src Some by (simp add: chooseSnapshot_def)
      next
        case valid: True
        obtain l earlier where ls: "ls = l # earlier" using Some by (cases ls) auto
        show ?thesis
        proof (cases "classify l = stateInvalid")
          case inv: True
          then have "find (\<lambda>x. classify x \<noteq> stateInvalid) earlier = Some g" using Some ls by simp
          then show ?thesis using True valid src Some inv by (simp add: ls chooseSnapshot_def)
        next
          case False
          then have "g = l" using Some ls by simp
          then show ?thesis using True valid False src Some
            by (simp add: ls chooseSnapshot_def MarkAsLastKnownGood_def)
        qed
      qed
    qed
  qed
qed

lemma inEffect_sinks:
  assumes "\<forall>l \<in> set ls. loaderResult l" "loaderResult result" "sn_source initial = SourceCompiledDefaults"
  shows "mset (sinksToClose (inEffect initial ls) (chooseSnapshot (classify result) result (inEffect initial ls))) +
      mset (sn_externalSinks (inEffect initial (result # ls))) =
    mset (sn_externalSinks (inEffect initial ls)) + mset (sn_externalSinks (loadedSnapshot result))"
proof -
  note c = classify_loader [OF assms(2)]
  let ?p = "inEffect initial ls" and ?ch = "chooseSnapshot (classify result) result (inEffect initial ls)"
  have step: "(case fst ?ch of None \<Rightarrow> ?p | Some s \<Rightarrow> s) = inEffect initial (result # ls)"
    by (rule inEffect_step [OF assms])
  show ?thesis
  proof (cases "classify result = stateInvalid")
    case False
    then have "?ch = (Some (loadedSnapshot result), False)" "inEffect initial (result # ls) = loadedSnapshot result"
      using c(1,5) by (cases "classify result"; simp add: chooseSnapshot_def)+
    moreover have "sn_source (loadedSnapshot result) \<noteq> SourceLastKnownGood"
      using c(2,3) by (metis SnapshotSource.distinct(4,6))
    ultimately show ?thesis by (simp add: sinksToClose_def)
  next
    case True
    have none: "sn_externalSinks (loadedSnapshot result) = []" "sn_source (loadedSnapshot result) = SourceCompiledDefaults"
      using c(3,4) True by simp_all
    show ?thesis
      using step none True c(1)
      by (cases "sn_source ?p") (simp_all add: sinksToClose_def chooseSnapshot_def MarkAsLastKnownGood_def del: inEffect.simps flip: step)
  qed
qed

lemma runReconciles_snoc: "runReconciles sc (inps @ [inp]) r = fst (config_Reconcile sc inp (runReconciles sc inps r))"
  by (simp add: runReconciles_def)

lemma loadsOf_snoc: "loadsOf (inps @ [inp]) = loadsOf inps @ (case ri_load inp of Inl _ \<Rightarrow> [] | Inr l \<Rightarrow> [l])"
  by (simp add: loadsOf_def)

lemma reconcile_load_error: "ri_load inp = Inl e \<Longrightarrow> fst (config_Reconcile sc inp r) = r"
  by (simp add: config_Reconcile_def)

lemma start_sel [simp]:
  "currentOf (startReconciler st w p n) = store_Load st" "rc_closing (startReconciler st w p n) = []"
  "ConfigInvalid (fst (rc_store (startReconciler st w p n))) = ConfigInvalid st"
  "rc_lastObserved (startReconciler st w p n) = stateUnknown" "rc_events (startReconciler st w p n) = []"
  by (simp_all add: startReconciler_def)

lemma coreOf_eq: "coreOf r = (a, b, c, d, e) \<longleftrightarrow>
    currentOf r = a \<and> ConfigInvalid (fst (rc_store r)) = b \<and> rc_closing r = c \<and> rc_hasPod r = d \<and> rc_configName r = e"
  by (auto simp: coreOf_def)

lemma run_core:
  fixes sc :: set_condition and st :: "('s, 'w) Store" and w :: 'w and p :: bool and n :: string
  assumes "\<forall>l \<in> set (loadsOf inps). loaderResult l" "sn_source (store_Load st) = SourceCompiledDefaults"
    and "sn_externalSinks (store_Load st) = []"
  defines "r \<equiv> runReconciles sc inps (startReconciler st w p n)"
  shows "currentOf r = inEffect (store_Load st) (rev (loadsOf inps)) \<and>
    mset (rc_closing r) + mset (sn_externalSinks (currentOf r)) =
      mset (concat (map (\<lambda>l. sn_externalSinks (loadedSnapshot l)) (loadsOf inps)))"
  using assms(1) unfolding r_def
proof (induction inps rule: rev_induct)
  case Nil
  then show ?case using assms(3) by (simp add: runReconciles_def loadsOf_def)
next
  case (snoc inp inps)
  let ?r = "runReconciles sc inps (startReconciler st w p n)"
  show ?case
  proof (cases "ri_load inp")
    case (Inl e)
    have same: "loadsOf (inps @ [inp]) = loadsOf inps"
      "runReconciles sc (inps @ [inp]) (startReconciler st w p n) = ?r"
      by (simp_all add: runReconciles_snoc loadsOf_snoc reconcile_load_error Inl)
    show ?thesis unfolding same by (rule snoc.IH) (use snoc.prems in \<open>simp add: same\<close>)
  next
    case (Inr result)
    have ls: "\<forall>l \<in> set (rev (loadsOf inps)). loaderResult l" and res: "loaderResult result"
      using snoc.prems Inr by (simp_all add: loadsOf_snoc)
    have cur: "currentOf ?r = inEffect (store_Load st) (rev (loadsOf inps))"
      and ms: "mset (rc_closing ?r) + mset (sn_externalSinks (currentOf ?r)) =
        mset (concat (map (\<lambda>l. sn_externalSinks (loadedSnapshot l)) (loadsOf inps)))"
      using snoc.IH ls unfolding set_rev by blast+
    let ?ch = "chooseSnapshot (classify result) result (currentOf ?r)"
    have st: "currentOf (fst (config_Reconcile sc inp ?r)) = (case fst ?ch of None \<Rightarrow> currentOf ?r | Some s \<Rightarrow> s)"
      "rc_closing (fst (config_Reconcile sc inp ?r)) = rc_closing ?r @ sinksToClose (currentOf ?r) ?ch"
      using reconcile_step [OF Inr, of sc ?r, unfolded coreOf_eq] by blast+
    note step = inEffect_step [OF ls res assms(2)]
    note sinks = inEffect_sinks [OF ls res assms(2)]
    have loads: "loadsOf (inps @ [inp]) = loadsOf inps @ [result]" by (simp add: loadsOf_snoc Inr)
    have now: "currentOf (fst (config_Reconcile sc inp ?r)) = inEffect (store_Load st) (result # rev (loadsOf inps))"
      using st(1) step unfolding cur by (rule trans)
    have "mset (rc_closing (fst (config_Reconcile sc inp ?r))) + mset (sn_externalSinks (currentOf (fst (config_Reconcile sc inp ?r)))) =
        mset (rc_closing ?r) + (mset (sinksToClose (currentOf ?r) ?ch) + mset (sn_externalSinks (inEffect (store_Load st) (result # rev (loadsOf inps)))))"
      unfolding now st(2) mset_append by (rule add.assoc)
    also have "\<dots> = mset (rc_closing ?r) + mset (sn_externalSinks (currentOf ?r)) + mset (sn_externalSinks (loadedSnapshot result))"
      using sinks unfolding cur add.assoc by (rule arg_cong)
    also have "\<dots> = mset (concat (map (\<lambda>l. sn_externalSinks (loadedSnapshot l)) (loadsOf (inps @ [inp]))))"
      unfolding ms loads by simp
    finally show ?thesis using now unfolding runReconciles_snoc loads by simp
  qed
qed

subsection \<open>Properties of runs\<close>

text \<open>
  C8. After any run of reconciles, whatever the API answers and whichever status writes fail, the snapshot
  in effect is the one the history of loads prescribes: that of the last load if the resource was valid or
  absent, otherwise the last valid configuration since the resource was last absent, unchanged but marked
  last known good, and the compiled-in defaults when there was none. Loads that failed change nothing.
\<close>

theorem last_known_good_retained:
  assumes "\<forall>l \<in> set (loadsOf inps). loaderResult l"
  shows "currentOf (runReconciles sc inps (startReconciler (NewStore env now None) w p n)) =
    inEffect (DefaultSnapshot env now) (rev (loadsOf inps))"
  using run_core [OF assms, of "NewStore env now None" sc w p n]
  by (simp add: NewStore_def store_Load_def DefaultSnapshot_def)

text \<open>
  C9. Sinks are conserved: after any run of reconciles every sink that a load built is accounted for
  exactly once, either it belongs to the snapshot in effect or it has been scheduled for closing; so no
  sink in use is ever closed, none is closed twice and none is leaked.
\<close>

theorem sinks_conserved:
  assumes "\<forall>l \<in> set (loadsOf inps). loaderResult l"
  shows "let r = runReconciles sc inps (startReconciler (NewStore env now None) w p n) in
    mset (rc_closing r) + mset (sn_externalSinks (currentOf r)) =
      mset (concat (map (\<lambda>l. sn_externalSinks (loadedSnapshot l)) (loadsOf inps)))"
  unfolding Let_def
  by (rule conjunct2 [OF run_core [OF assms]]) (simp_all add: NewStore_def store_Load_def DefaultSnapshot_def)

definition lastState :: "'s reconcile_input list \<Rightarrow> observedState" where
  "lastState inps = (case rev (loadsOf inps) of [] \<Rightarrow> stateUnknown | l # _ \<Rightarrow> classify l)"

lemma run_observed:
  assumes "\<forall>inp \<in> set inps. \<not> writeFails inp" "\<not> ConfigInvalid st"
  shows "rc_lastObserved (runReconciles sc inps (startReconciler st w p n)) = lastState inps \<and>
    ConfigInvalid (fst (rc_store (runReconciles sc inps (startReconciler st w p n)))) = (lastState inps = stateInvalid)"
  using assms(1)
proof (induction inps rule: rev_induct)
  case Nil
  then show ?case using assms(2) by (simp add: runReconciles_def loadsOf_def lastState_def)
next
  case (snoc inp inps)
  show ?case
  proof (cases "ri_load inp")
    case (Inl e)
    then show ?thesis using snoc by (simp add: runReconciles_snoc loadsOf_snoc reconcile_load_error lastState_def)
  next
    case (Inr result)
    then have "lastState (inps @ [inp]) = classify result" by (simp add: lastState_def loadsOf_snoc)
    then show ?thesis
      using snoc reconcile_step [OF Inr, of sc "runReconciles sc inps (startReconciler st w p n)", unfolded coreOf_eq]
      by (auto simp: runReconciles_snoc)
  qed
qed

text \<open>
  As long as status writes do not fail, configuration events are emitted once per change of the
  resource's state and not once per reconcile, and the flag read by the strict readiness check says exactly
  whether the last load found an invalid resource.
\<close>

theorem config_events_on_transition_only:
  assumes "\<forall>inp \<in> set inps. \<not> writeFails inp" "ri_load inp = Inr result"
  shows "let r = runReconciles sc inps (startReconciler (NewStore env now None) w p n) in
    ConfigInvalid (fst (rc_store r)) = (lastState inps = stateInvalid) \<and>
    configEvents (rc_events (fst (config_Reconcile sc inp r))) = configEvents (rc_events r) @
      (if classify result = lastState inps then []
       else transitionEvents (rc_hasPod r) (rc_configName r) (lastState inps) (classify result)
         (fst (chooseSnapshot (classify result) result (currentOf r))))"
proof -
  define r where "r = runReconciles sc inps (startReconciler (NewStore env now None) w p n)"
  have "rc_lastObserved r = lastState inps \<and> ConfigInvalid (fst (rc_store r)) = (lastState inps = stateInvalid)"
    unfolding r_def by (rule run_observed [OF assms(1)]) (simp add: NewStore_def ConfigInvalid_def)
  then show ?thesis using reconcile_step [OF assms(2), of sc r] unfolding r_def [symmetric] Let_def by auto
qed

text \<open>
  C11. A failed status write loses the transition: when a valid configuration becomes invalid, the status
  write of that reconcile fails, and the configuration is valid again at the next one, the new valid
  snapshot is in effect but the invalid flag stays set, so the strict readiness check keeps failing, and no
  event announces the recovery.
\<close>

theorem invalid_flag_stuck_after_failed_write:
  assumes "rc_lastObserved r = stateValid"
    and "ri_load bad = Inr l" "classify l = stateInvalid" "writeFails bad"
    and "ri_load good = Inr l'" "classify l' = stateValid"
  shows "let r' = runReconciles sc [bad, good] r in
    lr_snapshot l' = Some (currentOf r') \<and> ConfigInvalid (fst (rc_store r')) \<and>
    configEvents (rc_events r') = configEvents (rc_events (fst (config_Reconcile sc bad r)))"
proof -
  let ?m = "fst (config_Reconcile sc bad r)"
  have m: "ConfigInvalid (fst (rc_store ?m))" "rc_lastObserved ?m = stateValid"
    using reconcile_step [OF assms(2), of sc r, unfolded coreOf_eq] assms(1,3,4) by auto
  have "lr_snapshot l' \<noteq> None" using assms(6) by (auto simp: classify_def split: option.splits)
  moreover have "runReconciles sc [bad, good] r = fst (config_Reconcile sc good ?m)" by (simp add: runReconciles_def)
  ultimately show ?thesis unfolding Let_def
    using reconcile_step [OF assms(5), of sc ?m, unfolded coreOf_eq] m assms(6)
    by (auto simp: chooseSnapshot_def)
qed

subsection \<open>Examples\<close>

definition exampleSnapshot :: "SnapshotSource \<Rightarrow> string list \<Rightarrow> string Snapshot" where
  "exampleSnapshot src sinks = (DefaultSnapshot exampleConfigEnv 0)\<lparr>sn_source := src, sn_externalSinks := sinks\<rparr>"

definition exampleLoad :: "string list \<Rightarrow> string LoadResult" where
  "exampleLoad sinks = \<lparr>lr_snapshot = Some (exampleSnapshot SourceConfigCR sinks), lr_errors = []\<rparr>"

definition invalidLoad :: "string LoadResult" where
  "invalidLoad = \<lparr>lr_snapshot = Some (exampleSnapshot SourceCompiledDefaults []), lr_errors = [errSinkDuplicateName ''a'']\<rparr>"

definition exampleReconcile :: "string LoadResult \<Rightarrow> api_write \<Rightarrow> string reconcile_input" where
  "exampleReconcile l wr = \<lparr>ri_load = Inr l, ri_schema = None,
     ri_get = Found \<lparr>co_generation = 1, co_status = \<lparr>cst_conditions = [], cst_observedGeneration = 0, cst_lastLoadedAt = None, cst_effectivePatterns = []\<rparr>\<rparr>,
     ri_namespaces = Inr [], ri_degradedWatches = [], ri_write = wr, ri_now = 9\<rparr>"

lemmas example_defs = exampleReconcile_def exampleLoad_def invalidLoad_def exampleSnapshot_def DefaultSnapshot_def
  classify_def HasErrors_def loadsOf_def

lemma example_loads:
  "loaderResult (exampleLoad ss)" "loaderResult invalidLoad" "classify (exampleLoad ss) = stateValid"
  "classify invalidLoad = stateInvalid" "loadedSnapshot (exampleLoad ss) = exampleSnapshot SourceConfigCR ss"
  "loadedSnapshot invalidLoad = exampleSnapshot SourceCompiledDefaults []" "ri_load (exampleReconcile l wr) = Inr l"
  "writeFails (exampleReconcile l wr) \<longleftrightarrow> wr \<notin> {WriteOK, WriteNotFound}"
  by (simp_all add: loaderResult_def loadedSnapshot_def example_defs writeFails_def)

theorem last_known_good_retained_witness:
  "currentOf (runReconciles (#) [exampleReconcile (exampleLoad [''gcs'']) WriteOK, exampleReconcile invalidLoad WriteConflict]
      (startReconciler (NewStore exampleConfigEnv 0 None) () True '''')) = exampleSnapshot SourceLastKnownGood [''gcs'']"
  by (subst last_known_good_retained)
    (auto simp: loadsOf_def example_loads exampleSnapshot_def)

theorem sinks_conserved_witness:
  "let r = runReconciles (#) [exampleReconcile (exampleLoad [''a'']) WriteOK, exampleReconcile (exampleLoad [''b'']) WriteOK]
      (startReconciler (NewStore exampleConfigEnv 0 None) () True '''') in
   mset (rc_closing r) + mset (sn_externalSinks (currentOf r)) = {#''a'', ''b''#}"
  using sinks_conserved [of "[exampleReconcile (exampleLoad [''a'']) WriteOK, exampleReconcile (exampleLoad [''b'']) WriteOK]" "(#)" exampleConfigEnv 0 "()" True "''''"]
  by (simp add: loadsOf_def example_loads exampleSnapshot_def)

theorem config_events_on_transition_only_witness:
  "configEvents (rc_events (fst (config_Reconcile (#) (exampleReconcile invalidLoad WriteOK)
     (runReconciles (#) [exampleReconcile invalidLoad WriteOK] (startReconciler (NewStore exampleConfigEnv 0 None) () True ''''))))) =
   configEvents (rc_events (runReconciles (#) [exampleReconcile invalidLoad WriteOK] (startReconciler (NewStore exampleConfigEnv 0 None) () True '''')))"
  using config_events_on_transition_only [of "[exampleReconcile invalidLoad WriteOK]" "exampleReconcile invalidLoad WriteOK" invalidLoad "(#)" exampleConfigEnv 0 "()" True "''''"]
  by (simp add: example_loads lastState_def loadsOf_def Let_def)

theorem invalid_flag_stuck_after_failed_write_witness:
  "\<exists>r :: (string, unit) ConfigReconciler. rc_lastObserved r = stateValid \<and>
    ConfigInvalid (fst (rc_store (runReconciles (#) [exampleReconcile invalidLoad WriteConflict, exampleReconcile (exampleLoad []) WriteOK] r))) \<and>
    sn_source (currentOf (runReconciles (#) [exampleReconcile invalidLoad WriteConflict, exampleReconcile (exampleLoad []) WriteOK] r)) = SourceConfigCR"
proof -
  let ?r = "runReconciles (#) [exampleReconcile (exampleLoad []) WriteOK] (startReconciler (NewStore exampleConfigEnv 0 None) () True '''')"
  have "rc_lastObserved ?r = stateValid"
    using run_observed [of "[exampleReconcile (exampleLoad []) WriteOK]" "NewStore exampleConfigEnv 0 None" "(#)" "()" True "''''"]
    by (simp add: example_loads lastState_def loadsOf_def NewStore_def ConfigInvalid_def)
  moreover from this have "lr_snapshot (exampleLoad []) = Some (currentOf (runReconciles (#) [exampleReconcile invalidLoad WriteConflict, exampleReconcile (exampleLoad []) WriteOK] ?r)) \<and>
    ConfigInvalid (fst (rc_store (runReconciles (#) [exampleReconcile invalidLoad WriteConflict, exampleReconcile (exampleLoad []) WriteOK] ?r)))"
    using invalid_flag_stuck_after_failed_write [of ?r "exampleReconcile invalidLoad WriteConflict" invalidLoad "exampleReconcile (exampleLoad []) WriteOK" "exampleLoad []" "(#)"]
    by (simp add: example_loads Let_def)
  moreover have "lr_snapshot (exampleLoad []) = Some (exampleSnapshot SourceConfigCR [])" "sn_source (exampleSnapshot SourceConfigCR []) = SourceConfigCR"
    by (simp_all add: example_defs)
  ultimately show ?thesis by (intro exI [of _ ?r]) simp
qed

end
