(* ===== verification/Bom_Redact.thy ===== *)
theory Bom_Redact
  imports Go_Regexp Signature
begin

text \<open>
  \<^verbatim>\<open>internal/bom/redact.go\<close>: the sanitisation pass every emitted string goes through. A rule is a
  pattern split into its leading capture group and the rest, the replacement for the text the group
  captured, and the redaction class that is recorded.
\<close>

definition redactionPropertyKey :: string where "redactionPropertyKey = ''aibom.redaction.applied''"
definition redactURIUserinfo :: string where "redactURIUserinfo = ''uri-userinfo''"
definition redactQueryParameter :: string where "redactQueryParameter = ''query-credential''"
definition redactTokenShape :: string where "redactTokenShape = ''token''"

record redact_rule =
  rr_group :: re
  rr_rest :: re
  rr_replace :: "string \<Rightarrow> string"
  rr_class :: string

text \<open>\<^verbatim>\<open>([a-zA-Z][a-zA-Z0-9+.-]*://)([^/@\s]+)@\<close>\<close>

definition reURIUserinfo :: redact_rule where
  "reURIUserinfo = \<lparr>
     rr_group = seqs [RCls [lowerR, upperR] False,
       RStar (RCls [lowerR, upperR, digitR, one CHR ''+'', one CHR ''.'', one CHR ''-''] False), lit ''://''],
     rr_rest = RSeq (plus (RCls ([one CHR ''/'', one CHR ''@''] @ spaceRs) True)) (chr CHR ''@''),
     rr_replace = (\<lambda>g. g @ ''[REDACTED:'' @ redactURIUserinfo @ '']@''),
     rr_class = redactURIUserinfo\<rparr>"

text \<open>\<^verbatim>\<open>(?i)([?&](?:x-amz-signature|...|sas)=)[^&\s]+\<close>\<close>

definition queryKeys :: "string list" where
  "queryKeys = [''x-amz-signature'', ''x-amz-credential'', ''x-amz-security-token'', ''x-goog-signature'',
     ''x-goog-credential'', ''sig'', ''signature'', ''token'', ''access_token'', ''id_token'', ''api_key'',
     ''apikey'', ''private_token'', ''sas'']"

definition reQueryCredential :: redact_rule where
  "reQueryCredential = \<lparr>
     rr_group = seqs [RCls [one CHR ''?'', one CHR ''&''] False, alts (map ciLit queryKeys), chr CHR ''=''],
     rr_rest = plus (RCls (one CHR ''&'' # spaceRs) True),
     rr_replace = (\<lambda>g. g @ ''[REDACTED:'' @ redactQueryParameter @ '']''),
     rr_class = redactQueryParameter\<rparr>"

definition tokenRule :: "re \<Rightarrow> redact_rule" where
  "tokenRule r = \<lparr>rr_group = REps, rr_rest = RSeq RWordB r,
     rr_replace = (\<lambda>_. ''[REDACTED:'' @ redactTokenShape @ '']''), rr_class = redactTokenShape\<rparr>"

definition alnumRs :: "(char \<times> char) list" where "alnumRs = [upperR, lowerR, digitR]"

definition reTokenShapes :: "redact_rule list" where
  "reTokenShapes =
    (let alnum = RCls alnumRs False;
         alnumU = RCls (alnumRs @ [one CHR ''_'']) False;
         alnumUD = RCls (alnumRs @ [one CHR ''_'', one CHR ''-'']) False;
         alnumD = RCls (alnumRs @ [one CHR ''-'']) False;
         bearer = alts [RCls (alnumRs @ [one CHR ''.'', one CHR ''_'', one CHR ''~'', one CHR ''+'', one CHR ''/'', one CHR ''-'']) False,
                        longS, kelvin]
     in map tokenRule
      [RSeq (lit ''sk-'') (atLeast 16 alnumUD),
       RSeq (lit ''ghp_'') (atLeast 20 alnum),
       RSeq (lit ''github_pat_'') (atLeast 20 alnumU),
       RSeq (lit ''glpat-'') (atLeast 16 alnumUD),
       seqs [lit ''xox'', RCls [one CHR ''b'', one CHR ''a'', one CHR ''p'', one CHR ''r'', one CHR ''s''] False, chr CHR ''-'', atLeast 10 alnumD],
       seqs [lit ''AKIA'', rpt 16 (RCls [digitR, upperR] False), RWordB],
       seqs [lit ''AIza'', rpt 35 alnumUD, RWordB],
       seqs [lit ''eyJ'', atLeast 8 alnumUD, lit ''.eyJ'', atLeast 8 alnumUD, chr CHR ''.'', atLeast 8 alnumUD, RWordB],
       seqs [ciLit ''bearer'', plus (RCls spaceRs False), atLeast 15 bearer, RStar (chr CHR ''='')]])"

definition redactRules :: "redact_rule list" where
  "redactRules = reURIUserinfo # reQueryCredential # reTokenShapes"

definition ruleMatches :: "redact_rule \<Rightarrow> string \<Rightarrow> bool" where
  "ruleMatches r s = matchString (RSeq (rr_group r) (rr_rest r)) s"

definition redactStep :: "redact_rule \<Rightarrow> string \<times> string list \<Rightarrow> string \<times> string list" where
  "redactStep r sc = (case sc of (s, classes) \<Rightarrow>
     if ruleMatches r s
     then (replaceAll (rr_group r) (rr_rest r) (rr_replace r) None s, rr_class r # classes)
     else (s, classes))"

text \<open>The keys of the \<^verbatim>\<open>classes\<close> set in sorted order.\<close>

definition sortedClasses :: "string list \<Rightarrow> string list" where
  "sortedClasses cs = sort (remdups cs)"

definition redactString :: "string \<Rightarrow> string \<times> string list" where
  "redactString s = (if s = '''' then (s, [])
     else case fold redactStep redactRules (s, []) of (t, classes) \<Rightarrow> (t, sortedClasses classes))"

definition redacted :: "string \<Rightarrow> string" where "redacted s = fst (redactString s)"
definition redactHits :: "string \<Rightarrow> string list" where "redactHits s = snd (redactString s)"

definition componentHits :: "Component \<Rightarrow> string list" where
  "componentHits c = sortedClasses (redactHits (cName c) @ redactHits (cVersion c) @ redactHits (cPURL c) @
     redactHits (ev_locator (cEvidence c)) @ concat (map (\<lambda>(k, v). redactHits v) (cProperties c)))"

definition redactComponent :: "Component \<Rightarrow> Component" where
  "redactComponent c =
    (let classes = componentHits c;
         props = map (\<lambda>(k, v). (k, redacted v)) (cProperties c);
         props' = (if classes \<noteq> [] then gm_put redactionPropertyKey (joinWith '','' classes) props else props)
     in Component (cType c) (redacted (cName c)) (redacted (cVersion c)) (redacted (cPURL c)) (cHashes c)
          ((cEvidence c)\<lparr>ev_locator := redacted (ev_locator (cEvidence c))\<rparr>) (cConfidence c) props' (cChildren c))"

definition redactService :: "Service \<Rightarrow> Service \<times> string list" where
  "redactService s = (s\<lparr>sv_name := redacted (sv_name s), sv_endpoints := map redacted (sv_endpoints s)\<rparr>,
     sortedClasses (redactHits (sv_name s) @ concat (map redactHits (sv_endpoints s))))"

subsection \<open>Lemmas\<close>

lemma redactStep_classes:
  "set (snd (redactStep r sc)) \<supseteq> set (snd sc)"
  "snd (redactStep r sc) = [] \<Longrightarrow> redactStep r sc = sc \<and> \<not> ruleMatches r (fst sc)"
  by (cases sc; auto simp: redactStep_def split: if_splits)+

lemma fold_redactStep:
  "snd (fold redactStep rs sc) = [] \<Longrightarrow> fold redactStep rs sc = sc \<and> (\<forall>r \<in> set rs. \<not> ruleMatches r (fst sc))"
proof (induction rs arbitrary: sc)
  case (Cons r rs)
  from Cons.prems have p: "snd (fold redactStep rs (redactStep r sc)) = []" by simp
  note IH = Cons.IH [OF p]
  then have "snd (redactStep r sc) = []" using p by metis
  with IH redactStep_classes(2) [of r sc] show ?case by simp
qed simp

lemma fold_redactStep_quiet:
  "\<forall>r \<in> set rs. \<not> ruleMatches r (fst sc) \<Longrightarrow> fold redactStep rs sc = sc"
  by (induction rs) (auto simp: redactStep_def case_prod_unfold)

lemma set_sortedClasses [simp]: "set (sortedClasses cs) = set cs"
  by (simp add: sortedClasses_def)

lemma sortedClasses_Nil [simp]: "sortedClasses cs = [] \<longleftrightarrow> cs = []"
  by (metis set_empty set_sortedClasses)

text \<open>No class is recorded exactly when no pattern matches, and then the string is unchanged.\<close>

lemma redactHits_Nil_iff: "redactHits s = [] \<longleftrightarrow> s = '''' \<or> (\<forall>r \<in> set redactRules. \<not> ruleMatches r s)"
proof -
  have "snd (fold redactStep redactRules (s, [])) = [] \<longleftrightarrow> (\<forall>r \<in> set redactRules. \<not> ruleMatches r s)"
    using fold_redactStep [of redactRules "(s, [])"] fold_redactStep_quiet [of redactRules "(s, [])"] by auto
  then show ?thesis by (auto simp: redactHits_def redactString_def case_prod_unfold)
qed

lemma redacted_quiet: "redactHits s = [] \<Longrightarrow> redacted s = s"
  using fold_redactStep_quiet [of redactRules "(s, [])"]
  by (auto simp: redactHits_Nil_iff redacted_def redactString_def)

lemma redactComponent_sel [simp]:
  "cType (redactComponent c) = cType c" "cHashes (redactComponent c) = cHashes c"
  "cConfidence (redactComponent c) = cConfidence c" "cChildren (redactComponent c) = cChildren c"
  by (simp_all add: redactComponent_def Let_def)

lemma gm_sorted_redacted: "gm_sorted m \<Longrightarrow> gm_sorted (map (\<lambda>(k, v). (k, redacted v)) m)"
  by (simp add: gm_sorted_def case_prod_unfold comp_def)

lemma componentHits_Nil:
  assumes "componentHits c = []"
  shows "redactComponent c = c"
proof -
  have "\<forall>x \<in> set (cProperties c). redactHits (snd x) = []"
    using assms by (auto simp: componentHits_def)
  then have "map (\<lambda>(k, v). (k, redacted v)) (cProperties c) = cProperties c"
    by (auto intro!: map_idI simp: redacted_quiet)
  then show ?thesis
    using assms by (cases c) (auto simp: componentHits_def redactComponent_def redacted_quiet Let_def)
qed

text \<open>
  Redaction is recorded, never silent: a component whose fields contain no credential pattern is
  emitted unchanged, and one that is changed carries the property naming the classes that fired.
\<close>

theorem redaction_recorded:
  assumes "gm_sorted (cProperties c)"
  shows "(componentHits c = [] \<and> redactComponent c = c) \<or>
    (componentHits c \<noteq> [] \<and>
     map_of (cProperties (redactComponent c)) redactionPropertyKey = Some (joinWith '','' (componentHits c)) \<and>
     set (componentHits c) \<subseteq> {redactURIUserinfo, redactQueryParameter, redactTokenShape})"
proof (cases "componentHits c = []")
  case True
  then show ?thesis by (simp add: componentHits_Nil)
next
  case False
  have cls: "rr_class r \<in> {redactURIUserinfo, redactQueryParameter, redactTokenShape}" if "r \<in> set redactRules" for r
    using that by (auto simp: redactRules_def reURIUserinfo_def reQueryCredential_def reTokenShapes_def tokenRule_def Let_def)
  have "set (snd (fold redactStep rs sc)) \<subseteq> set (snd sc) \<union> rr_class ` set rs" for rs sc
  proof (induction rs arbitrary: sc)
    case (Cons r rs)
    have "set (snd (redactStep r sc)) \<subseteq> set (snd sc) \<union> {rr_class r}"
      by (cases sc) (auto simp: redactStep_def)
    with Cons [of "redactStep r sc"] show ?case by auto
  qed simp
  from this [of redactRules "(s, [])" for s] have "set (redactHits s) \<subseteq> rr_class ` set redactRules" for s
    by (auto simp: redactHits_def redactString_def case_prod_unfold)
  then have hits: "set (redactHits s) \<subseteq> {redactURIUserinfo, redactQueryParameter, redactTokenShape}" for s
    using cls by blast
  have "set (componentHits c) \<subseteq> {redactURIUserinfo, redactQueryParameter, redactTokenShape}"
    using hits by (auto simp: componentHits_def)
  with False assms show ?thesis
    by (simp add: redactComponent_def Let_def map_of_gm_put gm_sorted_redacted)
qed

definition leakyModel :: Component where
  "leakyModel = mkComponent ComponentMLModel ''s3://key:secret@bucket/llama'' [] ConfidenceDeclared
     \<lparr>ev_source = SourceEnvVar, ev_locator = ''env''\<rparr> [(''identity.confidence'', ''claimed'')]"

theorem redaction_recorded_witness:
  "componentHits leakyModel \<noteq> [] \<and>
   map_of (cProperties (redactComponent leakyModel)) redactionPropertyKey = Some (joinWith '','' (componentHits leakyModel))"
proof -
  have "ruleMatches reURIUserinfo ''s3://key:secret@bucket/llama''" by code_simp
  then have "redactHits ''s3://key:secret@bucket/llama'' \<noteq> []"
    unfolding redactHits_Nil_iff by (auto simp: redactRules_def)
  then have "componentHits leakyModel \<noteq> []"
    by (simp add: componentHits_def leakyModel_def mkComponent_def)
  moreover have "gm_sorted (cProperties leakyModel)" by (simp add: leakyModel_def mkComponent_def)
  ultimately show ?thesis using redaction_recorded [of leakyModel] by simp
qed

end
