(* ===== verification/Bom_Builder.thy ===== *)
theory Bom_Builder
  imports Bom_Redact Go_Time Scraper_Hash
begin

text \<open>
  \<^verbatim>\<open>internal/bom/builder.go\<close> and \<^verbatim>\<open>document.go\<close>: the translation of scraped inputs into a CycloneDX document.
  The CycloneDX JSON encoder and SHA-256 are the parameters \<open>encode\<close> and \<open>shaSum\<close>. A pointer to a
  property list is the list itself, the nil pointer the empty list.
\<close>

record BuildOptions =
  bo_workloadKind :: string
  bo_workloadGroup :: string
  bo_workloadAPIVer :: string
  bo_workloadNamespace :: string
  bo_workloadName :: string
  bo_workloadUID :: string
  bo_workloadCategory :: string
  bo_controllerName :: string
  bo_controllerVersion :: string
  bo_ownedWorkloads :: "string list"

type_synonym cdx_property = "string \<times> string"

datatype cdx_component = CdxComponent
  (xRef: string)
  (xType: string)
  (xName: string)
  (xVersion: string)
  (xGroup: string)
  (xHashes: "(string \<times> string) list")
  (xPURL: string)
  (xProperties: "cdx_property list")
  (xComponents: "cdx_component list")

record cdx_service =
  xs_name :: string
  xs_endpoints :: "string list"
  xs_properties :: "cdx_property list"

record cdx_bom =
  xb_format :: string
  xb_specVersion :: string
  xb_version :: nat
  xb_timestamp :: string
  xb_tool :: "string \<times> string"
  xb_root :: cdx_component
  xb_metadataProperties :: "cdx_property list"
  xb_components :: "cdx_component list"
  xb_services :: "cdx_service list"

record Document =
  doc_format :: string
  doc_version :: string
  doc_json :: string
  doc_sha256 :: string
  doc_cdx :: cdx_bom

definition Size :: "Document option \<Rightarrow> nat" where
  "Size d = (case d of None \<Rightarrow> 0 | Some x \<Rightarrow> length (doc_json x))"

datatype build_error =
    NilInputs
  | UnknownHashAlgorithm string
  | InComponent nat ComponentType string build_error
  | EncodeError string

definition filterProps :: "cdx_property list \<Rightarrow> cdx_property list" where
  "filterProps ps = filter (\<lambda>(n, v). v \<noteq> '''') ps"

definition sortedKeys :: "gomap \<Rightarrow> string list" where
  "sortedKeys m = sort (map fst m)"

definition workloadBOMRef :: "BuildOptions \<Rightarrow> string" where
  "workloadBOMRef opts = ''workload:'' @ bo_workloadNamespace opts @ ''/'' @ bo_workloadKind opts @ ''/'' @ bo_workloadName opts"

definition componentBOMRef :: "BuildOptions \<Rightarrow> Component \<Rightarrow> nat \<Rightarrow> string \<Rightarrow> string" where
  "componentBOMRef opts c idx parentRef =
    (let base = (if parentRef = '''' then workloadBOMRef opts else parentRef)
     in base @ ''/component/'' @ showNat idx @ ''/'' @ ctype_str (cType c) @ ''/'' @ cName c)"

fun mapComponentType :: "ComponentType \<Rightarrow> string" where
  "mapComponentType ComponentContainer = ''container''"
| "mapComponentType ComponentApplication = ''application''"
| "mapComponentType ComponentMLModel = ''machine-learning-model''"
| "mapComponentType ComponentData = ''data''"
| "mapComponentType ComponentNone = ''application''"

definition cdxHashAlgFor :: "string \<Rightarrow> build_error + string" where
  "cdxHashAlgFor key =
    (if key = ''sha256'' then Inr ''SHA-256''
     else if key = ''sha384'' then Inr ''SHA-384''
     else if key = ''sha512'' then Inr ''SHA-512''
     else if key = ''sha1'' then Inr ''SHA-1''
     else if key = ''md5'' then Inr ''MD5''
     else Inl (UnknownHashAlgorithm key))"

fun mapHashKeys :: "gomap \<Rightarrow> string list \<Rightarrow> build_error + (string \<times> string) list" where
  "mapHashKeys m [] = Inr []"
| "mapHashKeys m (k # ks) = (case cdxHashAlgFor k of
     Inl e \<Rightarrow> Inl e
   | Inr alg \<Rightarrow> (case mapHashKeys m ks of
        Inl e \<Rightarrow> Inl e
      | Inr hs \<Rightarrow> Inr ((alg, the (map_of m k)) # hs)))"

definition mapHashes :: "gomap \<Rightarrow> build_error + (string \<times> string) list" where
  "mapHashes m = (if m = [] then Inr [] else mapHashKeys m (sortedKeys m))"

definition componentProperties :: "Component \<Rightarrow> cdx_property list" where
  "componentProperties c = filterProps
    ([(''aibom.confidence'', confidence_str (cConfidence c)),
      (''aibom.evidence.source'', source_str (ev_source (cEvidence c))),
      (''aibom.evidence.locator'', ev_locator (cEvidence c))] @
     map (\<lambda>k. (k, the (map_of (cProperties c) k))) (sortedKeys (cProperties c)))"

function (sequential) buildComponents :: "nat \<Rightarrow> Component list \<Rightarrow> BuildOptions \<Rightarrow> string \<Rightarrow> build_error + cdx_component list"
  and toCDXComponent :: "Component \<Rightarrow> BuildOptions \<Rightarrow> nat \<Rightarrow> string \<Rightarrow> build_error + cdx_component" where
  "buildComponents i [] opts parentRef = Inr []"
| "buildComponents i (c # cs) opts parentRef = (case toCDXComponent c opts i parentRef of
     Inl e \<Rightarrow> Inl (InComponent i (cType c) (cName c) e)
   | Inr x \<Rightarrow> (case buildComponents (Suc i) cs opts parentRef of
        Inl e \<Rightarrow> Inl e
      | Inr xs \<Rightarrow> Inr (x # xs)))"
| "toCDXComponent c0 opts idx parentRef =
    (let c = redactComponent c0; ref = componentBOMRef opts c idx parentRef in
     case mapHashes (cHashes c) of
       Inl e \<Rightarrow> Inl e
     | Inr hashes \<Rightarrow>
        (case buildComponents 0 (cChildren c0) opts ref of
           Inl e \<Rightarrow> Inl e
         | Inr children \<Rightarrow>
             Inr (CdxComponent ref (mapComponentType (cType c)) (cName c) (cVersion c) '''' hashes (cPURL c)
               (componentProperties c) children)))"
  by pat_completeness auto
termination
  by (relation "measure (\<lambda>x. case x of Inl (i, cs, opts, p) \<Rightarrow> 2 * size_list size cs
      | Inr (c, opts, idx, p) \<Rightarrow> 2 * size c + 1)") (use size_cChildren in \<open>auto simp: less_Suc_eq\<close>)

definition buildServices :: "Service list \<Rightarrow> cdx_service list" where
  "buildServices ss = (if ss = [] then [] else map (\<lambda>s0. case redactService s0 of (s, hits) \<Rightarrow>
     \<lparr>xs_name = sv_name s, xs_endpoints = sv_endpoints s,
      xs_properties = filterProps
        ([(''aibom.evidence.source'', source_str (ev_source (sv_evidence s))),
          (''aibom.evidence.locator'', ev_locator (sv_evidence s))] @
         (if hits \<noteq> [] then [(redactionPropertyKey, joinWith '','' hits)] else []))\<rparr>) ss)"

definition buildRootComponent :: "BuildOptions \<Rightarrow> cdx_component" where
  "buildRootComponent opts = CdxComponent (workloadBOMRef opts) ''application'' (bo_workloadName opts) ''''
     (bo_workloadNamespace opts) [] '''' (filterProps
      [(''aibom.workload.kind'', bo_workloadKind opts),
       (''aibom.workload.group'', bo_workloadGroup opts),
       (''aibom.workload.apiVersion'', bo_workloadAPIVer opts),
       (''aibom.workload.namespace'', bo_workloadNamespace opts),
       (''aibom.workload.name'', bo_workloadName opts),
       (''aibom.workload.uid'', bo_workloadUID opts),
       (''aibom.workload.category'', bo_workloadCategory opts)]) []"

definition provenanceProperties :: "nat \<times> Provenance \<Rightarrow> cdx_property list" where
  "provenanceProperties ip = (case ip of (i, p) \<Rightarrow>
     let base = ''aibom.scrape.'' @ showNat i in
     [(base @ ''.scraperName'', pv_scraperName p),
      (base @ ''.scraperVersion'', pv_scraperVersion p),
      (base @ ''.method'', pv_scrapeMethod p),
      (base @ ''.timestamp'', formatRFC3339 (pv_scrapeTimestamp p))])"

definition buildMetadataProperties :: "BOMInputs \<Rightarrow> BuildOptions \<Rightarrow> cdx_property list" where
  "buildMetadataProperties inputs opts = filterProps
    ([(''aibom.confidence'', confidence_str (bi_confidence inputs)),
      (''aibom.controller.name'', bo_controllerName opts),
      (''aibom.controller.version'', bo_controllerVersion opts)] @
     (if bi_truncatedComponents inputs > 0
      then [(''aibom.truncation.applied'', ''components-dropped:'' @ showNat (nat (bi_truncatedComponents inputs)))]
      else []) @
     map (\<lambda>(i, o1). (''aibom.rollup.owned.'' @ showNat i, o1)) (enumerate 0 (bo_ownedWorkloads opts)) @
     concat (map provenanceProperties (enumerate 0 (bi_provenance inputs))))"

definition FormatCycloneDX :: string where "FormatCycloneDX = ''CycloneDX''"
definition CycloneDXSpecVersion :: string where "CycloneDXSpecVersion = ''1.6''"

definition Build ::
  "(cdx_bom \<Rightarrow> string + string) \<Rightarrow> (string \<Rightarrow> string) \<Rightarrow> time \<Rightarrow> BOMInputs option \<Rightarrow> BuildOptions \<Rightarrow> build_error + Document" where
  "Build encode shaSum now inp opts = (case inp of
     None \<Rightarrow> Inl NilInputs
   | Some inputs \<Rightarrow>
      (case buildComponents 0 (bi_components inputs) opts '''' of
         Inl e \<Rightarrow> Inl e
       | Inr comps \<Rightarrow>
          (let bom = \<lparr>xb_format = ''CycloneDX'', xb_specVersion = ''1.6'', xb_version = 1,
                 xb_timestamp = formatRFC3339 now, xb_tool = (bo_controllerName opts, bo_controllerVersion opts),
                 xb_root = buildRootComponent opts, xb_metadataProperties = buildMetadataProperties inputs opts,
                 xb_components = comps, xb_services = buildServices (bi_services inputs)\<rparr>
           in case encode bom of
              Inl e \<Rightarrow> Inl (EncodeError e)
            | Inr js \<Rightarrow> Inr \<lparr>doc_format = FormatCycloneDX, doc_version = CycloneDXSpecVersion, doc_json = js,
                doc_sha256 = hexEncode (shaSum js), doc_cdx = bom\<rparr>)))"

subsection \<open>References are unique\<close>

primrec refsOf :: "cdx_component \<Rightarrow> string list" where
  "refsOf (CdxComponent r t n v g h p ps cs) = r # concat (map refsOf cs)"

definition refBase :: "BuildOptions \<Rightarrow> string \<Rightarrow> string" where
  "refBase opts parentRef = (if parentRef = '''' then workloadBOMRef opts else parentRef)"

definition refAt :: "BuildOptions \<Rightarrow> string \<Rightarrow> nat \<Rightarrow> string" where
  "refAt opts parentRef i = refBase opts parentRef @ ''/component/'' @ showNat i @ ''/''"

lemma componentBOMRef_refAt:
  "componentBOMRef opts c idx p = refAt opts p idx @ ctype_str (cType c) @ ''/'' @ cName c"
  by (simp add: componentBOMRef_def refAt_def refBase_def Let_def)

lemma componentBOMRef_base: "refBase opts (componentBOMRef opts c idx p) = componentBOMRef opts c idx p"
  by (simp add: refBase_def componentBOMRef_def Let_def)

lemma refAt_inj: "refAt opts p i @ s = refAt opts p j @ t \<Longrightarrow> i = j"
proof -
  assume "refAt opts p i @ s = refAt opts p j @ t"
  then have "showNat i @ CHR ''/'' # s = showNat j @ CHR ''/'' # t"
    by (simp add: refAt_def)
  then have "showNat i = showNat j"
    using takeWhile_until [OF showNat_no_slash] by metis
  then show ?thesis by (rule showNat_inj)
qed

definition under :: "string \<Rightarrow> string \<Rightarrow> bool" where
  "under base r \<longleftrightarrow> (\<exists>t. r = base @ t)"

lemma build_refs:
  "buildComponents i cs opts p = Inr xs \<Longrightarrow>
     distinct (concat (map refsOf xs)) \<and> (\<forall>r \<in> set (concat (map refsOf xs)). \<exists>j \<ge> i. under (refAt opts p j) r)"
  "toCDXComponent c opts idx p = Inr x \<Longrightarrow>
     distinct (refsOf x) \<and> (\<forall>r \<in> set (refsOf x). under (refAt opts p idx) r)"
proof (induction i cs opts p and c opts idx p arbitrary: xs and x rule: buildComponents_toCDXComponent.induct)
  case (1 i opts parentRef)
  then show ?case by simp
next
  case (2 i c cs opts parentRef)
  from "2.prems" obtain x ys where x: "toCDXComponent c opts i parentRef = Inr x"
    and ys: "buildComponents (Suc i) cs opts parentRef = Inr ys" and xs: "xs = x # ys"
    by (auto split: sum.splits simp del: toCDXComponent.simps)
  have hx: "distinct (refsOf x)" "\<forall>r \<in> set (refsOf x). under (refAt opts parentRef i) r"
    using "2.IH"(1) [OF x] by blast+
  have hy: "distinct (concat (map refsOf ys))"
    "\<forall>r \<in> set (concat (map refsOf ys)). \<exists>j \<ge> Suc i. under (refAt opts parentRef j) r"
    using "2.IH"(2) [OF x ys] by blast+
  have "set (refsOf x) \<inter> set (concat (map refsOf ys)) = {}"
  proof (rule ccontr)
    assume "\<not> ?thesis"
    then obtain r where "r \<in> set (refsOf x)" "r \<in> set (concat (map refsOf ys))" by blast
    then obtain j s t where "j \<ge> Suc i" "r = refAt opts parentRef i @ s" "r = refAt opts parentRef j @ t"
      using hx(2) hy(2) unfolding under_def by blast
    then show False using refAt_inj [of opts parentRef i s j t] by simp
  qed
  moreover have "\<exists>j \<ge> i. under (refAt opts parentRef j) r" if "r \<in> set (concat (map refsOf xs))" for r
  proof -
    from that xs consider "r \<in> set (refsOf x)" | "r \<in> set (concat (map refsOf ys))" by auto
    then show ?thesis
    proof cases
      case 1
      then show ?thesis using hx(2) by blast
    next
      case 2
      then obtain j where "j \<ge> Suc i" "under (refAt opts parentRef j) r" using hy(2) by blast
      then show ?thesis using Suc_leD by blast
    qed
  qed
  ultimately show ?case using hx(1) hy(1) xs by simp
next
  case (3 c0 opts idx parentRef)
  define c where "c = redactComponent c0"
  define ref where "ref = componentBOMRef opts c idx parentRef"
  from "3.prems" obtain hs ch where h: "mapHashes (cHashes c) = Inr hs"
    and ch: "buildComponents 0 (cChildren c0) opts ref = Inr ch"
    and x: "xRef x = ref" "xComponents x = ch"
    by (auto simp: c_def ref_def Let_def split: sum.splits simp del: buildComponents.simps)
  have "distinct (concat (map refsOf ch)) \<and> (\<forall>r \<in> set (concat (map refsOf ch)). \<exists>j \<ge> 0. under (refAt opts ref j) r)"
    using "3.IH" [OF c_def ref_def h ch] .
  then have hc: "distinct (concat (map refsOf ch))"
    "\<forall>r \<in> set (concat (map refsOf ch)). \<exists>j. under (refAt opts ref j) r" by blast+
  have refs: "refsOf x = ref # concat (map refsOf ch)" using x by (cases x) simp
  have below: "\<exists>t. r = ref @ CHR ''/'' # t" if "r \<in> set (concat (map refsOf ch))" for r
    using hc(2) that by (auto simp: under_def refAt_def ref_def componentBOMRef_base)
  then have "ref \<notin> set (concat (map refsOf ch))" by fastforce
  moreover have "under (refAt opts parentRef idx) r" if "r \<in> set (refsOf x)" for r
    using that below unfolding refs under_def ref_def componentBOMRef_refAt by fastforce
  ultimately show ?case using hc(1) refs by simp
qed

text \<open>
  C3. All BOM references of a document are pairwise different, those of nested components and of the
  workload itself included, whatever names the components have.
\<close>

theorem bom_refs_distinct:
  assumes "Build encode shaSum now (Some inputs) opts = Inr doc"
  shows "distinct (concat (map refsOf (xb_root (doc_cdx doc) # xb_components (doc_cdx doc))))"
proof -
  from assms obtain comps where c: "buildComponents 0 (bi_components inputs) opts '''' = Inr comps"
    and doc: "xb_components (doc_cdx doc) = comps" "xb_root (doc_cdx doc) = buildRootComponent opts"
    by (auto simp: Build_def Let_def split: sum.splits)
  have d: "distinct (concat (map refsOf comps))"
    "\<forall>r \<in> set (concat (map refsOf comps)). \<exists>j \<ge> 0. under (refAt opts '''' j) r"
    using build_refs(1) [OF c] by blast+
  have "workloadBOMRef opts \<notin> set (concat (map refsOf comps))"
  proof
    assume "workloadBOMRef opts \<in> set (concat (map refsOf comps))"
    then obtain j t where "workloadBOMRef opts = refAt opts '''' j @ t" using d(2) unfolding under_def by blast
    then show False by (simp add: refAt_def refBase_def)
  qed
  then show ?thesis using d(1) by (simp add: doc buildRootComponent_def)
qed

subsection \<open>When building succeeds\<close>

definition supportedHashAlgKeys :: "string list" where
  "supportedHashAlgKeys = [''sha256'', ''sha384'', ''sha512'', ''sha1'', ''md5'']"

lemma cdxHashAlgFor_ok: "(\<exists>a. cdxHashAlgFor k = Inr a) \<longleftrightarrow> k \<in> set supportedHashAlgKeys"
  by (auto simp: cdxHashAlgFor_def supportedHashAlgKeys_def)

primrec hashesKnown :: "Component \<Rightarrow> bool" where
  "hashesKnown (Component t n v u h e f p cs) \<longleftrightarrow>
     (\<forall>k \<in> fst ` set h. k \<in> set supportedHashAlgKeys) \<and> list_all hashesKnown cs"

lemma mapHashKeys_ok: "(\<exists>hs. mapHashKeys m ks = Inr hs) \<longleftrightarrow> (\<forall>k \<in> set ks. k \<in> set supportedHashAlgKeys)"
proof (induction ks)
  case (Cons k ks)
  show ?case
    using Cons.IH cdxHashAlgFor_ok [of k]
    by (cases "cdxHashAlgFor k"; cases "mapHashKeys m ks") auto
qed simp

lemma mapHashes_ok: "(\<exists>hs. mapHashes m = Inr hs) \<longleftrightarrow> (\<forall>k \<in> fst ` set m. k \<in> set supportedHashAlgKeys)"
proof (cases "m = []")
  case False
  then show ?thesis
    using mapHashKeys_ok [of m "sortedKeys m"] by (simp add: mapHashes_def sortedKeys_def)
qed (simp add: mapHashes_def)

lemma hashesKnown_sel:
  "hashesKnown c \<longleftrightarrow> (\<forall>k \<in> fst ` set (cHashes c). k \<in> set supportedHashAlgKeys) \<and> list_all hashesKnown (cChildren c)"
  by (cases c) simp

lemma build_ok:
  "(\<exists>xs. buildComponents i cs opts p = Inr xs) \<longleftrightarrow> list_all hashesKnown cs"
  "(\<exists>x. toCDXComponent c opts idx p = Inr x) \<longleftrightarrow> hashesKnown c"
proof (induction i cs opts p and c opts idx p rule: buildComponents_toCDXComponent.induct)
  case (2 i c cs opts parentRef)
  show ?case
  proof (cases "toCDXComponent c opts i parentRef")
    case (Inl e)
    then show ?thesis using "2.IH"(1) by simp
  next
    case (Inr x)
    with 2 show ?thesis
      by (cases "buildComponents (Suc i) cs opts parentRef") (auto simp del: toCDXComponent.simps)
  qed
next
  case (3 c0 opts idx parentRef)
  define c where "c = redactComponent c0"
  define ref where "ref = componentBOMRef opts c idx parentRef"
  show ?case
  proof (cases "mapHashes (cHashes c)")
    case (Inl e)
    then have "\<not> hashesKnown c0" using mapHashes_ok [of "cHashes c"] by (simp add: hashesKnown_sel c_def)
    then show ?thesis using Inl by (simp add: c_def Let_def)
  next
    case (Inr hs)
    then have k: "hashesKnown c0 \<longleftrightarrow> list_all hashesKnown (cChildren c0)"
      using mapHashes_ok [of "cHashes c"] by (simp add: hashesKnown_sel [of c0] c_def)
    have "(\<exists>xs. buildComponents 0 (cChildren c0) opts ref = Inr xs) \<longleftrightarrow> list_all hashesKnown (cChildren c0)"
      by (rule "3.IH" [OF c_def ref_def Inr])
    then show ?thesis
      using k Inr by (cases "buildComponents 0 (cChildren c0) opts ref")
        (auto simp: c_def ref_def Let_def simp del: buildComponents.simps)
  qed
qed simp

lemma build_names:
  "buildComponents i cs opts p = Inr xs \<Longrightarrow> map xName xs = map (\<lambda>c. redacted (cName c)) cs"
proof (induction cs arbitrary: i xs)
  case (Cons c cs)
  from Cons.prems obtain x ys where x: "toCDXComponent c opts i p = Inr x"
    and ys: "buildComponents (Suc i) cs opts p = Inr ys" and xs: "xs = x # ys"
    by (auto split: sum.splits simp del: toCDXComponent.simps)
  have "cName (redactComponent c) = redacted (cName c)"
    by (simp add: redactComponent_def Let_def)
  then have "xName x = redacted (cName c)"
    using x by (auto simp: Let_def split: sum.splits simp del: buildComponents.simps)
  with Cons.IH [OF ys] xs show ?case by simp
qed simp

lemma Build_document:
  assumes "\<And>x. \<exists>js. encode x = Inr js"
  shows "(\<exists>doc. Build encode shaSum now (Some inputs) opts = Inr doc) \<longleftrightarrow> list_all hashesKnown (bi_components inputs)"
    and "Build encode shaSum now (Some inputs) opts = Inr doc \<Longrightarrow>
      map xName (xb_components (doc_cdx doc)) = map (\<lambda>c. redacted (cName c)) (bi_components inputs) \<and>
      encode (doc_cdx doc) = Inr (doc_json doc) \<and> doc_sha256 doc = hexEncode (shaSum (doc_json doc)) \<and>
      (0 < bi_truncatedComponents inputs \<longrightarrow>
        (''aibom.truncation.applied'', ''components-dropped:'' @ showNat (nat (bi_truncatedComponents inputs)))
          \<in> set (xb_metadataProperties (doc_cdx doc)))"
proof -
  show "(\<exists>doc. Build encode shaSum now (Some inputs) opts = Inr doc) \<longleftrightarrow> list_all hashesKnown (bi_components inputs)"
    using build_ok(1) [of 0 "bi_components inputs" opts "''''"] assms
    by (cases "buildComponents 0 (bi_components inputs) opts ''''")
      (auto simp: Build_def Let_def split: sum.splits, metis Inr_Inl_False)
  assume "Build encode shaSum now (Some inputs) opts = Inr doc"
  then show "map xName (xb_components (doc_cdx doc)) = map (\<lambda>c. redacted (cName c)) (bi_components inputs) \<and>
      encode (doc_cdx doc) = Inr (doc_json doc) \<and> doc_sha256 doc = hexEncode (shaSum (doc_json doc)) \<and>
      (0 < bi_truncatedComponents inputs \<longrightarrow>
        (''aibom.truncation.applied'', ''components-dropped:'' @ showNat (nat (bi_truncatedComponents inputs)))
          \<in> set (xb_metadataProperties (doc_cdx doc)))"
    by (auto simp: Build_def Let_def buildMetadataProperties_def filterProps_def split: sum.splits
        dest: build_names)
qed

text \<open>
  When the encoder accepts the document, building fails exactly when some component, at any depth,
  has a hash under an unsupported algorithm key; otherwise the document lists every component, in order,
  under its redacted name, its digest is that of its bytes, and a truncation is announced in the metadata.
\<close>

theorem Build_complete:
  assumes "\<And>x. \<exists>js. encode x = Inr js"
  shows "if list_all hashesKnown (bi_components inputs)
    then \<exists>doc. Build encode shaSum now (Some inputs) opts = Inr doc \<and>
      map xName (xb_components (doc_cdx doc)) = map (\<lambda>c. redacted (cName c)) (bi_components inputs) \<and>
      encode (doc_cdx doc) = Inr (doc_json doc) \<and> doc_sha256 doc = hexEncode (shaSum (doc_json doc)) \<and>
      (0 < bi_truncatedComponents inputs \<longrightarrow>
        (''aibom.truncation.applied'', ''components-dropped:'' @ showNat (nat (bi_truncatedComponents inputs)))
          \<in> set (xb_metadataProperties (doc_cdx doc)))
    else \<exists>e. Build encode shaSum now (Some inputs) opts = Inl e"
proof (cases "list_all hashesKnown (bi_components inputs)")
  case True
  then obtain doc where doc: "Build encode shaSum now (Some inputs) opts = Inr doc"
    using Build_document(1) [of encode, OF assms] by blast
  from Build_document(2) [of encode, OF assms doc] doc True show ?thesis by auto
next
  case False
  then have "\<nexists>doc. Build encode shaSum now (Some inputs) opts = Inr doc"
    using Build_document(1) [of encode, OF assms] by blast
  then show ?thesis using False by (cases "Build encode shaSum now (Some inputs) opts") auto
qed

subsection \<open>A document with two nested components\<close>

definition exampleOptions :: BuildOptions where
  "exampleOptions = \<lparr>bo_workloadKind = ''Deployment'', bo_workloadGroup = ''apps'', bo_workloadAPIVer = ''v1'',
     bo_workloadNamespace = ''ml'', bo_workloadName = ''llm'', bo_workloadUID = ''u1'', bo_workloadCategory = ''inference'',
     bo_controllerName = ''k8s-aibom'', bo_controllerVersion = ''1'', bo_ownedWorkloads = []\<rparr>"

definition exampleInputs :: BOMInputs where
  "exampleInputs = emptyInputs\<lparr>bi_components := [exampleModel, exampleModel], bi_truncatedComponents := 3\<rparr>"

lemma exampleInputs_known: "list_all hashesKnown (bi_components exampleInputs)"
  by (simp add: exampleInputs_def exampleModel_def mkComponent_def)

theorem Build_complete_witness:
  "\<exists>doc. Build (\<lambda>_. Inr ''{}'') id 0 (Some exampleInputs) exampleOptions = Inr doc \<and> doc_json doc = ''{}''"
  using Build_complete [of "\<lambda>_. Inr ''{}''" exampleInputs id 0 exampleOptions] exampleInputs_known by auto

theorem bom_refs_distinct_witness:
  "\<exists>doc. Build (\<lambda>_. Inr ''{}'') id 0 (Some exampleInputs) exampleOptions = Inr doc \<and>
     distinct (concat (map refsOf (xb_root (doc_cdx doc) # xb_components (doc_cdx doc))))"
proof -
  obtain doc where "Build (\<lambda>_. Inr ''{}'') id 0 (Some exampleInputs) exampleOptions = Inr doc"
    using Build_document(1) [of "\<lambda>_. Inr ''{}''"] exampleInputs_known by blast
  then show ?thesis using bom_refs_distinct by blast
qed

end
