(* ===== verification/Sink_Gcs.thy ===== *)
theory Sink_Gcs
  imports Bom_Builder
begin

text \<open>
  The bucket sink (\<^verbatim>\<open>internal/sink/gcs.go\<close>, \<^verbatim>\<open>types.go\<close>): validation of its configuration, the object
  path, and the write. The storage client is a parameter; the calls the sink makes on it are
  returned, so that what is requested of the bucket can be stated. The main result is that values a
  workload supplies cannot move an object to another directory of the bucket.
\<close>

record SinkMeta =
  sm_workloadKind :: string
  sm_workloadNamespace :: string
  sm_workloadName :: string
  sm_workloadCategory :: string
  sm_bomHash :: string
  sm_timestamp :: int

definition DefaultGCSPathTemplate :: string where
  "DefaultGCSPathTemplate = ''mlbom/{namespace}/{kind}-{name}/{timestamp}.json''"

record GCSSinkConfig =
  gc_bucket :: string
  gc_pathTemplate :: string
  gc_credentialsFile :: string
  gc_credentialsJSON :: string

definition gcs_Validate :: "GCSSinkConfig \<Rightarrow> string option" where
  "gcs_Validate c = (if gc_bucket c = '''' then Some ''gcs sink: Bucket is required'' else None)"

text \<open>The authentication option handed to the storage client; none means default credentials.\<close>

datatype gcs_option = WithCredentialsJSON string | WithCredentialsFile string

definition gcsMaxAttempts :: nat where "gcsMaxAttempts = 4"

record 'c GCSSink =
  gsk_cfg :: GCSSinkConfig
  gsk_client :: 'c

definition NewGCSSink :: "(gcs_option list \<Rightarrow> string + 'c) \<Rightarrow> GCSSinkConfig \<Rightarrow> string + 'c GCSSink" where
  "NewGCSSink newClient cfg0 =
    (case gcs_Validate cfg0 of Some e \<Rightarrow> Inl e | None \<Rightarrow>
      (let cfg = (if gc_pathTemplate cfg0 = '''' then cfg0\<lparr>gc_pathTemplate := DefaultGCSPathTemplate\<rparr> else cfg0);
           opts = (if gc_credentialsJSON cfg \<noteq> '''' then [WithCredentialsJSON (gc_credentialsJSON cfg)]
                   else if gc_credentialsFile cfg \<noteq> '''' then [WithCredentialsFile (gc_credentialsFile cfg)]
                   else [])
       in case newClient opts of
            Inl e \<Rightarrow> Inl (''gcs sink: create storage client: '' @ e)
          | Inr client \<Rightarrow> Inr \<lparr>gsk_cfg = cfg, gsk_client = client\<rparr>))"

subsection \<open>Object paths\<close>

definition sanitize :: "string \<Rightarrow> string" where
  "sanitize s = replaceByte carriageReturn CHR ''_'' (replaceByte newline CHR ''_''
     (replaceByte CHR ''.'' CHR ''_'' (replaceByte CHR 0x5C CHR ''_'' (replaceByte CHR ''/'' CHR ''_'' s))))"

text \<open>
  \<^verbatim>\<open>strings.NewReplacer(...).Replace\<close> with non-empty keys: one pass from the left, at each position
  the first pair whose key matches, and no second look at a replacement.
\<close>

function replacer :: "(string \<times> string) list \<Rightarrow> string \<Rightarrow> string" where
  "replacer ps [] = []"
| "replacer ps (c # s) =
     (case find (\<lambda>(k, v). k \<noteq> [] \<and> hasPrefix (c # s) k) ps of
        None \<Rightarrow> c # replacer ps s
      | Some (k, v) \<Rightarrow> v @ replacer ps (drop (length k - 1) s))"
  by pat_completeness auto
termination by (relation "measure (\<lambda>(ps, s). length s)") auto

text \<open>\<^verbatim>\<open>Format("2006-01-02T15:04:05.000Z")\<close> of a UTC time, with dashes for the colons.\<close>

definition pathTimestamp :: "int \<Rightarrow> string" where
  "pathTimestamp t = replaceByte CHR '':'' CHR ''-''
     (butlast (formatRFC3339 t) @ ''.'' @ pad 3 (nat t mod 1000000000 div 1000000) @ ''Z'')"

definition pathValues :: "SinkMeta \<Rightarrow> (string \<times> string) list" where
  "pathValues meta =
    [(''{namespace}'', sanitize (sm_workloadNamespace meta)),
     (''{kind}'', sanitize (toLower (sm_workloadKind meta))),
     (''{name}'', sanitize (sm_workloadName meta)),
     (''{timestamp}'', pathTimestamp (sm_timestamp meta)),
     (''{hash}'', take 12 (sm_bomHash meta)),
     (''{category}'', sanitize (sm_workloadCategory meta))]"

definition renderGCSPath :: "string \<Rightarrow> SinkMeta \<Rightarrow> string" where
  "renderGCSPath template meta = replacer (pathValues meta) template"

subsection \<open>Writing\<close>

text \<open>
  A call on the storage client: an object writer with its content type, attempt bound and
  must-not-exist precondition, and its closing. The client's answers are the parameters \<open>write\<close> and
  \<open>close\<close>: \<open>None\<close> for success or the error.
\<close>

record gcs_object =
  go_bucket :: string
  go_name :: string
  go_doesNotExist :: bool
  go_maxAttempts :: nat
  go_contentType :: string

datatype gcs_call = GcsWrite gcs_object string | GcsClose gcs_object

definition gcs_Emit :: "('c \<Rightarrow> gcs_object \<Rightarrow> string \<Rightarrow> string option) \<Rightarrow> ('c \<Rightarrow> gcs_object \<Rightarrow> string option) \<Rightarrow>
    'c GCSSink \<Rightarrow> Document option \<Rightarrow> SinkMeta \<Rightarrow> gcs_call list \<times> (string + string)" where
  "gcs_Emit write close s doc meta =
    (case doc of None \<Rightarrow> ([], Inl ''gcs sink: doc is nil'')
     | Some d \<Rightarrow>
      (let objectName = renderGCSPath (gc_pathTemplate (gsk_cfg s)) meta;
           url = ''gs://'' @ gc_bucket (gsk_cfg s) @ ''/'' @ objectName;
           w = \<lparr>go_bucket = gc_bucket (gsk_cfg s), go_name = objectName, go_doesNotExist = True,
                go_maxAttempts = gcsMaxAttempts, go_contentType = ''application/json''\<rparr>;
           calls = [GcsWrite w (doc_json d), GcsClose w]
       in case write (gsk_client s) w (doc_json d) of
            Some e \<Rightarrow> (calls, Inl (''gcs sink: write to '' @ url @ '': '' @ e))
          | None \<Rightarrow>
             (case close (gsk_client s) w of
                Some e \<Rightarrow> (calls, Inl (''gcs sink: finalize '' @ url @ '': '' @ e))
              | None \<Rightarrow> (calls, Inr url))))"

definition gcs_Name :: string where "gcs_Name = ''gcs''"
definition gcs_WriteOnly :: bool where "gcs_WriteOnly = False"

subsection \<open>Facts about paths\<close>

lemma in_replaceByte: "x \<in> set (replaceByte a b s) \<longleftrightarrow> (x \<in> set s \<and> x \<noteq> a) \<or> (x = b \<and> a \<in> set s)"
  by (auto simp: replaceByte_def image_iff)

definition pathUnsafe :: "char set" where
  "pathUnsafe = {CHR ''/'', CHR 0x5C, CHR ''.'', newline, carriageReturn}"

lemma sanitize_map: "sanitize s = map (\<lambda>x. if x \<in> pathUnsafe then CHR ''_'' else x) s"
  by (auto simp: sanitize_def replaceByte_def pathUnsafe_def newline_def carriageReturn_def)

lemma sanitize_safe: "x \<in> set (sanitize s) \<Longrightarrow> x \<notin> pathUnsafe"
proof -
  have "CHR ''_'' \<notin> pathUnsafe" by (simp add: pathUnsafe_def newline_literal carriageReturn_literal)
  then show "x \<in> set (sanitize s) \<Longrightarrow> x \<notin> pathUnsafe" by (auto simp: sanitize_map split: if_splits)
qed

lemma pathTimestamp_no_slash: "CHR ''/'' \<notin> set (pathTimestamp t)"
proof -
  have pad: "CHR ''/'' \<notin> set (pad w n)" for w n
    by (auto simp: pad_def showNat_no_slash simp del: showNat.simps)
  have "CHR ''/'' \<notin> set (formatRFC3339 t)"
    using pad by (simp add: formatRFC3339_def Let_def case_prod_beta del: showNat.simps)
  then show ?thesis
    using pad by (auto simp: pathTimestamp_def in_replaceByte dest: in_set_butlastD simp del: showNat.simps)
qed

lemma pathValues_no_slash:
  assumes "CHR ''/'' \<notin> set (sm_bomHash meta)" "(k, v) \<in> set (pathValues meta)"
  shows "CHR ''/'' \<notin> set k \<and> CHR ''/'' \<notin> set v \<and> k \<noteq> []"
proof -
  have "CHR ''/'' \<notin> set (sanitize s)" for s using sanitize_safe [of "CHR ''/''" s] by (auto simp: pathUnsafe_def)
  then show ?thesis using assms by (auto simp: pathValues_def pathTimestamp_no_slash dest: in_set_takeD)
qed

text \<open>Keys without the separator never match across it, so rendering works segment by segment.\<close>

lemma hasPrefix_before: "c \<notin> set k \<Longrightarrow> hasPrefix (a @ c # b) k \<longleftrightarrow> hasPrefix a k"
proof (induction k arbitrary: a)
  case (Cons x k)
  then show ?case by (cases a) (auto simp: hasPrefix_def)
qed (simp add: hasPrefix_def)

lemma replacer_append:
  assumes "\<And>k v. (k, v) \<in> set ps \<Longrightarrow> c \<notin> set k"
  shows "replacer ps (a @ c # b) = replacer ps a @ c # replacer ps b"
proof (induction a rule: length_induct)
  case (1 a)
  have cong: "find (\<lambda>(k, v). k \<noteq> [] \<and> hasPrefix (x @ c # b) k) ps = find (\<lambda>(k, v). k \<noteq> [] \<and> hasPrefix x k) ps" for x
    using assms by (intro find_cong) (auto simp: hasPrefix_before)
  show ?case
  proof (cases a)
    case Nil
    have "find (\<lambda>(k, v). k \<noteq> [] \<and> hasPrefix [] k) ps = None"
      by (auto simp: find_None_iff hasPrefix_def)
    then show ?thesis using cong [of "[]"] Nil by simp
  next
    case (Cons x a')
    show ?thesis
    proof (cases "find (\<lambda>(k, v). k \<noteq> [] \<and> hasPrefix (x # a') k) ps")
      case None
      then show ?thesis using 1 cong [of "x # a'"] Cons by simp
    next
      case (Some p)
      obtain k v where p: "p = (k, v)" by (cases p)
      have "k \<noteq> [] \<and> hasPrefix (x # a') k" using Some p by (auto simp: find_Some_iff)
      then have "length k - 1 \<le> length a'"
        by (auto simp: hasPrefix_def) (metis One_nat_def Suc_le_mono length_Cons length_take min.bounded_iff min.cobounded2 order_refl diff_le_mono diff_Suc_1)
      then show ?thesis using 1 cong [of "x # a'"] Cons Some p by simp
    qed
  qed
qed

lemma no_sep_replacer:
  assumes "\<And>k v. (k, v) \<in> set ps \<Longrightarrow> c \<notin> set v" "c \<notin> set s"
  shows "c \<notin> set (replacer ps s)"
  using assms(2)
proof (induction s rule: length_induct)
  case (1 s)
  then have IH: "length t < length s \<Longrightarrow> c \<notin> set t \<Longrightarrow> c \<notin> set (replacer ps t)" for t by blast
  show ?case
  proof (cases s)
    case (Cons x t)
    have "c \<notin> set (replacer ps (drop n t))" for n
    proof (rule IH)
      show "length (drop n t) < length s" using Cons by simp
      show "c \<notin> set (drop n t)" using 1(2) Cons by (auto dest: in_set_dropD)
    qed
    then show ?thesis
      using assms(1) IH [of t] 1(2) Cons by (auto split: option.splits simp: find_Some_iff dest!: nth_mem)
  qed simp
qed

lemma splitOn_replacer:
  assumes "\<And>k v. (k, v) \<in> set ps \<Longrightarrow> c \<notin> set k \<and> c \<notin> set v"
  shows "splitOn c (replacer ps s) = map (replacer ps) (splitOn c s)"
proof (induction s rule: length_induct)
  case (1 s)
  show ?case
  proof (cases "c \<in> set s")
    case False
    then show ?thesis using assms by (simp add: splitOn_notin no_sep_replacer)
  next
    case True
    then obtain a b where s: "s = a @ c # b" "c \<notin> set a" by (meson split_list_first)
    then have "replacer ps s = replacer ps a @ c # replacer ps b" "c \<notin> set (replacer ps a)"
      using assms by (simp_all add: replacer_append no_sep_replacer)
    then show ?thesis using 1 s by (simp add: splitOn_append)
  qed
qed

text \<open>
  C13. The values that a workload supplies cannot change the directory of an object: splitting a
  rendered path at its slashes gives exactly the renderings of the segments of the template, and
  rendering a placeholder for namespace, kind, name or category gives a text without slash,
  backslash, dot and line break. Emission writes once, to that path of the configured bucket, under
  the condition that no object has it, closes the writer on every outcome, and returns the URL of
  that object exactly when both calls succeed. (The document hash is hexadecimal.)
\<close>

theorem gcs_path_contained:
  assumes "CHR ''/'' \<notin> set (sm_bomHash meta)"
  shows "splitOn CHR ''/'' (renderGCSPath t meta) = map (\<lambda>seg. renderGCSPath seg meta) (splitOn CHR ''/'' t) \<and>
    (\<forall>p \<in> {''{namespace}'', ''{kind}'', ''{name}'', ''{category}''}. set (renderGCSPath p meta) \<inter> pathUnsafe = {}) \<and>
    (let path = renderGCSPath (gc_pathTemplate (gsk_cfg s)) meta; r = gcs_Emit write close s (Some d) meta;
             w = \<lparr>go_bucket = gc_bucket (gsk_cfg s), go_name = path, go_doesNotExist = True,
                  go_maxAttempts = 4, go_contentType = ''application/json''\<rparr>
         in fst r = [GcsWrite w (doc_json d), GcsClose w] \<and>
            (\<forall>url. snd r = Inr url \<longleftrightarrow> write (gsk_client s) w (doc_json d) = None \<and> close (gsk_client s) w = None \<and>
               url = ''gs://'' @ gc_bucket (gsk_cfg s) @ ''/'' @ path))"
proof (intro conjI)
  show "splitOn CHR ''/'' (renderGCSPath t meta) = map (\<lambda>seg. renderGCSPath seg meta) (splitOn CHR ''/'' t)"
    unfolding renderGCSPath_def
    by (rule splitOn_replacer) (use pathValues_no_slash [OF assms] in blast)
  have one: "replacer ps k = v" if "k \<noteq> []" "find (\<lambda>(k', v'). k' \<noteq> [] \<and> hasPrefix k k') ps = Some (k, v)" for ps k v
    using that by (cases k) auto
  have "renderGCSPath ''{namespace}'' meta = sanitize (sm_workloadNamespace meta)"
    "renderGCSPath ''{kind}'' meta = sanitize (toLower (sm_workloadKind meta))"
    "renderGCSPath ''{name}'' meta = sanitize (sm_workloadName meta)"
    "renderGCSPath ''{category}'' meta = sanitize (sm_workloadCategory meta)"
    unfolding renderGCSPath_def by (rule one; simp add: pathValues_def hasPrefix_def)+
  then show "\<forall>p \<in> {''{namespace}'', ''{kind}'', ''{name}'', ''{category}''}. set (renderGCSPath p meta) \<inter> pathUnsafe = {}"
    using sanitize_safe by auto
qed (auto simp: gcs_Emit_def Let_def gcsMaxAttempts_def split: option.splits)

theorem gcs_path_contained_witness:
  "let meta = \<lparr>sm_workloadKind = ''Deployment'', sm_workloadNamespace = ''ns'', sm_workloadName = ''../../x'',
       sm_workloadCategory = '''', sm_bomHash = ''abcdef'', sm_timestamp = 0\<rparr>
   in splitOn CHR ''/'' (renderGCSPath ''a/{name}.json'' meta) = [''a'', ''______x.json'']"
proof -
  let ?meta = "\<lparr>sm_workloadKind = ''Deployment'', sm_workloadNamespace = ''ns'', sm_workloadName = ''../../x'',
       sm_workloadCategory = '''', sm_bomHash = ''abcdef'', sm_timestamp = 0\<rparr>"
  have "splitOn CHR ''/'' (renderGCSPath ''a/{name}.json'' ?meta) =
      map (\<lambda>seg. renderGCSPath seg ?meta) (splitOn CHR ''/'' ''a/{name}.json'')"
    by (rule gcs_path_contained [THEN conjunct1]) simp
  also have "\<dots> = [''a'', ''______x.json'']"
    by (simp add: renderGCSPath_def pathValues_def hasPrefix_def sanitize_def replaceByte_def newline_literal carriageReturn_literal)
  finally show ?thesis by (simp add: Let_def)
qed

end
