(* ===== verification/Sink_Webhook.thy ===== *)
theory Sink_Webhook
  imports Sink_Gcs Config_Loader "HOL-Library.Word"
begin

text \<open>
  The webhook sink (\<^verbatim>\<open>internal/sink/webhook.go\<close>): validation and construction, the address filter of its
  dialer, the request, the bounded delivery loop and the text of its errors. The URL parser, the
  file system, TLS key parsing and the HTTP client are parameters; the answers of the client and the
  state of the context are given per attempt.
\<close>

unbundle bit_operations_syntax

definition WebhookRetryBackoffs :: "nat list" where
  "WebhookRetryBackoffs = [250000000, 1000000000, 3000000000]"

definition maxErrorBodyBytes :: nat where "maxErrorBodyBytes = 256"
definition maxErrorReadBytes :: nat where "maxErrorReadBytes = 1024"

record WebhookSinkConfig =
  wh_endpoint :: string
  wh_insecureSkipVerify :: bool
  wh_caFile :: string
  wh_caPEM :: string
  wh_clientCertFile :: string
  wh_clientKeyFile :: string
  wh_clientCertPEM :: string
  wh_clientKeyPEM :: string
  wh_bearerTokenFile :: string
  wh_bearerToken :: string
  wh_timeout :: int
  wh_controllerVersion :: string

text \<open>The library calls of construction: URL parsing, the environment variable, files and PEM decoding.\<close>

record webhook_env =
  we_parseURL :: "string \<Rightarrow> string + url"
  we_disableSSRFChecks :: bool
  we_readFile :: "string \<Rightarrow> string + string"
  we_appendCerts :: "string \<Rightarrow> bool"
  we_X509KeyPair :: "string \<Rightarrow> string \<Rightarrow> string + string"
  we_LoadX509KeyPair :: "string \<Rightarrow> string \<Rightarrow> string + string"

subsection \<open>Validation\<close>

text \<open>\<^verbatim>\<open>(*URL).Hostname\<close>: the host without a port and without square brackets.\<close>

definition validOptionalPort :: "string \<Rightarrow> bool" where
  "validOptionalPort p \<longleftrightarrow> (case p of [] \<Rightarrow> True | c # s \<Rightarrow> c = CHR '':'' \<and> list_all (\<lambda>d. CHR ''0'' \<le> d \<and> d \<le> CHR ''9'') s)"

definition Hostname :: "url \<Rightarrow> string" where
  "Hostname u =
    (let h0 = url_host u;
         h = (case cutLast CHR '':'' h0 of
                Some (a, b) \<Rightarrow> if validOptionalPort (CHR '':'' # b) then a else h0
              | None \<Rightarrow> h0)
     in if hasPrefix h ''['' \<and> h \<noteq> [] \<and> last h = CHR '']'' then butlast (tl h) else h)"

definition localHost :: "string \<Rightarrow> bool" where
  "localHost h \<longleftrightarrow> h = ''localhost'' \<or> hasPrefix h ''127.'' \<or> h = ''[::1]'' \<or> h = ''0.0.0.0'' \<or> hasPrefix h ''169.254.''"

definition webhook_Validate :: "webhook_env \<Rightarrow> WebhookSinkConfig \<Rightarrow> string option" where
  "webhook_Validate env c =
    (if wh_endpoint c = '''' then Some ''webhook sink: endpoint URL is required''
     else (case we_parseURL env (wh_endpoint c) of
       Inl e \<Rightarrow> Some (''webhook sink: invalid endpoint URL: '' @ e)
     | Inr u \<Rightarrow>
        if url_scheme u \<noteq> ''http'' \<and> url_scheme u \<noteq> ''https''
        then Some ''webhook sink: endpoint scheme must be http or https''
        else if (wh_clientCertPEM c \<noteq> '''' \<and> wh_clientKeyPEM c = '''') \<or> (wh_clientCertPEM c = '''' \<and> wh_clientKeyPEM c \<noteq> '''')
        then Some ''webhook sink: both ClientCertPEM and ClientKeyPEM must be provided''
        else if (wh_clientCertFile c \<noteq> '''' \<and> wh_clientKeyFile c = '''') \<or> (wh_clientCertFile c = '''' \<and> wh_clientKeyFile c \<noteq> '''')
        then Some ''webhook sink: both ClientCertFile and ClientKeyFile must be provided''
        else if \<not> we_disableSSRFChecks env \<and> localHost (toLower (Hostname u))
        then Some ''webhook sink: endpoint URL points to loopback/private interface''
        else None))"

subsection \<open>The address filter\<close>

text \<open>
  \<^verbatim>\<open>net.IP\<close> values are byte slices of length 4 or 16; \<open>To4\<close> also recognises the IPv4-mapped form.
\<close>

type_synonym ip = "8 word list"

definition To4 :: "ip \<Rightarrow> ip option" where
  "To4 a = (if length a = 4 then Some a
     else if length a = 16 \<and> take 10 a = replicate 10 0 \<and> a ! 10 = 0xff \<and> a ! 11 = 0xff then Some (drop 12 a)
     else None)"

definition IsLoopback :: "ip \<Rightarrow> bool" where
  "IsLoopback a = (case To4 a of Some v \<Rightarrow> v ! 0 = 127 | None \<Rightarrow> a = replicate 15 0 @ [1])"

definition IsLinkLocalUnicast :: "ip \<Rightarrow> bool" where
  "IsLinkLocalUnicast a = (case To4 a of Some v \<Rightarrow> v ! 0 = 169 \<and> v ! 1 = 254
     | None \<Rightarrow> length a = 16 \<and> a ! 0 = 0xfe \<and> (a ! 1) AND 0xc0 = 0x80)"

definition IsPrivate :: "ip \<Rightarrow> bool" where
  "IsPrivate a = (case To4 a of
     Some v \<Rightarrow> v ! 0 = 10 \<or> (v ! 0 = 172 \<and> (v ! 1) AND 0xf0 = 16) \<or> (v ! 0 = 192 \<and> v ! 1 = 168)
   | None \<Rightarrow> length a = 16 \<and> (a ! 0) AND 0xfe = 0xfc)"

definition IsUnspecified :: "ip \<Rightarrow> bool" where
  "IsUnspecified a \<longleftrightarrow> To4 a = Some [0, 0, 0, 0] \<or> a = replicate 16 0"

definition IsMulticast :: "ip \<Rightarrow> bool" where
  "IsMulticast a = (case To4 a of Some v \<Rightarrow> (v ! 0) AND 0xf0 = 0xe0 | None \<Rightarrow> length a = 16 \<and> a ! 0 = 0xff)"

definition IsInterfaceLocalMulticast :: "ip \<Rightarrow> bool" where
  "IsInterfaceLocalMulticast a \<longleftrightarrow> length a = 16 \<and> a ! 0 = 0xff \<and> (a ! 1) AND 0x0f = 0x01"

definition IsLinkLocalMulticast :: "ip \<Rightarrow> bool" where
  "IsLinkLocalMulticast a = (case To4 a of Some v \<Rightarrow> v ! 0 = 224 \<and> v ! 1 = 0 \<and> v ! 2 = 0
     | None \<Rightarrow> length a = 16 \<and> a ! 0 = 0xff \<and> (a ! 1) AND 0x0f = 0x02)"

definition isPrivateIP :: "ip \<Rightarrow> bool" where
  "isPrivateIP a \<longleftrightarrow> IsLoopback a \<or> IsLinkLocalUnicast a \<or> IsPrivate a \<or> IsUnspecified a \<or> IsMulticast a \<or>
     IsInterfaceLocalMulticast a \<or> IsLinkLocalMulticast a"

text \<open>
  The \<^verbatim>\<open>Control\<close> hook of the dialer, run on the resolved address before the connection is made:
  \<open>None\<close> lets it proceed. \<open>splitHostPort\<close> and \<open>parseIP\<close> are the library functions.
\<close>

datatype dial_error = UnparsableIP string | BlockedIP ip

definition dialControl :: "bool \<Rightarrow> (string \<Rightarrow> string option) \<Rightarrow> (string \<Rightarrow> ip option) \<Rightarrow> string \<Rightarrow> dial_error option" where
  "dialControl disableSSRFChecks splitHostPort parseIP address =
    (if disableSSRFChecks then None
     else (let host = (case splitHostPort address of Some h \<Rightarrow> h | None \<Rightarrow> address);
               host = (case cutFirst CHR ''%'' host of Some (h, _) \<Rightarrow> h | None \<Rightarrow> host)
           in case parseIP host of
                None \<Rightarrow> Some (UnparsableIP host)
              | Some a \<Rightarrow> if isPrivateIP a then Some (BlockedIP a) else None))"

subsection \<open>Construction\<close>

record tls_config =
  tls_insecureSkipVerify :: bool
  tls_rootCAs :: "string option"
  tls_certificates :: "string list"

record WebhookSink =
  whk_cfg :: WebhookSinkConfig
  whk_tls :: tls_config
  whk_token :: string

definition webhookRootCAs :: "webhook_env \<Rightarrow> WebhookSinkConfig \<Rightarrow> string + string option" where
  "webhookRootCAs env cfg =
    (if wh_caPEM cfg \<noteq> '''' then
       (if we_appendCerts env (wh_caPEM cfg) then Inr (Some (wh_caPEM cfg))
        else Inl ''webhook sink: failed to parse CA certs from CAPEM'')
     else if wh_caFile cfg \<noteq> '''' then
       (case we_readFile env (wh_caFile cfg) of
          Inl e \<Rightarrow> Inl (''webhook sink: read CAFile '' @ wh_caFile cfg @ '': '' @ e)
        | Inr pem \<Rightarrow> if we_appendCerts env pem then Inr (Some pem)
                   else Inl (''webhook sink: failed to parse CA certs from '' @ wh_caFile cfg))
     else Inr None)"

definition webhookCertificates :: "webhook_env \<Rightarrow> WebhookSinkConfig \<Rightarrow> string + string list" where
  "webhookCertificates env cfg =
    (if wh_clientCertPEM cfg \<noteq> '''' \<and> wh_clientKeyPEM cfg \<noteq> '''' then
       (case we_X509KeyPair env (wh_clientCertPEM cfg) (wh_clientKeyPEM cfg) of
          Inl e \<Rightarrow> Inl (''webhook sink: parse client cert/key from PEM: '' @ e) | Inr c \<Rightarrow> Inr [c])
     else if wh_clientCertFile cfg \<noteq> '''' \<and> wh_clientKeyFile cfg \<noteq> '''' then
       (case we_LoadX509KeyPair env (wh_clientCertFile cfg) (wh_clientKeyFile cfg) of
          Inl e \<Rightarrow> Inl (''webhook sink: load client cert/key: '' @ e) | Inr c \<Rightarrow> Inr [c])
     else Inr [])"

definition webhookToken :: "webhook_env \<Rightarrow> WebhookSinkConfig \<Rightarrow> string + string" where
  "webhookToken env cfg =
    (if wh_bearerToken cfg \<noteq> '''' then
       (let t = TrimSpace (wh_bearerToken cfg)
        in if t = '''' then Inl ''webhook sink: BearerToken is whitespace-only'' else Inr t)
     else if wh_bearerTokenFile cfg \<noteq> '''' then
       (case we_readFile env (wh_bearerTokenFile cfg) of
          Inl e \<Rightarrow> Inl (''webhook sink: read BearerTokenFile '' @ wh_bearerTokenFile cfg @ '': '' @ e)
        | Inr b \<Rightarrow> let t = TrimSpace b
                  in if t = '''' then Inl (''webhook sink: BearerTokenFile '' @ wh_bearerTokenFile cfg @ '' is empty'')
                     else Inr t)
     else Inr '''')"

definition NewWebhookSink :: "webhook_env \<Rightarrow> WebhookSinkConfig \<Rightarrow> string + WebhookSink" where
  "NewWebhookSink env cfg =
    (case webhook_Validate env cfg of Some e \<Rightarrow> Inl e | None \<Rightarrow>
     (case webhookRootCAs env cfg of Inl e \<Rightarrow> Inl e | Inr cas \<Rightarrow>
     (case webhookCertificates env cfg of Inl e \<Rightarrow> Inl e | Inr certs \<Rightarrow>
     (case webhookToken env cfg of Inl e \<Rightarrow> Inl e | Inr token \<Rightarrow>
       Inr \<lparr>whk_cfg = cfg,
            whk_tls = \<lparr>tls_insecureSkipVerify = wh_insecureSkipVerify cfg, tls_rootCAs = cas, tls_certificates = certs\<rparr>,
            whk_token = token\<rparr>))))"

definition webhook_Name :: string where "webhook_Name = ''webhook''"
definition webhook_WriteOnly :: bool where "webhook_WriteOnly = True"

subsection \<open>The request\<close>

record http_request =
  hr_method :: string
  hr_url :: string
  hr_header :: gomap
  hr_body :: string

definition setWhen :: "bool \<Rightarrow> string \<Rightarrow> string \<Rightarrow> gomap \<Rightarrow> gomap" where
  "setWhen b k v h = (if b then gm_put k v h else h)"

definition buildRequest :: "(string \<Rightarrow> string option) \<Rightarrow> WebhookSink \<Rightarrow> Document \<Rightarrow> SinkMeta \<Rightarrow> string + http_request" where
  "buildRequest newRequest s doc meta =
    (case newRequest (wh_endpoint (whk_cfg s)) of
       Some e \<Rightarrow> Inl (''webhook sink: build request: '' @ e)
     | None \<Rightarrow>
      (let h = gm_put ''Content-Type'' ''application/json'' [];
           h = gm_put ''X-Aibom-Document-Hash'' (''sha256:'' @ doc_sha256 doc) h;
           h = gm_put ''X-Aibom-Workload-Kind'' (sm_workloadKind meta) h;
           h = gm_put ''X-Aibom-Workload-Namespace'' (sm_workloadNamespace meta) h;
           h = gm_put ''X-Aibom-Workload-Name'' (sm_workloadName meta) h;
           h = setWhen (sm_workloadCategory meta \<noteq> '''') ''X-Aibom-Workload-Category''
                 (filter (\<lambda>c. c \<noteq> newline \<and> c \<noteq> carriageReturn) (sm_workloadCategory meta)) h;
           h = setWhen (wh_controllerVersion (whk_cfg s) \<noteq> '''') ''X-Aibom-Controller-Version''
                 (wh_controllerVersion (whk_cfg s)) h;
           h = setWhen (whk_token s \<noteq> '''') ''Authorization'' (''Bearer '' @ whk_token s) h
       in Inr \<lparr>hr_method = ''POST'', hr_url = wh_endpoint (whk_cfg s), hr_header = h, hr_body = doc_json doc\<rparr>))"

subsection \<open>Error texts\<close>

definition escapeChar :: char where "escapeChar = char_of (27::nat)"

definition ansiRe :: re where
  "ansiRe = seqs [chr escapeChar, chr (CHR ''[''), RStar (RCls [digitR, one (CHR '';'')] False), RCls [lowerR, upperR] False]"

text \<open>\<^verbatim>\<open>strings.ToValidUTF8(s, "")\<close>: bytes that start no valid encoding are dropped.\<close>

function toValidUTF8 :: "string \<Rightarrow> string" where
  "toValidUTF8 [] = []"
| "toValidUTF8 (b # s) = (case runeWidth (b # s) of
     0 \<Rightarrow> toValidUTF8 s
   | Suc k \<Rightarrow> take (Suc k) (b # s) @ toValidUTF8 (drop k s))"
  by pat_completeness auto
termination by (relation "measure length") auto

definition cleanBody :: "string \<Rightarrow> string" where
  "cleanBody body =
    filter (\<lambda>c. c \<noteq> escapeChar)
      (replaceAll REps ansiRe (\<lambda>_. []) None
        (replaceByte carriageReturn CHR '' '' (replaceByte newline CHR '' '' (toValidUTF8 body))))"

definition truncatedMarker :: string where "truncatedMarker = ''...(truncated)''"

definition errorBody :: "string \<Rightarrow> bool \<Rightarrow> string" where
  "errorBody body networkTruncated =
    (let bodyStr = cleanBody body; rs = runes bodyStr; runeTruncated = length rs > maxErrorBodyBytes;
         bodyStr = (if runeTruncated then concat (take maxErrorBodyBytes rs) else bodyStr)
     in if networkTruncated \<or> runeTruncated then bodyStr @ truncatedMarker else bodyStr)"

definition formatHTTPError :: "string \<Rightarrow> int \<Rightarrow> string \<Rightarrow> bool \<Rightarrow> string" where
  "formatHTTPError endpoint status body networkTruncated =
    (let b = errorBody body networkTruncated;
         msg = ''webhook sink: POST '' @ endpoint @ '' returned HTTP '' @ showInt status
     in if b = '''' then msg @ '' (empty body)'' else msg @ '': '' @ b)"

subsection \<open>Delivery\<close>

text \<open>
  What one attempt meets: the error of the context if it ends before the backoff does, the answer
  of the client, and the error of the context after a failed request.
\<close>

record attempt =
  at_ctxDone :: "string option"
  at_do :: "string + int \<times> string"
  at_ctxErr :: "string option"

definition retriesStopped :: "string option \<Rightarrow> string \<Rightarrow> string" where
  "retriesStopped lastErr ctxErr = (case lastErr of None \<Rightarrow> ctxErr
     | Some e \<Rightarrow> e @ '' (retries stopped: '' @ ctxErr @ '')'')"

text \<open>
  The loop from attempt \<open>i\<close> with \<open>n\<close> attempts left; it returns the requests sent and the error.
\<close>

fun deliverFrom :: "(string \<Rightarrow> string option) \<Rightarrow> (nat \<Rightarrow> attempt) \<Rightarrow> WebhookSink \<Rightarrow> Document \<Rightarrow> SinkMeta \<Rightarrow>
    nat \<Rightarrow> nat \<Rightarrow> string option \<Rightarrow> http_request list \<times> string option" where
  "deliverFrom nr env s doc meta i 0 lastErr = ([], lastErr)"
| "deliverFrom nr env s doc meta i (Suc n) lastErr =
    (if i > 0 \<and> at_ctxDone (env i) \<noteq> None then ([], Some (retriesStopped lastErr (the (at_ctxDone (env i)))))
     else (case buildRequest nr s doc meta of
       Inl e \<Rightarrow> ([], Some e)
     | Inr req \<Rightarrow>
        (case at_do (env i) of
           Inl e \<Rightarrow>
             if at_ctxErr (env i) \<noteq> None \<and> lastErr \<noteq> None
             then ([req], Some (retriesStopped lastErr (the (at_ctxErr (env i)))))
             else (let (reqs, r) = deliverFrom nr env s doc meta (Suc i) n
                         (Some (''webhook sink: POST '' @ wh_endpoint (whk_cfg s) @ '': '' @ e))
                   in (req # reqs, r))
         | Inr (status, body) \<Rightarrow>
            (let read = take (maxErrorReadBytes + 1) body; truncated = length read > maxErrorReadBytes;
                 bodyBytes = (if truncated then take maxErrorReadBytes read else read);
                 err = formatHTTPError (wh_endpoint (whk_cfg s)) status bodyBytes truncated
             in if 200 \<le> status \<and> status < 300 then ([req], None)
                else if 300 \<le> status \<and> status < 500 then ([req], Some err)
                else (let (reqs, r) = deliverFrom nr env s doc meta (Suc i) n (Some err) in (req # reqs, r))))))"

definition deliver :: "(string \<Rightarrow> string option) \<Rightarrow> (nat \<Rightarrow> attempt) \<Rightarrow> WebhookSink \<Rightarrow> Document \<Rightarrow> SinkMeta \<Rightarrow>
    http_request list \<times> string option" where
  "deliver nr env s doc meta = deliverFrom nr env s doc meta 0 (length WebhookRetryBackoffs + 1) None"

definition webhook_Emit :: "(string \<Rightarrow> string option) \<Rightarrow> (nat \<Rightarrow> attempt) \<Rightarrow> WebhookSink \<Rightarrow> Document option \<Rightarrow> SinkMeta \<Rightarrow>
    http_request list \<times> (string + string)" where
  "webhook_Emit nr env s doc meta =
    (case doc of None \<Rightarrow> ([], Inl ''webhook sink: doc is nil'')
     | Some d \<Rightarrow> (case deliver nr env s d meta of
         (reqs, Some e) \<Rightarrow> (reqs, Inl e)
       | (reqs, None) \<Rightarrow> (reqs, Inr (wh_endpoint (whk_cfg s)))))"

subsection \<open>The address filter in numbers\<close>

lemma word8_drop:
  fixes a :: "8 word"
  shows "a AND 0xf0 = 16 \<longleftrightarrow> drop_bit 4 a = 1" "a AND 0xf0 = 0xe0 \<longleftrightarrow> drop_bit 4 a = 14"
    "a AND 0xc0 = 0x80 \<longleftrightarrow> drop_bit 6 a = 2" "a AND 0xfe = 0xfc \<longleftrightarrow> drop_bit 1 a = 126"
proof -
  have eight: "(\<forall>n. n < LENGTH(8) \<longrightarrow> P n) \<longleftrightarrow> P 0 \<and> P 1 \<and> P 2 \<and> P 3 \<and> P 4 \<and> P 5 \<and> P 6 \<and> P 7" for P :: "nat \<Rightarrow> bool"
    by (simp add: All_less_Suc numeral_eq_Suc) blast
  have eq: "b = c \<longleftrightarrow> (\<forall>n. n < LENGTH(8) \<longrightarrow> bit b n = bit c n)" for b c :: "8 word"
    by (auto intro: bit_word_eqI)
  have hi: "\<not> bit a n" if "8 \<le> n" for n
    using that bit_imp_le_length [of a n] by auto
  note s = eq eight bit_and_iff bit_drop_bit_eq
  show "a AND 0xf0 = 16 \<longleftrightarrow> drop_bit 4 a = 1" "a AND 0xf0 = 0xe0 \<longleftrightarrow> drop_bit 4 a = 14"
    "a AND 0xc0 = 0x80 \<longleftrightarrow> drop_bit 6 a = 2" "a AND 0xfe = 0xfc \<longleftrightarrow> drop_bit 1 a = 126"
    unfolding s by (simp_all add: hi bit_1_iff) (auto simp: numeral_2_eq_2 numeral_3_eq_3)
qed

lemma word8_masks:
  fixes a :: "8 word"
  shows "a AND 0xf0 = 16 \<longleftrightarrow> unat a div 16 = 1" "a AND 0xf0 = 0xe0 \<longleftrightarrow> unat a div 16 = 14"
    "a AND 0xc0 = 0x80 \<longleftrightarrow> unat a div 64 = 2" "a AND 0xfe = 0xfc \<longleftrightarrow> unat a div 2 = 126"
  unfolding word8_drop by (simp_all add: word_unat_eq_iff unat_div drop_bit_eq_div)

text \<open>The blocked ranges, and the mapped form of an IPv4 address.\<close>

definition blockedV4 :: "nat \<Rightarrow> nat \<Rightarrow> nat \<Rightarrow> nat \<Rightarrow> bool" where
  "blockedV4 a b c d \<longleftrightarrow> a = 127 \<or> a = 10 \<or> (a = 172 \<and> 16 \<le> b \<and> b \<le> 31) \<or> (a = 192 \<and> b = 168) \<or>
     (a = 169 \<and> b = 254) \<or> (224 \<le> a \<and> a \<le> 239) \<or> (a = 0 \<and> b = 0 \<and> c = 0 \<and> d = 0)"

definition blockedV6 :: "ip \<Rightarrow> bool" where
  "blockedV6 v \<longleftrightarrow> v = replicate 16 0 \<or> v = replicate 15 0 @ [1] \<or> 252 \<le> unat (v ! 0) \<and> unat (v ! 0) \<le> 253 \<or>
     unat (v ! 0) = 254 \<and> 128 \<le> unat (v ! 1) \<and> unat (v ! 1) \<le> 191 \<or> unat (v ! 0) = 255"

definition v4InV6 :: "ip \<Rightarrow> ip" where "v4InV6 v = replicate 10 0 @ [0xff, 0xff] @ v"

lemmas ip_classes = isPrivateIP_def IsLoopback_def IsLinkLocalUnicast_def IsPrivate_def IsUnspecified_def
  IsMulticast_def IsInterfaceLocalMulticast_def IsLinkLocalMulticast_def

lemma To4_mapped: "length v = 4 \<Longrightarrow> To4 (v4InV6 v) = Some v"
  by (simp add: To4_def v4InV6_def nth_append)

lemma div_ranges:
  fixes n :: nat
  shows "n div 16 = 1 \<longleftrightarrow> 16 \<le> n \<and> n \<le> 31" "n div 16 = 14 \<longleftrightarrow> 224 \<le> n \<and> n \<le> 239"
    "n div 64 = 2 \<longleftrightarrow> 128 \<le> n \<and> n \<le> 191" "n div 2 = 126 \<longleftrightarrow> 252 \<le> n \<and> n \<le> 253"
proof -
  have eq: "n div k = q \<longleftrightarrow> q * k \<le> n \<and> n < Suc q * k" if "0 < k" for k q
  proof -
    have "n div k = q \<longleftrightarrow> \<not> n div k < q \<and> n div k < Suc q" by linarith
    then show ?thesis using div_less_iff_less_mult [OF that] by (simp add: not_less)
  qed
  show "n div 16 = 1 \<longleftrightarrow> 16 \<le> n \<and> n \<le> 31" "n div 16 = 14 \<longleftrightarrow> 224 \<le> n \<and> n \<le> 239"
    "n div 64 = 2 \<longleftrightarrow> 128 \<le> n \<and> n \<le> 191" "n div 2 = 126 \<longleftrightarrow> 252 \<le> n \<and> n \<le> 253"
    by (subst eq; simp; linarith)+
qed

lemma not_zero_ip: "length v = 4 \<Longrightarrow> v \<noteq> replicate 16 0" "v4InV6 v \<noteq> replicate 16 0" for v :: ip
proof -
  show "length v = 4 \<Longrightarrow> v \<noteq> replicate 16 0" by auto
  have "v4InV6 v ! 10 \<noteq> replicate 16 0 ! 10" by (simp add: v4InV6_def nth_append)
  then show "v4InV6 v \<noteq> replicate 16 0" by metis
qed

lemma isPrivateIP_v4: "isPrivateIP [a, b, c, d] \<longleftrightarrow> blockedV4 (unat a) (unat b) (unat c) (unat d)"
proof -
  have "To4 [a, b, c, d] = Some [a, b, c, d]" by (simp add: To4_def)
  moreover have "[a, b, c, d] \<noteq> replicate 16 0" by (rule not_zero_ip) simp
  moreover have "x = 127 \<longleftrightarrow> unat x = 127" "x = 10 \<longleftrightarrow> unat x = 10" "x = 172 \<longleftrightarrow> unat x = 172" "x = 192 \<longleftrightarrow> unat x = 192"
    "x = 168 \<longleftrightarrow> unat x = 168" "x = 169 \<longleftrightarrow> unat x = 169" "x = 254 \<longleftrightarrow> unat x = 254" "x = 224 \<longleftrightarrow> unat x = 224"
    "x = 0 \<longleftrightarrow> unat x = 0" for x :: "8 word"
    by (simp_all add: word_unat_eq_iff)
  ultimately show ?thesis
    unfolding ip_classes blockedV4_def word8_masks div_ranges
    by (simp add: word8_masks [unfolded div_ranges]) linarith
qed

lemma isPrivateIP_mapped: "length v = 4 \<Longrightarrow> isPrivateIP (v4InV6 v) = isPrivateIP v"
proof -
  assume len: "length v = 4"
  then have "To4 v = Some v" "v \<noteq> replicate 16 0" by (simp add: To4_def, rule not_zero_ip)
  moreover have "v4InV6 v ! 0 = 0" by (simp add: v4InV6_def nth_append)
  ultimately show ?thesis
    using To4_mapped [OF len] not_zero_ip(2) [of v] len by (simp add: ip_classes)
qed

lemma isPrivateIP_v6:
  assumes "length v = 16" "To4 v = None"
  shows "isPrivateIP v \<longleftrightarrow> blockedV6 v"
proof -
  have n: "x = 0xfe \<longleftrightarrow> unat x = 254" "x = 0xff \<longleftrightarrow> unat x = 255" for x :: "8 word"
    by (simp_all add: word_unat_eq_iff)
  show ?thesis
    unfolding ip_classes blockedV6_def using assms by (simp add: word8_masks div_ranges n) linarith
qed

text \<open>
  Unless the checks are disabled, the dialer connects exactly to the addresses that parse and are
  public: an IPv4 address, plain or in its IPv6-mapped form, is refused exactly in 127/8, 10/8,
  172.16/12, 192.168/16, 169.254/16, 224/4 and 0.0.0.0, and any other IPv6 address exactly if it is
  unspecified, loopback, in fc00::/7, fe80::/10 or ff00::/8; an address that does not parse is refused.
\<close>

theorem dial_filter_ranges:
  assumes "host = (case cutFirst CHR ''%'' h0 of Some (h, _) \<Rightarrow> h | None \<Rightarrow> h0)"
    "h0 = (case splitHostPort address of Some h \<Rightarrow> h | None \<Rightarrow> address)"
    "\<And>v. parseIP host = Some v \<Longrightarrow> length v = 4 \<or> length v = 16"
  shows "dialControl False splitHostPort parseIP address = None \<longleftrightarrow>
    (\<exists>a b c d. parseIP host \<in> {Some [a, b, c, d], Some (v4InV6 [a, b, c, d])} \<and>
       \<not> blockedV4 (unat a) (unat b) (unat c) (unat d)) \<or>
    (\<exists>v. parseIP host = Some v \<and> length v = 16 \<and> To4 v = None \<and> \<not> blockedV6 v)"
proof -
  have dial: "dialControl False splitHostPort parseIP address = None \<longleftrightarrow> (\<exists>v. parseIP host = Some v \<and> \<not> isPrivateIP v)"
    using assms(1,2) by (auto simp: dialControl_def Let_def split: option.splits)
  have four: "length v = 4 \<longleftrightarrow> (\<exists>a b c d. v = [a, b, c, d])" for v :: ip
    by (auto simp: numeral_eq_Suc length_Suc_conv)
  have mapped: "\<exists>w. length w = 4 \<and> v = v4InV6 w" if v: "length v = 16" "To4 v \<noteq> None" for v :: ip
  proof -
    from v have h: "take 10 v = replicate 10 0" "v ! 10 = 0xff" "v ! 11 = 0xff" by (auto simp: To4_def split: if_splits)
    have "drop 10 v = v ! 10 # v ! 11 # drop 12 v"
      using v Cons_nth_drop_Suc [of 10 v] Cons_nth_drop_Suc [of 11 v] by simp
    then have "v = take 10 v @ v ! 10 # v ! 11 # drop 12 v" by (metis append_take_drop_id)
    then have "v = v4InV6 (drop 12 v)" using h by (simp add: v4InV6_def)
    then show ?thesis using v by (intro exI [of _ "drop 12 v"]) simp
  qed
  show ?thesis
  proof
    assume "dialControl False splitHostPort parseIP address = None"
    then obtain v where v: "parseIP host = Some v" "\<not> isPrivateIP v" using dial by blast
    consider "length v = 4" | w where "length w = 4" "v = v4InV6 w" | "length v = 16" "To4 v = None"
      using assms(3) [OF v(1)] mapped by blast
    then show "(\<exists>a b c d. parseIP host \<in> {Some [a, b, c, d], Some (v4InV6 [a, b, c, d])} \<and>
         \<not> blockedV4 (unat a) (unat b) (unat c) (unat d)) \<or>
       (\<exists>v. parseIP host = Some v \<and> length v = 16 \<and> To4 v = None \<and> \<not> blockedV6 v)"
    proof cases
      case 1
      then obtain a b c d where "v = [a, b, c, d]" using four by blast
      then show ?thesis using v isPrivateIP_v4 by blast
    next
      case (2 w)
      then obtain a b c d where "w = [a, b, c, d]" using four by blast
      then show ?thesis using v 2 isPrivateIP_v4 [of a b c d] isPrivateIP_mapped by blast
    next
      case 3
      then show ?thesis using v isPrivateIP_v6 by blast
    qed
  next
    assume "(\<exists>a b c d. parseIP host \<in> {Some [a, b, c, d], Some (v4InV6 [a, b, c, d])} \<and>
         \<not> blockedV4 (unat a) (unat b) (unat c) (unat d)) \<or>
       (\<exists>v. parseIP host = Some v \<and> length v = 16 \<and> To4 v = None \<and> \<not> blockedV6 v)"
    then show "dialControl False splitHostPort parseIP address = None"
      unfolding dial by (auto simp: isPrivateIP_v4 isPrivateIP_mapped isPrivateIP_v6)
  qed
qed

theorem dial_filter_ranges_witness:
  "dialControl False (\<lambda>_. Some ''8.8.8.8'') (\<lambda>_. Some [8, 8, 8, 8]) ''8.8.8.8:443'' = None \<and>
   dialControl False (\<lambda>_. None) (\<lambda>_. Some (v4InV6 [169, 254, 169, 254])) ''::ffff:169.254.169.254'' \<noteq> None"
proof (rule conjI)
  show "dialControl False (\<lambda>_. Some ''8.8.8.8'') (\<lambda>_. Some [8, 8, 8, 8]) ''8.8.8.8:443'' = None"
    by (subst dial_filter_ranges [OF refl refl])
      (auto simp: blockedV4_def intro!: disjI1 exI [of _ "8 :: 8 word"])
  show "dialControl False (\<lambda>_. None) (\<lambda>_. Some (v4InV6 [169, 254, 169, 254])) ''::ffff:169.254.169.254'' \<noteq> None"
    by (subst dial_filter_ranges [OF refl refl])
      (auto simp: blockedV4_def v4InV6_def To4_def nth_append)
qed

subsection \<open>The delivery contract\<close>

definition delivered :: "attempt \<Rightarrow> bool" where
  "delivered a \<longleftrightarrow> (case at_do a of Inr (status, _) \<Rightarrow> 200 \<le> status \<and> status < 300 | Inl _ \<Rightarrow> False)"

text \<open>A transport error is retried unless the context ended during a retry; an answer below 200 or from 500 is.\<close>

definition retryable :: "nat \<Rightarrow> attempt \<Rightarrow> bool" where
  "retryable i a \<longleftrightarrow> (case at_do a of Inl _ \<Rightarrow> i = 0 \<or> at_ctxErr a = None
     | Inr (status, _) \<Rightarrow> status < 200 \<or> 500 \<le> status)"

definition waited :: "nat \<Rightarrow> attempt \<Rightarrow> bool" where
  "waited i a \<longleftrightarrow> i = 0 \<or> at_ctxDone a = None"

lemma delivered_not_retryable: "delivered a \<Longrightarrow> \<not> retryable i a"
  by (auto simp: delivered_def retryable_def split: sum.splits)

lemma deliver_stopped:
  assumes "\<not> waited i (env i)"
  shows "\<exists>e. deliverFrom nr env s d meta i (Suc n) prior = ([], Some e)"
  using assms by (simp add: waited_def)

lemma deliver_ok:
  assumes "buildRequest nr s d meta = Inr req" "waited i (env i)" "delivered (env i)"
  shows "deliverFrom nr env s d meta i (Suc n) prior = ([req], None)"
proof -
  obtain status body where "at_do (env i) = Inr (status, body)" "200 \<le> status" "status < 300"
    using assms(3) by (auto simp: delivered_def split: sum.splits)
  then show ?thesis using assms(1,2) by (simp add: waited_def Let_def)
qed

lemma deliver_final:
  assumes "buildRequest nr s d meta = Inr req" "prior = None \<longleftrightarrow> i = 0" "waited i (env i)"
    "\<not> delivered (env i)" "\<not> retryable i (env i)"
  shows "\<exists>e. deliverFrom nr env s d meta i (Suc n) prior = ([req], Some e)"
proof (cases "at_do (env i)")
  case (Inl e)
  then have "at_ctxErr (env i) \<noteq> None \<and> prior \<noteq> None" using assms(2,5) by (simp add: retryable_def)
  then show ?thesis using Inl assms(1,3) by (simp add: waited_def Let_def)
next
  case (Inr a)
  obtain status body where a: "a = (status, body)" by (cases a)
  then have "\<not> (200 \<le> status \<and> status < 300)" "300 \<le> status \<and> status < 500"
    using assms(4,5) Inr by (auto simp: delivered_def retryable_def)
  then show ?thesis using Inr a assms(1,3) by (simp add: waited_def Let_def)
qed

lemma deliver_retry:
  assumes "buildRequest nr s d meta = Inr req" "prior = None \<longleftrightarrow> i = 0" "waited i (env i)" "retryable i (env i)"
  shows "\<exists>e. deliverFrom nr env s d meta i (Suc n) prior =
    (req # fst (deliverFrom nr env s d meta (Suc i) n (Some e)), snd (deliverFrom nr env s d meta (Suc i) n (Some e)))"
proof (cases "at_do (env i)")
  case (Inl e)
  then have "\<not> (at_ctxErr (env i) \<noteq> None \<and> prior \<noteq> None)" using assms(2,4) by (auto simp: retryable_def)
  then show ?thesis using Inl assms(1,3) by (auto simp: waited_def Let_def case_prod_beta)
next
  case (Inr a)
  obtain status body where a: "a = (status, body)" by (cases a)
  then have "\<not> (200 \<le> status \<and> status < 300)" "\<not> (300 \<le> status \<and> status < 500)"
    using assms(4) Inr by (auto simp: retryable_def)
  then show ?thesis using Inr a assms(1,3) by (auto simp: waited_def Let_def case_prod_beta)
qed

declare deliverFrom.simps(2) [simp del]

lemma length_backoffs: "length WebhookRetryBackoffs + 1 = 4"
  by (simp add: WebhookRetryBackoffs_def)

lemma deliverFrom_contract:
  assumes "buildRequest nr s d meta = Inr req" "prior = None \<longleftrightarrow> i = 0" "0 < n \<or> 0 < i"
    "deliverFrom nr env s d meta i n prior = (reqs, r)"
  shows "reqs = replicate (length reqs) req \<and> length reqs \<le> n \<and>
    (\<forall>j. Suc j < length reqs \<longrightarrow> retryable (i + j) (env (i + j))) \<and>
    (r = None \<longleftrightarrow> (\<exists>j<n. delivered (env (i + j)) \<and> (\<forall>k<j. retryable (i + k) (env (i + k))) \<and> (\<forall>k\<le>j. waited (i + k) (env (i + k))))) \<and>
    (r \<noteq> None \<and> length reqs < n \<longrightarrow> \<not> waited (i + length reqs) (env (i + length reqs)) \<or>
       reqs \<noteq> [] \<and> \<not> retryable (i + length reqs - 1) (env (i + length reqs - 1)))"
  using assms
proof (induction n arbitrary: i prior reqs r)
  case 0
  then show ?case by (cases prior) auto
next
  case (Suc n)
  have ex: "(\<exists>j<Suc n. P j) \<longleftrightarrow> P 0 \<or> (\<exists>j<n. P (Suc j))" for P by (auto simp: less_Suc_eq_0_disj)
  have all: "(\<forall>k<Suc j. P k) \<longleftrightarrow> P 0 \<and> (\<forall>k<j. P (Suc k))" for P j by (auto simp: less_Suc_eq_0_disj)
  have alle: "(\<forall>k\<le>Suc j. P k) \<longleftrightarrow> P 0 \<and> (\<forall>k\<le>j. P (Suc k))" for P j
    using all [of "Suc j" P] by (simp add: less_Suc_eq_le)
  consider (stopped) "\<not> waited i (env i)" | (ok) "waited i (env i)" "delivered (env i)"
    | (final) "waited i (env i)" "\<not> delivered (env i)" "\<not> retryable i (env i)"
    | (retry) "waited i (env i)" "\<not> delivered (env i)" "retryable i (env i)"
    by blast
  then show ?case
  proof cases
    case stopped
    then show ?thesis using Suc.prems(4) deliver_stopped [of i env, OF stopped, of nr s d meta n prior] by (auto simp: ex alle)
  next
    case ok
    then show ?thesis using Suc.prems(4) deliver_ok [OF Suc.prems(1), of i env, OF ok, of n prior] by (auto simp: ex)
  next
    case final
    then show ?thesis using Suc.prems(4) deliver_final [OF Suc.prems(1,2), of env, OF final, of n] by (auto simp: ex all)
  next
    case retry
    obtain e reqs' where rest: "deliverFrom nr env s d meta (Suc i) n (Some e) = (reqs', r)" "reqs = req # reqs'"
      using deliver_retry [OF Suc.prems(1,2), of env, OF retry(1,3), of n] Suc.prems(4)
      by (metis fst_conv prod.collapse snd_conv)
    note IH = Suc.IH [OF Suc.prems(1) _ _ rest(1), simplified]
    have "retryable (i + j) (env (i + j))" if "Suc j < length reqs" for j
      using IH retry(3) that rest(2) by (cases j) auto
    then show ?thesis using IH retry rest(2) by (auto simp: ex all alle)
  qed
qed

text \<open>
  C14. Delivery to a webhook sends the same request at most four times. It succeeds exactly if one of
  the four attempts is answered with a 2xx status, all before it met a transport error, a 5xx or a 1xx,
  and the context lasted through the backoffs. Only such attempts are repeated: after a redirect or
  a client error nothing more is sent; and it gives up early only on those or when the context ends.
\<close>

theorem webhook_delivery_contract:
  assumes "nr (wh_endpoint (whk_cfg s)) = None" "deliver nr env s d meta = (reqs, r)"
  shows "\<exists>req. buildRequest nr s d meta = Inr req \<and> reqs = replicate (length reqs) req \<and> length reqs \<le> 4 \<and>
    hr_url req = wh_endpoint (whk_cfg s) \<and> hr_body req = doc_json d \<and>
    (r = None \<longleftrightarrow> (\<exists>j<4. delivered (env j) \<and> (\<forall>k<j. retryable k (env k)) \<and> (\<forall>k\<le>j. waited k (env k)))) \<and>
    (\<forall>j. Suc j < length reqs \<longrightarrow> retryable j (env j)) \<and>
    (r \<noteq> None \<and> length reqs < 4 \<longrightarrow> \<not> waited (length reqs) (env (length reqs)) \<or>
       reqs \<noteq> [] \<and> \<not> retryable (length reqs - 1) (env (length reqs - 1)))"
proof -
  obtain req where req: "buildRequest nr s d meta = Inr req" "hr_url req = wh_endpoint (whk_cfg s)" "hr_body req = doc_json d"
    using assms(1) by (simp add: buildRequest_def)
  have run: "deliverFrom nr env s d meta 0 4 None = (reqs, r)"
    using assms(2) unfolding deliver_def length_backoffs .
  have c: "(None :: string option) = None \<longleftrightarrow> (0::nat) = 0" "(0::nat) < 4 \<or> (0::nat) < 0" by simp_all
  from deliverFrom_contract [OF req(1) c run, unfolded add_0] req show ?thesis
    by (intro exI [of _ req] conjI) (elim conjE, assumption)+
qed

text \<open>
  A receiver that answers 503 twice and then 204: three equal requests, and success.
\<close>

definition exampleWebhook :: WebhookSink where
  "exampleWebhook = \<lparr>whk_cfg = \<lparr>wh_endpoint = ''https://siem.example'', wh_insecureSkipVerify = False, wh_caFile = '''',
     wh_caPEM = '''', wh_clientCertFile = '''', wh_clientKeyFile = '''', wh_clientCertPEM = '''', wh_clientKeyPEM = '''',
     wh_bearerTokenFile = '''', wh_bearerToken = ''t'', wh_timeout = 0, wh_controllerVersion = ''''\<rparr>,
     whk_tls = \<lparr>tls_insecureSkipVerify = False, tls_rootCAs = None, tls_certificates = []\<rparr>, whk_token = ''t''\<rparr>"

definition exampleAttempts :: "nat \<Rightarrow> attempt" where
  "exampleAttempts i = \<lparr>at_ctxDone = None, at_do = Inr (if i < 2 then (503, ''busy'') else (204, '''')), at_ctxErr = None\<rparr>"

theorem webhook_delivery_contract_witness:
  "\<forall>d meta. snd (deliver (\<lambda>_. None) exampleAttempts exampleWebhook d meta) = None"
proof (intro allI)
  fix d meta
  obtain reqs r where run: "deliver (\<lambda>_. None) exampleAttempts exampleWebhook d meta = (reqs, r)"
    by (cases "deliver (\<lambda>_. None) exampleAttempts exampleWebhook d meta")
  have "\<exists>j<4. delivered (exampleAttempts j) \<and> (\<forall>k<j. retryable k (exampleAttempts k)) \<and> (\<forall>k\<le>j. waited k (exampleAttempts k))"
    by (rule exI [of _ 2]) (auto simp: delivered_def retryable_def waited_def exampleAttempts_def)
  then show "snd (deliver (\<lambda>_. None) exampleAttempts exampleWebhook d meta) = None"
    using webhook_delivery_contract [OF refl run] run by auto
qed

subsection \<open>Error texts are short and free of control sequences\<close>

lemma firstMatch_suffix:
  assumes "firstMatch g r x = Some (cap, y)"
  shows "\<exists>t. snd x = t @ snd y"
proof -
  let ?ms = "concat (map (\<lambda>y. map (\<lambda>z. (take (length (snd x) - length (snd y)) (snd x), z)) (rm r y)) (rm g x))"
  from assms obtain rest where "?ms = (cap, y) # rest" unfolding firstMatch_def by (cases ?ms) simp_all
  then have "(cap, y) \<in> set ?ms" by (metis list.set_intros(1))
  then obtain z where z: "Matches g x z" "Matches r z y" by (auto simp: set_rm)
  then obtain t u where "snd x = t @ snd z" "snd z = u @ snd y" using Matches_suffix by metis
  then show ?thesis by auto
qed

lemma set_replaceAll_erase: "set (replaceAll g r (\<lambda>_. []) p s) \<subseteq> set s"
proof (induction s arbitrary: p rule: length_induct)
  case (1 s)
  show ?case
  proof (cases s)
    case (Cons c s')
    have rest: "set (replaceAll g r (\<lambda>_. []) p' s') \<subseteq> set s'" for p' using 1 Cons by simp
    show ?thesis
    proof (cases "firstMatch g r (p, c # s')")
      case None
      then show ?thesis using rest [of "Some c"] Cons by auto
    next
      case (Some m)
      obtain cap q v where m: "m = (cap, q, v)" by (cases m)
      obtain t where "c # s' = t @ v" using firstMatch_suffix [OF Some [unfolded m]] by auto
      then have "set v \<subseteq> set s" using Cons by (metis Un_upper2 set_append)
      moreover have "length v < length s \<Longrightarrow> set (replaceAll g r (\<lambda>_. []) q v) \<subseteq> set v" using 1 by blast
      ultimately show ?thesis using Some m rest [of "Some c"] Cons by auto
    qed
  qed simp
qed

lemma set_take_runes: "set (concat (take n (runes s))) \<subseteq> set s \<union> set runeError"
proof -
  have "set (concat (runes s)) \<subseteq> set s \<union> set runeError"
  proof (induction s rule: runes.induct)
    case (2 b s)
    show ?case
    proof (cases "runeWidth (b # s)")
      case 0
      then show ?thesis using 2(1) by (auto simp del: runeWidth.simps)
    next
      case (Suc k)
      then show ?thesis using 2(2) [OF Suc] set_take_subset [of k s] set_drop_subset [of k s]
        by (auto simp del: runeWidth.simps)
    qed
  qed simp
  then show ?thesis by (auto dest: in_set_takeD)
qed

definition controlChar :: "char \<Rightarrow> bool" where
  "controlChar c \<longleftrightarrow> c = newline \<or> c = carriageReturn \<or> c = escapeChar"

lemma cleanBody_safe: "c \<in> set (cleanBody body) \<Longrightarrow> \<not> controlChar c"
proof -
  let ?b = "replaceByte carriageReturn CHR '' '' (replaceByte newline CHR '' '' (toValidUTF8 body))"
  assume "c \<in> set (cleanBody body)"
  then have "c \<noteq> escapeChar" "c \<in> set (replaceAll REps ansiRe (\<lambda>_. []) None ?b)"
    unfolding cleanBody_def by auto
  then have c: "c \<noteq> escapeChar" "c \<in> set ?b" using set_replaceAll_erase by blast+
  then show "\<not> controlChar c"
    by (auto simp: controlChar_def in_replaceByte newline_literal carriageReturn_literal)
qed

lemma runeWidth_ascii_tail:
  assumes "\<forall>c \<in> set t. byteIn c 0 127"
  shows "runeWidth (b # s @ t) = runeWidth (b # s)"
proof (cases t)
  case (Cons x u)
  have no: "\<not> byteIn c lo hi" if "c \<in> set t" "128 \<le> lo" for c lo hi
    using assms that by (force simp: byteIn_def)
  then have x: "128 \<le> lo \<Longrightarrow> \<not> byteIn x lo hi" for lo hi using Cons by simp
  consider "s = []" | c where "s = [c]" | c d where "s = [c, d]" | c d e v where "s = c # d # e # v"
    by (metis neq_Nil_conv)
  then show ?thesis using Cons x by cases (auto split: list.splits)
qed simp

lemma runes_ascii_tail: "\<forall>c \<in> set t. byteIn c 0 127 \<Longrightarrow> runes (s @ t) = runes s @ runes t"
proof (induction s rule: runes.induct)
  case (2 b s)
  have w: "runeWidth (b # s @ t) = runeWidth (b # s)" using 2(3) by (rule runeWidth_ascii_tail)
  show ?case
  proof (cases "runeWidth (b # s)")
    case 0
    then show ?thesis using 2 w by (simp del: runeWidth.simps)
  next
    case (Suc k)
    then have "k \<le> length s" using runeWidth_le [of "b # s"] by (simp del: runeWidth.simps)
    then show ?thesis using 2 w Suc by (simp del: runeWidth.simps)
  qed
qed simp

lemma length_runes_errorBody: "length (runes (errorBody body tr)) \<le> maxErrorBodyBytes + length truncatedMarker"
proof -
  define s where "s = (if length (runes (cleanBody body)) > maxErrorBodyBytes
    then concat (take maxErrorBodyBytes (runes (cleanBody body))) else cleanBody body)"
  have ascii: "\<forall>c \<in> set truncatedMarker. byteIn c 0 127" by (simp add: truncatedMarker_def byteIn_def)
  have "runes (concat (take k (runes x))) = take k (runes x)" for k x
    using runes_concat [of "take k (runes x)" "[]"] by (metis append_Nil2 in_set_takeD runes.simps(1) runes_isRune)
  then have "length (runes s) \<le> maxErrorBodyBytes" by (simp add: s_def)
  moreover have "errorBody body tr = s \<or> errorBody body tr = s @ truncatedMarker"
    by (simp add: errorBody_def s_def Let_def)
  ultimately show ?thesis using runes_ascii_tail [OF ascii, of s] runes_ascii [OF ascii] by auto
qed

lemma errorBody_safe: "c \<in> set (errorBody body tr) \<Longrightarrow> \<not> controlChar c"
proof -
  have lits: "list_all (\<lambda>x. \<not> controlChar x) (runeError @ truncatedMarker)" by code_simp
  assume "c \<in> set (errorBody body tr)"
  then have "c \<in> set (cleanBody body) \<or> c \<in> set runeError \<or> c \<in> set truncatedMarker"
    using set_take_runes [of maxErrorBodyBytes "cleanBody body"] unfolding errorBody_def Let_def
    by (simp split: if_splits) blast+
  then show "\<not> controlChar c" using cleanBody_safe lits by (auto simp: list_all_iff)
qed

text \<open>
  Whatever a receiver answers, the text of its body that is recorded on the resource has at most
  256 runes and the marker, and no escape, newline or carriage-return character; the marker stands
  at its end exactly if something was cut off, by the read limit or by the rune limit.
\<close>

theorem webhook_error_text_bounded:
  "length (runes (errorBody body truncated)) \<le> 256 + length truncatedMarker \<and>
   set (errorBody body truncated) \<inter> {newline, carriageReturn, escapeChar} = {} \<and>
   errorBody body truncated =
     (let clean = cleanBody body; rs = runes clean; kept = (if length rs \<le> 256 then clean else concat (take 256 rs))
      in if truncated \<or> 256 < length rs then kept @ ''...(truncated)'' else clean)"
proof (intro conjI)
  show "length (runes (errorBody body truncated)) \<le> 256 + length truncatedMarker"
    using length_runes_errorBody [of body truncated] by (simp add: maxErrorBodyBytes_def)
  show "set (errorBody body truncated) \<inter> {newline, carriageReturn, escapeChar} = {}"
    using errorBody_safe unfolding controlChar_def by blast
qed (simp add: errorBody_def Let_def truncatedMarker_def maxErrorBodyBytes_def)

text \<open>
  The literal \<^verbatim>\<open>[::1]\<close> of the loopback check is never met: \<open>Hostname\<close> removes the brackets. Such an
  endpoint is accepted by the validation, and only the dialer refuses the connection.
\<close>

theorem ipv6_loopback_passes_validation:
  assumes "wh_endpoint c \<noteq> ''''" "we_parseURL env (wh_endpoint c) = Inr u" "url_scheme u = ''https''"
    "url_host u = ''[::1]'' \<or> url_host u = ''[::1]:8443''" "wh_clientCertPEM c = ''''" "wh_clientKeyPEM c = ''''"
    "wh_clientCertFile c = ''''" "wh_clientKeyFile c = ''''"
  shows "webhook_Validate env c = None \<and> isPrivateIP (replicate 15 0 @ [1])"
proof
  have "toLower (Hostname u) = ''::1''"
    using assms(4) by (rule disjE) (simp_all add: Hostname_def cutLast_def cutFirst_def validOptionalPort_def hasPrefix_def toLower_def toLowerByte_def)
  then show "webhook_Validate env c = None"
    using assms by (simp add: webhook_Validate_def localHost_def hasPrefix_def)
  show "isPrivateIP (replicate 15 0 @ [1])" by (simp add: ip_classes To4_def nth_append)
qed

theorem ipv6_loopback_passes_validation_witness:
  "\<exists>env. webhook_Validate env (whk_cfg exampleWebhook\<lparr>wh_endpoint := ''https://[::1]''\<rparr>) = None"
proof -
  let ?env = "\<lparr>we_parseURL = \<lambda>_. Inr \<lparr>url_scheme = ''https'', url_host = ''[::1]'', url_user = None\<rparr>,
    we_disableSSRFChecks = False, we_readFile = Inl, we_appendCerts = \<lambda>_. True, we_X509KeyPair = \<lambda>_ _. Inl '''',
    we_LoadX509KeyPair = \<lambda>_ _. Inl ''''\<rparr>"
  have "webhook_Validate ?env (whk_cfg exampleWebhook\<lparr>wh_endpoint := ''https://[::1]''\<rparr>) = None"
    by (rule ipv6_loopback_passes_validation [where u = "\<lparr>url_scheme = ''https'', url_host = ''[::1]'', url_user = None\<rparr>", THEN conjunct1])
      (simp_all add: exampleWebhook_def)
  then show ?thesis by blast
qed

end
