(* ===== verification/Sink_Factory.thy ===== *)
theory Sink_Factory
  imports Sink_Webhook
begin

text \<open>
  \<^verbatim>\<open>internal/config/client_factory.go\<close>: the sinks of a configuration, built from its entries and the
  Secrets they refer to. The API reader and the constructors of the clients are parameters. A nil
  body would be a nil dereference in the code and is \<open>None\<close> here; the lemmas show that it is never
  reached on entries that passed the shape checks, and what a built sink carries.
\<close>

type_synonym secret_data = "(string \<times> string) list"

record 'c factory_env =
  fe_get :: "string \<Rightarrow> string \<Rightarrow> secret_data api_result"
  fe_namespace :: string
  fe_controllerVersion :: string
  fe_newClient :: "gcs_option list \<Rightarrow> string + 'c"
  fe_webhook :: webhook_env

datatype 'c sink = GCS "'c GCSSink" | Webhook WebhookSink

definition secretKeyNames :: "secret_data \<Rightarrow> string list" where
  "secretKeyNames s = sort (map fst s)"

definition readSecretKey :: "'c factory_env \<Rightarrow> string \<Rightarrow> string \<Rightarrow> string \<Rightarrow> SecretKeyRef \<Rightarrow> LoadError + string" where
  "readSecretKey f sinkName sinkContext fieldPath ref =
    (let fld = sinkField sinkName @ ''.'' @ fieldPath;
         pre = ''Sink '' @ goQuote sinkName @ '' ('' @ sinkContext @ '') '' @ fieldPath @ '': '';
         sec = ''Secret '' @ goQuote (skr_name ref)
     in case fe_get f (fe_namespace f) (skr_name ref) of
          NotFound \<Rightarrow> Inl \<lparr>le_field = fld,
            le_message = pre @ sec @ '' not found in namespace '' @ goQuote (fe_namespace f) @
              ''. Create the Secret or update '' @ fieldPath @ ''.name.''\<rparr>
        | ApiError err \<Rightarrow> Inl \<lparr>le_field = fld,
            le_message = pre @ ''failed to read '' @ sec @ '' in namespace '' @ goQuote (fe_namespace f) @ '': '' @ err @ ''.''\<rparr>
        | Found data \<Rightarrow>
           (case map_of data (skr_key ref) of
              None \<Rightarrow> Inl \<lparr>le_field = fld @ ''.key'',
                le_message = pre @ sec @ '' has no key '' @ goQuote (skr_key ref) @ ''. Available keys: ['' @
                  joinWith '' '' (secretKeyNames data) @ '']. Update '' @ fieldPath @
                  ''.key to one of these, or add the missing key to the Secret.''\<rparr>
            | Some v \<Rightarrow>
                if v = '''' then Inl \<lparr>le_field = fld,
                  le_message = pre @ sec @ '' key '' @ goQuote (skr_key ref) @
                    '' has empty value. Populate the Secret data or update '' @ fieldPath @ ''.key.''\<rparr>
                else Inr v))"

definition buildGCSSink :: "'c factory_env \<Rightarrow> SinkConfig \<Rightarrow> (LoadError + 'c sink) option" where
  "buildGCSSink f s = (case sk_gcs s of None \<Rightarrow> None | Some g \<Rightarrow> Some
    (case (case gs_credentialsSecretRef g of None \<Rightarrow> Inr ''''
           | Some ref \<Rightarrow> readSecretKey f (sk_name s) ''Type=GCS'' ''gcs.credentialsSecretRef'' ref) of
       Inl le \<Rightarrow> Inl le
     | Inr json \<Rightarrow>
        (case NewGCSSink (fe_newClient f) \<lparr>gc_bucket = gs_bucket g, gc_pathTemplate = gs_pathTemplate g,
                gc_credentialsFile = '''', gc_credentialsJSON = json\<rparr> of
           Inl err \<Rightarrow> Inl \<lparr>le_field = sinkField (sk_name s) @ ''.gcs'',
             le_message = ''Sink '' @ goQuote (sk_name s) @ '' (Type=GCS) failed to construct: '' @ err @ ''. Verify '' @
               sinkField (sk_name s) @ ''.gcs.bucket and any referenced credentials.''\<rparr>
         | Inr k \<Rightarrow> Inr (GCS k))))"

text \<open>The credentials part of \<^verbatim>\<open>buildWebhookSink\<close>: the configuration with its secrets filled in.\<close>

definition webhookAuth :: "'c factory_env \<Rightarrow> string \<Rightarrow> WebhookAuth \<Rightarrow> WebhookSinkConfig \<Rightarrow> LoadError + WebhookSinkConfig" where
  "webhookAuth f name a cfg =
    (if wa_bearerToken a \<noteq> None \<and> wa_mtls a \<noteq> None then
       Inl \<lparr>le_field = sinkField name @ ''.webhook.auth'',
         le_message = ''Sink '' @ goQuote name @ '' (Type=Webhook) has both auth.bearerToken and auth.mtls set. Exactly one auth mechanism per sink; remove one of them.''\<rparr>
     else
      (case (case wa_bearerToken a of None \<Rightarrow> Inr cfg
             | Some ref \<Rightarrow> (case readSecretKey f name ''Type=Webhook'' ''webhook.auth.bearerToken.secretRef'' ref of
                  Inl le \<Rightarrow> Inl le | Inr v \<Rightarrow> Inr (cfg\<lparr>wh_bearerToken := v\<rparr>))) of
         Inl le \<Rightarrow> Inl le
       | Inr cfg \<Rightarrow>
          (case wa_mtls a of None \<Rightarrow> Inr cfg
           | Some m \<Rightarrow>
              (case readSecretKey f name ''Type=Webhook'' ''webhook.auth.mtls.clientCertSecretRef'' (mt_clientCertSecretRef m) of
                 Inl le \<Rightarrow> Inl le
               | Inr certData \<Rightarrow>
                  (case readSecretKey f name ''Type=Webhook'' ''webhook.auth.mtls.clientKeySecretRef'' (mt_clientKeySecretRef m) of
                     Inl le \<Rightarrow> Inl le
                   | Inr keyData \<Rightarrow>
                      (let cfg = cfg\<lparr>wh_clientCertPEM := certData, wh_clientKeyPEM := keyData\<rparr>
                       in case mt_caSecretRef m of None \<Rightarrow> Inr cfg
                          | Some ref \<Rightarrow>
                             (case readSecretKey f name ''Type=Webhook'' ''webhook.auth.mtls.caSecretRef'' ref of
                                Inl le \<Rightarrow> Inl le | Inr ca \<Rightarrow> Inr (cfg\<lparr>wh_caPEM := ca\<rparr>))))))))"

definition buildWebhookSink :: "'c factory_env \<Rightarrow> SinkConfig \<Rightarrow> (LoadError + 'c sink) option" where
  "buildWebhookSink f s = (case sk_webhook s of None \<Rightarrow> None | Some w \<Rightarrow> Some
    (let cfg = \<lparr>wh_endpoint = ws_endpoint w, wh_insecureSkipVerify = False, wh_caFile = '''', wh_caPEM = '''',
                wh_clientCertFile = '''', wh_clientKeyFile = '''', wh_clientCertPEM = '''', wh_clientKeyPEM = '''',
                wh_bearerTokenFile = '''', wh_bearerToken = '''', wh_timeout = 0,
                wh_controllerVersion = fe_controllerVersion f\<rparr>
     in case (case ws_auth w of None \<Rightarrow> Inr cfg | Some a \<Rightarrow> webhookAuth f (sk_name s) a cfg) of
          Inl le \<Rightarrow> Inl le
        | Inr cfg \<Rightarrow>
           (case NewWebhookSink (fe_webhook f) cfg of
              Inl err \<Rightarrow> Inl \<lparr>le_field = sinkField (sk_name s) @ ''.webhook'',
                le_message = ''Sink '' @ goQuote (sk_name s) @ '' (Type=Webhook) failed to construct: '' @ err @ ''. Verify '' @
                  sinkField (sk_name s) @ ''.webhook.endpoint and any referenced credentials.''\<rparr>
            | Inr k \<Rightarrow> Inr (Webhook k))))"

text \<open>One iteration of the loop of \<^verbatim>\<open>BuildSinks\<close>.\<close>

definition buildSink :: "'c factory_env \<Rightarrow> SinkConfig \<Rightarrow> (LoadError + 'c sink) option" where
  "buildSink f s = (case sk_type s of
     SinkTypeGCS \<Rightarrow> buildGCSSink f s
   | SinkTypeWebhook \<Rightarrow> buildWebhookSink f s
   | SinkTypeOther t \<Rightarrow> Some (Inl (errSinkUnknownType (sk_name s) t)))"

fun BuildSinks :: "'c factory_env \<Rightarrow> SinkConfig list \<Rightarrow> ('c sink list \<times> LoadError list) option" where
  "BuildSinks f [] = Some ([], [])"
| "BuildSinks f (s # ss) =
    (case buildSink f s of
       None \<Rightarrow> None
     | Some (Inl le) \<Rightarrow> map_option (\<lambda>(ks, es). (ks, le # es)) (BuildSinks f ss)
     | Some (Inr k) \<Rightarrow> map_option (\<lambda>(ks, es). (k # ks, es)) (BuildSinks f ss))"

subsection \<open>Correctness of construction\<close>

lemma readSecretKey_ok:
  "readSecretKey f name ctxt fld ref = Inr v \<longleftrightarrow>
    (\<exists>data. fe_get f (fe_namespace f) (skr_name ref) = Found data \<and> map_of data (skr_key ref) = Some v \<and> v \<noteq> '''')"
  by (auto simp: readSecretKey_def Let_def split: api_result.splits option.splits)

lemma NewGCSSink_ok:
  "NewGCSSink nc cfg = Inr k \<Longrightarrow> gc_bucket (gsk_cfg k) = gc_bucket cfg \<and> gc_bucket cfg \<noteq> '''' \<and>
    gc_credentialsJSON (gsk_cfg k) = gc_credentialsJSON cfg \<and> gc_pathTemplate (gsk_cfg k) \<noteq> '''' \<and>
    (gc_pathTemplate cfg \<noteq> '''' \<longrightarrow> gc_pathTemplate (gsk_cfg k) = gc_pathTemplate cfg)"
  by (auto simp: NewGCSSink_def gcs_Validate_def Let_def DefaultGCSPathTemplate_def split: if_splits sum.splits)

lemma NewWebhookSink_ok:
  "NewWebhookSink env cfg = Inr k \<Longrightarrow> whk_cfg k = cfg \<and> webhook_Validate env cfg = None \<and>
    tls_insecureSkipVerify (whk_tls k) = wh_insecureSkipVerify cfg \<and> webhookToken env cfg = Inr (whk_token k)"
  by (auto simp: NewWebhookSink_def split: option.splits sum.splits)

text \<open>The values of a Secret that the entry of a sink refers to.\<close>

definition secretValue :: "'c factory_env \<Rightarrow> SecretKeyRef \<Rightarrow> string option" where
  "secretValue f ref = (case fe_get f (fe_namespace f) (skr_name ref) of Found data \<Rightarrow> map_of data (skr_key ref) | _ \<Rightarrow> None)"

text \<open>What the sink built for an entry must be.\<close>

definition sinkFor :: "'c factory_env \<Rightarrow> SinkConfig \<Rightarrow> 'c sink \<Rightarrow> bool" where
  "sinkFor f s k \<longleftrightarrow> (case k of
     GCS g \<Rightarrow> sk_type s = SinkTypeGCS \<and> (\<exists>c. sk_gcs s = Some c \<and> gc_bucket (gsk_cfg g) = gs_bucket c \<and>
       (case gs_credentialsSecretRef c of None \<Rightarrow> gc_credentialsJSON (gsk_cfg g) = ''''
        | Some ref \<Rightarrow> secretValue f ref = Some (gc_credentialsJSON (gsk_cfg g)) \<and> gc_credentialsJSON (gsk_cfg g) \<noteq> ''''))
   | Webhook w \<Rightarrow> sk_type s = SinkTypeWebhook \<and> (\<exists>c. sk_webhook s = Some c \<and> wh_endpoint (whk_cfg w) = ws_endpoint c \<and>
       \<not> tls_insecureSkipVerify (whk_tls w) \<and>
       (case Option.bind (ws_auth c) wa_bearerToken of None \<Rightarrow> whk_token w = ''''
        | Some ref \<Rightarrow> (\<exists>v. secretValue f ref = Some v \<and> whk_token w = TrimSpace v) \<and> whk_token w \<noteq> '''') \<and>
       (\<forall>a. ws_auth c = Some a \<longrightarrow> wa_bearerToken a = None \<or> wa_mtls a = None)))"

lemma webhookAuth_ok:
  assumes "webhookAuth f name a cfg = Inr cfg'" "wh_bearerToken cfg = ''''"
  shows "wh_endpoint cfg' = wh_endpoint cfg \<and> wh_insecureSkipVerify cfg' = wh_insecureSkipVerify cfg \<and>
    wh_bearerTokenFile cfg' = wh_bearerTokenFile cfg \<and>
    (wa_bearerToken a = None \<or> wa_mtls a = None) \<and>
    (case wa_bearerToken a of None \<Rightarrow> wh_bearerToken cfg' = ''''
     | Some ref \<Rightarrow> secretValue f ref = Some (wh_bearerToken cfg') \<and> wh_bearerToken cfg' \<noteq> '''')"
  using assms
  by (auto simp: webhookAuth_def secretValue_def readSecretKey_ok Let_def split: if_splits option.splits sum.splits)

lemma buildGCSSink_ok:
  assumes "buildGCSSink f s = Some (Inr k)" "sk_type s = SinkTypeGCS"
  shows "sinkFor f s k"
proof -
  obtain c where c: "sk_gcs s = Some c" using assms by (cases "sk_gcs s") (auto simp: buildGCSSink_def)
  obtain json where json: "(case gs_credentialsSecretRef c of None \<Rightarrow> Inr ''''
           | Some ref \<Rightarrow> readSecretKey f (sk_name s) ''Type=GCS'' ''gcs.credentialsSecretRef'' ref) = Inr json"
    using assms c by (auto simp: buildGCSSink_def split: sum.splits)
  obtain g where g: "k = GCS g" "NewGCSSink (fe_newClient f) \<lparr>gc_bucket = gs_bucket c, gc_pathTemplate = gs_pathTemplate c,
                gc_credentialsFile = '''', gc_credentialsJSON = json\<rparr> = Inr g"
    using assms(1) c json by (auto simp: buildGCSSink_def split: sum.splits)
  show ?thesis
    using c assms(2) g(1) NewGCSSink_ok [OF g(2)] json
    by (auto simp: sinkFor_def secretValue_def readSecretKey_ok split: option.splits)
qed

lemma buildWebhookSink_ok:
  assumes "buildWebhookSink f s = Some (Inr k)" "sk_type s = SinkTypeWebhook"
  shows "sinkFor f s k"
proof -
  obtain c where c: "sk_webhook s = Some c" using assms by (cases "sk_webhook s") (auto simp: buildWebhookSink_def)
  define cfg where "cfg = \<lparr>wh_endpoint = ws_endpoint c, wh_insecureSkipVerify = False, wh_caFile = '''', wh_caPEM = '''',
                wh_clientCertFile = '''', wh_clientKeyFile = '''', wh_clientCertPEM = '''', wh_clientKeyPEM = '''',
                wh_bearerTokenFile = '''', wh_bearerToken = '''', wh_timeout = 0,
                wh_controllerVersion = fe_controllerVersion f\<rparr>"
  obtain cfg' where cfg': "(case ws_auth c of None \<Rightarrow> Inr cfg | Some a \<Rightarrow> webhookAuth f (sk_name s) a cfg) = Inr cfg'"
    using assms c by (auto simp: buildWebhookSink_def Let_def cfg_def [symmetric] split: sum.splits)
  obtain w where w: "k = Webhook w" "NewWebhookSink (fe_webhook f) cfg' = Inr w"
    using assms(1) c cfg' by (auto simp: buildWebhookSink_def Let_def cfg_def [symmetric] split: sum.splits)
  have auth: "wh_endpoint cfg' = ws_endpoint c \<and> \<not> wh_insecureSkipVerify cfg' \<and> wh_bearerTokenFile cfg' = '''' \<and>
      (\<forall>a. ws_auth c = Some a \<longrightarrow> wa_bearerToken a = None \<or> wa_mtls a = None) \<and>
      (case Option.bind (ws_auth c) wa_bearerToken of None \<Rightarrow> wh_bearerToken cfg' = ''''
       | Some ref \<Rightarrow> secretValue f ref = Some (wh_bearerToken cfg') \<and> wh_bearerToken cfg' \<noteq> '''')"
  proof (cases "ws_auth c")
    case None
    then show ?thesis using cfg' by (auto simp: cfg_def)
  next
    case (Some a)
    then have "webhookAuth f (sk_name s) a cfg = Inr cfg'" using cfg' by simp
    from webhookAuth_ok [OF this] show ?thesis using Some by (simp add: cfg_def)
  qed
  then show ?thesis
    using c assms(2) w(1) NewWebhookSink_ok [OF w(2)]
    by (auto simp: sinkFor_def webhookToken_def Let_def split: option.splits if_splits)
qed

lemma buildSink_ok: "buildSink f s = Some (Inr k) \<Longrightarrow> sinkFor f s k"
  by (auto simp: buildSink_def buildGCSSink_ok buildWebhookSink_ok split: SinkType.splits)

lemma buildSink_total: "wellShaped s \<Longrightarrow> buildSink f s \<noteq> None"
  by (auto simp: buildSink_def wellShaped_def buildGCSSink_def buildWebhookSink_def Let_def split: SinkType.splits)

lemma BuildSinks_total: "\<forall>s \<in> set ss. wellShaped s \<Longrightarrow> \<exists>ks es. BuildSinks f ss = Some (ks, es)"
proof (induction ss)
  case (Cons s ss)
  obtain x where "buildSink f s = Some x" using Cons.prems buildSink_total [of s f] by (cases "buildSink f s") auto
  then show ?case using Cons by (cases x) auto
qed simp

lemma BuildSinks_outcomes:
  "BuildSinks f ss = Some (ks, es) \<Longrightarrow>
    map Some ks = filter (\<lambda>x. x \<noteq> None) (map (\<lambda>s. case buildSink f s of Some (Inr k) \<Rightarrow> Some k | _ \<Rightarrow> None) ss) \<and>
    length ks + length es = length ss"
  by (induction f ss arbitrary: ks es rule: BuildSinks.induct) (force split: option.splits sum.splits)+

lemma BuildSinks_all:
  "BuildSinks f ss = Some (ks, []) \<Longrightarrow> list_all2 (sinkFor f) ss ks"
  by (induction f ss arbitrary: ks rule: BuildSinks.induct)
    (auto split: option.splits sum.splits dest: buildSink_ok)

text \<open>Secrets of other namespaces have no influence.\<close>

definition withOtherSecrets :: "(string \<Rightarrow> string \<Rightarrow> secret_data api_result) \<Rightarrow> 'c factory_env \<Rightarrow> 'c factory_env" where
  "withOtherSecrets g f = f\<lparr>fe_get := \<lambda>ns. if ns = fe_namespace f then fe_get f ns else g ns\<rparr>"

lemma readSecretKey_other: "readSecretKey (withOtherSecrets g f) = readSecretKey f"
proof -
  have "fe_get (withOtherSecrets g f) (fe_namespace f) = fe_get f (fe_namespace f)"
    "fe_namespace (withOtherSecrets g f) = fe_namespace f" by (simp_all add: withOtherSecrets_def)
  then show ?thesis by (intro ext) (simp only: readSecretKey_def)
qed

lemma buildSink_other: "buildSink (withOtherSecrets g f) s = buildSink f s"
proof -
  have "webhookAuth (withOtherSecrets g f) = webhookAuth f"
    by (intro ext) (simp only: webhookAuth_def readSecretKey_other)
  moreover have "fe_newClient (withOtherSecrets g f) = fe_newClient f" "fe_webhook (withOtherSecrets g f) = fe_webhook f"
    "fe_controllerVersion (withOtherSecrets g f) = fe_controllerVersion f"
    by (simp_all add: withOtherSecrets_def)
  ultimately show ?thesis
    by (simp only: buildSink_def buildGCSSink_def buildWebhookSink_def readSecretKey_other)
qed

lemma BuildSinks_other: "BuildSinks (withOtherSecrets g f) ss = BuildSinks f ss"
  by (induction ss) (simp_all only: BuildSinks.simps buildSink_other)

subsection \<open>The loader with this factory\<close>

definition loaderSinks :: "'c factory_env \<Rightarrow> SinkConfig list \<Rightarrow> 'c sink list \<times> LoadError list" where
  "loaderSinks f ss = the (BuildSinks f ss)"

text \<open>
  Loading with the Secret-reading factory never dereferences a missing body, and Secrets outside the
  namespace of the controller do not matter. When the configuration is accepted, its sinks are
  those of its entries, one for one and in order, with exactly the credentials of the Secrets they
  refer to; certificates are always checked; and a sink that holds a bearer token has no mutual TLS
  entry beside it and an endpoint that is not cleartext.
\<close>

theorem accepted_sinks_built:
  assumes "Load env (loaderSinks f) get now configName = Inr (r, closed)" "\<not> HasErrors r" "lr_snapshot r = Some s"
    "get (if configName = '''' then DefaultConfigName else configName) = Found cr"
  shows "BuildSinks f (cr_sinks cr) = Some (sn_externalSinks s, []) \<and>
    (\<forall>g. BuildSinks (withOtherSecrets g f) (cr_sinks cr) = BuildSinks f (cr_sinks cr)) \<and>
    list_all2 (sinkFor f) (cr_sinks cr) (sn_externalSinks s) \<and>
    (\<forall>w. Webhook w \<in> set (sn_externalSinks s) \<and> whk_token w \<noteq> '''' \<longrightarrow> \<not> cleartextEndpoint (wh_endpoint (whk_cfg w)))"
proof -
  have acc: "specAccepted env (loaderSinks f) cr"
    using assms parseSpec_errors_iff [of env "loaderSinks f" now cr] by (auto simp: Load_def HasErrors_def)
  then obtain s' where "parseSpec env (loaderSinks f) now cr = (\<lparr>lr_snapshot = Some s', lr_errors = []\<rparr>, [])"
    "sn_externalSinks s' = fst (loaderSinks f (cr_sinks cr))"
    using parseSpec_accepted by blast
  then have sinks: "sn_externalSinks s = fst (loaderSinks f (cr_sinks cr))"
    using assms by (auto simp: Load_def)
  have shaped: "\<forall>k \<in> set (cr_sinks cr). wellShaped k" and "snd (loaderSinks f (cr_sinks cr)) = []"
    using acc by (auto simp: specAccepted_def)
  then have built: "BuildSinks f (cr_sinks cr) = Some (sn_externalSinks s, [])"
    using BuildSinks_total [OF shaped, of f] sinks by (auto simp: loaderSinks_def)
  then have all: "list_all2 (sinkFor f) (cr_sinks cr) (sn_externalSinks s)" by (rule BuildSinks_all)
  have "\<not> cleartextEndpoint (wh_endpoint (whk_cfg w))"
    if w: "Webhook w \<in> set (sn_externalSinks s)" "whk_token w \<noteq> ''''" for w
  proof -
    obtain k where k: "k \<in> set (cr_sinks cr)" "sinkFor f k (Webhook w)"
      using all w(1) by (metis in_set_conv_nth list_all2_conv_all_nth)
    then obtain c where c: "sk_webhook k = Some c" "wh_endpoint (whk_cfg w) = ws_endpoint c"
      "Option.bind (ws_auth c) wa_bearerToken \<noteq> None" "sk_type k = SinkTypeWebhook"
      using w(2) by (auto simp: sinkFor_def split: option.splits)
    then show ?thesis using shaped k(1) by (auto simp: wellShaped_def)
  qed
  then show ?thesis using built all BuildSinks_other by blast
qed

text \<open>A bucket with credentials from a Secret, next to a webhook without authentication.\<close>

definition exampleFactoryEnv :: "string factory_env" where
  "exampleFactoryEnv = \<lparr>fe_get = \<lambda>ns name. if ns = ''aibom'' \<and> name = ''gcs'' then Found [(''key.json'', ''{}'')] else NotFound,
     fe_namespace = ''aibom'', fe_controllerVersion = ''v1'', fe_newClient = \<lambda>_. Inr ''client'',
     fe_webhook = \<lparr>we_parseURL = \<lambda>_. Inr \<lparr>url_scheme = ''http'', url_host = ''sink.audit'', url_user = None\<rparr>,
       we_disableSSRFChecks = False, we_readFile = Inl, we_appendCerts = \<lambda>_. True, we_X509KeyPair = \<lambda>_ _. Inl '''',
       we_LoadX509KeyPair = \<lambda>_ _. Inl ''''\<rparr>\<rparr>"

definition exampleSinkSpecs :: "SinkConfig list" where
  "exampleSinkSpecs =
    [\<lparr>sk_name = ''archive'', sk_type = SinkTypeGCS, sk_gcs = Some \<lparr>gs_bucket = ''b'', gs_pathTemplate = '''',
        gs_credentialsSecretRef = Some \<lparr>skr_name = ''gcs'', skr_key = ''key.json''\<rparr>\<rparr>, sk_webhook = None\<rparr>,
     \<lparr>sk_name = ''siem'', sk_type = SinkTypeWebhook, sk_gcs = None,
        sk_webhook = Some \<lparr>ws_endpoint = ''http://sink.audit'', ws_auth = None\<rparr>\<rparr>]"

lemma exampleSinks_built: "\<exists>ks. BuildSinks exampleFactoryEnv exampleSinkSpecs = Some (ks, []) \<and> length ks = 2"
  by (simp add: exampleSinkSpecs_def exampleFactoryEnv_def buildSink_def buildGCSSink_def buildWebhookSink_def
      readSecretKey_def NewGCSSink_def gcs_Validate_def NewWebhookSink_def webhook_Validate_def localHost_def Hostname_def
      cutLast_def cutFirst_def hasPrefix_def toLower_def toLowerByte_def webhookRootCAs_def webhookCertificates_def webhookToken_def Let_def)

theorem accepted_sinks_built_witness:
  "\<exists>ks. BuildSinks exampleFactoryEnv exampleSinkSpecs = Some (ks, []) \<and> list_all2 (sinkFor exampleFactoryEnv) exampleSinkSpecs ks \<and> length ks = 2"
proof -
  let ?cr = "(exampleCR ''https://audit.example'')\<lparr>cr_sinks := exampleSinkSpecs\<rparr>"
  have "specAccepted exampleConfigEnv (loaderSinks exampleFactoryEnv) ?cr"
    using exampleCR_accepted exampleSinks_built
    by (auto simp: specAccepted_def exampleSinkSpecs_def wellShaped_def loaderSinks_def exampleCR_def)
  then obtain s where s: "parseSpec exampleConfigEnv (loaderSinks exampleFactoryEnv) 5 ?cr = (\<lparr>lr_snapshot = Some s, lr_errors = []\<rparr>, [])"
    using parseSpec_accepted by blast
  then have "Load exampleConfigEnv (loaderSinks exampleFactoryEnv) (\<lambda>_. Found ?cr) 5 '''' = Inr (\<lparr>lr_snapshot = Some s, lr_errors = []\<rparr>, [])"
    by (simp add: Load_def)
  from accepted_sinks_built [OF this, of s ?cr] have "BuildSinks exampleFactoryEnv exampleSinkSpecs = Some (sn_externalSinks s, [])"
    "list_all2 (sinkFor exampleFactoryEnv) exampleSinkSpecs (sn_externalSinks s)"
    by (simp_all add: HasErrors_def)
  then show ?thesis using exampleSinks_built by auto
qed

end
