(* ===== verification/Ownership.thy ===== *)
theory Ownership
  imports Kube_Types Workload_Kinds
begin

text \<open>
  Ownership roll-up (\<^verbatim>\<open>internal/controller/ownership_rollup.go\<close>, \<^verbatim>\<open>pod_ownership.go\<close>): the set of
  tracked kinds, the upward walk that decides whether a workload is reported by an owner, the
  descendant closure of a root, and the attribution of pods. The API reads are parameters: \<open>get\<close> for
  one object and \<open>list\<close> for the objects of a kind in the namespace. The order in which Go ranges
  over a map is a parameter of every pass of the closure.
\<close>

subsection \<open>Tracked kinds\<close>

text \<open>\<open>tk_follows\<close> tells whether \<^verbatim>\<open>Follow\<close> has set a store; its live allowlist is an argument of \<open>Owns\<close>.\<close>

record TrackedKinds =
  tk_kinds :: "GroupKind list"
  tk_follows :: bool

definition NewTrackedKinds :: TrackedKinds where
  "NewTrackedKinds = \<lparr>tk_kinds = [], tk_follows = False\<rparr>"

definition tracked_Add :: "GroupKind \<Rightarrow> TrackedKinds \<Rightarrow> bool \<times> TrackedKinds" where
  "tracked_Add gk t = (if gk \<in> set (tk_kinds t) then (False, t) else (True, t\<lparr>tk_kinds := gk # tk_kinds t\<rparr>))"

definition tracked_Remove :: "GroupKind \<Rightarrow> TrackedKinds \<Rightarrow> bool \<times> TrackedKinds" where
  "tracked_Remove gk t = (if gk \<notin> set (tk_kinds t) then (False, t) else (True, t\<lparr>tk_kinds := removeAll gk (tk_kinds t)\<rparr>))"

definition tracked_Has :: "TrackedKinds option \<Rightarrow> GroupKind \<Rightarrow> bool" where
  "tracked_Has t gk = (case t of None \<Rightarrow> False | Some s \<Rightarrow> gk \<in> set (tk_kinds s))"

definition tracked_Follow :: "bool \<Rightarrow> TrackedKinds \<Rightarrow> TrackedKinds" where
  "tracked_Follow hasStore t = t\<lparr>tk_follows := hasStore\<rparr>"

definition tracked_Owns :: "TrackedKinds option \<Rightarrow> WorkloadKindSet \<Rightarrow> GroupKind \<Rightarrow> bool" where
  "tracked_Owns t allowlist gk =
    (if \<not> tracked_Has t gk then False
     else (case t of None \<Rightarrow> False | Some s \<Rightarrow> if \<not> tk_follows s then True else Allows allowlist gk))"

record OwnedWorkload =
  ow_kind :: string
  ow_name :: string
  ow_uid :: string

definition owned_String :: "OwnedWorkload \<Rightarrow> string" where
  "owned_String w = ow_kind w @ ''/'' @ ow_name w"

definition ownedStrings :: "OwnedWorkload list \<Rightarrow> string list" where
  "ownedStrings owned = map owned_String owned"

subsection \<open>The upward walk\<close>

type_synonym gvk = "string \<times> string \<times> string"

text \<open>
  The library calls of the walk: \<^verbatim>\<open>metav1.GetControllerOf\<close>, \<^verbatim>\<open>schema.ParseGroupVersion\<close> and the
  client's \<^verbatim>\<open>Get\<close>, whose not-found, forbidden and no-match errors count as unreadable.
\<close>

datatype get_error = Unreadable string | GetFailed string

record owner_env =
  oe_controllerOf :: "owner_reference list \<Rightarrow> owner_reference option"
  oe_parseGV :: "string \<Rightarrow> string + string \<times> string"
  oe_get :: "gvk \<Rightarrow> string \<Rightarrow> get_error + object_meta"

datatype owner_outcome = OwnerNone | OwnerTracked OwnedWorkload | OwnerUnresolved string

definition rollupMaxDepth :: nat where "rollupMaxDepth = 6"

fun ownerWalk :: "owner_env \<Rightarrow> (GroupKind \<Rightarrow> bool) \<Rightarrow> nat \<Rightarrow> owner_reference list \<Rightarrow> owner_outcome" where
  "ownerWalk env owns 0 refs = OwnerUnresolved (''owner chain deeper than '' @ showNat rollupMaxDepth)"
| "ownerWalk env owns (Suc n) refs =
    (case oe_controllerOf env refs of
       None \<Rightarrow> OwnerNone
     | Some ref \<Rightarrow>
        (let who = ''owner '' @ or_kind ref @ ''/'' @ or_name ref in
         case oe_parseGV env (or_apiVersion ref) of
           Inl err \<Rightarrow> OwnerUnresolved (who @ '' apiVersion '' @ goQuote (or_apiVersion ref) @ '': '' @ err)
         | Inr (grp, ver) \<Rightarrow>
            (case oe_get env (grp, ver, or_kind ref) (or_name ref) of
               Inl (Unreadable err) \<Rightarrow> OwnerUnresolved (who @ '' unreadable: '' @ err)
             | Inl (GetFailed err) \<Rightarrow> OwnerUnresolved (''get '' @ who @ '': '' @ err)
             | Inr m \<Rightarrow>
                if om_uid m \<noteq> or_uid ref
                then OwnerUnresolved (who @ '' uid '' @ om_uid m @ '' does not match reference '' @ or_uid ref)
                else if owns (gkind grp (or_kind ref))
                then OwnerTracked \<lparr>ow_kind = or_kind ref, ow_name = or_name ref, ow_uid = or_uid ref\<rparr>
                else ownerWalk env owns n (om_ownerReferences m))))"

definition resolveTrackedOwner ::
  "owner_env \<Rightarrow> TrackedKinds option \<Rightarrow> WorkloadKindSet \<Rightarrow> object_meta \<Rightarrow> owner_outcome" where
  "resolveTrackedOwner env tracked allowlist obj =
    (if tracked = None then OwnerNone
     else ownerWalk env (tracked_Owns tracked allowlist) rollupMaxDepth (om_ownerReferences obj))"

text \<open>\<^verbatim>\<open>EnqueueRootForPod\<close>: the name of the root of kind \<open>gk\<close> that owns a pod through its chain.\<close>

fun rootForPodWalk :: "owner_env \<Rightarrow> GroupKind \<Rightarrow> nat \<Rightarrow> owner_reference list \<Rightarrow> string option" where
  "rootForPodWalk env gk 0 refs = None"
| "rootForPodWalk env gk (Suc n) refs =
    (case oe_controllerOf env refs of
       None \<Rightarrow> None
     | Some ref \<Rightarrow>
        (case oe_parseGV env (or_apiVersion ref) of
           Inl _ \<Rightarrow> None
         | Inr (grp, ver) \<Rightarrow>
             if grp = gk_group gk \<and> or_kind ref = gk_kind gk then Some (or_name ref)
             else (case oe_get env (grp, ver, or_kind ref) (or_name ref) of
                Inl _ \<Rightarrow> None
              | Inr m \<Rightarrow> rootForPodWalk env gk n (om_ownerReferences m))))"

definition EnqueueRootForPod :: "owner_env \<Rightarrow> GroupKind \<Rightarrow> pod \<Rightarrow> (string \<times> string) list" where
  "EnqueueRootForPod env gk p =
    (case rootForPodWalk env gk rollupMaxDepth (om_ownerReferences (pod_meta p)) of
       None \<Rightarrow> [] | Some name \<Rightarrow> [(om_namespace (pod_meta p), name)])"

subsection \<open>Pod attribution\<close>

definition controllerRef :: "owner_reference list \<Rightarrow> owner_reference option" where
  "controllerRef refs = find (\<lambda>r. or_controller r = Some True) refs"

definition controllerOwnerUID :: "pod \<Rightarrow> string option" where
  "controllerOwnerUID p = map_option or_uid (controllerRef (om_ownerReferences (pod_meta p)))"

definition filterPodsOwnedBy :: "pod list \<Rightarrow> string list \<Rightarrow> pod list" where
  "filterPodsOwnedBy pods owners =
    (if owners = [] then []
     else filter (\<lambda>p. case controllerOwnerUID p of None \<Rightarrow> False | Some u \<Rightarrow> u \<in> set owners) pods)"

definition singleOwner :: "string \<Rightarrow> string list" where "singleOwner uid = [uid]"

type_synonym lister = "gvk \<Rightarrow> string + object_meta list"

definition replicaSetOwnerUIDs :: "lister \<Rightarrow> object_meta \<Rightarrow> string + string list" where
  "replicaSetOwnerUIDs ls dep = (case ls (''apps'', ''v1'', ''ReplicaSet'') of
     Inl err \<Rightarrow> Inl (''list replicasets: '' @ err)
   | Inr rss \<Rightarrow> Inr (map om_uid (filter (\<lambda>rs. list_ex (\<lambda>r. or_controller r = Some True \<and> or_uid r = om_uid dep)
        (om_ownerReferences rs)) rss)))"

subsection \<open>Descendants of a root\<close>

record ownedNode =
  nd_kind :: string
  nd_group :: string
  nd_name :: string
  nd_owner :: string

definition nodeOf :: "string \<Rightarrow> string \<Rightarrow> object_meta \<Rightarrow> string \<times> ownedNode" where
  "nodeOf kind grp m = (om_uid m, \<lparr>nd_kind = kind, nd_group = grp, nd_name = om_name m,
     nd_owner = (case controllerRef (om_ownerReferences m) of None \<Rightarrow> '''' | Some r \<Rightarrow> or_uid r)\<rparr>)"

definition lwsGVK :: gvk where "lwsGVK = (''leaderworkerset.x-k8s.io'', ''v1'', ''LeaderWorkerSet'')"

definition intermediateKinds :: "gvk list" where
  "intermediateKinds = [(''nvidia.com'', ''v1beta1'', ''DynamoComponentDeployment''),
     (''grove.io'', ''v1alpha1'', ''PodCliqueSet''), (''grove.io'', ''v1alpha1'', ''PodCliqueScalingGroup''),
     (''grove.io'', ''v1alpha1'', ''PodClique'')]"

text \<open>The kinds that are listed, in order.\<close>

definition listedKinds :: "TrackedKinds option \<Rightarrow> gvk list" where
  "listedKinds tracked =
    [(''apps'', ''v1'', ''Deployment''), (''apps'', ''v1'', ''ReplicaSet''), (''apps'', ''v1'', ''StatefulSet''), (''batch'', ''v1'', ''Job'')] @
    filter (\<lambda>(g, v, k). (g, v, k) = lwsGVK \<longrightarrow> tracked_Has tracked (gkind g k)) (lwsGVK # intermediateKinds)"

definition listedNodes :: "lister \<Rightarrow> gvk \<Rightarrow> (string \<times> ownedNode) list" where
  "listedNodes ls x = (case x of (g, v, k) \<Rightarrow> case ls x of Inl _ \<Rightarrow> [] | Inr ms \<Rightarrow> map (nodeOf k g) ms)"

definition putNode :: "string \<times> ownedNode \<Rightarrow> (string \<times> ownedNode) list \<Rightarrow> (string \<times> ownedNode) list" where
  "putNode e nodes = e # filter (\<lambda>x. fst x \<noteq> fst e) nodes"

definition gatherNodes :: "TrackedKinds option \<Rightarrow> lister \<Rightarrow> (string \<times> ownedNode) list" where
  "gatherNodes tracked ls = fold putNode (concat (map (listedNodes ls) (listedKinds tracked))) []"

text \<open>One pass over the map, in the order given, and the loop; \<open>orders k\<close> is the order of pass \<open>k\<close>.\<close>

definition closureStep :: "string \<Rightarrow> string \<times> ownedNode \<Rightarrow> string list \<times> bool \<Rightarrow> string list \<times> bool" where
  "closureStep root e st = (case (e, st) of ((uid, n), (desc, changed)) \<Rightarrow>
     if uid \<in> set desc then (desc, changed)
     else if nd_owner n = root then (uid # desc, True)
     else if nd_owner n \<in> set desc then (uid # desc, True)
     else (desc, changed))"

partial_function (option) closureLoop ::
  "(nat \<Rightarrow> (string \<times> ownedNode) list) \<Rightarrow> string \<Rightarrow> nat \<Rightarrow> string list \<Rightarrow> string list option" where
  "closureLoop orders root k desc =
    (case fold (closureStep root) (orders k) (desc, False) of
       (desc', changed) \<Rightarrow> if changed then closureLoop orders root (Suc k) desc' else Some desc')"

definition ownedOf :: "TrackedKinds option \<Rightarrow> (string \<times> ownedNode) list \<Rightarrow> string list \<Rightarrow> OwnedWorkload list" where
  "ownedOf tracked nodes desc =
    sort_key (\<lambda>w. (ow_kind w, ow_name w))
      (concat (map (\<lambda>uid. case map_of nodes uid of None \<Rightarrow> []
         | Some n \<Rightarrow> if tracked_Has tracked (gkind (nd_group n) (nd_kind n))
             then [\<lparr>ow_kind = nd_kind n, ow_name = nd_name n, ow_uid = uid\<rparr>] else []) desc))"

definition rootDescendants ::
  "TrackedKinds option \<Rightarrow> lister \<Rightarrow> (string + pod list) \<Rightarrow> (nat \<Rightarrow> (string \<times> ownedNode) list \<Rightarrow> (string \<times> ownedNode) list) \<Rightarrow>
   string \<Rightarrow> (OwnedWorkload list \<times> pod list) option" where
  "rootDescendants tracked ls pods orders root =
    (let nodes = gatherNodes tracked ls in
     map_option (\<lambda>desc. (ownedOf tracked nodes desc,
         case pods of Inl _ \<Rightarrow> [] | Inr ps \<Rightarrow> filterPodsOwnedBy ps (root # desc)))
       (closureLoop (\<lambda>k. orders k nodes) root 0 []))"

subsection \<open>The closure terminates and is the set of descendants\<close>

inductive descendant :: "(string \<times> ownedNode) set \<Rightarrow> string \<Rightarrow> string \<Rightarrow> bool" for N root where
  child: "(uid, n) \<in> N \<Longrightarrow> nd_owner n = root \<Longrightarrow> descendant N root uid"
| further: "descendant N root p \<Longrightarrow> (uid, n) \<in> N \<Longrightarrow> nd_owner n = p \<Longrightarrow> descendant N root uid"

lemma closureStep_cases:
  "closureStep root (uid, n) (desc, ch) =
    (if uid \<notin> set desc \<and> (nd_owner n = root \<or> nd_owner n \<in> set desc) then (uid # desc, True) else (desc, ch))"
  by (auto simp: closureStep_def)

lemma closurePass:
  assumes "fold (closureStep root) es (desc, ch) = (desc', ch')"
  shows "set desc \<subseteq> set desc' \<and> set desc' \<subseteq> set desc \<union> fst ` set es \<and> (distinct desc \<longrightarrow> distinct desc') \<and>
    (ch' \<longrightarrow> ch \<or> length desc < length desc') \<and> length desc \<le> length desc' \<and> (ch \<longrightarrow> ch') \<and>
    (\<not> ch' \<longrightarrow> desc' = desc \<and> (\<forall>(uid, n) \<in> set es. nd_owner n = root \<or> nd_owner n \<in> set desc \<longrightarrow> uid \<in> set desc))"
  using assms
proof (induction es arbitrary: desc ch)
  case (Cons e es)
  obtain uid n where e: "e = (uid, n)" by (cases e)
  show ?case
  proof (cases "uid \<notin> set desc \<and> (nd_owner n = root \<or> nd_owner n \<in> set desc)")
    case True
    then have step: "fold (closureStep root) es (uid # desc, True) = (desc', ch')"
      using Cons.prems by (simp add: e closureStep_cases)
    show ?thesis using Cons.IH [OF step] True by (auto simp: e)
  next
    case False
    then have step: "fold (closureStep root) es (desc, ch) = (desc', ch')"
      using Cons.prems by (simp only: e fold_simps closureStep_cases if_False)
    show ?thesis using Cons.IH [OF step] False by (auto simp: e)
  qed
qed simp

lemma closurePass_sound:
  assumes "fold (closureStep root) es (desc, ch) = (desc', ch')" "set es \<subseteq> N" "\<forall>u \<in> set desc. descendant N root u"
  shows "\<forall>u \<in> set desc'. descendant N root u"
  using assms
proof (induction es arbitrary: desc ch)
  case (Cons e es)
  obtain uid n where e: "e = (uid, n)" by (cases e)
  obtain desc1 ch1 where one: "closureStep root e (desc, ch) = (desc1, ch1)" by (cases "closureStep root e (desc, ch)")
  have "descendant N root uid" if "nd_owner n = root \<or> nd_owner n \<in> set desc"
    using that Cons.prems(2,3) by (auto simp: e intro: descendant.intros)
  then have "\<forall>u \<in> set desc1. descendant N root u"
    using one Cons.prems(3) by (auto simp: e closureStep_cases split: if_splits)
  then show ?case using Cons.IH [of desc1 ch1] Cons.prems(1,2) one by simp
qed simp

lemma closureLoop_returns:
  assumes "\<And>k. set (orders k) = N" "set desc \<subseteq> fst ` N" "distinct desc" "\<forall>u \<in> set desc. descendant N root u"
  shows "\<exists>d. closureLoop orders root k desc = Some d \<and> distinct d \<and> set d = {u. descendant N root u}"
  using assms(2-4)
proof (induction "card (fst ` N) - length desc" arbitrary: k desc rule: less_induct)
  case less
  have fin: "finite (fst ` N)" unfolding assms(1) [of 0, symmetric] by simp
  obtain desc' ch where pass: "fold (closureStep root) (orders k) (desc, False) = (desc', ch)"
    by (cases "fold (closureStep root) (orders k) (desc, False)")
  have grow: "set desc' \<subseteq> set desc \<union> fst ` N" and dist: "distinct desc \<longrightarrow> distinct desc'"
    and longer: "ch \<longrightarrow> length desc < length desc'"
    and stop: "\<not> ch \<longrightarrow> desc' = desc \<and> (\<forall>(uid, n) \<in> N. nd_owner n = root \<or> nd_owner n \<in> set desc \<longrightarrow> uid \<in> set desc)"
    and sound: "(\<forall>u \<in> set desc. descendant N root u) \<longrightarrow> (\<forall>u \<in> set desc'. descendant N root u)"
    using closurePass [OF pass] closurePass_sound [OF pass, of N] unfolding assms(1) by simp_all
  have sub: "set desc' \<subseteq> fst ` N" using grow less.prems(1) by blast
  have d: "distinct desc'" "\<forall>u \<in> set desc'. descendant N root u" using dist sound less.prems by simp_all
  show ?case
  proof (cases ch)
    case True
    have "length desc' \<le> card (fst ` N)" using sub d(1) fin by (metis card_mono distinct_card)
    then have "card (fst ` N) - length desc' < card (fst ` N) - length desc" using longer True by linarith
    from less.hyps [OF this sub d, of "Suc k"]
    obtain r where "closureLoop orders root (Suc k) desc' = Some r" "distinct r" "set r = {u. descendant N root u}"
      by blast
    then show ?thesis using pass True by (subst closureLoop.simps) simp
  next
    case False
    then have closed: "\<And>uid n. (uid, n) \<in> N \<Longrightarrow> nd_owner n = root \<or> nd_owner n \<in> set desc \<Longrightarrow> uid \<in> set desc"
      and same: "desc' = desc" using stop by auto
    have "u \<in> set desc" if "descendant N root u" for u
      using that by (induction rule: descendant.induct) (use closed in blast)+
    then have "set desc' = {u. descendant N root u}" using same less.prems(3) by auto
    then show ?thesis using pass False d by (subst closureLoop.simps) simp
  qed
qed

lemma fst_putNode: "fst ` set (fold putNode es acc) = fst ` set es \<union> fst ` set acc"
proof (induction es arbitrary: acc)
  case (Cons e es)
  have "fst ` set (putNode e acc) = insert (fst e) (fst ` set acc)" by (force simp: putNode_def)
  then show ?case using Cons [of "putNode e acc"] by auto
qed simp

lemma distinct_putNode: "distinct (map fst acc) \<Longrightarrow> distinct (map fst (fold putNode es acc))"
proof (induction es arbitrary: acc)
  case (Cons e es)
  have "distinct (map fst (putNode e acc))"
    using Cons.prems by (auto simp: putNode_def distinct_map inj_on_def)
  then show ?case using Cons.IH by simp
qed simp

lemma set_putNode: "set (fold putNode es acc) \<subseteq> set es \<union> set acc"
proof (induction es arbitrary: acc)
  case (Cons e es)
  have "set (putNode e acc) \<subseteq> insert e (set acc)" by (auto simp: putNode_def)
  then show ?case using Cons [of "putNode e acc"] by auto
qed simp

lemma gatherNodes_distinct: "distinct (map fst (gatherNodes tracked ls))"
  by (simp add: gatherNodes_def distinct_putNode)

lemma gatherNodes_entry: "e \<in> set (gatherNodes tracked ls) \<Longrightarrow> \<exists>x \<in> set (listedKinds tracked). e \<in> set (listedNodes ls x)"
  unfolding gatherNodes_def using set_putNode by fastforce

text \<open>An object with a unique UID is in the graph if its kind is listed.\<close>

definition uniqueUIDs :: "lister \<Rightarrow> bool" where
  "uniqueUIDs ls \<longleftrightarrow> (\<forall>x y ms ms' m m'. ls x = Inr ms \<and> ls y = Inr ms' \<and> m \<in> set ms \<and> m' \<in> set ms' \<and> om_uid m = om_uid m'
     \<longrightarrow> x = y \<and> m = m')"

lemma listedNodes_iff: "e \<in> set (listedNodes ls (g, v, k)) \<longleftrightarrow> (\<exists>ms m. ls (g, v, k) = Inr ms \<and> m \<in> set ms \<and> e = nodeOf k g m)"
  by (cases "ls (g, v, k)") (auto simp: listedNodes_def)

lemma gatherNodes_mem:
  assumes "uniqueUIDs ls" "(g, v, k) \<in> set (listedKinds tracked)" "ls (g, v, k) = Inr ms" "m \<in> set ms"
  shows "nodeOf k g m \<in> set (gatherNodes tracked ls)"
proof -
  let ?es = "concat (map (listedNodes ls) (listedKinds tracked))"
  have "nodeOf k g m \<in> set ?es" using assms(2-4) listedNodes_iff by fastforce
  then have "fst (nodeOf k g m) \<in> fst ` set (gatherNodes tracked ls)"
    unfolding gatherNodes_def fst_putNode by auto
  then obtain e where e: "e \<in> set (gatherNodes tracked ls)" "fst e = om_uid m" by (auto simp: nodeOf_def)
  obtain g' v' k' where x: "e \<in> set (listedNodes ls (g', v', k'))"
    using gatherNodes_entry [OF e(1)] by (metis prod_cases3)
  then obtain ms' m' where m': "ls (g', v', k') = Inr ms'" "m' \<in> set ms'" "e = nodeOf k' g' m'"
    unfolding listedNodes_iff by blast
  have "om_uid m = om_uid m'" using e(2) m'(3) by (simp add: nodeOf_def)
  then have "(g, v, k) = (g', v', k') \<and> m = m'" using assms(1,3,4) m'(1,2) unfolding uniqueUIDs_def by blast
  then show ?thesis using e(1) m'(3) by simp
qed

lemma map_sort_key_mset: "mset xs = mset ys \<Longrightarrow> map f (sort_key f xs) = map f (sort_key f ys)"
  for f :: "'a \<Rightarrow> 'b::linorder"
proof -
  have "map f (sort_key f zs) = sort (map f zs)" for zs
    by (rule properties_for_sort [symmetric]) simp_all
  then show "mset xs = mset ys \<Longrightarrow> map f (sort_key f xs) = map f (sort_key f ys)"
    by (metis mset_map sorted_list_of_multiset_mset)
qed

definition nodeOwned :: "TrackedKinds option \<Rightarrow> (string \<times> ownedNode) list \<Rightarrow> string \<Rightarrow> OwnedWorkload list" where
  "nodeOwned tracked nodes uid = (case map_of nodes uid of None \<Rightarrow> []
     | Some n \<Rightarrow> if tracked_Has tracked (gkind (nd_group n) (nd_kind n))
         then [\<lparr>ow_kind = nd_kind n, ow_name = nd_name n, ow_uid = uid\<rparr>] else [])"

lemma ownedOf_nodeOwned: "ownedOf tracked nodes desc = sort_key (\<lambda>w. (ow_kind w, ow_name w)) (concat (map (nodeOwned tracked nodes) desc))"
  by (simp add: ownedOf_def nodeOwned_def [abs_def])

lemma ownedStrings_ownedOf:
  assumes "distinct d" "distinct d'" "set d = set d'"
  shows "ownedStrings (ownedOf tracked nodes d) = ownedStrings (ownedOf tracked nodes d')"
proof -
  let ?key = "\<lambda>w. (ow_kind w, ow_name w)"
  have "mset d = mset d'" using assms by (metis mset_set_set)
  then have "mset (concat (map (nodeOwned tracked nodes) d)) = mset (concat (map (nodeOwned tracked nodes) d'))"
    by (rule mset_concat_map_perm)
  then have keys: "map ?key (ownedOf tracked nodes d) = map ?key (ownedOf tracked nodes d')"
    unfolding ownedOf_nodeOwned by (rule map_sort_key_mset)
  have s: "ownedStrings ws = map (\<lambda>(k, n). k @ ''/'' @ n) (map ?key ws)" for ws
    by (simp add: ownedStrings_def owned_String_def comp_def)
  show ?thesis unfolding s keys ..
qed

text \<open>
  C16. Computing the descendants of a root always ends, in whatever order each pass visits the objects: the
  absorbed workloads are exactly the tracked objects among those the root owns through any chain of
  controller references, sorted by kind and name; the pods are exactly those whose controller is
  the root or such an object; and the recorded names do not depend on the order of visits.
\<close>

theorem rootDescendants_exact:
  assumes "\<And>k. mset (orders k (gatherNodes tracked ls)) = mset (gatherNodes tracked ls)"
    "\<And>k. mset (orders' k (gatherNodes tracked ls)) = mset (gatherNodes tracked ls)"
    "below = descendant (set (gatherNodes tracked ls)) root"
  shows "\<exists>owned ps owned' ps'. rootDescendants tracked ls (Inr pods) orders root = Some (owned, ps) \<and>
    rootDescendants tracked ls (Inr pods) orders' root = Some (owned', ps') \<and>
    set owned = {\<lparr>ow_kind = nd_kind n, ow_name = nd_name n, ow_uid = u\<rparr> |u n.
       (u, n) \<in> set (gatherNodes tracked ls) \<and> below u \<and> tracked_Has tracked (gkind (nd_group n) (nd_kind n))} \<and>
    sorted (map (\<lambda>w. (ow_kind w, ow_name w)) owned) \<and>
    ps = filter (\<lambda>p. \<exists>u. controllerOwnerUID p = Some u \<and> (u = root \<or> below u)) pods \<and>
    ownedStrings owned' = ownedStrings owned \<and> ps' = ps"
proof -
  let ?N = "gatherNodes tracked ls"
  have "\<exists>d. closureLoop (\<lambda>k. ord k ?N) root 0 [] = Some d \<and> distinct d \<and> set d = {u. below u}"
    if "\<And>k. mset (ord k ?N) = mset ?N" for ord
  proof -
    have "set (ord k ?N) = set ?N" for k using that by (metis set_mset_mset)
    then show ?thesis using closureLoop_returns [of "\<lambda>k. ord k ?N" "set ?N" "[]" root 0] assms(3) by simp
  qed
  note loops = this
  obtain d where d: "closureLoop (\<lambda>k. orders k ?N) root 0 [] = Some d" "distinct d" "set d = {u. below u}"
    using loops [of orders, OF assms(1)] by blast
  obtain d' where d': "closureLoop (\<lambda>k. orders' k ?N) root 0 [] = Some d'" "distinct d'" "set d' = {u. below u}"
    using loops [of orders', OF assms(2)] by blast
  have "set (ownedOf tracked ?N d) = {\<lparr>ow_kind = nd_kind n, ow_name = nd_name n, ow_uid = u\<rparr> |u n.
       (u, n) \<in> set ?N \<and> below u \<and> tracked_Has tracked (gkind (nd_group n) (nd_kind n))}"
    using d(3) gatherNodes_distinct [of tracked ls]
    by (auto simp: ownedOf_nodeOwned nodeOwned_def split: option.splits if_splits)
  moreover have "sorted (map (\<lambda>w. (ow_kind w, ow_name w)) (ownedOf tracked ?N d))"
    by (simp add: ownedOf_def)
  moreover have "filterPodsOwnedBy pods (root # x) = filter (\<lambda>p. \<exists>u. controllerOwnerUID p = Some u \<and> (u = root \<or> below u)) pods"
    if "set x = {u. below u}" for x
    using that by (auto simp: filterPodsOwnedBy_def intro!: filter_cong split: option.splits)
  ultimately show ?thesis
    using d d' ownedStrings_ownedOf [OF d'(2) d(2), of tracked ?N] by (simp add: rootDescendants_def Let_def)
qed

subsection \<open>What is suppressed is recorded by its owner\<close>

text \<open>The chain of objects that the walk reads above an object with these owner references.\<close>

fun ownerChain :: "owner_env \<Rightarrow> owner_reference list \<Rightarrow> (gvk \<times> object_meta) list \<Rightarrow> bool" where
  "ownerChain env refs [] = True"
| "ownerChain env refs (((g, v, k), m) # rest) =
    (\<exists>ref. oe_controllerOf env refs = Some ref \<and> oe_parseGV env (or_apiVersion ref) = Inr (g, v) \<and> or_kind ref = k \<and>
       oe_get env (g, v, k) (or_name ref) = Inr m \<and> om_uid m = or_uid ref \<and> ownerChain env (om_ownerReferences m) rest)"

lemma ownerWalk_chain:
  "ownerWalk env owns n refs = OwnerTracked w \<Longrightarrow>
   \<exists>hops g v m. ownerChain env refs (hops @ [((g, v, ow_kind w), m)]) \<and> om_uid m = ow_uid w \<and> owns (gkind g (ow_kind w)) \<and>
     length hops < n \<and> (\<forall>((g', v', k'), m') \<in> set hops. \<not> owns (gkind g' k'))"
proof (induction n arbitrary: refs)
  case (Suc n)
  obtain ref where ref: "oe_controllerOf env refs = Some ref"
    using Suc.prems by (cases "oe_controllerOf env refs") auto
  obtain grp ver where gv: "oe_parseGV env (or_apiVersion ref) = Inr (grp, ver)"
    using Suc.prems ref by (auto simp: Let_def split: sum.splits)
  obtain m where m: "oe_get env (grp, ver, or_kind ref) (or_name ref) = Inr m"
    using Suc.prems ref gv by (auto simp: Let_def split: sum.splits get_error.splits)
  have uid: "om_uid m = or_uid ref" using Suc.prems ref gv m by (auto simp: Let_def split: if_splits)
  show ?case
  proof (cases "owns (gkind grp (or_kind ref))")
    case True
    then have "w = \<lparr>ow_kind = or_kind ref, ow_name = or_name ref, ow_uid = or_uid ref\<rparr>"
      using Suc.prems ref gv m uid by (simp add: Let_def)
    then show ?thesis using True ref gv m uid
      by (intro exI [of _ "[]"] exI [of _ grp] exI [of _ ver] exI [of _ m]) auto
  next
    case False
    then have "ownerWalk env owns n (om_ownerReferences m) = OwnerTracked w"
      using Suc.prems ref gv m uid by (simp add: Let_def)
    from Suc.IH [OF this] obtain hops g v m' where IH:
      "ownerChain env (om_ownerReferences m) (hops @ [((g, v, ow_kind w), m')])" "om_uid m' = ow_uid w"
      "owns (gkind g (ow_kind w))" "length hops < n" "\<forall>((g', v', k'), m') \<in> set hops. \<not> owns (gkind g' k')" by blast
    then have "ownerChain env refs ((((grp, ver, or_kind ref), m) # hops) @ [((g, v, ow_kind w), m')])"
      using ref gv m uid by auto
    then show ?thesis using IH False
      by (intro exI [of _ "((grp, ver, or_kind ref), m) # hops"] exI [of _ g] exI [of _ v] exI [of _ m']) auto
  qed
qed simp

text \<open>The reads of the cluster agree: an object that \<open>get\<close> returns is in the list of its kind.\<close>

definition coherentReads :: "owner_env \<Rightarrow> lister \<Rightarrow> bool" where
  "coherentReads env ls \<longleftrightarrow> uniqueUIDs ls \<and>
    (\<forall>x name m. oe_get env x name = Inr m \<longrightarrow> (\<exists>ms. ls x = Inr ms \<and> m \<in> set ms))"

lemma chain_descendant:
  assumes "coherentReads env ls" "oe_controllerOf env = controllerRef"
    "ownerChain env (om_ownerReferences c) (hops @ [(x, m)])" "nodeOf k0 g0 c \<in> set (gatherNodes tracked ls)"
    "\<forall>(y, m') \<in> set hops. y \<in> set (listedKinds tracked)"
  shows "descendant (set (gatherNodes tracked ls)) (om_uid m) (om_uid c)"
  using assms(3-5)
proof (induction hops arbitrary: c k0 g0)
  case Nil
  obtain ref where "controllerRef (om_ownerReferences c) = Some ref" "om_uid m = or_uid ref"
    using Nil assms(2) by (cases x) auto
  then show ?case using Nil.prems(2) by (auto simp: nodeOf_def intro: descendant.child)
next
  case (Cons y hops)
  obtain g v k m' where y: "y = ((g, v, k), m')" by (metis prod.exhaust)
  obtain ref where ref: "controllerRef (om_ownerReferences c) = Some ref" "oe_get env (g, v, k) (or_name ref) = Inr m'"
    "om_uid m' = or_uid ref" "ownerChain env (om_ownerReferences m') (hops @ [(x, m)])"
    using Cons.prems(1) assms(2) y by auto
  obtain ms where "ls (g, v, k) = Inr ms" "m' \<in> set ms" using assms(1) ref(2) unfolding coherentReads_def by blast
  then have "nodeOf k g m' \<in> set (gatherNodes tracked ls)"
    using gatherNodes_mem assms(1) Cons.prems(3) y unfolding coherentReads_def by auto
  from Cons.IH [OF ref(4) this] Cons.prems(3)
  have "descendant (set (gatherNodes tracked ls)) (om_uid m) (om_uid m')" by simp
  then show ?case using Cons.prems(2) ref(1,3) by (auto simp: nodeOf_def intro: descendant.further)
qed


text \<open>Only listed kinds are recorded; a tracked kind outside the list can be suppressed without a record.\<close>

lemma recorded_kind_listed:
  assumes "rootDescendants tracked ls pods orders root = Some (owned, ps)" "w \<in> set owned"
  shows "\<exists>(g, v, k) \<in> set (listedKinds tracked). ow_kind w = k"
proof -
  obtain d where "owned = ownedOf tracked (gatherNodes tracked ls) d"
    using assms(1) by (auto simp: rootDescendants_def Let_def)
  then obtain u where u: "w \<in> set (nodeOwned tracked (gatherNodes tracked ls) u)"
    using assms(2) by (auto simp: ownedOf_nodeOwned)
  then obtain n where n: "map_of (gatherNodes tracked ls) u = Some n"
    by (cases "map_of (gatherNodes tracked ls) u") (auto simp: nodeOwned_def)
  then have "(u, n) \<in> set (gatherNodes tracked ls)" "ow_kind w = nd_kind n"
    using u map_of_SomeD [OF n] by (auto simp: nodeOwned_def split: if_splits)
  then show ?thesis
    using gatherNodes_entry by (fastforce simp: listedNodes_iff nodeOf_def)
qed

definition exampleCron :: object_meta where
  "exampleCron = emptyMeta\<lparr>om_name := ''cron'', om_uid := ''c''\<rparr>"

definition exampleJob :: object_meta where
  "exampleJob = emptyMeta\<lparr>om_name := ''job'', om_uid := ''j'', om_ownerReferences :=
     [\<lparr>or_apiVersion = ''batch/v1'', or_kind = ''CronJob'', or_name = ''cron'', or_uid = ''c'', or_controller = Some True\<rparr>]\<rparr>"

definition exampleOwnerEnv :: owner_env where
  "exampleOwnerEnv = \<lparr>oe_controllerOf = controllerRef, oe_parseGV = \<lambda>_. Inr (''batch'', ''v1''),
     oe_get = \<lambda>x name. if x = (''batch'', ''v1'', ''CronJob'') \<and> name = ''cron'' then Inr exampleCron else Inl (Unreadable ''not found'')\<rparr>"

definition exampleLister :: lister where
  "exampleLister x = Inr (if x = (''batch'', ''v1'', ''CronJob'') then [exampleCron] else if x = (''batch'', ''v1'', ''Job'') then [exampleJob] else [])"

definition exampleTracked :: "TrackedKinds option" where
  "exampleTracked = Some \<lparr>tk_kinds = [gkind ''batch'' ''Job'', gkind ''batch'' ''CronJob''], tk_follows = True\<rparr>"

lemma exampleCoherent: "coherentReads exampleOwnerEnv exampleLister"
proof -
  have "exampleCron \<noteq> exampleJob" "om_uid exampleCron \<noteq> om_uid exampleJob"
    by (simp_all add: exampleCron_def exampleJob_def emptyMeta_def)
  then have "uniqueUIDs exampleLister"
    unfolding uniqueUIDs_def exampleLister_def by (auto split: if_splits)
  then show ?thesis
    unfolding coherentReads_def exampleOwnerEnv_def by (auto simp: exampleLister_def)
qed

lemma exampleSuppressed:
  "resolveTrackedOwner exampleOwnerEnv exampleTracked AllWorkloadKinds exampleJob =
   OwnerTracked \<lparr>ow_kind = ''CronJob'', ow_name = ''cron'', ow_uid = ''c''\<rparr>"
  by (simp add: resolveTrackedOwner_def exampleTracked_def rollupMaxDepth_def numeral_eq_Suc exampleOwnerEnv_def exampleJob_def
      exampleCron_def emptyMeta_def controllerRef_def tracked_Owns_def tracked_Has_def Allows_def AllWorkloadKinds_def)

theorem rootDescendants_exact_witness:
  "\<exists>owned ps. rootDescendants exampleTracked exampleLister (Inr []) (\<lambda>_ ns. ns) ''c'' = Some (owned, ps) \<and>
     sorted (map (\<lambda>w. (ow_kind w, ow_name w)) owned)"
proof -
  let ?N = "gatherNodes exampleTracked exampleLister"
  have same: "mset ((\<lambda>_ ns. ns) k ?N) = mset ?N" for k :: nat by simp
  have swap: "mset ((\<lambda>k ns. if even k then rev ns else ns) k ?N) = mset ?N" for k :: nat by simp
  from rootDescendants_exact [of "\<lambda>_ ns. ns" exampleTracked exampleLister "\<lambda>k ns. if even k then rev ns else ns", OF same swap refl,
      where pods = "[]" and root = "''c''"]
  show ?thesis by blast
qed


end
