(* ===== verification/Watch_Discovery.thy ===== *)
theory Watch_Discovery
  imports Watch_Health Ownership
begin

text \<open>
  \<^verbatim>\<open>internal/controller/watch_discovery.go\<close>: what the watch supervisor knows about the CRD of each candidate
  kind, and the health of the discovery itself. A read of a CRD is a function of the worker's state
  and of what the API answers; it returns whether to retry and the calls of \<^verbatim>\<open>publish\<close> and
  \<^verbatim>\<open>publishLag\<close> in their order. A CRD object is given by the answers of the accessors of
  \<^verbatim>\<open>unstructured\<close>; the REST mapper, the clock and the text of a group-version-kind are parameters.
\<close>

subsection \<open>Candidates and observations\<close>

record ThirdPartyWatch =
  tw_name :: string
  tw_gvk :: gvk
  tw_crd :: string

definition tw_gk :: "ThirdPartyWatch \<Rightarrow> GroupKind" where
  "tw_gk w = (case tw_gvk w of (g, v, k) \<Rightarrow> gkind g k)"

datatype crdState = CrdUnknown | CrdReady | CrdUnservable | CrdRemoved

fun crdState_str :: "crdState \<Rightarrow> string" where
  "crdState_str CrdUnknown = ''Unknown''"
| "crdState_str CrdReady = ''Ready''"
| "crdState_str CrdUnservable = ''Unservable''"
| "crdState_str CrdRemoved = ''Removed''"

record crdObservation =
  co_state :: crdState
  co_uid :: string
  co_reason :: string
  co_late :: bool
  co_lagErr :: "string option"
  co_lagSeq :: int

definition noObservation :: crdObservation where
  "noObservation = \<lparr>co_state = CrdUnknown, co_uid = '''', co_reason = '''', co_late = False, co_lagErr = None, co_lagSeq = 0\<rparr>"

definition observed :: "crdState \<Rightarrow> string \<Rightarrow> string \<Rightarrow> bool \<Rightarrow> int \<Rightarrow> crdObservation" where
  "observed state uid reason late lagSeq =
    \<lparr>co_state = state, co_uid = uid, co_reason = reason, co_late = late, co_lagErr = None, co_lagSeq = lagSeq\<rparr>"

record crdWorker =
  cw_state :: crdState
  cw_uid :: string
  cw_sawAbsent :: bool
  cw_firstUID :: string
  cw_loggedAbsent :: bool
  cw_lagSince :: "time option"
  cw_lagSeq :: int
  cw_lagReported :: bool

definition newCrdWorker :: crdWorker where
  "newCrdWorker = \<lparr>cw_state = CrdUnknown, cw_uid = '''', cw_sawAbsent = False, cw_firstUID = '''', cw_loggedAbsent = False,
     cw_lagSince = None, cw_lagSeq = 0, cw_lagReported = False\<rparr>"

definition isLate :: "crdWorker \<Rightarrow> string \<Rightarrow> bool" where
  "isLate k uid = (cw_sawAbsent k \<or> (cw_firstUID k \<noteq> '''' \<and> cw_firstUID k \<noteq> uid))"

subsection \<open>Readiness of a CRD\<close>

text \<open>A CRD object: the answers of \<^verbatim>\<open>NestedString\<close> and \<^verbatim>\<open>NestedSlice\<close> at a path, zero values where there is nothing.\<close>

record crd_object =
  crd_uid :: string
  crd_deleting :: bool
  crd_string :: "string list \<Rightarrow> string"
  crd_slice :: "string list \<Rightarrow> json list"

text \<open>An entry of a map asserted to be a string or a bool; a failed assertion gives the zero value.\<close>

definition stringAt :: "(string \<times> json) list \<Rightarrow> string \<Rightarrow> string" where
  "stringAt m key = (case map_of m key of Some (JString s) \<Rightarrow> s | _ \<Rightarrow> '''')"

definition boolAt :: "(string \<times> json) list \<Rightarrow> string \<Rightarrow> bool" where
  "boolAt m key = (case map_of m key of Some (JBool b) \<Rightarrow> b | _ \<Rightarrow> False)"

fun servesVersion :: "string \<Rightarrow> json list \<Rightarrow> bool" where
  "servesVersion version [] = False"
| "servesVersion version (JObject m # vs) =
    (if stringAt m ''name'' = version then boolAt m ''served'' else servesVersion version vs)"
| "servesVersion version (_ # vs) = servesVersion version vs"

fun isEstablished :: "json list \<Rightarrow> bool" where
  "isEstablished [] = False"
| "isEstablished (JObject m # cs) =
    (if stringAt m ''type'' = ''Established'' then stringAt m ''status'' = ''True'' else isEstablished cs)"
| "isEstablished (_ # cs) = isEstablished cs"

definition crdReady :: "crd_object \<Rightarrow> gvk \<Rightarrow> bool \<times> string" where
  "crdReady u gvk = (case gvk of (grp, version, kind) \<Rightarrow>
    if crd_deleting u then (False, ''being deleted'')
    else if crd_string u [''spec'', ''group''] \<noteq> grp
    then (False, ''spec.group is '' @ goQuote (crd_string u [''spec'', ''group'']) @ '', want '' @ goQuote grp)
    else if crd_string u [''spec'', ''names'', ''kind''] \<noteq> kind
    then (False, ''spec.names.kind is '' @ goQuote (crd_string u [''spec'', ''names'', ''kind'']) @ '', want '' @ goQuote kind)
    else if crd_string u [''spec'', ''scope''] \<noteq> ''Namespaced''
    then (False, ''spec.scope is '' @ goQuote (crd_string u [''spec'', ''scope'']) @ '', want Namespaced'')
    else if \<not> servesVersion version (crd_slice u [''spec'', ''versions''])
    then (False, ''version '' @ version @ '' is not served'')
    else if isEstablished (crd_slice u [''status'', ''conditions'']) then (True, '''')
    else (False, ''Established is not True''))"

subsection \<open>Reading a CRD\<close>

text \<open>
  What one read observes: the answer of the API, the REST mapping error if it is asked for, whether the
  context has ended, and the clock, read once when a lag begins and once to measure it.
\<close>

datatype crd_answer = CrdAnswer crd_object | CrdNotFound | CrdReadError string

record crd_input =
  cr_answer :: crd_answer
  cr_mapping :: "string option"
  cr_cancelled :: bool
  cr_now :: time
  cr_later :: time

datatype crd_call = Publish crdObservation | PublishLag string int

definition removeObserved :: "crdWorker \<Rightarrow> crdWorker \<times> crd_call list" where
  "removeObserved k = (k\<lparr>cw_state := CrdRemoved, cw_sawAbsent := True, cw_lagSince := None, cw_lagReported := False\<rparr>,
     [Publish (observed CrdRemoved (cw_uid k) '''' False (cw_lagSeq k))])"

definition isTracked :: "crdWorker \<Rightarrow> bool" where
  "isTracked k = (cw_state k = CrdReady \<or> cw_state k = CrdUnservable)"

text \<open>A CRD that has become ready: the REST mapper must resolve it, and a long lag is reported once.\<close>

definition becomeReady ::
  "int \<Rightarrow> (gvk \<Rightarrow> string) \<Rightarrow> ThirdPartyWatch \<Rightarrow> crd_input \<Rightarrow> string \<Rightarrow> crdWorker \<Rightarrow> bool \<times> crdWorker \<times> crd_call list" where
  "becomeReady syncTimeout gvkText w inp uid k = (case cr_mapping inp of
     Some merr \<Rightarrow>
       (let since = (case cw_lagSince k of None \<Rightarrow> cr_now inp | Some t \<Rightarrow> t);
            k1 = k\<lparr>cw_lagSince := Some since\<rparr>
        in if cr_later inp - since \<ge> syncTimeout \<and> \<not> cw_lagReported k
           then (let k2 = k1\<lparr>cw_lagReported := True, cw_lagSeq := cw_lagSeq k1 + 1\<rparr>
             in (True, k2, [PublishLag (''CRD '' @ tw_crd w @ '' is Established and serves '' @ fst (snd (tw_gvk w)) @
                  '', but the API server's discovery still does not resolve '' @ gvkText (tw_gvk w) @ '': '' @ merr) (cw_lagSeq k2)]))
           else (True, k1, []))
   | None \<Rightarrow>
       (let late = (cw_state k \<noteq> CrdUnservable \<and> isLate k uid)
        in (False, k\<lparr>cw_lagSince := None, cw_lagReported := False, cw_state := CrdReady, cw_uid := uid\<rparr>,
            [Publish (observed CrdReady uid '''' late (cw_lagSeq k))])))"

text \<open>The classification of the object found, after a change of the UID was handled.\<close>

definition classifyCRD ::
  "int \<Rightarrow> (gvk \<Rightarrow> string) \<Rightarrow> ThirdPartyWatch \<Rightarrow> crd_input \<Rightarrow> crd_object \<Rightarrow> crdWorker \<Rightarrow> bool \<times> crdWorker \<times> crd_call list" where
  "classifyCRD syncTimeout gvkText w inp u k =
    (if crd_deleting u then (if isTracked k then (False, removeObserved k) else (False, k, []))
     else (case crdReady u (tw_gvk w) of (ok, reason) \<Rightarrow>
       if \<not> ok
       then (if cw_state k = CrdReady
         then (False, k\<lparr>cw_state := CrdUnservable\<rparr>, [Publish (observed CrdUnservable (crd_uid u) reason False (cw_lagSeq k))])
         else (False, k, []))
       else if cw_state k = CrdReady then (False, k, [])
       else becomeReady syncTimeout gvkText w inp (crd_uid u) k))"

definition readCRD ::
  "int \<Rightarrow> (gvk \<Rightarrow> string) \<Rightarrow> ThirdPartyWatch \<Rightarrow> crd_input \<Rightarrow> crdWorker \<Rightarrow> bool \<times> crdWorker \<times> crd_call list" where
  "readCRD syncTimeout gvkText w inp k0 = (case cr_answer inp of
     CrdNotFound \<Rightarrow>
       (let k = k0\<lparr>cw_sawAbsent := True\<rparr>
        in if isTracked k then (False, removeObserved k) else (False, k\<lparr>cw_loggedAbsent := True\<rparr>, []))
   | CrdReadError e \<Rightarrow> (True, k0, [])
   | CrdAnswer u \<Rightarrow>
       (let k = (if cw_firstUID k0 = '''' then k0\<lparr>cw_firstUID := crd_uid u\<rparr> else k0)
        in if isTracked k \<and> crd_uid u \<noteq> cw_uid k
           then (case removeObserved k of (k1, calls) \<Rightarrow>
             (case classifyCRD syncTimeout gvkText w inp u k1 of (retry, k2, calls') \<Rightarrow> (retry, k2, calls @ calls')))
           else classifyCRD syncTimeout gvkText w inp u k))"

text \<open>The loop of a worker: the delay until it reads again by itself, and its next backoff.\<close>

definition nextBackoff :: "int \<Rightarrow> int \<Rightarrow> int" where
  "nextBackoff cur maxBackoff = (let next = cur * 2 in if next > maxBackoff then maxBackoff else next)"

definition runCRDWorkerStep :: "int \<Rightarrow> int \<Rightarrow> bool \<Rightarrow> int \<Rightarrow> int option \<times> int" where
  "runCRDWorkerStep initialBackoff maxBackoff retry backoff =
    (if \<not> retry then (None, initialBackoff) else (Some backoff, nextBackoff backoff maxBackoff))"

subsection \<open>Publishing\<close>

text \<open>What the workers share with the supervisor: observations by kind, the wake-up, and the health of discovery.\<close>

record discovery =
  di_enabled :: bool
  di_synced :: bool
  di_informerOnline :: bool
  di_informerErr :: string
  di_syncErr :: string
  di_candidateErr :: "(string \<times> string) list"
  di_seen :: "string list"

record discoveryState =
  ds_obs :: "string \<Rightarrow> crdObservation"
  ds_kick :: bool
  ds_discovery :: discovery

definition publish :: "string \<Rightarrow> crdObservation \<Rightarrow> discoveryState \<Rightarrow> discoveryState" where
  "publish kind obs s = s\<lparr>ds_obs := (ds_obs s)(kind := obs), ds_kick := True\<rparr>"

definition publishLag :: "string \<Rightarrow> string \<Rightarrow> int \<Rightarrow> discoveryState \<Rightarrow> discoveryState" where
  "publishLag kind err seq s =
    s\<lparr>ds_obs := (ds_obs s)(kind := (ds_obs s kind)\<lparr>co_lagErr := Some err, co_lagSeq := seq\<rparr>), ds_kick := True\<rparr>"

fun performCall :: "string \<Rightarrow> crd_call \<Rightarrow> discoveryState \<Rightarrow> discoveryState" where
  "performCall kind (Publish obs) s = publish kind obs s"
| "performCall kind (PublishLag err seq) s = publishLag kind err seq s"

subsection \<open>The health of discovery\<close>

definition CRDDiscoveryKind :: string where "CRDDiscoveryKind = ''CRDDiscovery''"

definition initDiscoveryHealth :: "time \<Rightarrow> discoveryState \<times> health \<Rightarrow> discoveryState \<times> health" where
  "initDiscoveryHealth now sh = ((fst sh)\<lparr>ds_discovery := \<lparr>di_enabled = True, di_synced = False, di_informerOnline = False,
     di_informerErr = '''', di_syncErr = '''', di_candidateErr = [], di_seen = []\<rparr>\<rparr>, Register now CRDDiscoveryKind (snd sh))"

definition wakeDiscoveryHealth :: "bool \<Rightarrow> discovery \<Rightarrow> discoveryState \<Rightarrow> discoveryState" where
  "wakeDiscoveryHealth changed d s = s\<lparr>ds_discovery := d, ds_kick := (ds_kick s \<or> changed)\<rparr>"

definition reportDiscoveryInformer :: "string option \<Rightarrow> discoveryState \<Rightarrow> discoveryState" where
  "reportDiscoveryInformer err s = (let d = ds_discovery s in
     if \<not> di_enabled d then s
     else (let d' = (case err of None \<Rightarrow> d\<lparr>di_informerErr := '''', di_informerOnline := True\<rparr>
                      | Some e \<Rightarrow> d\<lparr>di_informerErr := e, di_informerOnline := False\<rparr>)
       in wakeDiscoveryHealth (di_informerErr d \<noteq> di_informerErr d' \<or> di_informerOnline d \<noteq> di_informerOnline d') d' s))"

definition reportDiscoverySyncFailure :: "string option \<Rightarrow> discoveryState \<Rightarrow> discoveryState" where
  "reportDiscoverySyncFailure err s = (case err of None \<Rightarrow> s | Some e \<Rightarrow> (let d = ds_discovery s in
     if \<not> di_enabled d \<or> di_synced d then s
     else wakeDiscoveryHealth (di_syncErr d \<noteq> e) (d\<lparr>di_syncErr := e\<rparr>) s))"

definition reportDiscoverySynced :: "discoveryState \<Rightarrow> discoveryState" where
  "reportDiscoverySynced s = (let d = ds_discovery s in
     if \<not> di_enabled d then s
     else wakeDiscoveryHealth (\<not> di_synced d \<or> di_syncErr d \<noteq> '''') (d\<lparr>di_synced := True, di_syncErr := ''''\<rparr>) s)"

definition candidateErrOf :: "discovery \<Rightarrow> string \<Rightarrow> string" where
  "candidateErrOf d kind = (case map_of (di_candidateErr d) kind of None \<Rightarrow> '''' | Some e \<Rightarrow> e)"

definition reportCandidateCRDRead :: "string \<Rightarrow> string option \<Rightarrow> discoveryState \<Rightarrow> discoveryState" where
  "reportCandidateCRDRead kind err s = (let d = ds_discovery s in
     if \<not> di_enabled d then s
     else (let d' = (case err of
                None \<Rightarrow> d\<lparr>di_candidateErr := filter (\<lambda>e. fst e \<noteq> kind) (di_candidateErr d), di_seen := List.insert kind (di_seen d)\<rparr>
              | Some e \<Rightarrow> d\<lparr>di_candidateErr := gm_put kind e (di_candidateErr d), di_seen := List.insert kind (di_seen d)\<rparr>)
       in wakeDiscoveryHealth (kind \<notin> set (di_seen d) \<or> candidateErrOf d kind \<noteq> candidateErrOf d' kind) d' s))"

text \<open>The report of a read, made before its answer is classified, and the whole read of a worker.\<close>

definition reportRead :: "ThirdPartyWatch \<Rightarrow> crd_input \<Rightarrow> discoveryState \<Rightarrow> discoveryState" where
  "reportRead w inp s = (if cr_cancelled inp then s
     else (case cr_answer inp of CrdReadError e \<Rightarrow> reportCandidateCRDRead (tw_name w) (Some e) s
       | _ \<Rightarrow> reportCandidateCRDRead (tw_name w) None s))"

definition workerRead ::
  "int \<Rightarrow> (gvk \<Rightarrow> string) \<Rightarrow> ThirdPartyWatch \<Rightarrow> crd_input \<Rightarrow> crdWorker \<times> discoveryState \<Rightarrow> bool \<times> crdWorker \<times> discoveryState" where
  "workerRead syncTimeout gvkText w inp ks = (case readCRD syncTimeout gvkText w inp (fst ks) of
     (retry, k, calls) \<Rightarrow> (retry, k, fold (performCall (tw_name w)) calls (reportRead w inp (snd ks))))"

definition discoveryFailures :: "discovery \<Rightarrow> string list" where
  "discoveryFailures d =
    (if di_informerErr d \<noteq> '''' then [''informer: '' @ di_informerErr d] else []) @
    (if di_syncErr d \<noteq> '''' then [''sync: '' @ di_syncErr d] else []) @
    map (\<lambda>e. fst e @ '': '' @ snd e) (di_candidateErr d)"

definition discoveryReady :: "ThirdPartyWatch list \<Rightarrow> discovery \<Rightarrow> bool" where
  "discoveryReady watches d = (di_synced d \<and> di_informerOnline d \<and> (\<forall>w \<in> set watches. tw_name w \<in> set (di_seen d)))"

definition applyDiscoveryHealth ::
  "time \<Rightarrow> ThirdPartyWatch list \<Rightarrow> discovery \<Rightarrow> health \<Rightarrow> health \<times> WatchTransition option" where
  "applyDiscoveryHealth now watches d h =
    (if \<not> di_enabled d then (h, None)
     else if discoveryFailures d \<noteq> []
     then (let msg = ''CRD discovery failed: '' @ joinWith ''; '' (discoveryFailures d) in
       case Status h CRDDiscoveryKind of
         Some st \<Rightarrow> if \<not> Degraded st \<or> wst_lastError st \<noteq> msg then MarkUnhealthy now CRDDiscoveryKind (Some msg) h else (h, None)
       | None \<Rightarrow> MarkUnhealthy now CRDDiscoveryKind (Some msg) h)
     else if discoveryReady watches d \<and> \<not> IsHealthy h CRDDiscoveryKind then MarkHealthy now CRDDiscoveryKind h
     else (h, None))"

subsection \<open>The generations of a CRD\<close>

text \<open>
  What the reads of a CRD say about it, by the rules of the design: only a successful read counts; a
  generation becomes known when it is ready and resolvable, turns unservable or ready again while it
  exists, and ends when the CRD is not found, is being deleted, or has another UID.
\<close>

datatype generation = Unconfirmed | Ready string | Unservable string | Removed string

fun liveUID :: "generation \<Rightarrow> string option" where
  "liveUID (Ready u) = Some u"
| "liveUID (Unservable u) = Some u"
| "liveUID _ = None"

definition ended :: "generation \<Rightarrow> generation" where
  "ended g = (case liveUID g of None \<Rightarrow> g | Some u \<Rightarrow> Removed u)"

definition foundGeneration :: "ThirdPartyWatch \<Rightarrow> crd_input \<Rightarrow> crd_object \<Rightarrow> generation \<Rightarrow> generation" where
  "foundGeneration w inp u g =
    (if crd_deleting u then ended g
     else if \<not> fst (crdReady u (tw_gvk w)) then (if liveUID g = None then g else Unservable (crd_uid u))
     else if g = Ready (crd_uid u) \<or> cr_mapping inp = None then Ready (crd_uid u) else g)"

definition readGeneration :: "ThirdPartyWatch \<Rightarrow> crd_input \<Rightarrow> generation \<Rightarrow> generation" where
  "readGeneration w inp g = (case cr_answer inp of
     CrdReadError _ \<Rightarrow> g
   | CrdNotFound \<Rightarrow> ended g
   | CrdAnswer u \<Rightarrow> foundGeneration w inp u (if liveUID g = Some (crd_uid u) then g else ended g))"

definition generationAfter :: "ThirdPartyWatch \<Rightarrow> crd_input list \<Rightarrow> generation" where
  "generationAfter w inps = fold (readGeneration w) inps Unconfirmed"

fun generationOf :: "crdState \<Rightarrow> string \<Rightarrow> generation" where
  "generationOf CrdUnknown u = Unconfirmed"
| "generationOf CrdReady u = Ready u"
| "generationOf CrdUnservable u = Unservable u"
| "generationOf CrdRemoved u = Removed u"

definition obsGeneration :: "crdObservation \<Rightarrow> generation" where
  "obsGeneration obs = generationOf (co_state obs) (co_uid obs)"

definition workerGeneration :: "crdWorker \<Rightarrow> generation" where
  "workerGeneration k = generationOf (cw_state k) (cw_uid k)"

definition workerRun ::
  "int \<Rightarrow> (gvk \<Rightarrow> string) \<Rightarrow> ThirdPartyWatch \<Rightarrow> crd_input list \<Rightarrow> crdWorker \<times> discoveryState \<Rightarrow> crdWorker \<times> discoveryState" where
  "workerRun syncTimeout gvkText w inps ks = fold (\<lambda>inp ks. snd (workerRead syncTimeout gvkText w inp ks)) inps ks"

text \<open>The CRD was absent at some read, or a known generation of it ended.\<close>

definition wasAbsent :: "ThirdPartyWatch \<Rightarrow> crd_input list \<Rightarrow> bool" where
  "wasAbsent w inps \<longleftrightarrow> (\<exists>a x b. inps = a @ x # b \<and>
     (cr_answer x = CrdNotFound \<or>
      (\<exists>u. liveUID (generationAfter w a) = Some u \<and> liveUID (generationAfter w (a @ [x])) \<noteq> Some u)))"

fun foundUID :: "crd_answer \<Rightarrow> string" where
  "foundUID (CrdAnswer u) = crd_uid u"
| "foundUID _ = ''''"

definition firstFound :: "crd_input list \<Rightarrow> string" where
  "firstFound inps = (case filter (\<lambda>u. u \<noteq> '''') (map (foundUID \<circ> cr_answer) inps) of [] \<Rightarrow> '''' | u # _ \<Rightarrow> u)"

lemma generationAfter_snoc: "generationAfter w (inps @ [inp]) = readGeneration w inp (generationAfter w inps)"
  by (simp add: generationAfter_def)

lemma wasAbsent_snoc:
  "wasAbsent w (inps @ [x]) = (wasAbsent w inps \<or> cr_answer x = CrdNotFound \<or>
    (\<exists>u. liveUID (generationAfter w inps) = Some u \<and> liveUID (generationAfter w (inps @ [x])) \<noteq> Some u))"
  (is "?L = ?R")
proof
  assume ?L
  then obtain a y b where "inps @ [x] = a @ y # b" and y: "cr_answer y = CrdNotFound \<or>
      (\<exists>u. liveUID (generationAfter w a) = Some u \<and> liveUID (generationAfter w (a @ [y])) \<noteq> Some u)"
    unfolding wasAbsent_def by blast
  then show ?R unfolding wasAbsent_def by (cases b rule: rev_cases) auto
next
  assume ?R
  then show ?L
  proof (elim disjE)
    assume "wasAbsent w inps"
    then obtain a y b where "inps = a @ y # b" "cr_answer y = CrdNotFound \<or>
        (\<exists>u. liveUID (generationAfter w a) = Some u \<and> liveUID (generationAfter w (a @ [y])) \<noteq> Some u)"
      unfolding wasAbsent_def by blast
    then show ?L unfolding wasAbsent_def by (intro exI [of _ a] exI [of _ y] exI [of _ "b @ [x]"]) auto
  qed (auto simp: wasAbsent_def)
qed

lemma firstFound_snoc:
  "firstFound (inps @ [x]) = (if firstFound inps = '''' then foundUID (cr_answer x) else firstFound inps)"
  by (auto simp: firstFound_def split: list.splits dest: filter_eq_ConsD)

text \<open>The effect of the calls of one read on the observation of the kind.\<close>

lemma performCall_other: "k \<noteq> kind \<Longrightarrow> ds_obs (performCall kind c s) k = ds_obs s k"
  by (cases c) (simp_all add: publish_def publishLag_def)

lemma performCalls_other: "k \<noteq> kind \<Longrightarrow> ds_obs (fold (performCall kind) cs s) k = ds_obs s k"
  by (induction cs arbitrary: s) (simp_all add: performCall_other)

lemma reportRead_obs [simp]: "ds_obs (reportRead w inp s) = ds_obs s"
  by (simp add: reportRead_def reportCandidateCRDRead_def wakeDiscoveryHealth_def Let_def split: crd_answer.split)

text \<open>One classification keeps observation and worker together and moves the generation by the rules.\<close>

definition agrees :: "crdWorker \<Rightarrow> crdObservation \<Rightarrow> bool" where
  "agrees k obs \<longleftrightarrow> co_state obs = cw_state k \<and> (cw_state k \<noteq> CrdUnknown \<longrightarrow> co_uid obs = cw_uid k)"

lemma agrees_generation: "agrees k obs \<Longrightarrow> obsGeneration obs = workerGeneration k"
  by (cases "cw_state k") (auto simp: agrees_def obsGeneration_def workerGeneration_def)

lemmas worker_defs = agrees_def workerGeneration_def isTracked_def removeObserved_def observed_def publish_def publishLag_def

lemma becomeReady_step:
  assumes "becomeReady t gt w inp uid k = (retry, k', calls)" "agrees k (ds_obs s kind)"
    "cw_state k = CrdUnservable \<Longrightarrow> cw_uid k = uid" "cw_state k \<noteq> CrdReady"
  shows "agrees k' (ds_obs (fold (performCall kind) calls s) kind) \<and>
    workerGeneration k' = (if cr_mapping inp = None then Ready uid else workerGeneration k) \<and>
    cw_sawAbsent k' = cw_sawAbsent k \<and> cw_firstUID k' = cw_firstUID k \<and>
    (cr_mapping inp = None \<longrightarrow> co_late (ds_obs (fold (performCall kind) calls s) kind) = (cw_state k \<noteq> CrdUnservable \<and> isLate k uid))"
  using assms by (auto simp: becomeReady_def worker_defs Let_def isLate_def split: option.splits if_splits)

lemma classifyCRD_step:
  assumes "classifyCRD t gt w inp u k = (retry, k', calls)" "agrees k (ds_obs s kind)" "isTracked k \<Longrightarrow> cw_uid k = crd_uid u"
  shows "agrees k' (ds_obs (fold (performCall kind) calls s) kind) \<and>
    workerGeneration k' = foundGeneration w inp u (workerGeneration k) \<and>
    cw_sawAbsent k' = (cw_sawAbsent k \<or> isTracked k \<and> crd_deleting u) \<and> cw_firstUID k' = cw_firstUID k \<and>
    (workerGeneration k \<noteq> Ready (crd_uid u) \<and> workerGeneration k' = Ready (crd_uid u) \<longrightarrow>
      co_late (ds_obs (fold (performCall kind) calls s) kind) = (cw_state k \<noteq> CrdUnservable \<and> isLate k (crd_uid u)))"
proof -
  consider (deleting) "crd_deleting u" | (notReady) "\<not> crd_deleting u" "\<not> fst (crdReady u (tw_gvk w))"
    | (stays) "\<not> crd_deleting u" "fst (crdReady u (tw_gvk w))" "cw_state k = CrdReady"
    | (becomes) "\<not> crd_deleting u" "fst (crdReady u (tw_gvk w))" "cw_state k \<noteq> CrdReady" by blast
  then show ?thesis
  proof cases
    case deleting
    with assms show ?thesis
      by (cases "cw_state k") (auto simp: classifyCRD_def foundGeneration_def ended_def worker_defs)
  next
    case notReady
    with assms show ?thesis
      by (cases "cw_state k") (auto simp: classifyCRD_def foundGeneration_def worker_defs split: prod.splits)
  next
    case stays
    with assms show ?thesis
      by (auto simp: classifyCRD_def foundGeneration_def worker_defs split: prod.splits)
  next
    case becomes
    then have "becomeReady t gt w inp (crd_uid u) k = (retry, k', calls)"
      using assms(1) by (auto simp: classifyCRD_def split: prod.splits)
    note step = becomeReady_step [OF this assms(2) _ becomes(3)]
    have "cw_state k = CrdUnservable \<Longrightarrow> cw_uid k = crd_uid u" using assms(3) by (simp add: isTracked_def)
    note step = step [OF this]
    have ne: "workerGeneration k \<noteq> Ready (crd_uid u)"
      using becomes(3) by (cases "cw_state k") (simp_all add: workerGeneration_def)
    show ?thesis
      using step becomes ne by (cases "cr_mapping inp") (auto simp: foundGeneration_def)
  qed
qed

lemma removeObserved_step:
  assumes "removeObserved k = (k', calls)" "isTracked k"
  shows "agrees k' (ds_obs (fold (performCall kind) calls s) kind) \<and> workerGeneration k' = ended (workerGeneration k) \<and>
    cw_sawAbsent k' \<and> cw_firstUID k' = cw_firstUID k \<and> \<not> isTracked k'"
  using assms by (cases "cw_state k") (auto simp: worker_defs ended_def)

lemma liveUID_tracked: "liveUID (workerGeneration k) = (if isTracked k then Some (cw_uid k) else None)"
  by (cases "cw_state k") (simp_all add: workerGeneration_def isTracked_def)

text \<open>What a worker remembers after a list of reads.\<close>

definition remembers :: "ThirdPartyWatch \<Rightarrow> crd_input list \<Rightarrow> crdWorker \<Rightarrow> crdObservation \<Rightarrow> bool" where
  "remembers w inps k obs \<longleftrightarrow> agrees k obs \<and> workerGeneration k = generationAfter w inps \<and>
     cw_sawAbsent k = wasAbsent w inps \<and> cw_firstUID k = firstFound inps"

text \<open>The observation that a read makes ready is marked as a late installation.\<close>

definition lateAt :: "ThirdPartyWatch \<Rightarrow> crd_input list \<Rightarrow> string \<Rightarrow> generation \<Rightarrow> bool" where
  "lateAt w inps u before \<longleftrightarrow> before \<noteq> Unservable u \<and> (wasAbsent w inps \<or> firstFound inps \<noteq> '''' \<and> firstFound inps \<noteq> u)"

definition readStep :: "ThirdPartyWatch \<Rightarrow> crd_input list \<Rightarrow> crd_input \<Rightarrow> crdWorker \<Rightarrow> crdObservation \<Rightarrow> bool" where
  "readStep w inps inp k' obs' \<longleftrightarrow> remembers w (inps @ [inp]) k' obs' \<and>
     (\<forall>u. generationAfter w inps \<noteq> Ready u \<and> generationAfter w (inps @ [inp]) = Ready u \<longrightarrow>
        co_late obs' = lateAt w (inps @ [inp]) u (generationAfter w inps))"

lemma foundGeneration_ready: "foundGeneration w inp u g = Ready v \<Longrightarrow> v = crd_uid u \<or> g = Ready v"
  by (cases g) (auto simp: foundGeneration_def ended_def split: if_splits)

lemma workerRead_found:
  assumes "remembers w inps k0 (ds_obs s (tw_name w))" "cr_answer inp = CrdAnswer u"
    "readCRD t gt w inp k0 = (retry, k', calls)"
  shows "readStep w inps inp k' (ds_obs (fold (performCall (tw_name w)) calls s) (tw_name w))"
proof -
  define k where "k = (if cw_firstUID k0 = '''' then k0\<lparr>cw_firstUID := crd_uid u\<rparr> else k0)"
  let ?g = "generationAfter w inps"
  have sel: "cw_state k = cw_state k0" "cw_uid k = cw_uid k0" "cw_sawAbsent k = wasAbsent w inps"
    "cw_firstUID k = firstFound (inps @ [inp])" "agrees k (ds_obs s (tw_name w))" "workerGeneration k = ?g"
    using assms(1,2) by (auto simp: k_def remembers_def agrees_def workerGeneration_def firstFound_snoc)
  have live: "liveUID ?g = (if isTracked k then Some (cw_uid k) else None)" using liveUID_tracked [of k] sel(6) by simp
  show ?thesis
  proof (cases "isTracked k \<and> crd_uid u \<noteq> cw_uid k")
    case True
    obtain k1 calls1 where rm: "removeObserved k = (k1, calls1)" by fastforce
    obtain retry2 calls2 where cl: "classifyCRD t gt w inp u k1 = (retry2, k', calls2)" and calls: "calls = calls1 @ calls2"
      using assms(2,3) True rm by (auto simp: readCRD_def k_def [symmetric] split: prod.splits)
    note r = removeObserved_step [OF rm, where kind = "tw_name w" and s = s]
    have r: "agrees k1 (ds_obs (fold (performCall (tw_name w)) calls1 s) (tw_name w))" "workerGeneration k1 = ended ?g"
      "cw_sawAbsent k1" "cw_firstUID k1 = firstFound (inps @ [inp])" "\<not> isTracked k1"
      using r True sel by auto
    have "isTracked k1 \<Longrightarrow> cw_uid k1 = crd_uid u" using r(5) by simp
    note c0 = classifyCRD_step [OF cl r(1) this, unfolded r(2)]
    have gen: "generationAfter w (inps @ [inp]) = foundGeneration w inp u (ended ?g)"
      using assms(2) live True by (auto simp: generationAfter_snoc readGeneration_def)
    have "liveUID (generationAfter w (inps @ [inp])) \<noteq> Some (cw_uid k)"
      using True unfolding gen by (auto simp: foundGeneration_def ended_def split: option.splits)
    then have away: "wasAbsent w (inps @ [inp])" using live True unfolding wasAbsent_snoc by auto
    have "cw_state k1 \<noteq> CrdUnservable" using r(5) by (simp add: isTracked_def)
    moreover have "ended ?g \<noteq> Ready (crd_uid u)" "?g \<noteq> Unservable (crd_uid u)"
      using live True by (auto simp: ended_def split: option.splits if_splits)
    moreover have "v = crd_uid u" if "generationAfter w (inps @ [inp]) = Ready v" for v
      using that calculation(2) unfolding gen ended_def by (auto dest: foundGeneration_ready split: option.splits)
    ultimately have nu: "cw_state k1 \<noteq> CrdUnservable" "ended ?g \<noteq> Ready (crd_uid u)" "?g \<noteq> Unservable (crd_uid u)"
      "\<And>v. generationAfter w (inps @ [inp]) = Ready v \<Longrightarrow> v = crd_uid u" by blast+
    have c: "agrees k' (ds_obs (fold (performCall (tw_name w)) calls s) (tw_name w))"
      "workerGeneration k' = generationAfter w (inps @ [inp])" "cw_sawAbsent k'" "cw_firstUID k' = firstFound (inps @ [inp])"
      "generationAfter w (inps @ [inp]) = Ready (crd_uid u) \<longrightarrow> co_late (ds_obs (fold (performCall (tw_name w)) calls s) (tw_name w))"
    proof -
      show "agrees k' (ds_obs (fold (performCall (tw_name w)) calls s) (tw_name w))" using c0 by (simp add: calls)
      show g': "workerGeneration k' = generationAfter w (inps @ [inp])" using c0 by (simp add: gen)
      show "cw_sawAbsent k'" "cw_firstUID k' = firstFound (inps @ [inp])" using c0 r(3,4) by simp_all
      show "generationAfter w (inps @ [inp]) = Ready (crd_uid u) \<longrightarrow> co_late (ds_obs (fold (performCall (tw_name w)) calls s) (tw_name w))"
        using c0 r(3) nu(1,2) unfolding g' [symmetric] by (simp add: calls isLate_def)
    qed
    then show ?thesis unfolding readStep_def remembers_def lateAt_def using away nu by blast
  next
    case False
    have cl: "classifyCRD t gt w inp u k = (retry, k', calls)"
      using assms(2,3) False by (auto simp: readCRD_def k_def [symmetric])
    have uid: "isTracked k \<Longrightarrow> cw_uid k = crd_uid u" using False by simp
    note c = classifyCRD_step [OF cl sel(5) uid]
    have gen: "generationAfter w (inps @ [inp]) = foundGeneration w inp u ?g"
      using assms(2) live uid by (auto simp: generationAfter_snoc readGeneration_def ended_def)
    have "(\<exists>v. liveUID ?g = Some v \<and> liveUID (foundGeneration w inp u ?g) \<noteq> Some v) = (isTracked k \<and> crd_deleting u)"
      using live uid by (auto simp: foundGeneration_def ended_def split: option.splits)
    then have away: "wasAbsent w (inps @ [inp]) = (wasAbsent w inps \<or> isTracked k \<and> crd_deleting u)"
      using assms(2) by (simp add: wasAbsent_snoc gen)
    have uns: "cw_state k = CrdUnservable \<longleftrightarrow> ?g = Unservable (crd_uid u)"
      using sel(6) uid by (cases "cw_state k") (auto simp: workerGeneration_def isTracked_def)
    have del: "foundGeneration w inp u ?g = Ready v \<Longrightarrow> ?g \<noteq> Ready v \<Longrightarrow> v = crd_uid u \<and> \<not> crd_deleting u" for v
      by (auto simp: foundGeneration_def ended_def split: if_splits option.splits)
    show ?thesis
      using c sel away uns del unfolding readStep_def remembers_def lateAt_def isLate_def gen by auto
  qed
qed

lemma workerRead_step:
  assumes "remembers w inps k (ds_obs s (tw_name w))" "workerRead t gt w inp (k, s) = (retry, k', s')"
  shows "readStep w inps inp k' (ds_obs s' (tw_name w))"
proof -
  obtain calls where rd: "readCRD t gt w inp k = (retry, k', calls)"
    and s': "s' = fold (performCall (tw_name w)) calls (reportRead w inp s)"
    using assms(2) by (auto simp: workerRead_def split: prod.splits)
  have rem: "remembers w inps k (ds_obs (reportRead w inp s) (tw_name w))" using assms(1) by simp
  show ?thesis
  proof (cases "cr_answer inp")
    case (CrdAnswer u)
    then show ?thesis using workerRead_found [OF rem CrdAnswer rd] s' by simp
  next
    case CrdNotFound
    then have abs: "wasAbsent w (inps @ [inp])" by (simp add: wasAbsent_snoc)
    have ff: "firstFound (inps @ [inp]) = firstFound inps" using CrdNotFound by (simp add: firstFound_snoc)
    have g: "generationAfter w (inps @ [inp]) = ended (workerGeneration k)"
      using CrdNotFound rem by (simp add: generationAfter_snoc readGeneration_def remembers_def)
    have nr: "ended (workerGeneration k) \<noteq> Ready u" for u by (cases "workerGeneration k") (auto simp: ended_def)
    show ?thesis
    proof (cases "isTracked k")
      case True
      then have tr: "isTracked (k\<lparr>cw_sawAbsent := True\<rparr>)" by (simp add: isTracked_def)
      have rm: "removeObserved (k\<lparr>cw_sawAbsent := True\<rparr>) = (k', calls)"
        using rd CrdNotFound True by (auto simp: readCRD_def isTracked_def Let_def)
      have "workerGeneration (k\<lparr>cw_sawAbsent := True\<rparr>) = workerGeneration k" by (simp add: workerGeneration_def)
      then show ?thesis
        using removeObserved_step [OF rm tr, where kind = "tw_name w" and s = "reportRead w inp s"] abs ff g nr rem
        unfolding readStep_def remembers_def s' by simp
    next
      case False
      then have "k' = k\<lparr>cw_sawAbsent := True, cw_loggedAbsent := True\<rparr>" "calls = []"
        using rd CrdNotFound by (auto simp: readCRD_def isTracked_def Let_def)
      moreover have "ended (workerGeneration k) = workerGeneration k" using liveUID_tracked [of k] False by (simp add: ended_def)
      ultimately show ?thesis using rem abs ff g nr unfolding readStep_def remembers_def s'
        by (auto simp: workerGeneration_def agrees_def)
    qed
  next
    case (CrdReadError e)
    then have "k' = k" "calls = []" using rd by (auto simp: readCRD_def)
    moreover have "generationAfter w (inps @ [inp]) = generationAfter w inps" "wasAbsent w (inps @ [inp]) = wasAbsent w inps"
      "firstFound (inps @ [inp]) = firstFound inps"
      using CrdReadError by (auto simp: generationAfter_snoc readGeneration_def wasAbsent_snoc firstFound_snoc)
    ultimately show ?thesis using rem unfolding readStep_def remembers_def s' by auto
  qed
qed

lemma workerRun_remembers:
  assumes "ds_obs s (tw_name w) = noObservation"
  shows
  "remembers w inps (fst (workerRun t gt w inps (newCrdWorker, s))) (ds_obs (snd (workerRun t gt w inps (newCrdWorker, s))) (tw_name w))"

proof (induction inps rule: rev_induct)
  case Nil
  show ?case using assms
    by (simp add: workerRun_def remembers_def agrees_def newCrdWorker_def noObservation_def workerGeneration_def
        generationAfter_def wasAbsent_def firstFound_def)
next
  case (snoc inp inps)
  obtain k s' where ks: "workerRun t gt w inps (newCrdWorker, s) = (k, s')" by fastforce
  obtain retry k'' s'' where st: "workerRead t gt w inp (k, s') = (retry, k'', s'')" by (cases "workerRead t gt w inp (k, s')") auto
  have "workerRun t gt w (inps @ [inp]) (newCrdWorker, s) = (k'', s'')" using ks st by (simp add: workerRun_def)
  then show ?case using workerRead_step [OF _ st] snoc.IH ks by (simp add: readStep_def)
qed

text \<open>
  C30. Discovery publishes what the reads of the CRD say and nothing else: after any sequence of reads, failed
  ones included, the observation of a kind is the generation the design's rules give; a failed read
  changes nothing, removal follows only from a successful read that shows a known generation gone, and
  a generation that becomes ready counts as installed late exactly if an earlier read found the CRD
  absent or gone, or found it first under another UID.
\<close>

theorem crd_observation_follows_reads:
  assumes "ds_obs s (tw_name w) = noObservation" "snd (workerRun t gt w inps (newCrdWorker, s)) = s1"
    "snd (workerRun t gt w (inps @ [inp]) (newCrdWorker, s)) = s2"
  shows "obsGeneration (ds_obs s2 (tw_name w)) = readGeneration w inp (obsGeneration (ds_obs s1 (tw_name w))) \<and>
    obsGeneration (ds_obs s1 (tw_name w)) = generationAfter w inps \<and>
    (\<forall>u. generationAfter w inps \<noteq> Ready u \<and> obsGeneration (ds_obs s2 (tw_name w)) = Ready u \<longrightarrow>
      (co_late (ds_obs s2 (tw_name w)) \<longleftrightarrow> generationAfter w inps \<noteq> Unservable u \<and>
        (wasAbsent w (inps @ [inp]) \<or> firstFound (inps @ [inp]) \<noteq> '''' \<and> firstFound (inps @ [inp]) \<noteq> u)))"
proof -
  obtain k1 where k1: "workerRun t gt w inps (newCrdWorker, s) = (k1, s1)" using assms(2) by (metis prod.collapse)
  obtain retry k2 s' where st: "workerRead t gt w inp (k1, s1) = (retry, k2, s')" by (cases "workerRead t gt w inp (k1, s1)") auto
  then have "s' = s2" using assms(3) k1 by (simp add: workerRun_def)
  moreover have rem: "remembers w inps k1 (ds_obs s1 (tw_name w))"
    using workerRun_remembers [OF assms(1), of inps t gt] k1 by simp
  ultimately have "readStep w inps inp k2 (ds_obs s2 (tw_name w))" using workerRead_step [OF rem st] by simp
  then show ?thesis using rem agrees_generation unfolding readStep_def remembers_def lateAt_def generationAfter_snoc
    by metis
qed

definition exampleCRD :: "string \<Rightarrow> crd_object" where
  "exampleCRD uid = \<lparr>crd_uid = uid, crd_deleting = False,
     crd_string = (\<lambda>p. if p = [''spec'', ''group''] then ''g'' else if p = [''spec'', ''names'', ''kind''] then ''K''
       else if p = [''spec'', ''scope''] then ''Namespaced'' else ''''),
     crd_slice = (\<lambda>p. if p = [''spec'', ''versions'']
       then [JNull, JObject [(''name'', JString ''v1''), (''served'', JBool True)]]
       else if p = [''status'', ''conditions''] then [JObject [(''type'', JString ''Established''), (''status'', JString ''True'')]] else [])\<rparr>"

definition exampleWatch :: ThirdPartyWatch where
  "exampleWatch = \<lparr>tw_name = ''K'', tw_gvk = (''g'', ''v1'', ''K''), tw_crd = ''ks.g''\<rparr>"

definition exampleRead :: "crd_answer \<Rightarrow> crd_input" where
  "exampleRead a = \<lparr>cr_answer = a, cr_mapping = None, cr_cancelled = False, cr_now = 0, cr_later = 0\<rparr>"

definition emptyDiscovery :: discovery where
  "emptyDiscovery = \<lparr>di_enabled = True, di_synced = False, di_informerOnline = False, di_informerErr = '''', di_syncErr = '''',
     di_candidateErr = [], di_seen = []\<rparr>"

definition emptyDiscoveryState :: discoveryState where
  "emptyDiscoveryState = \<lparr>ds_obs = (\<lambda>_. noObservation), ds_kick = False, ds_discovery = emptyDiscovery\<rparr>"

lemma exampleCRD_ready: "fst (crdReady (exampleCRD u) (tw_gvk exampleWatch))"
  by (simp add: crdReady_def exampleCRD_def exampleWatch_def stringAt_def boolAt_def)

lemma exampleReads:
  "readGeneration exampleWatch (exampleRead CrdNotFound) g = ended g"
  "readGeneration exampleWatch (exampleRead (CrdAnswer (exampleCRD u))) g = Ready u"
  using exampleCRD_ready [of u]
  by (auto simp: readGeneration_def exampleRead_def foundGeneration_def) (simp_all add: exampleCRD_def)

theorem crd_observation_follows_reads_witness:
  "let s2 = snd (workerRun 0 (\<lambda>_. '''') exampleWatch [exampleRead CrdNotFound, exampleRead (CrdAnswer (exampleCRD ''u''))]
       (newCrdWorker, emptyDiscoveryState))
   in obsGeneration (ds_obs s2 ''K'') = Ready ''u'' \<and> co_late (ds_obs s2 ''K'')"
proof -
  have w: "tw_name exampleWatch = ''K''" by (simp add: exampleWatch_def)
  have g: "generationAfter exampleWatch [exampleRead CrdNotFound] = Unconfirmed"
    by (simp add: generationAfter_def exampleReads ended_def)
  have "wasAbsent exampleWatch ([] @ [exampleRead CrdNotFound])"
    unfolding wasAbsent_snoc by (simp add: exampleRead_def)
  then have "wasAbsent exampleWatch [exampleRead CrdNotFound]" by (simp only: append_Nil)
  then have "wasAbsent exampleWatch ([exampleRead CrdNotFound] @ [exampleRead (CrdAnswer (exampleCRD ''u''))])"
    by (subst wasAbsent_snoc) (rule disjI1)
  then have abs: "wasAbsent exampleWatch [exampleRead CrdNotFound, exampleRead (CrdAnswer (exampleCRD ''u''))]" by simp
  have "ds_obs emptyDiscoveryState (tw_name exampleWatch) = noObservation" by (simp add: emptyDiscoveryState_def)
  note X = crd_observation_follows_reads [OF this refl refl, where t = 0 and gt = "\<lambda>_. ''''" and inps = "[exampleRead CrdNotFound]"
      and inp = "exampleRead (CrdAnswer (exampleCRD ''u''))", unfolded append_Cons append_Nil exampleReads(2) g w]
  note Y = X [THEN conjunct2, THEN conjunct2, THEN spec, THEN mp, OF conjI, OF _ X [THEN conjunct1], THEN iffD2]
  show ?thesis unfolding Let_def
    by (intro conjI X [THEN conjunct1], rule Y) (rule generation.distinct, rule conjI, rule generation.distinct, rule disjI1, rule abs)
qed

end
