(* ===== verification/Allowlist_Fanout.thy ===== *)
theory Allowlist_Fanout
  imports Config_Store Kube_Types
begin

text \<open>
  \<^verbatim>\<open>internal/controller/allowlist_fanout.go\<close>: after a change of the allowlist every workload of every kind that
  reports is listed, page by page, and handed to the channel of its controller. The pages of a list, the
  room in a channel and the end of the context are answers of the environment; the result is what was
  sent to each kind, so that a fan-out that never ends is \<^term>\<open>None\<close>.
\<close>

subsection \<open>Registration\<close>

record fanoutKind =
  fk_gk :: GroupKind
  fk_supervised :: bool

record AllowlistFanout =
  af_kinds :: "fanoutKind list"
  af_inactive :: "GroupKind list"

definition NewAllowlistFanout :: AllowlistFanout where
  "NewAllowlistFanout = \<lparr>af_kinds = [], af_inactive = []\<rparr>"

definition fanout_Source :: "GroupKind \<Rightarrow> bool \<Rightarrow> AllowlistFanout \<Rightarrow> AllowlistFanout" where
  "fanout_Source gk supervised f =
    (if list_ex (\<lambda>k. fk_gk k = gk) (af_kinds f) then f
     else f\<lparr>af_kinds := af_kinds f @ [\<lparr>fk_gk = gk, fk_supervised = supervised\<rparr>]\<rparr>)"

definition SetActive :: "GroupKind \<Rightarrow> bool \<Rightarrow> AllowlistFanout option \<Rightarrow> AllowlistFanout option" where
  "SetActive gk active fo = (case fo of None \<Rightarrow> None
     | Some f \<Rightarrow> Some (if active then f\<lparr>af_inactive := removeAll gk (af_inactive f)\<rparr>
         else f\<lparr>af_inactive := List.insert gk (af_inactive f)\<rparr>))"

text \<open>The subscriber that \<^verbatim>\<open>Bind\<close> registers: the fan-outs it starts, by their allowlists.\<close>

definition fanoutSubscriber :: "'s Snapshot \<Rightarrow> 's Snapshot \<Rightarrow> WorkloadKindSet list \<Rightarrow> WorkloadKindSet list" where
  "fanoutSubscriber prev snap started =
    (if kindSet_Equal (sn_workloadKinds prev) (sn_workloadKinds snap) then started else started @ [sn_workloadKinds snap])"

definition Bind :: "AllowlistFanout option \<Rightarrow> ('s, WorkloadKindSet list) Store \<Rightarrow> ('s, WorkloadKindSet list) Store" where
  "Bind fo st = (case fo of None \<Rightarrow> st | Some _ \<Rightarrow> Subscribe (Some fanoutSubscriber) st)"

subsection \<open>One kind\<close>

type_synonym pages = "nat \<Rightarrow> string \<Rightarrow> string + object_meta list \<times> string"

text \<open>
  The items of a page. A send to a managed kind waits for room and fails with the context; a send to a
  supervised kind whose channel is full is dropped. \<open>room\<close> answers each attempt to send.
\<close>

fun sendItems :: "bool \<Rightarrow> (nat \<Rightarrow> bool) \<Rightarrow> object_meta list \<Rightarrow> nat \<Rightarrow> object_meta list \<Rightarrow> nat \<times> object_meta list \<times> bool" where
  "sendItems supervised room [] n sent = (n, sent, False)"
| "sendItems supervised room (x # xs) n sent =
    (if room n then sendItems supervised room xs (Suc n) (sent @ [x])
     else if supervised then sendItems supervised room xs (Suc n) sent
     else (Suc n, sent, True))"

partial_function (option) fanOutPages ::
  "pages \<Rightarrow> bool \<Rightarrow> (nat \<Rightarrow> bool) \<Rightarrow> string \<Rightarrow> nat \<Rightarrow> string \<Rightarrow> nat \<Rightarrow> object_meta list \<Rightarrow> (object_meta list \<times> string option) option" where
  "fanOutPages page supervised room ctxErr i token n sent =
    (case page i token of
       Inl e \<Rightarrow> Some (sent, Some e)
     | Inr items_continue \<Rightarrow>
        (case sendItems supervised room (fst items_continue) n sent of
           (n', sent', stopped) \<Rightarrow>
             if stopped then Some (sent', Some ctxErr)
             else if snd items_continue = '''' then Some (sent', None)
             else fanOutPages page supervised room ctxErr (Suc i) (snd items_continue) n' sent'))"

definition fanOutKind :: "pages \<Rightarrow> bool \<Rightarrow> (nat \<Rightarrow> bool) \<Rightarrow> string \<Rightarrow> (object_meta list \<times> string option) option" where
  "fanOutKind page supervised room ctxErr = fanOutPages page supervised room ctxErr 0 '''' 0 []"

subsection \<open>All kinds\<close>

record fanout_input =
  fi_slot :: bool
  fi_page :: "GroupKind \<Rightarrow> pages"
  fi_room :: "GroupKind \<Rightarrow> nat \<Rightarrow> bool"
  fi_ended :: "GroupKind \<Rightarrow> bool"
  fi_ctxErr :: string

definition fanoutEligible :: "WorkloadKindSet \<Rightarrow> AllowlistFanout \<Rightarrow> fanoutKind \<Rightarrow> bool" where
  "fanoutEligible allowed f k = (\<not> (fk_supervised k \<and> (\<not> Allows allowed (fk_gk k) \<or> fk_gk k \<in> set (af_inactive f))))"

fun triggerKinds ::
  "fanout_input \<Rightarrow> WorkloadKindSet \<Rightarrow> AllowlistFanout \<Rightarrow> fanoutKind list \<Rightarrow> (GroupKind \<times> object_meta list) list option" where
  "triggerKinds inp allowed f [] = Some []"
| "triggerKinds inp allowed f (k # ks) =
    (if \<not> fanoutEligible allowed f k then triggerKinds inp allowed f ks
     else (case fanOutKind (fi_page inp (fk_gk k)) (fk_supervised k) (fi_room inp (fk_gk k)) (fi_ctxErr inp) of
         None \<Rightarrow> None
       | Some (sent, err) \<Rightarrow>
           if err \<noteq> None \<and> fi_ended inp (fk_gk k) then Some [(fk_gk k, sent)]
           else map_option (\<lambda>rest. (fk_gk k, sent) # rest) (triggerKinds inp allowed f ks)))"

definition TriggerContext ::
  "fanout_input \<Rightarrow> WorkloadKindSet \<Rightarrow> AllowlistFanout \<Rightarrow> (GroupKind \<times> object_meta list) list option" where
  "TriggerContext inp allowed f = (if \<not> fi_slot inp then Some [] else triggerKinds inp allowed f (af_kinds f))"

subsection \<open>What a fan-out sends\<close>

text \<open>The pages of a complete list.\<close>

fun serves :: "pages \<Rightarrow> nat \<Rightarrow> string \<Rightarrow> object_meta list list \<Rightarrow> bool" where
  "serves page i token [] = False"
| "serves page i token [items] = (page i token = Inr (items, ''''))"
| "serves page i token (items # rest) = (\<exists>next. page i token = Inr (items, next) \<and> next \<noteq> '''' \<and> serves page (Suc i) next rest)"

lemma sendItems_room: "\<forall>n. room n \<Longrightarrow> sendItems supv room xs n sent = (n + length xs, sent @ xs, False)"
  by (induction xs arbitrary: n sent) auto

lemma fanOutPages_serves:
  assumes "\<forall>n. room n"
  shows "serves page i token ps \<Longrightarrow> fanOutPages page supv room ctxErr i token n sent = Some (sent @ concat ps, None)"
proof (induction page i token ps arbitrary: n sent rule: serves.induct)
  case (1 page i token)
  then show ?case by simp
next
  case (2 page i token items)
  then show ?case by (subst fanOutPages.simps) (simp add: sendItems_room [OF assms])
next
  case (3 page i token items p ps)
  from "3.prems" obtain nxt where nxt: "page i token = Inr (items, nxt)" "nxt \<noteq> ''''" "serves page (Suc i) nxt (p # ps)" by auto
  have "fanOutPages page supv room ctxErr (Suc i) nxt (n + length items) (sent @ items) = Some ((sent @ items) @ concat (p # ps), None)"
    by (rule "3.IH" [OF nxt(3)])
  then show ?case using nxt by (subst fanOutPages.simps) (simp add: sendItems_room [OF assms])
qed

lemma fanOutPages_returns:
  "\<forall>token. \<exists>e. page (i + m) token = Inl e \<Longrightarrow> \<exists>r. fanOutPages page supv room ctxErr i token n sent = Some r"
proof (induction m arbitrary: i token n sent)
  case 0
  then obtain e where "page i token = Inl e" by fastforce
  then show ?case by (subst fanOutPages.simps) simp
next
  case (Suc m)
  show ?case
  proof (cases "page i token")
    case (Inl e)
    then show ?thesis by (subst fanOutPages.simps) simp
  next
    case (Inr p)
    obtain n' sent' stopped where s: "sendItems supv room (fst p) n sent = (n', sent', stopped)" by (metis prod_cases3)
    have "\<exists>r. fanOutPages page supv room ctxErr (Suc i) (snd p) n' sent' = Some r"
      by (rule Suc.IH) (use Suc.prems in simp)
    then show ?thesis by (subst fanOutPages.simps) (simp add: Inr s)
  qed
qed

text \<open>A kind that can be listed: its objects; a kind whose list fails at once while time is left: nothing.\<close>

definition listing :: "fanout_input \<Rightarrow> (GroupKind \<Rightarrow> object_meta list list) \<Rightarrow> fanoutKind \<Rightarrow> bool" where
  "listing inp contents k \<longleftrightarrow>
    serves (fi_page inp (fk_gk k)) 0 '''' (contents (fk_gk k)) \<and> (\<forall>n. fi_room inp (fk_gk k) n) \<or>
    contents (fk_gk k) = [] \<and> (\<exists>e. fi_page inp (fk_gk k) 0 '''' = Inl e) \<and> \<not> fi_ended inp (fk_gk k)"

lemma listing_sent:
  assumes "listing inp contents k"
  shows "\<exists>err. fanOutKind (fi_page inp (fk_gk k)) (fk_supervised k) (fi_room inp (fk_gk k)) (fi_ctxErr inp) =
      Some (concat (contents (fk_gk k)), err) \<and> (err \<noteq> None \<longrightarrow> \<not> fi_ended inp (fk_gk k))"
  using assms unfolding listing_def
proof (elim disjE conjE exE)
  assume "serves (fi_page inp (fk_gk k)) 0 '''' (contents (fk_gk k))" "\<forall>n. fi_room inp (fk_gk k) n"
  then show ?thesis by (simp add: fanOutKind_def fanOutPages_serves)
next
  fix e assume "contents (fk_gk k) = []" "\<not> fi_ended inp (fk_gk k)" "fi_page inp (fk_gk k) 0 '''' = Inl e"
  then show ?thesis by (simp add: fanOutKind_def fanOutPages.simps)
qed

lemma triggerKinds_all:
  assumes "\<forall>k \<in> set ks. fanoutEligible allowed f k \<longrightarrow> listing inp contents k"
  shows "triggerKinds inp allowed f ks = Some (map (\<lambda>k. (fk_gk k, concat (contents (fk_gk k)))) (filter (fanoutEligible allowed f) ks))"
  using assms
proof (induction ks)
  case (Cons k ks)
  then have IH: "triggerKinds inp allowed f ks =
      Some (map (\<lambda>k. (fk_gk k, concat (contents (fk_gk k)))) (filter (fanoutEligible allowed f) ks))" by simp
  show ?case
  proof (cases "fanoutEligible allowed f k")
    case True
    then have "listing inp contents k" using Cons.prems by simp
    from listing_sent [OF this] obtain err where err: "fanOutKind (fi_page inp (fk_gk k)) (fk_supervised k) (fi_room inp (fk_gk k)) (fi_ctxErr inp) =
        Some (concat (contents (fk_gk k)), err)" "err \<noteq> None \<longrightarrow> \<not> fi_ended inp (fk_gk k)" by blast
    then have "\<not> (err \<noteq> None \<and> fi_ended inp (fk_gk k))" by blast
    then show ?thesis unfolding triggerKinds.simps IH err(1) using True by (auto simp del: not_None_eq)
  qed (simp add: IH)
qed simp

lemma triggerKinds_returns:
  assumes "\<forall>k \<in> set ks. \<exists>m. \<forall>token. \<exists>e. fi_page inp (fk_gk k) m token = Inl e"
  shows "\<exists>sent. triggerKinds inp allowed f ks = Some sent"
  using assms
proof (induction ks)
  case (Cons k ks)
  obtain m where "\<forall>token. \<exists>e. fi_page inp (fk_gk k) (0 + m) token = Inl e" using Cons.prems by auto
  then obtain r where "fanOutKind (fi_page inp (fk_gk k)) (fk_supervised k) (fi_room inp (fk_gk k)) (fi_ctxErr inp) = Some r"
    unfolding fanOutKind_def using fanOutPages_returns by blast
  moreover obtain sent where "triggerKinds inp allowed f ks = Some sent" using Cons by auto
  ultimately show ?case by (cases r) auto
qed simp


definition exampleObject :: "string \<Rightarrow> object_meta" where
  "exampleObject n = \<lparr>om_namespace = ''d'', om_name = n, om_uid = n, om_generation = 1, om_labels = [], om_annotations = [], om_ownerReferences = []\<rparr>"

definition exampleFanout :: AllowlistFanout where
  "exampleFanout = \<lparr>af_kinds = [\<lparr>fk_gk = gkind ''apps'' ''Deployment'', fk_supervised = False\<rparr>,
     \<lparr>fk_gk = gkind ''g'' ''K'', fk_supervised = True\<rparr>], af_inactive = [gkind ''g'' ''K'']\<rparr>"

definition examplePages :: fanout_input where
  "examplePages = \<lparr>fi_slot = True,
     fi_page = (\<lambda>gk i token. if i = 0 then Inr ([exampleObject ''a''], ''more'') else if i = 1 then Inr ([exampleObject ''b''], '''') else Inl ''deadline''),
     fi_room = (\<lambda>gk n. True), fi_ended = (\<lambda>gk. False), fi_ctxErr = ''deadline''\<rparr>"


text \<open>Binding: exactly the swaps that change the allowlist start a fan-out, with the new allowlist.\<close>

lemma bound_fanouts:
  assumes "st_subs st = []"
  shows "snd (store_Store (Some s) (Bind (Some f) st, started)) =
    (if kindSet_Equal (sn_workloadKinds (st_current st)) (sn_workloadKinds s) then started else started @ [sn_workloadKinds s])"
  using assms by (simp add: Bind_def Subscribe_def store_Store_def fanoutSubscriber_def)

end
