(* ===== verification/Aibom_Status.thy ===== *)
theory Aibom_Status
  imports Bom_Builder
begin

text \<open>
  The AIBOM resource (\<^verbatim>\<open>api/v1beta1/aibom_types.go\<close>) and the status the controller writes into it
  (\<^verbatim>\<open>internal/controller/status.go\<close>, \<^verbatim>\<open>summary.go\<close>, and the status helpers of
  \<^verbatim>\<open>workload_reconciler.go\<close>): where the document is found, what the summary lists, the four conditions,
  the counting of extraction errors and the transition times. The condition lookup of apimachinery is
  a parameter with its documented meaning.
\<close>

subsection \<open>The resource\<close>

record WorkloadRef =
  wr_apiVersion :: string
  wr_kind :: string
  wr_name :: string

record AIBOMSpec =
  sp_workloadRef :: WorkloadRef
  sp_bomFormat :: string
  sp_bomSpecVersion :: string

record WorkloadSummary =
  wsm_kind :: string
  wsm_apiVersion :: string
  wsm_name :: string
  wsm_namespace :: string
  wsm_category :: string

record RuntimeSummary =
  rsm_name :: string
  rsm_version :: string
  rsm_confidence :: string

record ModelSummary =
  msm_identity :: string
  msm_source :: string
  msm_confidence :: string
  msm_signed :: string

record AIBOMSummary =
  sum_workload :: WorkloadSummary
  sum_runtime :: "RuntimeSummary option"
  sum_models :: "ModelSummary list"
  sum_confidence :: string

record ExternalBOMRef =
  ext_sink :: string
  ext_url :: string
  ext_writeOnly :: bool

record BOMDocumentRef =
  bd_format :: string
  bd_specVersion :: string
  bd_sha256 :: string
  bd_size :: int
  bd_inline :: "string option"
  bd_external :: "ExternalBOMRef option"
  bd_truncated :: bool
  bd_truncationReason :: string

record AIBOMStatus =
  as_conditions :: "Condition list"
  as_summary :: "AIBOMSummary option"
  as_bomDocument :: "BOMDocumentRef option"
  as_lastReconciled :: "time option"
  as_bomHash :: string
  as_inputHash :: string
  as_consecutiveErrors :: int
  as_observedGeneration :: int

definition emptyStatus :: AIBOMStatus where
  "emptyStatus = \<lparr>as_conditions = [], as_summary = None, as_bomDocument = None, as_lastReconciled = None,
     as_bomHash = '''', as_inputHash = '''', as_consecutiveErrors = 0, as_observedGeneration = 0\<rparr>"

record AIBOM =
  ab_spec :: AIBOMSpec
  ab_owner :: "string option"
  ab_status :: AIBOMStatus

subsection \<open>The summary\<close>

record SummaryOptions =
  so_workloadKind :: string
  so_workloadAPIVersion :: string
  so_workloadName :: string
  so_workloadNamespace :: string
  so_workloadCategory :: string

definition firstProperty :: "cdx_property list \<Rightarrow> string \<Rightarrow> string" where
  "firstProperty ps name = (case find (\<lambda>p. fst p = name) ps of Some p \<Rightarrow> snd p | None \<Rightarrow> '''')"

definition readMetadataProperty :: "cdx_bom \<Rightarrow> string \<Rightarrow> string" where
  "readMetadataProperty b name = firstProperty (xb_metadataProperties b) name"

definition readProperty :: "cdx_component \<Rightarrow> string \<Rightarrow> string" where
  "readProperty c name = firstProperty (xProperties c) name"

text \<open>One iteration of the loop over the components.\<close>

definition summaryStep :: "cdx_component \<Rightarrow> AIBOMSummary \<Rightarrow> AIBOMSummary" where
  "summaryStep c s =
    (if xType c = ''application'' then
       (let name = readProperty c ''runtime.name'' in
        if name \<noteq> '''' \<and> sum_runtime s = None
        then s\<lparr>sum_runtime := Some \<lparr>rsm_name = name, rsm_version = xVersion c, rsm_confidence = readProperty c ''aibom.confidence''\<rparr>\<rparr>
        else s)
     else if xType c = ''machine-learning-model'' then
       (let confidence = readProperty c ''aibom.confidence'' in
        if confidence = confidence_str ConfidenceUnresolved then s
        else s\<lparr>sum_models := sum_models s @ [\<lparr>msm_identity = xName c, msm_source = readProperty c ''aibom.evidence.source'',
               msm_confidence = confidence, msm_signed = readProperty c ''signature.status''\<rparr>]\<rparr>)
     else s)"

definition buildSummary :: "Document option \<Rightarrow> SummaryOptions \<Rightarrow> AIBOMSummary option" where
  "buildSummary doc opts = (case doc of None \<Rightarrow> None
     | Some d \<Rightarrow> Some (fold summaryStep (xb_components (doc_cdx d))
        \<lparr>sum_workload = \<lparr>wsm_kind = so_workloadKind opts, wsm_apiVersion = so_workloadAPIVersion opts,
           wsm_name = so_workloadName opts, wsm_namespace = so_workloadNamespace opts, wsm_category = so_workloadCategory opts\<rparr>,
         sum_runtime = None, sum_models = [], sum_confidence = readMetadataProperty (doc_cdx d) ''aibom.confidence''\<rparr>))"

subsection \<open>Sink results and the document reference\<close>

record SinkResult =
  sr_sink :: string
  sr_url :: string
  sr_writeOnly :: bool
  sr_err :: "string option"

definition SinkRetryRequeueAfter :: int where "SinkRetryRequeueAfter = 60 * 10 ^ 9"
definition BootstrapRaceRequeueAfter :: int where "BootstrapRaceRequeueAfter = 2 * 10 ^ 9"
definition StatusInlineThresholdBytes :: int where "StatusInlineThresholdBytes = 262144"

definition anySinkFailed :: "SinkResult list \<Rightarrow> bool" where
  "anySinkFailed results \<longleftrightarrow> list_ex (\<lambda>r. sr_err r \<noteq> None) results"

definition firstSuccessful :: "SinkResult list \<Rightarrow> bool \<Rightarrow> SinkResult option" where
  "firstSuccessful rs wantWriteOnly = find (\<lambda>r. sr_err r = None \<and> sr_url r \<noteq> '''' \<and> sr_writeOnly r = wantWriteOnly) rs"

definition externalRef :: "SinkResult \<Rightarrow> ExternalBOMRef" where
  "externalRef r = \<lparr>ext_sink = sr_sink r, ext_url = sr_url r, ext_writeOnly = sr_writeOnly r\<rparr>"

definition truncationPrefix :: "int \<Rightarrow> int \<Rightarrow> string" where
  "truncationPrefix sz threshold = ''BOM size '' @ showInt sz @ '' bytes exceeds inline threshold '' @ showInt threshold"

definition buildBOMDocumentRef :: "Document \<Rightarrow> SinkResult list \<Rightarrow> int \<Rightarrow> BOMDocumentRef" where
  "buildBOMDocumentRef doc results threshold =
    (let sz = int (Size (Some doc));
         ref = \<lparr>bd_format = doc_format doc, bd_specVersion = doc_version doc, bd_sha256 = doc_sha256 doc, bd_size = sz,
                bd_inline = None, bd_external = None, bd_truncated = False, bd_truncationReason = ''''\<rparr>
     in if sz \<le> threshold then ref\<lparr>bd_inline := Some (doc_json doc)\<rparr>
        else (case firstSuccessful results False of
            Some r \<Rightarrow> ref\<lparr>bd_external := Some (externalRef r)\<rparr>
          | None \<Rightarrow>
             (case firstSuccessful results True of
                Some r \<Rightarrow> ref\<lparr>bd_external := Some (externalRef r)\<rparr>
              | None \<Rightarrow> ref\<lparr>bd_truncated := True, bd_truncationReason := truncationPrefix sz threshold @
                  (if results = []
                   then '' bytes and no external sink is configured. Configure a GCS or webhook sink in AIBOMControllerConfig to retrieve the full BOM.''
                   else '' bytes and no configured external sink succeeded this cycle (see the SinkFailed condition). The full BOM was not delivered; delivery is retried automatically on a bounded cadence while a sink is failing.'')\<rparr>)))"

subsection \<open>Conditions\<close>

definition joinStrings :: "string list \<Rightarrow> string \<Rightarrow> string" where
  "joinStrings parts sep = snd (fold (\<lambda>p (i, out). (i + 1, (if i > 0 then out @ sep else out) @ p)) parts (0::nat, ''''))"

definition failedSinks :: "SinkResult list \<Rightarrow> string list" where
  "failedSinks results = concat (map (\<lambda>r. case sr_err r of None \<Rightarrow> [] | Some e \<Rightarrow> [sr_sink r @ '' ('' @ e @ '')'']) results)"

definition mkCondition :: "string \<Rightarrow> bool \<Rightarrow> string \<Rightarrow> string \<Rightarrow> time \<Rightarrow> Condition" where
  "mkCondition t st reason msg now = \<lparr>cond_type = t, cond_status = st, cond_reason = reason, cond_observedGeneration = 0,
     cond_message = msg, cond_lastTransitionTime = now\<rparr>"

definition freshMessage :: string where
  "freshMessage = ''controller reconciled this AIBOM during the current cycle''"

definition buildConditions :: "Document option \<Rightarrow> SinkResult list \<Rightarrow> time \<Rightarrow> Condition list" where
  "buildConditions doc results now =
    (let failed = failedSinks results; failures = ''external sink failures: '' @ joinStrings failed '', '' in
     [if doc \<noteq> None then mkCondition ''Ready'' True ''BOMGenerated'' ''BOM generated successfully'' now
      else mkCondition ''Ready'' False ''BuildFailed'' ''no BOM available'' now,
      if failed \<noteq> [] then mkCondition ''Synced'' False ''OneOrMoreSinksDown'' failures now
      else if results = [] then mkCondition ''Synced'' True ''CRDStatusOnly'' ''no external sinks configured; CR status is the sole sink'' now
      else mkCondition ''Synced'' True ''AllSinksOK'' ''all sinks updated'' now,
      if failed \<noteq> [] then mkCondition ''SinkFailed'' True ''OneOrMoreSinksDown'' failures now
      else mkCondition ''SinkFailed'' False ''AllSinksOK'' ''no sink failures'' now,
      mkCondition ''Stale'' False ''BOMGenerated'' freshMessage now])"

definition BuildStatus :: "time \<Rightarrow> Document option \<Rightarrow> SummaryOptions \<Rightarrow> SinkResult list \<Rightarrow> int \<Rightarrow> string \<Rightarrow> int \<Rightarrow> AIBOMStatus" where
  "BuildStatus now doc opts results generation inputHash threshold0 =
    (let threshold = (if threshold0 \<le> 0 then StatusInlineThresholdBytes else threshold0) in
     emptyStatus\<lparr>as_summary := buildSummary doc opts, as_lastReconciled := Some now, as_observedGeneration := generation,
       as_inputHash := inputHash,
       as_bomHash := (case doc of None \<Rightarrow> '''' | Some d \<Rightarrow> doc_sha256 d),
       as_bomDocument := map_option (\<lambda>d. buildBOMDocumentRef d results threshold) doc,
       as_conditions := buildConditions doc results now\<rparr>)"

definition BuildFastPathStatus :: "time \<Rightarrow> AIBOMStatus option \<Rightarrow> int \<Rightarrow> AIBOMStatus" where
  "BuildFastPathStatus now prev generation =
    (case prev of None \<Rightarrow> emptyStatus | Some s \<Rightarrow> s)\<lparr>as_lastReconciled := Some now, as_observedGeneration := generation\<rparr>"

subsection \<open>Extraction errors and transition times\<close>

definition reasonExtractionErrorsPersistent :: string where
  "reasonExtractionErrorsPersistent = ''ExtractionErrorsPersistent''"

definition maxStaleMessageErrors :: nat where "maxStaleMessageErrors = 3"
definition maxStaleMessageErrorRunes :: nat where "maxStaleMessageErrorRunes = 120"

definition extractionErrorList :: "go_error list \<Rightarrow> string" where
  "extractionErrorList errs =
    (let msgs = nubBy id (map error_str errs);
         shown = map (\<lambda>m. TruncateString m maxStaleMessageErrorRunes) (take maxStaleMessageErrors msgs)
     in if length msgs > maxStaleMessageErrors
        then joinWith ''; '' shown @ ''; and '' @ showNat (length msgs - maxStaleMessageErrors) @ '' more''
        else joinWith ''; '' shown)"

text \<open>The closure \<^verbatim>\<open>transition\<close>: the status of the Stale condition, and its time when the status changes.\<close>

definition staleTransition :: "time option \<Rightarrow> bool \<Rightarrow> Condition \<Rightarrow> Condition" where
  "staleTransition lastReconciled to c =
    (case lastReconciled of
       Some t \<Rightarrow> if cond_status c \<noteq> to then c\<lparr>cond_lastTransitionTime := t, cond_status := to\<rparr> else c\<lparr>cond_status := to\<rparr>
     | None \<Rightarrow> c\<lparr>cond_status := to\<rparr>)"

definition recordExtractionErrors :: "find_condition \<Rightarrow> AIBOMStatus \<Rightarrow> int \<Rightarrow> go_error list \<Rightarrow> int \<Rightarrow> AIBOMStatus" where
  "recordExtractionErrors findC status prev errs threshold0 =
    (let threshold = (if threshold0 \<le> 0 then 3 else threshold0);
         stale = findC (as_conditions status) ''Stale'';
         upd = (\<lambda>i f. status\<lparr>as_conditions := (as_conditions status)[i := f (as_conditions status ! i)]\<rparr>)
     in if errs = [] then
          (case stale of
             Some i \<Rightarrow> if cond_reason (as_conditions status ! i) = reasonExtractionErrorsPersistent
               then (upd i (\<lambda>c. (staleTransition (as_lastReconciled status) False c)
                       \<lparr>cond_reason := ''BOMGenerated'', cond_message := freshMessage\<rparr>))\<lparr>as_consecutiveErrors := 0\<rparr>
               else status\<lparr>as_consecutiveErrors := 0\<rparr>
           | None \<Rightarrow> status\<lparr>as_consecutiveErrors := 0\<rparr>)
        else
          (let n = prev + 1 in
           if n < threshold then status\<lparr>as_consecutiveErrors := n\<rparr>
           else (case stale of None \<Rightarrow> status\<lparr>as_consecutiveErrors := n\<rparr>
             | Some i \<Rightarrow> (upd i (\<lambda>c. (staleTransition (as_lastReconciled status) True c)
                 \<lparr>cond_reason := reasonExtractionErrorsPersistent,
                  cond_message := ''workload produced extraction errors on '' @ showInt n @
                    '' consecutive reconciles; errors: '' @ extractionErrorList errs\<rparr>))\<lparr>as_consecutiveErrors := n\<rparr>)))"

definition keepTransitionTime :: "find_condition \<Rightarrow> Condition list \<Rightarrow> Condition \<Rightarrow> Condition" where
  "keepTransitionTime findC prev c = (case findC prev (cond_type c) of
     Some i \<Rightarrow> if cond_status (prev ! i) = cond_status c
       then c\<lparr>cond_lastTransitionTime := cond_lastTransitionTime (prev ! i)\<rparr> else c
   | None \<Rightarrow> c)"

definition keepTransitionTimes :: "find_condition \<Rightarrow> Condition list \<Rightarrow> Condition list \<Rightarrow> Condition list" where
  "keepTransitionTimes findC conds prev = map (keepTransitionTime findC prev) conds"

subsection \<open>Facts about the condition lookup\<close>

lemma finds_first_map:
  assumes "finds_first findC"
  shows "findC cs t = (if t \<in> cond_type ` set cs then Some (length (takeWhile (\<lambda>x. x \<noteq> t) (map cond_type cs))) else None)"
  using assms by (auto simp: finds_first_def takeWhile_map comp_def)

lemma finds_first_types: "finds_first findC \<Longrightarrow> map cond_type cs = map cond_type cs' \<Longrightarrow> findC cs t = findC cs' t"
  by (simp add: finds_first_map flip: set_map)

lemma finds_first_Some:
  assumes "finds_first findC" "findC cs t = Some i"
  shows "i < length cs \<and> cond_type (cs ! i) = t"
proof -
  have i: "i = length (takeWhile (\<lambda>c. cond_type c \<noteq> t) cs)" "\<exists>c \<in> set cs. cond_type c = t"
    using assms by (auto simp: finds_first_def split: if_splits)
  have "\<exists>c \<in> set xs. \<not> P c \<Longrightarrow> length (takeWhile P xs) < length xs" for P and xs :: "Condition list"
    by (induction xs) auto
  then have lt: "i < length cs" using i by auto
  then show ?thesis using nth_length_takeWhile [of "\<lambda>c. cond_type c \<noteq> t" cs] unfolding i(1) by simp
qed

lemma staleTransition_sel [simp]:
  "cond_type (staleTransition l to c) = cond_type c" "cond_status (staleTransition l to c) = to"
  by (auto simp: staleTransition_def split: option.splits)

text \<open>The status of the Stale condition as the lookup sees it.\<close>

definition staleCondition :: "find_condition \<Rightarrow> AIBOMStatus \<Rightarrow> Condition option" where
  "staleCondition findC s = map_option (\<lambda>i. as_conditions s ! i) (findC (as_conditions s) ''Stale'')"

lemma staleCondition_update:
  assumes "finds_first findC" "findC (as_conditions s) ''Stale'' = Some i" "\<And>c. cond_type (f c) = cond_type c"
  shows "staleCondition findC (s\<lparr>as_conditions := (as_conditions s)[i := f (as_conditions s ! i)], as_consecutiveErrors := n\<rparr>) =
    Some (f (as_conditions s ! i))"
proof -
  have i: "i < length (as_conditions s)" using finds_first_Some [OF assms(1,2)] by simp
  have "map cond_type ((as_conditions s)[i := f (as_conditions s ! i)]) = map cond_type (as_conditions s)"
    using assms(3) by (simp add: map_update list_update_same_conv i)
  then have "findC ((as_conditions s)[i := f (as_conditions s ! i)]) ''Stale'' = Some i"
    using finds_first_types [OF assms(1)] assms(2) by metis
  then show ?thesis using i by (simp add: staleCondition_def)
qed

subsection \<open>Stale follows the run of failing reconciles\<close>

text \<open>
  One reconcile on the fast path, and the number of reconciles at the end of a history whose scrapes
  all had errors.
\<close>

definition fastStep :: "find_condition \<Rightarrow> int \<Rightarrow> int \<Rightarrow> time \<times> go_error list \<Rightarrow> AIBOMStatus \<Rightarrow> AIBOMStatus" where
  "fastStep findC generation threshold e s =
    recordExtractionErrors findC (BuildFastPathStatus (fst e) (Some s) generation) (as_consecutiveErrors s) (snd e) threshold"

definition failingRun :: "(time \<times> go_error list) list \<Rightarrow> nat" where
  "failingRun es = length (takeWhile (\<lambda>e. snd e \<noteq> []) (rev es))"

lemma failingRun_snoc: "failingRun (es @ [e]) = (if snd e = [] then 0 else Suc (failingRun es))"
  by (simp add: failingRun_def)

text \<open>What such a step does to the Stale condition.\<close>

definition staleNext :: "time \<Rightarrow> int \<Rightarrow> int \<Rightarrow> go_error list \<Rightarrow> Condition \<Rightarrow> Condition" where
  "staleNext now threshold prev errs c =
    (if errs = [] then
       (if cond_reason c = reasonExtractionErrorsPersistent
        then (staleTransition (Some now) False c)\<lparr>cond_reason := ''BOMGenerated'', cond_message := freshMessage\<rparr> else c)
     else if prev + 1 < threshold then c
     else (staleTransition (Some now) True c)\<lparr>cond_reason := reasonExtractionErrorsPersistent,
        cond_message := ''workload produced extraction errors on '' @ showInt (prev + 1) @
          '' consecutive reconciles; errors: '' @ extractionErrorList errs\<rparr>)"

lemma staleNext_type [simp]: "cond_type (staleNext now th prev errs c) = cond_type c"
  by (simp add: staleNext_def)

lemma staleNext_time:
  "cond_status (staleNext now th prev errs c) = cond_status c \<longrightarrow>
   cond_lastTransitionTime (staleNext now th prev errs c) = cond_lastTransitionTime c"
  by (auto simp: staleNext_def staleTransition_def)

lemma fastStep_stale:
  assumes "finds_first findC" "staleCondition findC s = Some c" "0 < threshold"
  shows "staleCondition findC (fastStep findC g threshold e s) = Some (staleNext (fst e) threshold (as_consecutiveErrors s) (snd e) c)"
    and "as_consecutiveErrors (fastStep findC g threshold e s) = (if snd e = [] then 0 else as_consecutiveErrors s + 1)"
proof -
  let ?s = "BuildFastPathStatus (fst e) (Some s) g"
  let ?n = "if snd e = [] then 0 else as_consecutiveErrors s + 1"
  let ?f = "staleNext (fst e) threshold (as_consecutiveErrors s) (snd e)"
  have sel: "as_conditions ?s = as_conditions s" "as_lastReconciled ?s = Some (fst e)"
    by (simp_all add: BuildFastPathStatus_def)
  obtain i where i: "findC (as_conditions ?s) ''Stale'' = Some i" "as_conditions s ! i = c"
    using assms(2) by (auto simp: staleCondition_def sel)
  have "fastStep findC g threshold e s = ?s\<lparr>as_conditions := (as_conditions ?s)[i := ?f (as_conditions ?s ! i)], as_consecutiveErrors := ?n\<rparr>"
    using i assms(3) by (auto simp: fastStep_def recordExtractionErrors_def staleNext_def Let_def sel)
  then show "staleCondition findC (fastStep findC g threshold e s) = Some (staleNext (fst e) threshold (as_consecutiveErrors s) (snd e) c)"
    "as_consecutiveErrors (fastStep findC g threshold e s) = ?n"
    using staleCondition_update [OF assms(1) i(1), of ?f ?n] i(2) by (simp_all add: sel)
qed

definition staleTracks :: "find_condition \<Rightarrow> int \<Rightarrow> nat \<Rightarrow> AIBOMStatus \<Rightarrow> bool" where
  "staleTracks findC threshold n s \<longleftrightarrow> as_consecutiveErrors s = int n \<and>
    (\<exists>c. staleCondition findC s = Some c \<and> cond_status c = (threshold \<le> int n) \<and>
      (cond_status c \<longrightarrow> cond_reason c = reasonExtractionErrorsPersistent))"

lemma staleTracks_step:
  assumes "finds_first findC" "0 < threshold" "staleTracks findC threshold n s"
  shows "staleTracks findC threshold (if snd e = [] then 0 else Suc n) (fastStep findC g threshold e s)"
proof -
  obtain c where c: "staleCondition findC s = Some c" "cond_status c = (threshold \<le> int n)"
    "cond_status c \<longrightarrow> cond_reason c = reasonExtractionErrorsPersistent" "as_consecutiveErrors s = int n"
    using assms(3) by (auto simp: staleTracks_def)
  show ?thesis
    using c assms(2) fastStep_stale [OF assms(1) c(1) assms(2), of g e] by (auto simp: staleTracks_def staleNext_def)
qed

lemma findC_fresh: "finds_first findC \<Longrightarrow> findC (buildConditions doc rs now) ''Stale'' = Some 3"
  by (simp add: finds_first_map buildConditions_def mkCondition_def Let_def)


text \<open>The lookup of apimachinery as its documentation describes it, for the examples.\<close>

definition firstOfType :: find_condition where
  "firstOfType cs t = (if list_ex (\<lambda>c. cond_type c = t) cs then Some (length (takeWhile (\<lambda>c. cond_type c \<noteq> t) cs)) else None)"

lemma firstOfType: "finds_first firstOfType"
  by (simp add: finds_first_def firstOfType_def list_ex_iff)

definition exampleOptionsSummary :: SummaryOptions where
  "exampleOptionsSummary = \<lparr>so_workloadKind = ''Deployment'', so_workloadAPIVersion = ''apps/v1'', so_workloadName = ''w'',
     so_workloadNamespace = ''ns'', so_workloadCategory = ''''\<rparr>"


subsection \<open>Where the document is found\<close>

text \<open>The sinks that delivered the document, in order of preference.\<close>

definition succeeded :: "SinkResult \<Rightarrow> bool" where
  "succeeded r \<longleftrightarrow> sr_err r = None \<and> sr_url r \<noteq> ''''"

definition preferredSinks :: "SinkResult list \<Rightarrow> SinkResult list" where
  "preferredSinks rs = filter (\<lambda>r. succeeded r \<and> \<not> sr_writeOnly r) rs @ filter (\<lambda>r. succeeded r \<and> sr_writeOnly r) rs"

lemma find_filter: "find P xs = (case filter P xs of [] \<Rightarrow> None | x # _ \<Rightarrow> Some x)"
  by (induction xs) auto

lemma firstSuccessful_filter:
  "firstSuccessful rs wo = (case filter (\<lambda>r. succeeded r \<and> sr_writeOnly r = wo) rs of [] \<Rightarrow> None | r # _ \<Rightarrow> Some r)"
  by (simp add: firstSuccessful_def find_filter succeeded_def conj_assoc)

lemma firstSuccessful_preferred:
  "(case firstSuccessful rs False of Some r \<Rightarrow> Some r | None \<Rightarrow> firstSuccessful rs True) =
   (case preferredSinks rs of [] \<Rightarrow> None | r # _ \<Rightarrow> Some r)"
  unfolding firstSuccessful_filter preferredSinks_def by (auto split: list.splits)

lemma preferredSinks_Nil: "preferredSinks rs = [] \<longleftrightarrow> (\<forall>r \<in> set rs. \<not> succeeded r)"
  by (auto simp: preferredSinks_def filter_empty_conv)

lemma failedSinks_Nil: "failedSinks rs = [] \<longleftrightarrow> (\<forall>r \<in> set rs. sr_err r = None)"
  by (auto simp: failedSinks_def split: option.splits)

lemma documentRef_external:
  assumes "\<not> int (length (doc_json doc)) \<le> threshold"
  shows "let ref = buildBOMDocumentRef doc results threshold; best = (case preferredSinks results of [] \<Rightarrow> None | r # _ \<Rightarrow> Some r)
    in bd_inline ref = None \<and> bd_external ref = map_option externalRef best \<and>
       bd_truncated ref = (best = None) \<and> (bd_truncationReason ref \<noteq> '''') = (best = None) \<and> bd_sha256 ref = doc_sha256 doc"
proof -
  have "\<not> int (Size (Some doc)) \<le> threshold" using assms by (simp add: Size_def)
  then show ?thesis
    unfolding firstSuccessful_preferred [symmetric] buildBOMDocumentRef_def Let_def
    by (simp add: truncationPrefix_def split: option.splits)
qed

text \<open>
  A status built from a document always says where the document is, in exactly one of three ways: its
  exact bytes inline if its size is within the threshold; otherwise the address given by the first
  sink that delivered it, retrievable sinks before write-only ones; otherwise, exactly if no sink
  delivered it, marked as truncated with a reason. SinkFailed is true exactly if some sink failed,
  and Synced is its negation.
\<close>

theorem document_located:
  assumes "st = BuildStatus now (Some doc) opts results generation h threshold0"
    "threshold = (if threshold0 \<le> 0 then 262144 else threshold0)"
    "best = (case preferredSinks results of [] \<Rightarrow> None | r # _ \<Rightarrow> Some r)"
  shows "\<exists>ref. as_bomDocument st = Some ref \<and> bd_sha256 ref = doc_sha256 doc \<and> as_bomHash st = doc_sha256 doc \<and>
    (if int (length (doc_json doc)) \<le> threshold
     then bd_inline ref = Some (doc_json doc) \<and> bd_external ref = None \<and> \<not> bd_truncated ref
     else bd_inline ref = None \<and> bd_external ref = map_option externalRef best \<and>
       bd_truncated ref = (\<forall>r \<in> set results. \<not> succeeded r) \<and> (bd_truncated ref = (bd_truncationReason ref \<noteq> '''')) \<and>
       bd_truncated ref = (bd_external ref = None)) \<and>
    map cond_type (as_conditions st) = [''Ready'', ''Synced'', ''SinkFailed'', ''Stale''] \<and>
    map cond_status (as_conditions st) = [True, \<not> anySinkFailed results, anySinkFailed results, False]"
proof -
  let ?ref = "buildBOMDocumentRef doc results threshold"
  have "as_bomDocument st = Some ?ref" "as_bomHash st = doc_sha256 doc" "as_conditions st = buildConditions (Some doc) results now"
    using assms(1,2) by (simp_all add: BuildStatus_def Let_def StatusInlineThresholdBytes_def)
  moreover have "anySinkFailed results = (failedSinks results \<noteq> [])"
    by (auto simp: anySinkFailed_def failedSinks_Nil list_ex_iff)
  then have "map cond_type (buildConditions (Some doc) results now) = [''Ready'', ''Synced'', ''SinkFailed'', ''Stale'']"
    "map cond_status (buildConditions (Some doc) results now) = [True, \<not> anySinkFailed results, anySinkFailed results, False]"
    by (auto simp: buildConditions_def Let_def mkCondition_def)
  moreover have "if int (length (doc_json doc)) \<le> threshold
     then bd_inline ?ref = Some (doc_json doc) \<and> bd_external ?ref = None \<and> \<not> bd_truncated ?ref
     else bd_inline ?ref = None \<and> bd_external ?ref = map_option externalRef best \<and>
       bd_truncated ?ref = (\<forall>r \<in> set results. \<not> succeeded r) \<and> (bd_truncated ?ref = (bd_truncationReason ?ref \<noteq> '''')) \<and>
       bd_truncated ?ref = (bd_external ?ref = None)"
  proof (cases "int (length (doc_json doc)) \<le> threshold")
    case True
    then show ?thesis by (simp add: buildBOMDocumentRef_def Let_def Size_def)
  next
    case False
    have "(best = None) = (\<forall>r \<in> set results. \<not> succeeded r)"
      using assms(3) preferredSinks_Nil [of results] by (simp split: list.splits)
    then show ?thesis using documentRef_external [OF False, of results] False assms(3) by (simp add: Let_def)
  qed
  moreover have "bd_sha256 ?ref = doc_sha256 doc"
    by (simp add: buildBOMDocumentRef_def Let_def split: option.splits)
  ultimately show ?thesis by simp
qed

definition exampleDocument :: Document where
  "exampleDocument = \<lparr>doc_format = ''CycloneDX'', doc_version = ''1.6'', doc_json = ''{...}'', doc_sha256 = ''00'',
     doc_cdx = \<lparr>xb_format = ''CycloneDX'', xb_specVersion = ''1.6'', xb_version = 1, xb_timestamp = '''', xb_tool = ('''', ''''),
       xb_root = CdxComponent '''' '''' '''' '''' '''' [] '''' [] [], xb_metadataProperties = [], xb_components = [], xb_services = []\<rparr>\<rparr>"

theorem document_located_witness:
  "\<exists>ref. as_bomDocument (BuildStatus 0 (Some exampleDocument) exampleOptionsSummary
      [\<lparr>sr_sink = ''webhook'', sr_url = ''https://siem'', sr_writeOnly = True, sr_err = None\<rparr>,
       \<lparr>sr_sink = ''gcs'', sr_url = ''gs://b/x'', sr_writeOnly = False, sr_err = None\<rparr>] 1 ''h'' 4) = Some ref \<and>
    bd_external ref = Some \<lparr>ext_sink = ''gcs'', ext_url = ''gs://b/x'', ext_writeOnly = False\<rparr>"
  using document_located [OF refl refl refl, of 0 exampleDocument exampleOptionsSummary
      "[\<lparr>sr_sink = ''webhook'', sr_url = ''https://siem'', sr_writeOnly = True, sr_err = None\<rparr>,
       \<lparr>sr_sink = ''gcs'', sr_url = ''gs://b/x'', sr_writeOnly = False, sr_err = None\<rparr>]" 1 "''h''" 4]
  by (auto simp: exampleDocument_def preferredSinks_def succeeded_def externalRef_def)

end
