(* ===== verification/Watch_Supervisor.thy ===== *)
theory Watch_Supervisor
  imports Watch_Discovery Allowlist_Fanout Aibom_Status
begin

text \<open>
  \<^verbatim>\<open>internal/controller/watch_supervisor.go\<close>: the supervisor of the third-party kinds. A pass of \<open>apply\<close>
  acts on one kind after the other; a kind's step reads its observation once and owns the rest of the
  kind's state, so that reads of the discovery workers and events of the runners happen between steps.
  A step that stops a runner waits for it; what the runner still does until then is ordered before the
  step. The clock, the end of the root context, and the answers of the API are inputs of a pass. The
  store of AIBOMs and the transitions handed to the subscribers of the health registry are part of the
  state. Go maps from kinds are functions, with the zero value for absent keys.
\<close>

subsection \<open>State\<close>

record kindLife =
  kl_state :: crdState
  kl_uid :: string
  kl_reason :: string

definition noLife :: kindLife where
  "noLife = \<lparr>kl_state = CrdUnknown, kl_uid = '''', kl_reason = ''''\<rparr>"

definition removedLife :: kindLife where
  "removedLife = \<lparr>kl_state = CrdRemoved, kl_uid = '''', kl_reason = ''''\<rparr>"

type_synonym stored = "(string \<times> string) \<times> AIBOM"

record WatchSupervisor =
  ws_watches :: "ThirdPartyWatch list"
  ws_hasClient :: bool
  ws_syncTimeout :: int
  ws_discovery :: discoveryState
  ws_desired :: WorkloadKindSet
  ws_health :: health
  ws_tracked :: "TrackedKinds option"
  ws_fanout :: "AllowlistFanout option"
  ws_fanoutReq :: bool
  ws_life :: "string \<Rightarrow> kindLife"
  ws_activated :: "string \<Rightarrow> bool"
  ws_lagReported :: "string \<Rightarrow> int"
  ws_running :: "string \<Rightarrow> bool"
  ws_pendingStart :: "string \<Rightarrow> bool"
  ws_absentSince :: "string \<Rightarrow> time option"
  ws_poked :: "string \<Rightarrow> bool"
  ws_aiboms :: "stored list"
  ws_notices :: "WatchTransition list"

text \<open>What a pass observes: per kind the end of the root context, the clock, and the answers to the sweep.\<close>

record pass_input =
  pi_ended :: bool
  pi_endedAt :: "string \<Rightarrow> bool"
  pi_sweepEnded :: "string \<Rightarrow> bool"
  pi_now :: "string \<Rightarrow> nat \<Rightarrow> time"
  pi_gvkText :: "gvk \<Rightarrow> string"
  pi_aiboms :: "string \<Rightarrow> string + stored list"
  pi_delete :: "string \<Rightarrow> string \<times> string \<Rightarrow> api_write"

definition notify :: "health \<times> WatchTransition option \<Rightarrow> WatchSupervisor \<Rightarrow> WatchSupervisor" where
  "notify ht s = s\<lparr>ws_health := fst ht, ws_notices := ws_notices s @ (case snd ht of None \<Rightarrow> [] | Some t \<Rightarrow> [t])\<rparr>"

subsection \<open>Desired kinds, runners and roll-up\<close>

definition setDesired :: "WorkloadKindSet \<Rightarrow> WatchSupervisor \<Rightarrow> WatchSupervisor" where
  "setDesired kinds s = s\<lparr>ws_desired := kinds, ws_discovery := (ws_discovery s)\<lparr>ds_kick := True\<rparr>\<rparr>"

definition supervisorSubscriber :: "'s Snapshot \<Rightarrow> 's Snapshot \<Rightarrow> WatchSupervisor \<Rightarrow> WatchSupervisor" where
  "supervisorSubscriber prev snap s =
    (if kindSet_Equal (sn_workloadKinds prev) (sn_workloadKinds snap) then s else setDesired (sn_workloadKinds snap) s)"

definition setRunnerActive :: "string \<Rightarrow> bool \<Rightarrow> WatchSupervisor \<Rightarrow> WatchSupervisor" where
  "setRunnerActive kind active s = (if ws_fanout s = None then s
     else (case find (\<lambda>w. tw_name w = kind) (ws_watches s) of None \<Rightarrow> s
       | Some w \<Rightarrow> s\<lparr>ws_fanout := SetActive (tw_gk w) active (ws_fanout s)\<rparr>))"

definition setPendingStart :: "string \<Rightarrow> bool \<Rightarrow> WatchSupervisor \<Rightarrow> WatchSupervisor" where
  "setPendingStart kind v s = s\<lparr>ws_pendingStart := (ws_pendingStart s)(kind := v)\<rparr>"

definition stopRunner :: "ThirdPartyWatch \<Rightarrow> WatchSupervisor \<Rightarrow> WatchSupervisor" where
  "stopRunner w s = (if \<not> ws_running s (tw_name w) then s
     else setPendingStart (tw_name w) False
       (setRunnerActive (tw_name w) False (s\<lparr>ws_running := (ws_running s)(tw_name w := False)\<rparr>)))"

definition requestFanout :: "WatchSupervisor \<Rightarrow> WatchSupervisor" where
  "requestFanout s = (if ws_fanout s = None then s else s\<lparr>ws_fanoutReq := True\<rparr>)"

definition trackKind :: "ThirdPartyWatch \<Rightarrow> WatchSupervisor \<Rightarrow> WatchSupervisor" where
  "trackKind w s = (case ws_tracked s of None \<Rightarrow> s
     | Some t \<Rightarrow> (case tracked_Add (tw_gk w) t of (added, t') \<Rightarrow>
         if added then requestFanout (s\<lparr>ws_tracked := Some t'\<rparr>) else s))"

definition untrackKind :: "ThirdPartyWatch \<Rightarrow> WatchSupervisor \<Rightarrow> WatchSupervisor" where
  "untrackKind w s = (case ws_tracked s of None \<Rightarrow> s
     | Some t \<Rightarrow> (case tracked_Remove (tw_gk w) t of (removed, t') \<Rightarrow>
         if removed then requestFanout (s\<lparr>ws_tracked := Some t'\<rparr>) else s))"

definition activate :: "pass_input \<Rightarrow> ThirdPartyWatch \<Rightarrow> WatchSupervisor \<Rightarrow> bool \<times> WatchSupervisor" where
  "activate inp w s = (if ws_activated s (tw_name w) then (False, s)
     else (True, trackKind w (s\<lparr>ws_activated := (ws_activated s)(tw_name w := True),
       ws_health := Register (pi_now inp (tw_name w) 1) (tw_name w) (ws_health s)\<rparr>)))"

subsection \<open>Disabling and sweeping\<close>

definition refersTo :: "gvk \<Rightarrow> AIBOM \<Rightarrow> bool" where
  "refersTo gvk a = (let ref = sp_workloadRef (ab_spec a) in
     wr_kind ref = snd (snd gvk) \<and> hasPrefix (wr_apiVersion ref) (fst gvk @ ''/''))"

fun sweepItems ::
  "(string \<times> string \<Rightarrow> api_write) \<Rightarrow> gvk \<Rightarrow> stored list \<Rightarrow> int \<Rightarrow> stored list \<Rightarrow> int \<times> string option \<times> stored list" where
  "sweepItems del gvk [] deleted aiboms = (deleted, None, aiboms)"
| "sweepItems del gvk ((key, a) # items) deleted aiboms =
    (if \<not> refersTo gvk a then sweepItems del gvk items deleted aiboms
     else (case del key of
         WriteOK \<Rightarrow> sweepItems del gvk items (deleted + 1) (filter (\<lambda>x. fst x \<noteq> key) aiboms)
       | WriteNotFound \<Rightarrow> sweepItems del gvk items (deleted + 1) aiboms
       | WriteConflict \<Rightarrow> (deleted, Some (''delete '' @ fst key @ ''/'' @ snd key @ '': conflict''), aiboms)
       | WriteError e \<Rightarrow> (deleted, Some (''delete '' @ fst key @ ''/'' @ snd key @ '': '' @ e), aiboms)))"

definition sweepAIBOMs ::
  "(string + stored list) \<Rightarrow> (string \<times> string \<Rightarrow> api_write) \<Rightarrow> gvk \<Rightarrow> stored list \<Rightarrow> int \<times> string option \<times> stored list" where
  "sweepAIBOMs listed del gvk aiboms = (case listed of
     Inl e \<Rightarrow> (0, Some (''list AIBOMs: '' @ e), aiboms)
   | Inr items \<Rightarrow> sweepItems del gvk items 0 aiboms)"

definition disable :: "pass_input \<Rightarrow> ThirdPartyWatch \<Rightarrow> DisabledReason \<Rightarrow> nat \<Rightarrow> WatchSupervisor \<Rightarrow> WatchSupervisor" where
  "disable inp w reason n s =
    (let ht = MarkDisabled (pi_now inp (tw_name w) n) (tw_name w) reason (ws_health s);
         s1 = notify ht s
     in if snd ht = None then s1
        else if \<not> ws_hasClient s \<or> pi_sweepEnded inp (tw_name w) then s1
        else s1\<lparr>ws_aiboms := snd (snd (sweepAIBOMs (pi_aiboms inp (tw_name w)) (pi_delete inp (tw_name w)) (tw_gvk w) (ws_aiboms s1)))\<rparr>)"

definition retire :: "pass_input \<Rightarrow> ThirdPartyWatch \<Rightarrow> WatchSupervisor \<Rightarrow> WatchSupervisor" where
  "retire inp w s =
    (let s1 = disable inp w DisabledCRDRemoved 2 (untrackKind w (stopRunner w s))
     in s1\<lparr>ws_activated := (ws_activated s1)(tw_name w := False), ws_life := (ws_life s1)(tw_name w := removedLife)\<rparr>)"

definition markUnservable :: "pass_input \<Rightarrow> ThirdPartyWatch \<Rightarrow> string \<Rightarrow> nat \<Rightarrow> WatchSupervisor \<Rightarrow> WatchSupervisor" where
  "markUnservable inp w reason n s = notify (MarkUnhealthy (pi_now inp (tw_name w) n) (tw_name w)
     (Some (''CRD '' @ tw_crd w @ '' no longer serves '' @ pi_gvkText inp (tw_gvk w) @ '': '' @ reason @ ''; watch stopped, existing AIBOMs kept''))
     (ws_health s)) s"

subsection \<open>A pass\<close>

definition applyAllowlist :: "pass_input \<Rightarrow> WorkloadKindSet \<Rightarrow> ThirdPartyWatch \<Rightarrow> WatchSupervisor \<Rightarrow> WatchSupervisor" where
  "applyAllowlist inp allowed w s =
    (if Allows allowed (tw_gk w)
     then (if ws_running s (tw_name w) then s
       else setRunnerActive (tw_name w) True
         (s\<lparr>ws_health := MarkStarting (pi_now inp (tw_name w) 4) (tw_name w) (ws_health s),
            ws_running := (ws_running s)(tw_name w := True)\<rparr>))
     else if ws_running s (tw_name w) then disable inp w DisabledByConfig 4 (stopRunner w s)
     else disable inp w DisabledByConfig 4 s)"

definition reportLag :: "pass_input \<Rightarrow> ThirdPartyWatch \<Rightarrow> crdObservation \<Rightarrow> WatchSupervisor \<Rightarrow> WatchSupervisor" where
  "reportLag inp w obs s =
    (if co_lagSeq obs > ws_lagReported s (tw_name w) \<and> co_lagErr obs \<noteq> None
     then notify (MarkUnhealthy (pi_now inp (tw_name w) 0) (tw_name w) (co_lagErr obs)
            (Register (pi_now inp (tw_name w) 0) (tw_name w) (ws_health s)))
          (s\<lparr>ws_lagReported := (ws_lagReported s)(tw_name w := co_lagSeq obs)\<rparr>)
     else s)"

definition lifePresent :: "kindLife \<Rightarrow> bool" where
  "lifePresent l = (kl_state l = CrdReady \<or> kl_state l = CrdUnservable)"

text \<open>The generation acted on is gone: it was removed, or another one is ready.\<close>

definition generationEnded :: "crdObservation \<Rightarrow> kindLife \<Rightarrow> bool" where
  "generationEnded obs l = (lifePresent l \<and>
     (co_state obs = CrdRemoved \<and> co_uid obs = kl_uid l \<or> co_state obs = CrdReady \<and> co_uid obs \<noteq> kl_uid l))"

definition setLife :: "ThirdPartyWatch \<Rightarrow> kindLife \<Rightarrow> WatchSupervisor \<Rightarrow> WatchSupervisor" where
  "setLife w l s = s\<lparr>ws_life := (ws_life s)(tw_name w := l)\<rparr>"

text \<open>The change of a generation: newly ready, ready again, or no longer servable.\<close>

definition applyGeneration ::
  "pass_input \<Rightarrow> WorkloadKindSet \<Rightarrow> ThirdPartyWatch \<Rightarrow> crdObservation \<Rightarrow> WatchSupervisor \<Rightarrow> WatchSupervisor" where
  "applyGeneration inp allowed w obs s =
    (let cur = ws_life s (tw_name w) in
     if co_state obs = CrdReady \<and> \<not> lifePresent cur
     then (case activate inp w (setLife w \<lparr>kl_state = CrdReady, kl_uid = co_uid obs, kl_reason = ''''\<rparr> s) of (first, s1) \<Rightarrow>
       if Allows allowed (tw_gk w) \<and> first \<and> co_late obs then setPendingStart (tw_name w) True s1 else s1)
     else if co_state obs = CrdReady \<and> kl_state cur = CrdUnservable
     then setLife w (cur\<lparr>kl_state := CrdReady, kl_reason := ''''\<rparr>) s
     else if co_state obs = CrdUnservable \<and> kl_state cur = CrdReady \<and> co_uid obs = kl_uid cur
     then (let s1 = stopRunner w (setLife w (cur\<lparr>kl_state := CrdUnservable, kl_reason := co_reason obs\<rparr>) s)
       in if Allows allowed (tw_gk w) then markUnservable inp w (co_reason obs) 3 s1 else s1)
     else s)"

definition applyPresent :: "pass_input \<Rightarrow> WorkloadKindSet \<Rightarrow> ThirdPartyWatch \<Rightarrow> WatchSupervisor \<Rightarrow> WatchSupervisor" where
  "applyPresent inp allowed w s =
    (let cur = ws_life s (tw_name w) in
     case kl_state cur of
       CrdReady \<Rightarrow> applyAllowlist inp allowed w s
     | CrdUnservable \<Rightarrow>
         if \<not> Allows allowed (tw_gk w) then disable inp w DisabledByConfig 4 s
         else if (case Status (ws_health s) (tw_name w) of Some st \<Rightarrow> wst_disabled st | None \<Rightarrow> False)
         then markUnservable inp w (kl_reason cur) 4 s else s
     | _ \<Rightarrow> s)"

definition applyKind :: "pass_input \<Rightarrow> WorkloadKindSet \<Rightarrow> ThirdPartyWatch \<Rightarrow> WatchSupervisor \<Rightarrow> WatchSupervisor" where
  "applyKind inp allowed w s =
    (let obs = ds_obs (ws_discovery s) (tw_name w);
         s1 = reportLag inp w obs s;
         cur = ws_life s1 (tw_name w)
     in if co_state obs = CrdUnknown \<and> kl_state cur = CrdUnknown then s1
        else applyPresent inp allowed w (applyGeneration inp allowed w obs
          (if generationEnded obs cur then retire inp w s1 else s1)))"

fun applyKinds :: "pass_input \<Rightarrow> WorkloadKindSet \<Rightarrow> ThirdPartyWatch list \<Rightarrow> WatchSupervisor \<Rightarrow> WatchSupervisor" where
  "applyKinds inp allowed [] s = s"
| "applyKinds inp allowed (w # ws) s =
    (if pi_endedAt inp (tw_name w) then s else applyKinds inp allowed ws (applyKind inp allowed w s))"

definition superviseHealth :: "pass_input \<Rightarrow> WatchSupervisor \<Rightarrow> WatchSupervisor" where
  "superviseHealth inp s = notify (applyDiscoveryHealth (pi_now inp CRDDiscoveryKind 0) (ws_watches s)
     (ds_discovery (ws_discovery s)) (ws_health s)) s"

definition applyPass :: "pass_input \<Rightarrow> WorkloadKindSet \<Rightarrow> WatchSupervisor \<Rightarrow> WatchSupervisor" where
  "applyPass inp allowed s = (if pi_ended inp then s else applyKinds inp allowed (ws_watches s) (superviseHealth inp s))"

end
