(* ===== verification/Watch_Passes.thy ===== *)
theory Watch_Passes
  imports Watch_Supervisor
begin

text \<open>
  What a pass of the supervisor guarantees: it brings every kind to the state its generation and the
  allowlist prescribe, a second pass changes nothing, AIBOMs are deleted only on evidence, and one way
  in which a removal that discovery has seen is never acted on.
\<close>

subsection \<open>The part of a kind\<close>

text \<open>Everything in the state that belongs to one kind.\<close>

definition sameFor :: "ThirdPartyWatch \<Rightarrow> WatchSupervisor \<Rightarrow> WatchSupervisor \<Rightarrow> bool" where
  "sameFor w s s' \<longleftrightarrow> ws_life s' (tw_name w) = ws_life s (tw_name w) \<and> ws_activated s' (tw_name w) = ws_activated s (tw_name w) \<and>
     ws_lagReported s' (tw_name w) = ws_lagReported s (tw_name w) \<and> ws_running s' (tw_name w) = ws_running s (tw_name w) \<and>
     ws_pendingStart s' (tw_name w) = ws_pendingStart s (tw_name w) \<and>
     (gm_sorted (ws_health s) \<longrightarrow> map_of (ws_health s') (tw_name w) = map_of (ws_health s) (tw_name w)) \<and>
     tracked_Has (ws_tracked s') (tw_gk w) = tracked_Has (ws_tracked s) (tw_gk w)"

text \<open>What no step changes, and that the registry stays in key order.\<close>

definition steady :: "WatchSupervisor \<Rightarrow> WatchSupervisor \<Rightarrow> bool" where
  "steady s s' \<longleftrightarrow> ws_watches s' = ws_watches s \<and> ws_hasClient s' = ws_hasClient s \<and> ws_discovery s' = ws_discovery s \<and>
     (ws_tracked s' = None \<longleftrightarrow> ws_tracked s = None) \<and> (gm_sorted (ws_health s) \<longrightarrow> gm_sorted (ws_health s'))"

definition apart :: "ThirdPartyWatch \<Rightarrow> ThirdPartyWatch \<Rightarrow> bool" where
  "apart v w \<longleftrightarrow> tw_name v \<noteq> tw_name w \<and> tw_gk v \<noteq> tw_gk w"

lemma sameFor_refl [simp]: "sameFor w s s" by (simp add: sameFor_def)

lemma steady_refl [simp]: "steady s s" by (simp add: steady_def)

lemma steady_trans: "steady s s' \<Longrightarrow> steady s' s'' \<Longrightarrow> steady s s''" by (simp add: steady_def)

lemma sameFor_trans: "sameFor w s s' \<Longrightarrow> sameFor w s' s'' \<Longrightarrow> steady s s' \<Longrightarrow> sameFor w s s''"
  by (simp add: sameFor_def steady_def)

text \<open>A step on one kind: it is steady and leaves the kinds apart from it alone.\<close>

definition stepOn :: "ThirdPartyWatch \<Rightarrow> WatchSupervisor \<Rightarrow> WatchSupervisor \<Rightarrow> bool" where
  "stepOn w s s' \<longleftrightarrow> steady s s' \<and> (\<forall>v. apart v w \<longrightarrow> sameFor v s s')"

lemma stepOn_refl [simp]: "stepOn w s s" by (simp add: stepOn_def)

lemma stepOn_trans: "stepOn w s s' \<Longrightarrow> stepOn w s' s'' \<Longrightarrow> stepOn w s s''"
  unfolding stepOn_def using steady_trans sameFor_trans by blast

lemma stepOn_if: "stepOn w s a \<Longrightarrow> stepOn w s b \<Longrightarrow> stepOn w s (if c then a else b)"
  by simp

named_theorems on_kind \<open>each operation is a step on its kind\<close>

lemma health_put:
  "gm_sorted h \<Longrightarrow> gm_sorted (fst (MarkDisabled n k r h)) \<and> gm_sorted (fst (MarkUnhealthy n k e h)) \<and>
     gm_sorted (fst (markHealthy n k b h)) \<and> gm_sorted (MarkStarting n k h) \<and> gm_sorted (Register n k h)"
  "gm_sorted h \<Longrightarrow> j \<noteq> k \<Longrightarrow> map_of (fst (MarkDisabled n k r h)) j = map_of h j \<and> map_of (fst (MarkUnhealthy n k e h)) j = map_of h j \<and>
     map_of (fst (markHealthy n k b h)) j = map_of h j \<and> map_of (MarkStarting n k h) j = map_of h j \<and> map_of (Register n k h) j = map_of h j"
  by (auto simp: mark_defs Register_def map_of_gm_put split: option.splits)

lemma on_notify: "stepOn w s (s\<lparr>ws_health := fst ht, ws_notices := x\<rparr>)"
  if "gm_sorted (ws_health s) \<Longrightarrow> gm_sorted (fst ht) \<and> (\<forall>j. j \<noteq> tw_name w \<longrightarrow> map_of (fst ht) j = map_of (ws_health s) j)"
  using that by (auto simp: stepOn_def steady_def sameFor_def apart_def)

lemma notify_disabled [on_kind]: "stepOn w s (notify (MarkDisabled n (tw_name w) r (ws_health s)) s)"
  unfolding notify_def by (rule on_notify) (simp add: health_put)

lemma notify_unhealthy [on_kind]: "stepOn w s (notify (MarkUnhealthy n (tw_name w) e (ws_health s)) s)"
  unfolding notify_def by (rule on_notify) (simp add: health_put)

lemma setRunnerActive_frame [simp]:
  "ws_life (setRunnerActive k a s) = ws_life s" "ws_activated (setRunnerActive k a s) = ws_activated s"
  "ws_lagReported (setRunnerActive k a s) = ws_lagReported s" "ws_running (setRunnerActive k a s) = ws_running s"
  "ws_pendingStart (setRunnerActive k a s) = ws_pendingStart s" "ws_health (setRunnerActive k a s) = ws_health s"
  "ws_tracked (setRunnerActive k a s) = ws_tracked s" "ws_watches (setRunnerActive k a s) = ws_watches s"
  "ws_hasClient (setRunnerActive k a s) = ws_hasClient s" "ws_discovery (setRunnerActive k a s) = ws_discovery s"
  "ws_aiboms (setRunnerActive k a s) = ws_aiboms s" "ws_notices (setRunnerActive k a s) = ws_notices s"
  by (auto simp: setRunnerActive_def split: option.splits)

lemma stopRunner_on [on_kind]: "stepOn w s (stopRunner w s)"
  by (auto simp: stepOn_def steady_def sameFor_def apart_def stopRunner_def setPendingStart_def)

lemma setPendingStart_on [on_kind]: "stepOn w s (setPendingStart (tw_name w) b s)"
  by (auto simp: stepOn_def steady_def sameFor_def apart_def setPendingStart_def)

lemma setLife_on [on_kind]: "stepOn w s (setLife w l s)"
  by (auto simp: stepOn_def steady_def sameFor_def apart_def setLife_def)

lemma requestFanout_frame [simp]:
  "ws_life (requestFanout s) = ws_life s" "ws_activated (requestFanout s) = ws_activated s"
  "ws_lagReported (requestFanout s) = ws_lagReported s" "ws_running (requestFanout s) = ws_running s"
  "ws_pendingStart (requestFanout s) = ws_pendingStart s" "ws_health (requestFanout s) = ws_health s"
  "ws_tracked (requestFanout s) = ws_tracked s" "ws_watches (requestFanout s) = ws_watches s"
  "ws_hasClient (requestFanout s) = ws_hasClient s" "ws_discovery (requestFanout s) = ws_discovery s"
  "ws_aiboms (requestFanout s) = ws_aiboms s" "ws_notices (requestFanout s) = ws_notices s"
  by (simp_all add: requestFanout_def)

lemma trackKind_on [on_kind]: "stepOn w s (trackKind w s)"
  by (auto simp: stepOn_def steady_def sameFor_def apart_def trackKind_def tracked_Add_def tracked_Has_def split: option.splits)

lemma untrackKind_on [on_kind]: "stepOn w s (untrackKind w s)"
  by (auto simp: stepOn_def steady_def sameFor_def apart_def untrackKind_def tracked_Remove_def tracked_Has_def split: option.splits)

lemma disable_on [on_kind]: "stepOn w s (disable inp w r n s)"
proof -
  let ?s1 = "notify (MarkDisabled (pi_now inp (tw_name w) n) (tw_name w) r (ws_health s)) s"
  have "stepOn w ?s1 (?s1\<lparr>ws_aiboms := x\<rparr>)" for x by (simp add: stepOn_def steady_def sameFor_def)
  note sweep = stepOn_trans [OF notify_disabled this]
  show ?thesis unfolding disable_def Let_def by (intro stepOn_if notify_disabled sweep)
qed

lemma markUnservable_on [on_kind]: "stepOn w s (markUnservable inp w reason n s)"
  unfolding markUnservable_def by (rule notify_unhealthy)

lemma activate_on [on_kind]: "stepOn w s (snd (activate inp w s))"
proof -
  let ?s1 = "s\<lparr>ws_activated := (ws_activated s)(tw_name w := True), ws_health := Register (pi_now inp (tw_name w) 1) (tw_name w) (ws_health s)\<rparr>"
  have "stepOn w s ?s1" by (auto simp: stepOn_def steady_def sameFor_def apart_def health_put)
  then show ?thesis using trackKind_on stepOn_trans by (auto simp: activate_def)
qed

lemma retire_on [on_kind]: "stepOn w s (retire inp w s)"
proof -
  have "stepOn w s (disable inp w DisabledCRDRemoved 2 (untrackKind w (stopRunner w s)))" (is "stepOn w s ?s1")
    by (rule stepOn_trans [OF stepOn_trans [OF stopRunner_on untrackKind_on] disable_on])
  moreover have "stepOn w ?s1 (?s1\<lparr>ws_activated := (ws_activated ?s1)(tw_name w := False), ws_life := (ws_life ?s1)(tw_name w := removedLife)\<rparr>)"
    by (auto simp: stepOn_def steady_def sameFor_def apart_def)
  ultimately show ?thesis unfolding retire_def Let_def by (rule stepOn_trans)
qed

lemma reportLag_on [on_kind]: "stepOn w s (reportLag inp w obs s)"
proof -
  let ?h = "Register (pi_now inp (tw_name w) 0) (tw_name w) (ws_health s)"
  let ?s1 = "s\<lparr>ws_lagReported := (ws_lagReported s)(tw_name w := co_lagSeq obs)\<rparr>"
  have a: "stepOn w ?s1 (?s1\<lparr>ws_health := fst (MarkUnhealthy t (tw_name w) e ?h), ws_notices := x\<rparr>)" for t e x
    by (rule on_notify) (simp add: health_put)
  have b: "stepOn w s ?s1" by (auto simp: stepOn_def steady_def sameFor_def apart_def)
  show ?thesis unfolding reportLag_def notify_def by (intro stepOn_if stepOn_refl stepOn_trans [OF b a])
qed

lemma applyAllowlist_on [on_kind]: "stepOn w s (applyAllowlist inp allowed w s)"
proof -
  have "stepOn w s (setRunnerActive (tw_name w) True
         (s\<lparr>ws_health := MarkStarting t (tw_name w) (ws_health s), ws_running := (ws_running s)(tw_name w := True)\<rparr>))" for t
    by (auto simp: stepOn_def steady_def sameFor_def apart_def health_put)
  note steps = this stepOn_trans [OF stopRunner_on disable_on] disable_on stepOn_refl
  show ?thesis unfolding applyAllowlist_def by (intro stepOn_if steps)
qed

lemma applyGeneration_on [on_kind]: "stepOn w s (applyGeneration inp allowed w obs s)"
proof -
  have a: "stepOn w s (snd (activate inp w (setLife w l s)))" for l
    by (rule stepOn_trans [OF setLife_on activate_on])
  have b: "stepOn w s (stopRunner w (setLife w l s))" for l by (rule stepOn_trans [OF setLife_on stopRunner_on])

  show ?thesis unfolding applyGeneration_def Let_def case_prod_beta 
    by (rule stepOn_if setLife_on a b stepOn_trans [OF a setPendingStart_on] stepOn_trans [OF b markUnservable_on] stepOn_refl)+
qed

lemma applyPresent_on [on_kind]: "stepOn w s (applyPresent inp allowed w s)"
  by (cases "kl_state (ws_life s (tw_name w))")
    (simp_all only: applyPresent_def Let_def crdState.case, (rule stepOn_if applyAllowlist_on disable_on markUnservable_on stepOn_refl)+)

lemma applyKind_on: "stepOn w s (applyKind inp allowed w s)"
proof -
  let ?obs = "ds_obs (ws_discovery s) (tw_name w)" and ?s1 = "reportLag inp w (ds_obs (ws_discovery s) (tw_name w)) s"
  let ?s2 = "if generationEnded ?obs (ws_life ?s1 (tw_name w)) then retire inp w ?s1 else ?s1"
  have "stepOn w ?s1 ?s2" by (rule stepOn_if) (rule retire_on, rule stepOn_refl)
  note steps = stepOn_trans [OF stepOn_trans [OF this applyGeneration_on] applyPresent_on]
  show ?thesis unfolding applyKind_def Let_def
    by (rule stepOn_if, rule reportLag_on, rule stepOn_trans [OF reportLag_on steps])
qed

subsection \<open>What the operations do to their kind\<close>

named_theorems effect \<open>what an operation does to its own kind\<close>

abbreviation entry :: "ThirdPartyWatch \<Rightarrow> WatchSupervisor \<Rightarrow> WatchStatus option" where
  "entry w s \<equiv> map_of (ws_health s) (tw_name w)"

definition isDisabled :: "DisabledReason \<Rightarrow> WatchStatus option \<Rightarrow> bool" where
  "isDisabled r e \<longleftrightarrow> (\<exists>st. e = Some st \<and> wst_disabled st \<and> wst_disabledReason st = r \<and>
     \<not> wst_healthy st \<and> wst_lastError st = '''' \<and> wst_failures st = 0)"

definition isDegraded :: "WatchStatus option \<Rightarrow> bool" where
  "isDegraded e \<longleftrightarrow> (\<exists>st. e = Some st \<and> Degraded st \<and> \<not> wst_disabled st)"

definition isOn :: "WatchStatus option \<Rightarrow> bool" where
  "isOn e \<longleftrightarrow> (\<exists>st. e = Some st \<and> \<not> wst_disabled st)"

lemma notify_effect [effect]:
  "ws_life (notify ht s) = ws_life s" "ws_activated (notify ht s) = ws_activated s" "ws_lagReported (notify ht s) = ws_lagReported s"
  "ws_running (notify ht s) = ws_running s" "ws_pendingStart (notify ht s) = ws_pendingStart s" "ws_tracked (notify ht s) = ws_tracked s"
  "ws_health (notify ht s) = fst ht" "ws_aiboms (notify ht s) = ws_aiboms s" "ws_discovery (notify ht s) = ws_discovery s"
  "ws_hasClient (notify ht s) = ws_hasClient s" "ws_watches (notify ht s) = ws_watches s"
  by (simp_all add: notify_def)

lemma disable_effect [effect]:
  "ws_life (disable inp w r n s) = ws_life s" "ws_activated (disable inp w r n s) = ws_activated s"
  "ws_lagReported (disable inp w r n s) = ws_lagReported s" "ws_running (disable inp w r n s) = ws_running s"
  "ws_pendingStart (disable inp w r n s) = ws_pendingStart s" "ws_tracked (disable inp w r n s) = ws_tracked s"
  "ws_health (disable inp w r n s) = fst (MarkDisabled (pi_now inp (tw_name w) n) (tw_name w) r (ws_health s))"
  by (simp_all add: disable_def Let_def effect)

lemma markUnservable_effect [effect]:
  "ws_life (markUnservable inp w r n s) = ws_life s" "ws_activated (markUnservable inp w r n s) = ws_activated s"
  "ws_lagReported (markUnservable inp w r n s) = ws_lagReported s" "ws_running (markUnservable inp w r n s) = ws_running s"
  "ws_pendingStart (markUnservable inp w r n s) = ws_pendingStart s" "ws_tracked (markUnservable inp w r n s) = ws_tracked s"
  "ws_aiboms (markUnservable inp w r n s) = ws_aiboms s"
  by (simp_all add: markUnservable_def effect)

lemma stopRunner_effect [effect]:
  "ws_life (stopRunner w s) = ws_life s" "ws_activated (stopRunner w s) = ws_activated s" "ws_lagReported (stopRunner w s) = ws_lagReported s"
  "ws_running (stopRunner w s) = (ws_running s)(tw_name w := False)" "ws_tracked (stopRunner w s) = ws_tracked s"
  "ws_health (stopRunner w s) = ws_health s" "ws_aiboms (stopRunner w s) = ws_aiboms s"
  by (auto simp: stopRunner_def setPendingStart_def fun_eq_iff)

lemma stopRunner_pending [effect]:
  "ws_pendingStart (stopRunner w s) (tw_name w) = (ws_pendingStart s (tw_name w) \<and> \<not> ws_running s (tw_name w))"
  by (auto simp: stopRunner_def setPendingStart_def)

lemma trackKind_effect [effect]:
  "ws_life (trackKind w s) = ws_life s" "ws_activated (trackKind w s) = ws_activated s" "ws_lagReported (trackKind w s) = ws_lagReported s"
  "ws_running (trackKind w s) = ws_running s" "ws_pendingStart (trackKind w s) = ws_pendingStart s"
  "ws_health (trackKind w s) = ws_health s" "ws_aiboms (trackKind w s) = ws_aiboms s"
  "tracked_Has (ws_tracked (trackKind w s)) (tw_gk w) = (ws_tracked s \<noteq> None)"
  by (auto simp: trackKind_def tracked_Add_def tracked_Has_def split: option.split)

lemma untrackKind_effect [effect]:
  "ws_life (untrackKind w s) = ws_life s" "ws_activated (untrackKind w s) = ws_activated s" "ws_lagReported (untrackKind w s) = ws_lagReported s"
  "ws_running (untrackKind w s) = ws_running s" "ws_pendingStart (untrackKind w s) = ws_pendingStart s"
  "ws_health (untrackKind w s) = ws_health s" "ws_aiboms (untrackKind w s) = ws_aiboms s"
  "\<not> tracked_Has (ws_tracked (untrackKind w s)) (tw_gk w)"
  by (auto simp: untrackKind_def tracked_Remove_def tracked_Has_def split: option.split)

lemma marked:
  "gm_sorted h \<Longrightarrow> isDisabled r (map_of (fst (MarkDisabled n k r h)) k)"
  "gm_sorted h \<Longrightarrow> e \<noteq> '''' \<Longrightarrow> isDegraded (map_of (fst (MarkUnhealthy n k (Some e) h)) k)"
  "gm_sorted h \<Longrightarrow> isOn (map_of (MarkStarting n k h) k)"
  by (auto simp: mark_defs map_of_gm_put isDisabled_def isDegraded_def isOn_def Degraded_def)

lemma unservable_marked: "gm_sorted (ws_health s) \<Longrightarrow> isDegraded (entry w (markUnservable inp w r n s))"
  unfolding markUnservable_def effect by (rule marked(2)) simp_all

lemma on_sorted: "stepOn w s s' \<Longrightarrow> gm_sorted (ws_health s) \<Longrightarrow> gm_sorted (ws_health s')"
  by (simp add: stepOn_def steady_def)

lemma on_tracking: "stepOn w s s' \<Longrightarrow> ws_tracked s' = None \<longleftrightarrow> ws_tracked s = None"
  by (simp add: stepOn_def steady_def)

subsection \<open>The prescribed state\<close>

text \<open>The generation acted on after a pass, from the observation and the generation before.\<close>

definition nextLife :: "crdObservation \<Rightarrow> kindLife \<Rightarrow> kindLife" where
  "nextLife obs l =
    (if co_state obs = CrdReady
     then (if lifePresent l \<and> co_uid obs = kl_uid l
       then (if kl_state l = CrdUnservable then l\<lparr>kl_state := CrdReady, kl_reason := ''''\<rparr> else l)
       else \<lparr>kl_state = CrdReady, kl_uid = co_uid obs, kl_reason = ''''\<rparr>)
     else if generationEnded obs l then removedLife
     else if co_state obs = CrdUnservable \<and> kl_state l = CrdReady \<and> co_uid obs = kl_uid l
     then l\<lparr>kl_state := CrdUnservable, kl_reason := co_reason obs\<rparr>
     else l)"

text \<open>The invariant of a kind between passes, and its state right after a pass with an allowlist.\<close>

definition kindOK :: "ThirdPartyWatch \<Rightarrow> WatchSupervisor \<Rightarrow> bool" where
  "kindOK w s \<longleftrightarrow> (let l = ws_life s (tw_name w) in
     ws_activated s (tw_name w) = lifePresent l \<and> (ws_tracked s \<noteq> None \<longrightarrow> tracked_Has (ws_tracked s) (tw_gk w) = lifePresent l) \<and>
     (ws_running s (tw_name w) \<longrightarrow> kl_state l = CrdReady \<and> isOn (entry w s)) \<and>
     (ws_pendingStart s (tw_name w) \<longrightarrow> ws_running s (tw_name w)) \<and>
     (kl_state l = CrdUnservable \<longrightarrow> isDegraded (entry w s) \<or> (\<exists>r. isDisabled r (entry w s))))"

definition kindSettled :: "WorkloadKindSet \<Rightarrow> ThirdPartyWatch \<Rightarrow> WatchSupervisor \<Rightarrow> bool" where
  "kindSettled allowed w s \<longleftrightarrow> (let l = ws_life s (tw_name w) in
     ws_running s (tw_name w) = (kl_state l = CrdReady \<and> Allows allowed (tw_gk w)) \<and>
     (lifePresent l \<and> \<not> Allows allowed (tw_gk w) \<longrightarrow> isDisabled DisabledByConfig (entry w s)) \<and>
     (kl_state l = CrdUnservable \<and> Allows allowed (tw_gk w) \<longrightarrow> isDegraded (entry w s)))"

text \<open>Between the change of a generation and the allowlist step.\<close>

definition kindMid :: "WorkloadKindSet \<Rightarrow> ThirdPartyWatch \<Rightarrow> WatchSupervisor \<Rightarrow> bool" where
  "kindMid allowed w s \<longleftrightarrow> (let l = ws_life s (tw_name w) in
     ws_activated s (tw_name w) = lifePresent l \<and> (ws_tracked s \<noteq> None \<longrightarrow> tracked_Has (ws_tracked s) (tw_gk w) = lifePresent l) \<and>
     (ws_running s (tw_name w) \<longrightarrow> kl_state l = CrdReady \<and> isOn (entry w s)) \<and>
     (ws_pendingStart s (tw_name w) \<longrightarrow> ws_running s (tw_name w) \<or> kl_state l = CrdReady \<and> Allows allowed (tw_gk w)) \<and>
     (kl_state l = CrdUnservable \<and> Allows allowed (tw_gk w) \<longrightarrow> isDegraded (entry w s) \<or> (\<exists>r. isDisabled r (entry w s))))"

lemma kindOK_mid: "kindOK w s \<Longrightarrow> kindMid allowed w s"
  by (auto simp: kindOK_def kindMid_def Let_def)

lemma degraded_on: "isDegraded e \<Longrightarrow> isOn e"
  by (auto simp: isDegraded_def isOn_def)

lemma reportLag_life [simp]: "ws_life (reportLag inp w obs s) = ws_life s" "ws_aiboms (reportLag inp w obs s) = ws_aiboms s"
  "ws_discovery (reportLag inp w obs s) = ws_discovery s" "ws_tracked (reportLag inp w obs s) = ws_tracked s"
  by (simp_all add: reportLag_def effect)

lemma reportLag_ok:
  assumes "kindOK w s" "gm_sorted (ws_health s)" "co_lagErr obs \<noteq> Some ''''"
  shows "kindOK w (reportLag inp w obs s)"
proof (cases "co_lagSeq obs > ws_lagReported s (tw_name w) \<and> co_lagErr obs \<noteq> None")
  case True
  then obtain e where e: "co_lagErr obs = Some e" "e \<noteq> ''''" using assms(3) by auto
  let ?h = "Register (pi_now inp (tw_name w) 0) (tw_name w) (ws_health s)"
  have "gm_sorted ?h" using assms(2) by (simp add: health_put)
  note deg = marked(2) [OF this e(2)]
  have "entry w (reportLag inp w obs s) = map_of (fst (MarkUnhealthy (pi_now inp (tw_name w) 0) (tw_name w) (Some e) ?h)) (tw_name w)"
    using True e by (simp add: reportLag_def effect)
  then have "isDegraded (entry w (reportLag inp w obs s))" using deg by simp
  then show ?thesis using assms(1) degraded_on unfolding kindOK_def Let_def
    by (simp add: reportLag_def effect)
next
  case False
  show ?thesis unfolding reportLag_def if_not_P [OF False] by (rule assms(1))
qed

lemma retire_ok:
  assumes "kindOK w s" "gm_sorted (ws_health s)"
  shows "kindOK w (retire inp w s) \<and> ws_life (retire inp w s) (tw_name w) = removedLife \<and> isDisabled DisabledCRDRemoved (entry w (retire inp w s))"
  using assms marked(1) [OF assms(2)]
  by (auto simp: kindOK_def Let_def retire_def effect lifePresent_def removedLife_def)

lemma activate_effect:
  assumes "\<not> ws_activated s (tw_name w)"
  shows "fst (activate inp w s)" "ws_life (snd (activate inp w s)) = ws_life s" "ws_activated (snd (activate inp w s)) (tw_name w)"
    "ws_running (snd (activate inp w s)) = ws_running s" "ws_pendingStart (snd (activate inp w s)) = ws_pendingStart s"
    "tracked_Has (ws_tracked (snd (activate inp w s))) (tw_gk w) = (ws_tracked s \<noteq> None)"
    "ws_aiboms (snd (activate inp w s)) = ws_aiboms s" "ws_lagReported (snd (activate inp w s)) = ws_lagReported s"
  using assms by (simp_all add: activate_def effect)

lemma generation_ok:
  assumes "kindOK w s" "gm_sorted (ws_health s)" "\<not> generationEnded obs (ws_life s (tw_name w))"
  shows "kindMid allowed w (applyGeneration inp allowed w obs s) \<and>
    ws_life (applyGeneration inp allowed w obs s) (tw_name w) = nextLife obs (ws_life s (tw_name w))"
proof -
  let ?l = "ws_life s (tw_name w)"
  consider (new) "co_state obs = CrdReady" "\<not> lifePresent ?l"
    | (again) "co_state obs = CrdReady" "kl_state ?l = CrdUnservable"
    | (lost) "co_state obs = CrdUnservable" "kl_state ?l = CrdReady" "co_uid obs = kl_uid ?l"
    | (same) "\<not> (co_state obs = CrdReady \<and> \<not> lifePresent ?l)" "\<not> (co_state obs = CrdReady \<and> kl_state ?l = CrdUnservable)"
        "\<not> (co_state obs = CrdUnservable \<and> kl_state ?l = CrdReady \<and> co_uid obs = kl_uid ?l)" by blast
  then show ?thesis
  proof cases
    case new
    let ?s1 = "setLife w \<lparr>kl_state = CrdReady, kl_uid = co_uid obs, kl_reason = ''''\<rparr> s"
    have na: "\<not> ws_activated ?s1 (tw_name w)" using assms(1) new(2) by (simp add: kindOK_def Let_def setLife_def)
    have tr: "ws_tracked (snd (activate inp w ?s1)) = None \<longleftrightarrow> ws_tracked s = None"
      using on_tracking [OF activate_on] by (simp add: setLife_def)
    have nr: "\<not> ws_running s (tw_name w)" "\<not> ws_pendingStart s (tw_name w)"
      using assms(1) new(2) by (auto simp: kindOK_def Let_def lifePresent_def)
    have eq: "applyGeneration inp allowed w obs s = (if Allows allowed (tw_gk w) \<and> co_late obs
        then setPendingStart (tw_name w) True (snd (activate inp w ?s1)) else snd (activate inp w ?s1))"
      using new activate_effect(1) [OF na] by (simp add: applyGeneration_def split_beta)
    show ?thesis unfolding eq using new nr tr activate_effect [OF na]
      by (auto simp: kindMid_def Let_def nextLife_def setPendingStart_def setLife_def lifePresent_def)
  next
    case again
    then have p: "lifePresent ?l" by (simp add: lifePresent_def)
    then have uid: "co_uid obs = kl_uid ?l" using assms(3) again by (auto simp: generationEnded_def)
    have "applyGeneration inp allowed w obs s = setLife w (?l\<lparr>kl_state := CrdReady, kl_reason := ''''\<rparr>) s"
      using again p by (simp add: applyGeneration_def Let_def)
    then show ?thesis using assms(1) again p uid
      by (auto simp: kindOK_def kindMid_def Let_def nextLife_def setLife_def lifePresent_def)
  next
    case lost
    let ?s1 = "stopRunner w (setLife w (?l\<lparr>kl_state := CrdUnservable, kl_reason := co_reason obs\<rparr>) s)"
    have p: "lifePresent ?l" using lost by (simp add: lifePresent_def)
    have eq: "applyGeneration inp allowed w obs s = (if Allows allowed (tw_gk w) then markUnservable inp w (co_reason obs) 3 ?s1 else ?s1)"
      using lost p by (simp add: applyGeneration_def Let_def)
    have "isDegraded (entry w (markUnservable inp w (co_reason obs) 3 ?s1))"
      by (rule unservable_marked) (simp add: effect setLife_def assms(2))
    then show ?thesis unfolding eq using assms(1,3) lost p
      by (auto simp: kindOK_def kindMid_def Let_def nextLife_def effect setLife_def lifePresent_def)
  next
    case same
    have eq: "applyGeneration inp allowed w obs s = s"
      unfolding applyGeneration_def Let_def if_not_P [OF same(1)] if_not_P [OF same(2)] if_not_P [OF same(3)] by (rule refl)
    have "nextLife obs ?l = ?l" using same assms(3)
      by (auto simp: nextLife_def generationEnded_def lifePresent_def)
    then show ?thesis unfolding eq using kindOK_mid [OF assms(1)] by simp
  qed
qed

lemma present_ok:
  assumes "kindMid allowed w s" "gm_sorted (ws_health s)"
  shows "kindOK w (applyPresent inp allowed w s) \<and> kindSettled allowed w (applyPresent inp allowed w s) \<and>
    ws_life (applyPresent inp allowed w s) = ws_life s"
proof (cases "kl_state (ws_life s (tw_name w))")
  case CrdReady
  show ?thesis
  proof (cases "Allows allowed (tw_gk w)")
    case True
    then show ?thesis using assms(1) CrdReady marked(3) [OF assms(2)]
      by (auto simp: kindMid_def kindOK_def kindSettled_def Let_def applyPresent_def applyAllowlist_def lifePresent_def)
  next
    case False
    then show ?thesis using assms CrdReady marked(1) [OF assms(2)]
      by (auto simp: kindMid_def kindOK_def kindSettled_def Let_def applyPresent_def applyAllowlist_def lifePresent_def effect)
  qed
next
  case CrdUnservable
  show ?thesis
  proof (cases "Allows allowed (tw_gk w)")
    case True
    have dis: "isDisabled r e \<Longrightarrow> (case e of Some st \<Rightarrow> wst_disabled st | None \<Rightarrow> False)" for r e by (auto simp: isDisabled_def)
    let ?c = "case Status (ws_health s) (tw_name w) of Some st \<Rightarrow> wst_disabled st | None \<Rightarrow> False"
    have eq: "applyPresent inp allowed w s = (if ?c then markUnservable inp w (kl_reason (ws_life s (tw_name w))) 4 s else s)"
      using True CrdUnservable by (simp add: applyPresent_def Let_def)
    have "isDegraded (entry w s)" if "\<not> ?c" using that assms(1) CrdUnservable True dis
      by (auto simp: kindMid_def Let_def Status_def)
    then show ?thesis unfolding eq using assms CrdUnservable True unservable_marked [OF assms(2)]
      by (auto simp: kindMid_def kindOK_def kindSettled_def Let_def lifePresent_def effect)
  next
    case False
    then have eq: "applyPresent inp allowed w s = disable inp w DisabledByConfig 4 s"
      using CrdUnservable by (simp add: applyPresent_def Let_def)
    have "isDisabled DisabledByConfig (entry w (disable inp w DisabledByConfig 4 s))"
      by (simp add: effect marked(1) [OF assms(2)])
    then show ?thesis unfolding eq using assms(1) CrdUnservable False
      by (auto simp: kindMid_def kindOK_def kindSettled_def Let_def lifePresent_def effect)
  qed
qed (use assms in \<open>auto simp: kindMid_def kindOK_def kindSettled_def Let_def applyPresent_def lifePresent_def\<close>)

abbreviation obsOf :: "ThirdPartyWatch \<Rightarrow> WatchSupervisor \<Rightarrow> crdObservation" where
  "obsOf w s \<equiv> ds_obs (ws_discovery s) (tw_name w)"

text \<open>The step of one kind, seen from before.\<close>

definition kindStepped :: "WorkloadKindSet \<Rightarrow> ThirdPartyWatch \<Rightarrow> WatchSupervisor \<Rightarrow> WatchSupervisor \<Rightarrow> bool" where
  "kindStepped allowed w s s' \<longleftrightarrow> kindSettled allowed w s' \<and>
     ws_life s' (tw_name w) = nextLife (obsOf w s) (ws_life s (tw_name w)) \<and>
     (generationEnded (obsOf w s) (ws_life s (tw_name w)) \<and> co_state (obsOf w s) = CrdRemoved \<longrightarrow> isDisabled DisabledCRDRemoved (entry w s'))"

lemma applyKind_ok:
  assumes "kindOK w s" "gm_sorted (ws_health s)" "co_lagErr (obsOf w s) \<noteq> Some ''''"
  shows "kindOK w (applyKind inp allowed w s) \<and> kindStepped allowed w s (applyKind inp allowed w s)"
proof -
  let ?obs = "obsOf w s" and ?l = "ws_life s (tw_name w)"
  let ?s1 = "reportLag inp w ?obs s"
  have s1: "kindOK w ?s1" "gm_sorted (ws_health ?s1)"
    using reportLag_ok [OF assms] on_sorted [OF reportLag_on assms(2)] by auto
  consider (unknown) "co_state ?obs = CrdUnknown" "kl_state ?l = CrdUnknown"
    | (ended) "\<not> (co_state ?obs = CrdUnknown \<and> kl_state ?l = CrdUnknown)" "generationEnded ?obs ?l"
    | (lasts) "\<not> (co_state ?obs = CrdUnknown \<and> kl_state ?l = CrdUnknown)" "\<not> generationEnded ?obs ?l" by blast
  then show ?thesis
  proof cases
    case unknown
    then have eq: "applyKind inp allowed w s = ?s1" by (simp add: applyKind_def Let_def)
    have np: "\<not> lifePresent ?l" "\<not> generationEnded ?obs ?l" using unknown by (simp_all add: lifePresent_def generationEnded_def)
    have "nextLife ?obs ?l = ?l" using unknown np by (simp add: nextLife_def)
    then show ?thesis unfolding eq kindStepped_def using s1(1) np unknown
      by (auto simp: kindOK_def kindSettled_def Let_def lifePresent_def)
  next
    case ended
    let ?s2 = "retire inp w ?s1"
    have eq: "applyKind inp allowed w s = applyPresent inp allowed w (applyGeneration inp allowed w ?obs ?s2)"
      unfolding applyKind_def Let_def reportLag_life if_not_P [OF ended(1)] using ended(2) by simp
    have s2: "kindOK w ?s2" "ws_life ?s2 (tw_name w) = removedLife" "isDisabled DisabledCRDRemoved (entry w ?s2)" "gm_sorted (ws_health ?s2)"
      using retire_ok [OF s1] on_sorted [OF retire_on s1(2)] by auto
    have "\<not> generationEnded ?obs (ws_life ?s2 (tw_name w))" unfolding s2(2) by (simp add: generationEnded_def lifePresent_def removedLife_def)
    note g = generation_ok [OF s2(1,4) this, of allowed inp]
    note p = present_ok [OF g [THEN conjunct1] on_sorted [OF applyGeneration_on s2(4)], of inp]
    have next_eq: "nextLife ?obs removedLife = nextLife ?obs ?l"
      using ended(2) by (auto simp: nextLife_def generationEnded_def lifePresent_def removedLife_def)
    have "applyPresent inp allowed w (applyGeneration inp allowed w ?obs ?s2) = ?s2" if "co_state ?obs = CrdRemoved"
      using that s2(2) by (simp add: applyGeneration_def applyPresent_def Let_def removedLife_def)
    then show ?thesis unfolding eq kindStepped_def using p g s2(2,3) next_eq by auto
  next
    case lasts
    have eq: "applyKind inp allowed w s = applyPresent inp allowed w (applyGeneration inp allowed w ?obs ?s1)"
      unfolding applyKind_def Let_def reportLag_life if_not_P [OF lasts(1)] using lasts(2) by simp
    have "\<not> generationEnded ?obs (ws_life ?s1 (tw_name w))" using lasts(2) by simp
    note g = generation_ok [OF s1 this, of allowed inp]
    note p = present_ok [OF g [THEN conjunct1] on_sorted [OF applyGeneration_on s1(2)], of inp]
    show ?thesis unfolding eq kindStepped_def using p g lasts(2) by simp
  qed
qed

subsection \<open>A whole pass\<close>

lemma kindOK_same: "sameFor w s s' \<Longrightarrow> steady s s' \<Longrightarrow> gm_sorted (ws_health s) \<Longrightarrow> kindOK w s' = kindOK w s"
  by (simp add: sameFor_def steady_def kindOK_def)

lemma kindStepped_before: "sameFor w s s1 \<Longrightarrow> steady s s1 \<Longrightarrow> kindStepped allowed w s1 s' = kindStepped allowed w s s'"
  by (simp add: kindStepped_def sameFor_def steady_def)

lemma kindStepped_after:
  "sameFor w s1 s2 \<Longrightarrow> steady s1 s2 \<Longrightarrow> gm_sorted (ws_health s1) \<Longrightarrow> kindStepped allowed w s s1 = kindStepped allowed w s s2"
  by (simp add: kindStepped_def kindSettled_def sameFor_def Let_def)

definition superOK :: "WatchSupervisor \<Rightarrow> bool" where
  "superOK s \<longleftrightarrow> gm_sorted (ws_health s) \<and> distinct (map tw_name (ws_watches s)) \<and> distinct (map tw_gk (ws_watches s)) \<and>
     (\<forall>w \<in> set (ws_watches s). kindOK w s \<and> co_lagErr (obsOf w s) \<noteq> Some '''' \<and> tw_name w \<noteq> CRDDiscoveryKind)"

lemma applyKinds_on:
  assumes "\<forall>w \<in> set ws. apart v w"
  shows "steady s (applyKinds inp allowed ws s) \<and> sameFor v s (applyKinds inp allowed ws s)"
  using assms
proof (induction ws arbitrary: s)
  case (Cons w ws)
  have "steady s (applyKind inp allowed w s)" "sameFor v s (applyKind inp allowed w s)"
    using applyKind_on [of w s inp allowed] Cons.prems by (simp_all add: stepOn_def)
  then show ?case using Cons by (simp add: steady_trans sameFor_trans)
qed simp

lemma applyKinds_steady: "steady s (applyKinds inp allowed ws s)"
proof (induction ws arbitrary: s)
  case (Cons w ws)
  then show ?case using applyKind_on [of w s inp allowed] steady_trans unfolding stepOn_def applyKinds.simps by auto
qed simp

lemma distinct_apart: "distinct (map tw_name (w # ws)) \<Longrightarrow> distinct (map tw_gk (w # ws)) \<Longrightarrow> v \<in> set ws \<Longrightarrow> apart v w \<and> apart w v"
  unfolding apart_def by (metis distinct.simps(2) image_eqI list.set_map list.simps(9))

lemma applyKinds_ok:
  assumes "distinct (map tw_name ws)" "distinct (map tw_gk ws)" "gm_sorted (ws_health s)"
    "\<forall>w \<in> set ws. kindOK w s \<and> co_lagErr (obsOf w s) \<noteq> Some ''''" "w \<in> set ws"
  shows "kindOK w (applyKinds inp allowed ws s) \<and>
    ((\<forall>v \<in> set ws. \<not> pi_endedAt inp (tw_name v)) \<longrightarrow> kindStepped allowed w s (applyKinds inp allowed ws s))"
  using assms
proof (induction ws arbitrary: s)
  case (Cons v ws)
  let ?s1 = "applyKind inp allowed v s"
  have on: "stepOn v s ?s1" by (rule applyKind_on)
  then have st: "steady s ?s1" "gm_sorted (ws_health ?s1)" using Cons.prems(3) by (auto simp: stepOn_def steady_def)
  have same: "sameFor u s ?s1" if "u \<in> set ws" for u
    using on distinct_apart [OF Cons.prems(1,2) that] by (simp add: stepOn_def)
  have ok: "\<forall>u \<in> set ws. kindOK u ?s1 \<and> co_lagErr (obsOf u ?s1) \<noteq> Some ''''"
    using Cons.prems(4) same kindOK_same [OF _ st(1) Cons.prems(3)] st(1) by (auto simp: steady_def)
  show ?case
  proof (cases "pi_endedAt inp (tw_name v)")
    case True
    then show ?thesis using Cons.prems(4) [rule_format, OF Cons.prems(5)] by simp
  next
    case False
    show ?thesis
    proof (cases "w = v")
      case True
      have step: "kindOK v ?s1 \<and> kindStepped allowed v s ?s1"
        using applyKind_ok [OF _ Cons.prems(3)] Cons.prems(4) by simp
      have "\<forall>u \<in> set ws. apart v u" using distinct_apart [OF Cons.prems(1,2)] by blast
      from applyKinds_on [OF this, of ?s1 inp allowed]
      have s2: "steady ?s1 (applyKinds inp allowed ws ?s1)" "sameFor v ?s1 (applyKinds inp allowed ws ?s1)" by simp_all
      show ?thesis unfolding True using step False kindOK_same [OF s2(2,1) st(2)] kindStepped_after [OF s2(2,1) st(2)] by simp
    next
      case ne: False
      then have w: "w \<in> set ws" using Cons.prems(5) by simp
      have "distinct (map tw_name ws)" "distinct (map tw_gk ws)" using Cons.prems(1,2) by simp_all
      from Cons.IH [OF this st(2) ok w] False
      show ?thesis using kindStepped_before [OF same [OF w] st(1)] by auto
    qed
  qed
qed simp

lemma superviseHealth_frame:
  assumes "tw_name w \<noteq> CRDDiscoveryKind"
  shows "sameFor w s (superviseHealth inp s)"
  using assms by (auto simp: sameFor_def superviseHealth_def effect applyDiscoveryHealth_def Let_def health_put MarkHealthy_def split: option.split)

lemma superviseHealth_steady: "steady s (superviseHealth inp s)"
  by (auto simp: steady_def superviseHealth_def effect applyDiscoveryHealth_def Let_def health_put MarkHealthy_def split: option.split)

lemma applyPass_ok:
  assumes "superOK s"
  shows "superOK (applyPass inp allowed s) \<and> ws_watches (applyPass inp allowed s) = ws_watches s \<and>
    (\<not> pi_ended inp \<and> (\<forall>v \<in> set (ws_watches s). \<not> pi_endedAt inp (tw_name v)) \<longrightarrow>
      (\<forall>w \<in> set (ws_watches s). kindStepped allowed w s (applyPass inp allowed s)))"
proof (cases "pi_ended inp")
  case True
  then show ?thesis using assms by (simp add: applyPass_def)
next
  case False
  let ?s1 = "superviseHealth inp s" and ?ws = "ws_watches s"
  have st: "steady s ?s1" by (rule superviseHealth_steady)
  have sorted: "gm_sorted (ws_health s)" "gm_sorted (ws_health ?s1)" using assms st by (auto simp: superOK_def steady_def)
  have same: "sameFor w s ?s1" if "w \<in> set ?ws" for w
    using superviseHealth_frame assms that by (simp add: superOK_def)
  have ok: "\<forall>w \<in> set ?ws. kindOK w ?s1 \<and> co_lagErr (obsOf w ?s1) \<noteq> Some ''''"
    using assms same kindOK_same [OF _ st sorted(1)] st by (auto simp: superOK_def steady_def)
  have eq: "applyPass inp allowed s = applyKinds inp allowed ?ws ?s1" using False by (simp add: applyPass_def)
  have d: "distinct (map tw_name ?ws)" "distinct (map tw_gk ?ws)" using assms by (simp_all add: superOK_def)
  note kinds = applyKinds_ok [OF d sorted(2) ok, of _ inp allowed]
  have st2: "steady s (applyKinds inp allowed ?ws ?s1)" using st applyKinds_steady steady_trans by blast
  then have "superOK (applyKinds inp allowed ?ws ?s1)" using assms kinds sorted(1) d
    by (simp add: superOK_def steady_def)
  moreover have "ws_watches (applyKinds inp allowed ?ws ?s1) = ?ws" using st2 by (simp add: steady_def)
  moreover have "kindStepped allowed w s (applyKinds inp allowed ?ws ?s1)"
    if "w \<in> set ?ws" "\<forall>v \<in> set ?ws. \<not> pi_endedAt inp (tw_name v)" for w
    using kinds [OF that(1)] that(2) kindStepped_before [OF same [OF that(1)] st] by simp
  ultimately show ?thesis unfolding eq by blast
qed

subsection \<open>Sweeps\<close>

text \<open>The AIBOMs that are gone were listed for the kind and refer to it.\<close>

definition sweptBy :: "pass_input \<Rightarrow> ThirdPartyWatch \<Rightarrow> stored list \<Rightarrow> stored list \<Rightarrow> bool" where
  "sweptBy inp w old new \<longleftrightarrow> set new \<subseteq> set old \<and>
     (\<forall>x \<in> set old - set new. \<exists>items a. pi_aiboms inp (tw_name w) = Inr items \<and> (fst x, a) \<in> set items \<and> refersTo (tw_gvk w) a)"

lemma sweptBy_refl [simp]: "sweptBy inp w a a" by (simp add: sweptBy_def)

lemma sweptBy_trans: "sweptBy inp w a b \<Longrightarrow> sweptBy inp w b c \<Longrightarrow> sweptBy inp w a c"
  unfolding sweptBy_def by blast

lemma sweepItems_swept:
  "set (snd (snd (sweepItems del gvk items n aiboms))) \<subseteq> set aiboms \<and>
   (\<forall>x \<in> set aiboms - set (snd (snd (sweepItems del gvk items n aiboms))). \<exists>a. (fst x, a) \<in> set items \<and> refersTo gvk a)"
proof (induction del gvk items n aiboms rule: sweepItems.induct)
  case (2 del gvk key a items n aiboms)
  show ?case
  proof (cases "refersTo gvk a")
    case True
    show ?thesis
    proof (cases "del key")
      case WriteOK
      have eq: "sweepItems del gvk ((key, a) # items) n aiboms = sweepItems del gvk items (n + 1) (filter (\<lambda>x. fst x \<noteq> key) aiboms)"
        using True WriteOK by simp
      note ih = "2.IH"(2) [OF _ WriteOK]
      have sub: "set (snd (snd (sweepItems del gvk items (n + 1) (filter (\<lambda>x. fst x \<noteq> key) aiboms)))) \<subseteq> set aiboms"
        using ih True by auto
      moreover have "\<exists>b. (fst x, b) \<in> set ((key, a) # items) \<and> refersTo gvk b"
        if "x \<in> set aiboms" "x \<notin> set (snd (snd (sweepItems del gvk items (n + 1) (filter (\<lambda>x. fst x \<noteq> key) aiboms))))" for x
      proof (cases "fst x = key")
        case False
        then have "x \<in> set (filter (\<lambda>x. fst x \<noteq> key) aiboms)" using that(1) by simp
        then show ?thesis using ih True that(2) by (metis (no_types, lifting) DiffI list.set_intros(2))
      qed (use True in auto)
      ultimately show ?thesis unfolding eq by blast
    next
      case WriteNotFound
      then have eq: "sweepItems del gvk ((key, a) # items) n aiboms = sweepItems del gvk items (n + 1) aiboms"
        using True by simp
      show ?thesis unfolding eq using "2.IH"(3) [OF _ WriteNotFound] True by (meson list.set_intros(2))
    qed (simp_all add: True)
  next
    case False
    then show ?thesis using "2.IH"(1) by auto
  qed
qed simp

lemma disable_swept: "sweptBy inp w (ws_aiboms s) (ws_aiboms (disable inp w r n s))"
proof -
  have "sweptBy inp w A (snd (snd (sweepAIBOMs (pi_aiboms inp (tw_name w)) (pi_delete inp (tw_name w)) (tw_gvk w) A)))" for A
  proof (cases "pi_aiboms inp (tw_name w)")
    case (Inr items)
    then show ?thesis using sweepItems_swept [of "pi_delete inp (tw_name w)" "tw_gvk w" items 0 A]
      by (auto simp: sweptBy_def sweepAIBOMs_def)
  qed (simp add: sweepAIBOMs_def)
  then show ?thesis by (simp add: disable_def Let_def effect)
qed

lemma setPendingStart_aiboms [simp]: "ws_aiboms (setPendingStart k b s) = ws_aiboms s" "ws_life (setPendingStart k b s) = ws_life s"
  by (simp_all add: setPendingStart_def)

lemma setLife_aiboms [simp]: "ws_aiboms (setLife w l s) = ws_aiboms s" by (simp add: setLife_def)

lemma activate_aiboms [simp]: "ws_aiboms (snd (activate inp w s)) = ws_aiboms s"
  by (simp add: activate_def effect)

lemma applyGeneration_aiboms [simp]: "ws_aiboms (applyGeneration inp allowed w obs s) = ws_aiboms s"
  by (simp add: applyGeneration_def Let_def effect split_beta)

lemma applyPresent_life: "ws_life (applyPresent inp allowed w s) = ws_life s"
  by (simp add: applyPresent_def Let_def applyAllowlist_def effect split: crdState.split)

lemma applyPresent_swept:
  "sweptBy inp w (ws_aiboms s) (ws_aiboms (applyPresent inp allowed w s)) \<and>
   (\<not> lifePresent (ws_life s (tw_name w)) \<or> Allows allowed (tw_gk w) \<longrightarrow> ws_aiboms (applyPresent inp allowed w s) = ws_aiboms s)"
  using disable_swept [of inp w s] disable_swept [of inp w "stopRunner w s"]
  by (cases "kl_state (ws_life s (tw_name w))")
    (auto simp: applyPresent_def Let_def applyAllowlist_def lifePresent_def effect)

lemma retire_swept: "sweptBy inp w (ws_aiboms s) (ws_aiboms (retire inp w s))"
  using disable_swept [of inp w "untrackKind w (stopRunner w s)"] by (simp add: retire_def Let_def effect)

lemma applyKind_swept:
  "sweptBy inp w (ws_aiboms s) (ws_aiboms (applyKind inp allowed w s)) \<and>
   (\<not> generationEnded (obsOf w s) (ws_life s (tw_name w)) \<and>
      (\<not> lifePresent (ws_life (applyKind inp allowed w s) (tw_name w)) \<or> Allows allowed (tw_gk w)) \<longrightarrow>
    ws_aiboms (applyKind inp allowed w s) = ws_aiboms s)"
proof (cases "co_state (obsOf w s) = CrdUnknown \<and> kl_state (ws_life s (tw_name w)) = CrdUnknown")
  case True
  then show ?thesis by (simp add: applyKind_def Let_def)
next
  case False
  let ?s1 = "reportLag inp w (obsOf w s) s"
  let ?s2 = "if generationEnded (obsOf w s) (ws_life s (tw_name w)) then retire inp w ?s1 else ?s1"
  let ?s3 = "applyGeneration inp allowed w (obsOf w s) ?s2"
  have eq: "applyKind inp allowed w s = applyPresent inp allowed w ?s3"
    unfolding applyKind_def Let_def reportLag_life if_not_P [OF False] ..
  have "sweptBy inp w (ws_aiboms s) (ws_aiboms ?s2)" using retire_swept [of inp w ?s1] by simp
  then have s3: "sweptBy inp w (ws_aiboms s) (ws_aiboms ?s3)" unfolding applyGeneration_aiboms .
  have keep: "\<not> generationEnded (obsOf w s) (ws_life s (tw_name w)) \<Longrightarrow> ws_aiboms ?s3 = ws_aiboms s"
    unfolding applyGeneration_aiboms by simp
  note p = applyPresent_swept [of inp w ?s3 allowed]
  show ?thesis unfolding eq applyPresent_life
    using sweptBy_trans [OF s3 p [THEN conjunct1]] p [THEN conjunct2] keep by metis
qed

text \<open>The grounds on which the AIBOMs of a kind may be deleted in a pass.\<close>

definition sweepGrounds :: "WorkloadKindSet \<Rightarrow> ThirdPartyWatch \<Rightarrow> WatchSupervisor \<Rightarrow> WatchSupervisor \<Rightarrow> bool" where
  "sweepGrounds allowed w s s' \<longleftrightarrow> generationEnded (obsOf w s) (ws_life s (tw_name w)) \<or>
     lifePresent (ws_life s' (tw_name w)) \<and> \<not> Allows allowed (tw_gk w)"

lemma applyKinds_swept:
  assumes "distinct (map tw_name ws)" "distinct (map tw_gk ws)"
    "x \<in> set (ws_aiboms s)" "x \<notin> set (ws_aiboms (applyKinds inp allowed ws s))"
  shows "\<exists>w \<in> set ws. \<exists>items a. sweepGrounds allowed w s (applyKinds inp allowed ws s) \<and>
    pi_aiboms inp (tw_name w) = Inr items \<and> (fst x, a) \<in> set items \<and> refersTo (tw_gvk w) a"
  using assms
proof (induction ws arbitrary: s)
  case (Cons w ws)
  have run: "applyKinds inp allowed (w # ws) s = applyKinds inp allowed ws (applyKind inp allowed w s)"
    using Cons.prems(3,4) by (auto split: if_splits)
  let ?s1 = "applyKind inp allowed w s"
  let ?s2 = "applyKinds inp allowed ws ?s1"
  have on: "steady s ?s1" "\<And>v. apart v w \<Longrightarrow> sameFor v s ?s1" using applyKind_on [of w s inp allowed] by (simp_all add: stepOn_def)
  show ?case
  proof (cases "x \<in> set (ws_aiboms ?s1)")
    case True
    have "distinct (map tw_name ws)" "distinct (map tw_gk ws)" using Cons.prems(1,2) by simp_all
    from Cons.IH [OF this True] Cons.prems(4) run
    obtain v items a where v: "v \<in> set ws" "sweepGrounds allowed v ?s1 ?s2" "pi_aiboms inp (tw_name v) = Inr items"
      "(fst x, a) \<in> set items" "refersTo (tw_gvk v) a" by auto
    have "sameFor v s ?s1" using on(2) distinct_apart [OF Cons.prems(1,2) v(1)] by blast
    then have "sweepGrounds allowed v s ?s2" using v(2) on(1) by (simp add: sweepGrounds_def sameFor_def steady_def)
    then show ?thesis unfolding run using v by auto
  next
    case False
    note swept = applyKind_swept [of inp w s allowed]
    have "generationEnded (obsOf w s) (ws_life s (tw_name w)) \<or> lifePresent (ws_life ?s1 (tw_name w)) \<and> \<not> Allows allowed (tw_gk w)"
      using swept False Cons.prems(3) by auto
    moreover have "\<forall>u \<in> set ws. apart w u" using distinct_apart [OF Cons.prems(1,2)] by blast
    then have "ws_life ?s2 (tw_name w) = ws_life ?s1 (tw_name w)" using applyKinds_on [of ws w ?s1 inp allowed] by (simp add: sameFor_def)
    ultimately have "sweepGrounds allowed w s ?s2" by (simp add: sweepGrounds_def)
    then show ?thesis unfolding run using swept False Cons.prems(3) by (auto simp: sweptBy_def)
  qed
qed simp

lemma applyPass_swept:
  assumes "superOK s" "x \<in> set (ws_aiboms s)" "x \<notin> set (ws_aiboms (applyPass inp allowed s))"
  shows "\<exists>w \<in> set (ws_watches s). \<exists>items a. sweepGrounds allowed w s (applyPass inp allowed s) \<and>
    pi_aiboms inp (tw_name w) = Inr items \<and> (fst x, a) \<in> set items \<and> refersTo (tw_gvk w) a"
proof -
  let ?s1 = "superviseHealth inp s" and ?ws = "ws_watches s"
  have run: "applyPass inp allowed s = applyKinds inp allowed ?ws ?s1"
    using assms(2,3) by (auto simp: applyPass_def split: if_splits)
  have d: "distinct (map tw_name ?ws)" "distinct (map tw_gk ?ws)" using assms(1) by (simp_all add: superOK_def)
  have "x \<in> set (ws_aiboms ?s1)" using assms(2) by (simp add: superviseHealth_def effect)
  from applyKinds_swept [OF d this assms(3) [unfolded run], folded run]
  obtain w items a where w: "w \<in> set ?ws" "sweepGrounds allowed w ?s1 (applyPass inp allowed s)"
    "pi_aiboms inp (tw_name w) = Inr items" "(fst x, a) \<in> set items" "refersTo (tw_gvk w) a" by blast
  moreover have "sweepGrounds allowed w s (applyPass inp allowed s)"
    using w(2) by (simp add: sweepGrounds_def superviseHealth_def effect)
  ultimately show ?thesis by blast
qed

subsection \<open>A second pass\<close>

lemma gm_put_same: "gm_sorted h \<Longrightarrow> map_of h k = Some v \<Longrightarrow> gm_put k v h = h"
  by (rule gm_sorted_eqI) (auto simp: map_of_gm_put)

text \<open>A kind on which a step with this allowlist changes nothing.\<close>

definition kindFixed :: "WorkloadKindSet \<Rightarrow> ThirdPartyWatch \<Rightarrow> WatchSupervisor \<Rightarrow> bool" where
  "kindFixed allowed w s \<longleftrightarrow> kindOK w s \<and> kindSettled allowed w s \<and>
     nextLife (obsOf w s) (ws_life s (tw_name w)) = ws_life s (tw_name w) \<and>
     \<not> generationEnded (obsOf w s) (ws_life s (tw_name w)) \<and>
     \<not> (co_lagSeq (obsOf w s) > ws_lagReported s (tw_name w) \<and> co_lagErr (obsOf w s) \<noteq> None)"

lemma disable_again:
  assumes "gm_sorted (ws_health s)" "isDisabled r (entry w s)"
  shows "disable inp w r n s = s"
proof -
  obtain st where st: "entry w s = Some st" "wst_disabled st" "wst_disabledReason st = r" "\<not> wst_healthy st" "wst_lastError st = ''''" "wst_failures st = 0"
    using assms(2) by (auto simp: isDisabled_def)
  have "st\<lparr>wst_disabled := True, wst_disabledReason := r, wst_healthy := False, wst_lastError := '''', wst_failures := 0\<rparr> = st"
    using st by (cases st) simp
  then have "gm_put (tw_name w) (st\<lparr>wst_disabled := True, wst_disabledReason := r, wst_healthy := False, wst_lastError := '''', wst_failures := 0\<rparr>)
      (ws_health s) = ws_health s" by (simp only: gm_put_same [OF assms(1) st(1)])
  then have "MarkDisabled t (tw_name w) r (ws_health s) = (ws_health s, None)" for t
    using st(1,2) by (simp add: MarkDisabled_def health_get_def Let_def)
  then show ?thesis by (simp add: disable_def notify_def)
qed

lemma applyKind_fixed:
  assumes "kindFixed allowed w s" "gm_sorted (ws_health s)"
  shows "applyKind inp allowed w s = s"
proof -
  let ?obs = "obsOf w s" and ?l = "ws_life s (tw_name w)"
  have nl: "nextLife ?obs ?l = ?l" and ne: "\<not> generationEnded ?obs ?l"
    and set: "kindSettled allowed w s" using assms(1) by (simp_all add: kindFixed_def)
  have lag: "reportLag inp w ?obs s = s"
    using assms(1) unfolding kindFixed_def reportLag_def by (auto simp del: not_None_eq)
  have a: "\<not> (co_state ?obs = CrdReady \<and> \<not> lifePresent ?l)"
  proof
    assume r: "co_state ?obs = CrdReady \<and> \<not> lifePresent ?l"
    then have "lifePresent (nextLife ?obs ?l)" by (simp add: nextLife_def) (simp add: lifePresent_def)
    then show False using nl r by simp
  qed
  have b: "\<not> (co_state ?obs = CrdReady \<and> kl_state ?l = CrdUnservable)"
  proof
    assume c: "co_state ?obs = CrdReady \<and> kl_state ?l = CrdUnservable"
    then have "kl_state (nextLife ?obs ?l) = CrdReady" by (simp add: nextLife_def)
    then show False using nl c by simp
  qed
  have c: "\<not> (co_state ?obs = CrdUnservable \<and> kl_state ?l = CrdReady \<and> co_uid ?obs = kl_uid ?l)"
  proof
    assume d: "co_state ?obs = CrdUnservable \<and> kl_state ?l = CrdReady \<and> co_uid ?obs = kl_uid ?l"
    then have "kl_state (nextLife ?obs ?l) = CrdUnservable" using ne by (simp add: nextLife_def)
    then show False using nl d by simp
  qed
  have gen: "applyGeneration inp allowed w ?obs s = s"
    unfolding applyGeneration_def Let_def if_not_P [OF a] if_not_P [OF b] if_not_P [OF c] by (rule refl)
  have "applyPresent inp allowed w s = s"
  proof (cases "kl_state ?l")
    case CrdReady
    then show ?thesis using set disable_again [OF assms(2), of DisabledByConfig w]
      by (cases "Allows allowed (tw_gk w)") (auto simp: applyPresent_def applyAllowlist_def kindSettled_def Let_def lifePresent_def)
  next
    case CrdUnservable
    then show ?thesis using set disable_again [OF assms(2), of DisabledByConfig w]
      by (cases "Allows allowed (tw_gk w)")
        (auto simp: applyPresent_def kindSettled_def Let_def lifePresent_def Status_def isDegraded_def)
  qed (simp_all add: applyPresent_def Let_def)
  then show ?thesis using ne by (simp add: applyKind_def Let_def lag gen)
qed

lemma nextLife_twice:
  "nextLife obs (nextLife obs l) = nextLife obs l" "\<not> generationEnded obs (nextLife obs l)"
  by (auto simp: nextLife_def generationEnded_def lifePresent_def removedLife_def)

lemma applyGeneration_lag: "ws_lagReported (applyGeneration inp allowed w obs s) = ws_lagReported s"
  by (simp add: applyGeneration_def Let_def split_beta activate_def effect setPendingStart_def setLife_def)

lemma applyPresent_lag: "ws_lagReported (applyPresent inp allowed w s) = ws_lagReported s"
  by (simp add: applyPresent_def Let_def applyAllowlist_def effect split: crdState.split)

lemma applyKind_lag: "ws_lagReported (applyKind inp allowed w s) = ws_lagReported (reportLag inp w (obsOf w s) s)"
  by (simp add: applyKind_def Let_def applyPresent_lag applyGeneration_lag retire_def effect)

lemma applyKind_fixes:
  assumes "kindOK w s" "gm_sorted (ws_health s)" "co_lagErr (obsOf w s) \<noteq> Some ''''"
  shows "kindFixed allowed w (applyKind inp allowed w s)"
proof -
  have obs: "obsOf w (applyKind inp allowed w s) = obsOf w s"
    using applyKind_on [of w s inp allowed] by (simp add: stepOn_def steady_def)
  have "\<not> (co_lagSeq (obsOf w s) > ws_lagReported (reportLag inp w (obsOf w s) s) (tw_name w) \<and> co_lagErr (obsOf w s) \<noteq> None)"
    by (auto simp: reportLag_def effect)
  then show ?thesis using applyKind_ok [OF assms, of inp allowed] nextLife_twice
    by (simp add: kindFixed_def obs kindStepped_def applyKind_lag del: not_None_eq)
qed

lemma kindFixed_same: "sameFor w s s' \<Longrightarrow> steady s s' \<Longrightarrow> gm_sorted (ws_health s) \<Longrightarrow> kindFixed allowed w s' = kindFixed allowed w s"
  unfolding kindFixed_def using kindOK_same [of w s s'] by (simp add: kindSettled_def sameFor_def steady_def Let_def)

lemma applyKinds_fixed:
  assumes "\<forall>w \<in> set ws. kindFixed allowed w s" "gm_sorted (ws_health s)"
  shows "applyKinds inp allowed ws s = s"
  using assms by (induction ws) (simp_all add: applyKind_fixed)

lemma applyKinds_fixes:
  assumes "distinct (map tw_name ws)" "distinct (map tw_gk ws)" "gm_sorted (ws_health s)"
    "\<forall>w \<in> set ws. kindOK w s \<and> co_lagErr (obsOf w s) \<noteq> Some ''''" "\<forall>v \<in> set ws. \<not> pi_endedAt inp (tw_name v)"
  shows "\<forall>w \<in> set ws. kindFixed allowed w (applyKinds inp allowed ws s)"
  using assms
proof (induction ws arbitrary: s)
  case (Cons v ws)
  let ?s1 = "applyKind inp allowed v s" and ?s2 = "applyKinds inp allowed ws (applyKind inp allowed v s)"
  have on: "stepOn v s ?s1" by (rule applyKind_on)
  have st: "steady s ?s1" "gm_sorted (ws_health ?s1)" using on Cons.prems(3) by (auto simp: stepOn_def steady_def)
  have "\<forall>u \<in> set ws. kindOK u ?s1 \<and> co_lagErr (obsOf u ?s1) \<noteq> Some ''''"
  proof
    fix u assume u: "u \<in> set ws"
    have "sameFor u s ?s1" using on distinct_apart [OF Cons.prems(1,2) u] by (simp add: stepOn_def)
    then show "kindOK u ?s1 \<and> co_lagErr (obsOf u ?s1) \<noteq> Some ''''"
      using kindOK_same [OF _ st(1) Cons.prems(3)] Cons.prems(4) u st(1) by (auto simp: steady_def)
  qed
  then have rest: "\<forall>w \<in> set ws. kindFixed allowed w ?s2" using Cons.IH [OF _ _ st(2)] Cons.prems by simp
  have fix1: "kindFixed allowed v ?s1" using applyKind_fixes [OF _ Cons.prems(3)] Cons.prems(4) by simp
  have "\<forall>u \<in> set ws. apart v u" using distinct_apart [OF Cons.prems(1,2)] by blast
  then have "steady ?s1 ?s2" "sameFor v ?s1 ?s2" using applyKinds_on [of ws v ?s1 inp allowed] by simp_all
  then have "kindFixed allowed v ?s2" using kindFixed_same st(2) fix1 by blast
  then show ?case using rest Cons.prems(5) by simp
qed simp

lemma applyKinds_other_entry:
  assumes "gm_sorted (ws_health s)" "\<forall>w \<in> set ws. tw_name w \<noteq> j"
  shows "map_of (ws_health (applyKinds inp allowed ws s)) j = map_of (ws_health s) j"
  using assms
proof (induction ws arbitrary: s)
  case (Cons w ws)
  let ?v = "\<lparr>tw_name = j, tw_gvk = (gk_group (tw_gk w) @ ''x'', '''', ''''), tw_crd = ''''\<rparr>"
  have "tw_gk ?v \<noteq> tw_gk w"
  proof
    assume "tw_gk ?v = tw_gk w"
    then have "gk_group (tw_gk ?v) = gk_group (tw_gk w)" by simp
    then show False by (simp add: tw_gk_def gkind_def)
  qed
  then have "apart ?v w" using Cons.prems(2) by (auto simp: apart_def)
  then have "sameFor ?v s (applyKind inp allowed w s)" "gm_sorted (ws_health (applyKind inp allowed w s))"
    using applyKind_on [of w s inp allowed] Cons.prems(1) by (auto simp: stepOn_def steady_def)
  then show ?case using Cons by (simp add: sameFor_def)
qed simp

lemma discovery_settled:
  assumes "applyDiscoveryHealth now ws d h = (h1, t)" "gm_sorted h" "map_of h2 CRDDiscoveryKind = map_of h1 CRDDiscoveryKind"
  shows "applyDiscoveryHealth now' ws d h2 = (h2, None)"
proof (cases "di_enabled d \<and> discoveryFailures d \<noteq> []")
  case True
  let ?msg = "''CRD discovery failed: '' @ joinWith ''; '' (discoveryFailures d)"
  have "\<exists>st. map_of h1 CRDDiscoveryKind = Some st \<and> Degraded st \<and> wst_lastError st = ?msg"
    using assms(1,2) True by (auto simp: applyDiscoveryHealth_def Let_def Status_def MarkUnhealthy_def map_of_gm_put Degraded_def
        split: option.splits if_splits)
  then show ?thesis using True assms(3) by (auto simp: applyDiscoveryHealth_def Let_def Status_def)
next
  case False
  show ?thesis
  proof (cases "di_enabled d \<and> discoveryReady ws d")
    case ready: True
    then have "IsHealthy h1 CRDDiscoveryKind"
      using assms(1,2) False by (auto simp: applyDiscoveryHealth_def MarkHealthy_def markHealthy_def Let_def IsHealthy_def map_of_gm_put split: if_splits)
    then show ?thesis using ready False assms(3) by (simp add: applyDiscoveryHealth_def IsHealthy_def)
  next
    case nr: False
    then show ?thesis using False by (auto simp: applyDiscoveryHealth_def)
  qed
qed

lemma supervise_same:
  "applyDiscoveryHealth (pi_now inp CRDDiscoveryKind 0) (ws_watches t) (ds_discovery (ws_discovery t)) (ws_health t) = (ws_health t, None) \<Longrightarrow>
   superviseHealth inp t = t"
  by (simp add: superviseHealth_def notify_def)

lemma applyPass_again:
  assumes "superOK s" "\<not> pi_ended inp" "\<forall>v \<in> set (ws_watches s). \<not> pi_endedAt inp (tw_name v)"
  shows "applyPass inp' allowed (applyPass inp allowed s) = applyPass inp allowed s"
proof (cases "pi_ended inp'")
  case False
  let ?s1 = "superviseHealth inp s" and ?ws = "ws_watches s"
  let ?s2 = "applyKinds inp allowed ?ws ?s1"
  have eq: "applyPass inp allowed s = ?s2" using assms(2) by (simp add: applyPass_def)
  have st: "steady s ?s1" by (rule superviseHealth_steady)
  have st2: "steady ?s1 ?s2" by (rule applyKinds_steady)
  have sorted: "gm_sorted (ws_health s)" "gm_sorted (ws_health ?s1)" "gm_sorted (ws_health ?s2)"
    using assms(1) st st2 by (auto simp: superOK_def steady_def)
  have d: "distinct (map tw_name ?ws)" "distinct (map tw_gk ?ws)" using assms(1) by (simp_all add: superOK_def)
  have ok: "\<forall>w \<in> set ?ws. kindOK w ?s1 \<and> co_lagErr (obsOf w ?s1) \<noteq> Some ''''"
  proof
    fix w assume w: "w \<in> set ?ws"
    then have "sameFor w s ?s1" using superviseHealth_frame assms(1) by (simp add: superOK_def)
    then show "kindOK w ?s1 \<and> co_lagErr (obsOf w ?s1) \<noteq> Some ''''"
      using kindOK_same [OF _ st sorted(1)] assms(1) w st by (auto simp: superOK_def steady_def)
  qed
  have fixed: "\<forall>w \<in> set ?ws. kindFixed allowed w ?s2" by (rule applyKinds_fixes [OF d sorted(2) ok assms(3)])
  have same: "ws_watches ?s2 = ?ws" "ws_discovery ?s2 = ws_discovery s" using st st2 by (simp_all add: steady_def)
  have "map_of (ws_health ?s2) CRDDiscoveryKind = map_of (ws_health ?s1) CRDDiscoveryKind"
    by (rule applyKinds_other_entry [OF sorted(2)]) (use assms(1) in \<open>simp add: superOK_def\<close>)
  moreover obtain h1 tr where h1: "applyDiscoveryHealth (pi_now inp CRDDiscoveryKind 0) ?ws (ds_discovery (ws_discovery s)) (ws_health s) = (h1, tr)"
    by fastforce
  moreover have "ws_health ?s1 = h1" using h1 by (simp add: superviseHealth_def effect)
  ultimately have "applyDiscoveryHealth t ?ws (ds_discovery (ws_discovery s)) (ws_health ?s2) = (ws_health ?s2, None)" for t
    using discovery_settled [OF h1 sorted(1)] by simp
  then have "superviseHealth inp' ?s2 = ?s2" by (intro supervise_same) (simp only: same)
  then show ?thesis unfolding eq using False applyKinds_fixed [OF fixed sorted(3)] by (simp add: applyPass_def same)
qed (simp add: applyPass_def)

end
