(* ===== verification/Watch_Runner.thy ===== *)
theory Watch_Runner
  imports Watch_Supervisor
begin

text \<open>
  The runner of one kind and the set-up of the supervisor (\<^verbatim>\<open>watch_supervisor.go\<close>, and \<open>runnerError\<close> of
  \<^verbatim>\<open>watch_discovery.go\<close>): the probe, the events a running watch reacts to, its rebuild with capped backoff, the
  events on the controller pod, and registration. What the caches and the controller do is the sequence
  of events they produce.
\<close>

subsection \<open>Errors of a watch\<close>

datatype watch_error = NotFoundErr string | NoMatchErr string | OtherErr string

fun watchError_str :: "watch_error \<Rightarrow> string" where
  "watchError_str (NotFoundErr e) = e"
| "watchError_str (NoMatchErr e) = e"
| "watchError_str (OtherErr e) = e"

fun absenceShaped :: "watch_error \<Rightarrow> bool" where
  "absenceShaped (OtherErr e) = False"
| "absenceShaped _ = True"

definition clearAbsent :: "string \<Rightarrow> WatchSupervisor \<Rightarrow> WatchSupervisor" where
  "clearAbsent kind s = s\<lparr>ws_absentSince := (ws_absentSince s)(kind := None)\<rparr>"

definition markRunnerUnhealthy :: "time \<Rightarrow> ThirdPartyWatch \<Rightarrow> watch_error \<Rightarrow> WatchSupervisor \<Rightarrow> WatchSupervisor" where
  "markRunnerUnhealthy now w err s = notify (MarkUnhealthy now (tw_name w) (Some (watchError_str err)) (ws_health s)) s"

text \<open>The time is read when a streak begins and again to measure it; every candidate has a worker.\<close>

definition runnerError :: "time \<Rightarrow> time \<Rightarrow> ThirdPartyWatch \<Rightarrow> watch_error option \<Rightarrow> WatchSupervisor \<Rightarrow> WatchSupervisor" where
  "runnerError now later w erro s = (case erro of None \<Rightarrow> s | Some err \<Rightarrow>
     if absenceShaped err
     then (let since = (case ws_absentSince s (tw_name w) of None \<Rightarrow> now | Some t \<Rightarrow> t);
               s1 = s\<lparr>ws_poked := (ws_poked s)(tw_name w := True), ws_absentSince := (ws_absentSince s)(tw_name w := Some since)\<rparr>
       in if later - since < ws_syncTimeout s then s1 else markRunnerUnhealthy later w err s1)
     else markRunnerUnhealthy later w err (clearAbsent (tw_name w) s))"

subsection \<open>The probe\<close>

text \<open>A list limited to one object, and a read of the object it returned.\<close>

record probe_input =
  pb_list :: "watch_error + (string \<times> string) list"
  pb_get :: "string \<times> string \<Rightarrow> watch_error option"

definition probe :: "probe_input \<Rightarrow> watch_error option" where
  "probe p = (case pb_list p of
     Inl e \<Rightarrow> Some e
   | Inr [] \<Rightarrow> None
   | Inr (item # _) \<Rightarrow> (case pb_get p item of Some (NotFoundErr _) \<Rightarrow> None | r \<Rightarrow> r))"

subsection \<open>A running watch\<close>

definition takePendingStart :: "string \<Rightarrow> WatchSupervisor \<Rightarrow> bool \<times> WatchSupervisor" where
  "takePendingStart kind s = (ws_pendingStart s kind, setPendingStart kind False s)"

definition markRunnerHealthy :: "time \<Rightarrow> ThirdPartyWatch \<Rightarrow> bool \<Rightarrow> WatchSupervisor \<Rightarrow> WatchSupervisor" where
  "markRunnerHealthy now w started s =
    notify (if started then MarkStarted now (tw_name w) (ws_health s) else MarkHealthy now (tw_name w) (ws_health s)) s"

text \<open>
  The events of one run: the informer has synced, the list/watch error handler was called, the ticker
  fired and the probe answered, the controller returned, the context ended. The state of the loop is
  whether the sync is still awaited.
\<close>

datatype run_event =
    Synced time
  | WatchFailed time time watch_error
  | Tick time time probe_input
  | ControllerReturned "watch_error option"
  | ContextDone

definition controllerStopped :: watch_error where "controllerStopped = OtherErr ''controller stopped''"

definition contextCanceled :: watch_error where "contextCanceled = OtherErr ''context canceled''"

fun runOnceStep :: "ThirdPartyWatch \<Rightarrow> run_event \<Rightarrow> bool \<times> WatchSupervisor \<Rightarrow> (bool \<times> WatchSupervisor) \<times> watch_error option" where
  "runOnceStep w (Synced now) (awaiting, s) =
    (if \<not> awaiting then ((awaiting, s), None)
     else (case takePendingStart (tw_name w) (clearAbsent (tw_name w) s) of (started, s1) \<Rightarrow>
       ((False, markRunnerHealthy now w started s1), None)))"
| "runOnceStep w (WatchFailed now later err) (awaiting, s) = ((awaiting, runnerError now later w (Some err) s), None)"
| "runOnceStep w (Tick now later p) (awaiting, s) =
    (case probe p of
       Some err \<Rightarrow> ((awaiting, runnerError now later w (Some err) s), None)
     | None \<Rightarrow> (let s1 = clearAbsent (tw_name w) s in
         if awaiting \<and> ws_pendingStart s1 (tw_name w) then ((awaiting, s1), None)
         else ((awaiting, markRunnerHealthy later w False s1), None)))"
| "runOnceStep w (ControllerReturned erro) (awaiting, s) =
    ((awaiting, s), Some (case erro of None \<Rightarrow> controllerStopped | Some e \<Rightarrow> e))"
| "runOnceStep w ContextDone (awaiting, s) = ((awaiting, s), Some contextCanceled)"

text \<open>
  The events of a run up to its return, on a fresh cache and controller; building them can fail. A run
  whose events are over has not returned yet.
\<close>

fun runOnceLoop :: "ThirdPartyWatch \<Rightarrow> run_event list \<Rightarrow> bool \<times> WatchSupervisor \<Rightarrow> (bool \<times> WatchSupervisor) \<times> watch_error option" where
  "runOnceLoop w [] st = (st, None)"
| "runOnceLoop w (e # es) st = (case runOnceStep w e st of
     (st', Some err) \<Rightarrow> (st', Some err)
   | (st', None) \<Rightarrow> runOnceLoop w es st')"

definition runOnce :: "ThirdPartyWatch \<Rightarrow> watch_error option \<Rightarrow> run_event list \<Rightarrow> WatchSupervisor \<Rightarrow> WatchSupervisor \<times> watch_error option" where
  "runOnce w setupError events s = (case setupError of
     Some e \<Rightarrow> (s, Some e)
   | None \<Rightarrow> (case runOnceLoop w events (True, s) of ((_, s'), r) \<Rightarrow> (s', r)))"

text \<open>One turn of the supervision loop: its inputs, and what it leaves: the state and the delay before the next turn.\<close>

record attempt =
  at_now :: time
  at_later :: time
  at_probe :: probe_input
  at_setup :: "watch_error option"
  at_events :: "run_event list"
  at_ended :: bool
  at_slept :: bool

datatype turn = Sleep int | Ended | Pending

definition runTurn :: "int \<Rightarrow> int \<Rightarrow> ThirdPartyWatch \<Rightarrow> attempt \<Rightarrow> int \<Rightarrow> WatchSupervisor \<Rightarrow> WatchSupervisor \<times> int \<times> turn" where
  "runTurn initialBackoff maxBackoff w a backoff s = (case probe (at_probe a) of
     Some err \<Rightarrow> (runnerError (at_now a) (at_later a) w (Some err) s, nextBackoff backoff maxBackoff, Sleep backoff)
   | None \<Rightarrow> (case runOnce w (at_setup a) (at_events a) s of
        (s1, None) \<Rightarrow> (s1, initialBackoff, Pending)
      | (s1, Some err) \<Rightarrow>
          if at_ended a then (s1, initialBackoff, Ended)
          else ((case Status (ws_health s1) (tw_name w) of
                   Some st \<Rightarrow> if Degraded st then s1 else runnerError (at_now a) (at_later a) w (Some err) s1
                 | None \<Rightarrow> runnerError (at_now a) (at_later a) w (Some err) s1),
                nextBackoff initialBackoff maxBackoff, Sleep initialBackoff)))"

fun runWatch :: "int \<Rightarrow> int \<Rightarrow> ThirdPartyWatch \<Rightarrow> attempt list \<Rightarrow> int \<Rightarrow> WatchSupervisor \<Rightarrow> WatchSupervisor \<times> int list" where
  "runWatch initialBackoff maxBackoff w [] backoff s = (s, [])"
| "runWatch initialBackoff maxBackoff w (a # as) backoff s =
    (case runTurn initialBackoff maxBackoff w a backoff s of
       (s1, b, Sleep d) \<Rightarrow>
         if at_slept a then (case runWatch initialBackoff maxBackoff w as b s1 of (s2, ds) \<Rightarrow> (s2, d # ds)) else (s1, [d])
     | (s1, b, _) \<Rightarrow> (s1, []))"

subsection \<open>Events on the controller pod\<close>

datatype event_type = Normal | Warning

record pod_event =
  pe_type :: event_type
  pe_reason :: string
  pe_message :: string

definition startedMessage :: "ThirdPartyWatch list \<Rightarrow> (gvk \<Rightarrow> string) \<Rightarrow> WatchTransition \<Rightarrow> string" where
  "startedMessage watches gvText t = (case find (\<lambda>w. tw_name w = wt_kind t) watches of
     None \<Rightarrow> wt_message t
   | Some w \<Rightarrow> tw_name w @ '' watch started: CRD '' @ tw_crd w @ '', installed after the controller started, serves '' @ gvText (tw_gvk w))"

definition supervisorEvent :: "bool \<Rightarrow> bool \<Rightarrow> ThirdPartyWatch list \<Rightarrow> (gvk \<Rightarrow> string) \<Rightarrow> WatchTransition \<Rightarrow> pod_event option" where
  "supervisorEvent hasRecorder hasPod watches gvText t =
    (if \<not> hasRecorder \<or> \<not> hasPod then None
     else Some (if wt_disabled t then \<lparr>pe_type = Normal, pe_reason = ''WatchDisabled'', pe_message = wt_message t\<rparr>
       else if wt_started t then \<lparr>pe_type = Normal, pe_reason = ''WatchStarted'', pe_message = startedMessage watches gvText t\<rparr>
       else if wt_healthy t then \<lparr>pe_type = Normal, pe_reason = ''WatchRecovered'', pe_message = wt_message t\<rparr>
       else \<lparr>pe_type = Warning, pe_reason = ''WatchUnhealthy'', pe_message = wt_message t\<rparr>))"

subsection \<open>Set-up\<close>

text \<open>The knobs, with the production defaults for zero values, in nanoseconds.\<close>

record knobs =
  kn_initialBackoff :: int
  kn_maxBackoff :: int
  kn_cacheSyncTimeout :: int
  kn_reprobeInterval :: int

definition defaults :: "knobs \<Rightarrow> knobs" where
  "defaults k = \<lparr>kn_initialBackoff = (if kn_initialBackoff k = 0 then 5 * 10 ^ 9 else kn_initialBackoff k),
     kn_maxBackoff = (if kn_maxBackoff k = 0 then 300 * 10 ^ 9 else kn_maxBackoff k),
     kn_cacheSyncTimeout = (if kn_cacheSyncTimeout k = 0 then 120 * 10 ^ 9 else kn_cacheSyncTimeout k),
     kn_reprobeInterval = (if kn_reprobeInterval k = 0 then 120 * 10 ^ 9 else kn_reprobeInterval k)\<rparr>"

fun checkCandidates :: "string list \<Rightarrow> ThirdPartyWatch list \<Rightarrow> string option" where
  "checkCandidates seen [] = None"
| "checkCandidates seen (w # ws) =
    (if tw_crd w = '''' then Some (''third-party watch '' @ tw_name w @ '': CRD name not set'')
     else if tw_crd w \<in> set seen then Some (''third-party watch '' @ tw_name w @ '': CRD '' @ tw_crd w @ '' listed twice'')
     else checkCandidates (tw_crd w # seen) ws)"

text \<open>The state with which \<open>Start\<close> enters its loop: an empty registry apart from the health of discovery.\<close>

definition startSupervisor ::
  "knobs \<Rightarrow> bool \<Rightarrow> TrackedKinds option \<Rightarrow> AllowlistFanout option \<Rightarrow> WorkloadKindSet option \<Rightarrow> time \<Rightarrow> health \<Rightarrow> stored list \<Rightarrow>
   ThirdPartyWatch list \<Rightarrow> WatchSupervisor" where
  "startSupervisor k hasClient tracked fanout configured now health aiboms candidates =
    (let dh = initDiscoveryHealth now (\<lparr>ds_obs = (\<lambda>_. noObservation), ds_kick = False,
           ds_discovery = \<lparr>di_enabled = False, di_synced = False, di_informerOnline = False, di_informerErr = '''', di_syncErr = '''',
             di_candidateErr = [], di_seen = []\<rparr>\<rparr>, health)
     in setDesired (case configured of None \<Rightarrow> AllWorkloadKinds | Some kinds \<Rightarrow> kinds)
       \<lparr>ws_watches = candidates, ws_hasClient = hasClient, ws_syncTimeout = kn_cacheSyncTimeout (defaults k),
        ws_discovery = fst dh, ws_desired = AllWorkloadKinds, ws_health = snd dh, ws_tracked = tracked, ws_fanout = fanout,
        ws_fanoutReq = False, ws_life = (\<lambda>_. noLife), ws_activated = (\<lambda>_. False), ws_lagReported = (\<lambda>_. 0),
        ws_running = (\<lambda>_. False), ws_pendingStart = (\<lambda>_. False), ws_absentSince = (\<lambda>_. None), ws_poked = (\<lambda>_. False),
        ws_aiboms = aiboms, ws_notices = []\<rparr>)"

text \<open>Registration checks the candidates and adds one supervisor for them to the manager.\<close>

definition RegisterThirdPartyWatches :: "(ThirdPartyWatch list \<Rightarrow> string option) \<Rightarrow> ThirdPartyWatch list \<Rightarrow> string option" where
  "RegisterThirdPartyWatches mgrAdd candidates =
    (if candidates = [] then None
     else (case checkCandidates [] candidates of Some e \<Rightarrow> Some e | None \<Rightarrow> mgrAdd candidates))"

end
