(* ===== verification/Watch_History.thy ===== *)
theory Watch_History
  imports Watch_Passes Watch_Runner
begin

text \<open>
  Discovery workers, passes of the supervisor and runners together: histories of their atomic steps from
  the start of the supervisor. The worker of a kind may read at any time, a pass may run at any time with any
  allowlist, and a running kind's runner may report at any time.
\<close>

subsection \<open>Histories\<close>

record watch_system =
  sy_workers :: "string \<Rightarrow> crdWorker"
  sy_super :: WatchSupervisor

datatype system_event =
    ReadEvent ThirdPartyWatch crd_input
  | PassEvent WorkloadKindSet pass_input
  | RunEvent ThirdPartyWatch bool run_event
  | RunnerErrorEvent ThirdPartyWatch time time watch_error

fun systemStep :: "(gvk \<Rightarrow> string) \<Rightarrow> system_event \<Rightarrow> watch_system \<Rightarrow> watch_system" where
  "systemStep gt (ReadEvent w inp) sy =
    (if w \<notin> set (ws_watches (sy_super sy)) then sy
     else (case workerRead (ws_syncTimeout (sy_super sy)) gt w inp (sy_workers sy (tw_name w), ws_discovery (sy_super sy)) of
       (retry, k, d) \<Rightarrow> \<lparr>sy_workers = (sy_workers sy)(tw_name w := k), sy_super = (sy_super sy)\<lparr>ws_discovery := d\<rparr>\<rparr>))"
| "systemStep gt (PassEvent allowed inp) sy = sy\<lparr>sy_super := applyPass inp allowed (sy_super sy)\<rparr>"
| "systemStep gt (RunEvent w awaiting e) sy =
    (if w \<notin> set (ws_watches (sy_super sy)) \<or> \<not> ws_running (sy_super sy) (tw_name w) then sy
     else sy\<lparr>sy_super := snd (fst (runOnceStep w e (awaiting, sy_super sy)))\<rparr>)"
| "systemStep gt (RunnerErrorEvent w now later err) sy =
    (if w \<notin> set (ws_watches (sy_super sy)) \<or> \<not> ws_running (sy_super sy) (tw_name w) then sy
     else sy\<lparr>sy_super := runnerError now later w (Some err) (sy_super sy)\<rparr>)"

definition systemRun :: "(gvk \<Rightarrow> string) \<Rightarrow> system_event list \<Rightarrow> watch_system \<Rightarrow> watch_system" where
  "systemRun gt es sy = fold (systemStep gt) es sy"

fun readOf :: "ThirdPartyWatch \<Rightarrow> system_event \<Rightarrow> crd_input list" where
  "readOf w (ReadEvent v inp) = (if v = w then [inp] else [])"
| "readOf w _ = []"

definition readsOf :: "ThirdPartyWatch \<Rightarrow> system_event list \<Rightarrow> crd_input list" where
  "readsOf w es = concat (map (readOf w) es)"

text \<open>A supervisor as \<open>Start\<close> leaves it: nothing observed, nothing running, nothing tracked.\<close>

definition fresh :: "watch_system \<Rightarrow> bool" where
  "fresh sy \<longleftrightarrow> (let s = sy_super sy in
     gm_sorted (ws_health s) \<and> distinct (map tw_name (ws_watches s)) \<and> distinct (map tw_gk (ws_watches s)) \<and>
     (\<forall>w \<in> set (ws_watches s). tw_name w \<noteq> CRDDiscoveryKind \<and> sy_workers sy (tw_name w) = newCrdWorker \<and> obsOf w s = noObservation \<and>
       ws_life s (tw_name w) = noLife \<and> \<not> ws_activated s (tw_name w) \<and> \<not> ws_running s (tw_name w) \<and>
       \<not> ws_pendingStart s (tw_name w) \<and> \<not> tracked_Has (ws_tracked s) (tw_gk w)))"

lemma fresh_superOK: "fresh sy \<Longrightarrow> superOK (sy_super sy)"
  by (auto simp: fresh_def superOK_def kindOK_def noLife_def lifePresent_def noObservation_def Let_def)

subsection \<open>Runners\<close>

lemma notify_healthy [on_kind]: "stepOn w s (notify (markHealthy n (tw_name w) b (ws_health s)) s)"
  unfolding notify_def by (rule on_notify) (simp add: health_put)

definition runnerStep :: "ThirdPartyWatch \<Rightarrow> WatchSupervisor \<Rightarrow> WatchSupervisor \<Rightarrow> bool" where
  "runnerStep w s s' \<longleftrightarrow> stepOn w s s' \<and> ws_life s' = ws_life s \<and> ws_activated s' = ws_activated s \<and> ws_running s' = ws_running s \<and>
     (ws_pendingStart s' (tw_name w) \<longrightarrow> ws_pendingStart s (tw_name w)) \<and> ws_tracked s' = ws_tracked s \<and>
     ws_aiboms s' = ws_aiboms s \<and> (gm_sorted (ws_health s) \<and> isOn (entry w s) \<longrightarrow> isOn (entry w s'))"

lemma runnerStep_refl [simp]: "runnerStep w s s" by (simp add: runnerStep_def)

lemma runnerStep_trans: "runnerStep w s s' \<Longrightarrow> runnerStep w s' s'' \<Longrightarrow> runnerStep w s s''"
  unfolding runnerStep_def using stepOn_trans on_sorted by (metis (no_types, lifting))

lemma entry_marked:
  "gm_sorted h \<Longrightarrow> isOn (map_of (fst (markHealthy n k b h)) k)"
  "gm_sorted h \<Longrightarrow> isOn (map_of (fst (MarkUnhealthy n k (Some e) h)) k)"
  by (auto simp: mark_defs map_of_gm_put isOn_def)

lemma markRunnerHealthy_step: "runnerStep w s (markRunnerHealthy n w b s)"
  using notify_healthy [of w s n b]
  by (cases b) (auto simp: runnerStep_def markRunnerHealthy_def effect MarkStarted_def MarkHealthy_def entry_marked)

lemma markRunnerUnhealthy_step: "runnerStep w s (markRunnerUnhealthy n w e s)"
  using notify_unhealthy [of w s n "Some (watchError_str e)"]
  by (auto simp: runnerStep_def markRunnerUnhealthy_def effect entry_marked)

lemma clearAbsent_step: "runnerStep w s (clearAbsent (tw_name w) s)"
  by (auto simp: runnerStep_def clearAbsent_def stepOn_def steady_def sameFor_def)

lemma takePendingStart_step: "runnerStep w s (snd (takePendingStart (tw_name w) s))"
  using setPendingStart_on [of w s False] by (auto simp: runnerStep_def takePendingStart_def setPendingStart_def)

lemma runnerError_step: "runnerStep w s (runnerError now later w e s)"
proof -
  have a: "runnerStep w s (s\<lparr>ws_poked := p, ws_absentSince := q\<rparr>)" for p q
    by (auto simp: runnerStep_def stepOn_def steady_def sameFor_def)
  show ?thesis
    using a runnerStep_trans [OF a markRunnerUnhealthy_step] runnerStep_trans [OF clearAbsent_step markRunnerUnhealthy_step]
    by (auto simp: runnerError_def Let_def split: option.split)
qed

lemma runOnceStep_step: "runnerStep w s (snd (fst (runOnceStep w e (awaiting, s))))"
proof (cases e)
  case (Synced now)
  have "runnerStep w s (markRunnerHealthy now w b (snd (takePendingStart (tw_name w) (clearAbsent (tw_name w) s))))" for b
    by (rule runnerStep_trans [OF runnerStep_trans [OF clearAbsent_step takePendingStart_step] markRunnerHealthy_step])
  then show ?thesis using Synced by (simp add: split_beta)
next
  case (Tick now later p)
  then show ?thesis using runnerError_step clearAbsent_step runnerStep_trans [OF clearAbsent_step markRunnerHealthy_step]
    by (auto simp: Let_def split: option.split)
qed (simp_all add: runnerError_step)

lemma runnerStep_ok:
  assumes "superOK s" "runnerStep w s s'" "w \<in> set (ws_watches s)" "ws_running s (tw_name w)"
  shows "superOK s'"
proof -
  have on: "stepOn w s s'" using assms(2) by (simp add: runnerStep_def)
  have st: "steady s s'" "gm_sorted (ws_health s)" using on assms(1) by (simp_all add: stepOn_def superOK_def)
  have "kindOK v s'" if v: "v \<in> set (ws_watches s)" for v
  proof (cases "v = w")
    case True
    then show ?thesis using assms by (auto simp: superOK_def kindOK_def runnerStep_def Let_def)
  next
    case False
    have "distinct (map tw_name (ws_watches s))" "distinct (map tw_gk (ws_watches s))" using assms(1) by (simp_all add: superOK_def)
    then have "apart v w" using False v assms(3) by (auto simp: apart_def distinct_map inj_on_def)
    then have "sameFor v s s'" using on by (simp add: stepOn_def)
    from kindOK_same [OF this st] show ?thesis using assms(1) v by (simp add: superOK_def)
  qed
  then show ?thesis using assms(1) st by (auto simp: superOK_def steady_def)
qed

subsection \<open>What a history keeps\<close>

text \<open>A read that shows a CRD ready under a UID, and one that shows the generation gone.\<close>

definition confirms :: "ThirdPartyWatch \<Rightarrow> string \<Rightarrow> crd_input \<Rightarrow> bool" where
  "confirms w u inp \<longleftrightarrow> (\<exists>o'. cr_answer inp = CrdAnswer o' \<and> crd_uid o' = u \<and> \<not> crd_deleting o' \<and> fst (crdReady o' (tw_gvk w)))"

definition showsGone :: "string \<Rightarrow> crd_input \<Rightarrow> bool" where
  "showsGone u inp \<longleftrightarrow> cr_answer inp = CrdNotFound \<or> (\<exists>o'. cr_answer inp = CrdAnswer o' \<and> (crd_deleting o' \<or> crd_uid o' \<noteq> u))"

lemma readGeneration_cases:
  "readGeneration w inp g = Ready u \<Longrightarrow> g = Ready u \<or> confirms w u inp"
  "readGeneration w inp g = Unservable u \<Longrightarrow> liveUID g = Some u"
  "readGeneration w inp g = Removed u \<Longrightarrow> g = Removed u \<or> showsGone u inp"
  by (auto simp: readGeneration_def foundGeneration_def ended_def confirms_def showsGone_def
      split: crd_answer.splits if_splits option.splits elim: liveUID.elims)

lemma generation_evidence:
  "(generationAfter w inps = Ready u \<or> generationAfter w inps = Unservable u \<longrightarrow> (\<exists>r \<in> set inps. confirms w u r)) \<and>
   (generationAfter w inps = Removed u \<longrightarrow> (\<exists>r \<in> set inps. showsGone u r))"
proof (induction inps rule: rev_induct)
  case Nil
  then show ?case by (simp add: generationAfter_def)
next
  case (snoc r inps)
  have live: "liveUID g = Some u \<Longrightarrow> g = Ready u \<or> g = Unservable u" for g by (cases g) auto
  show ?case unfolding generationAfter_snoc using snoc readGeneration_cases [of w r "generationAfter w inps" u] live
    by (metis UnI1 UnI2 list.set_intros(1) set_append)
qed

definition tracksHistory :: "system_event list \<Rightarrow> watch_system \<Rightarrow> bool" where
  "tracksHistory es sy \<longleftrightarrow> superOK (sy_super sy) \<and> (\<forall>w \<in> set (ws_watches (sy_super sy)).
     remembers w (readsOf w es) (sy_workers sy (tw_name w)) (obsOf w (sy_super sy)) \<and>
     (lifePresent (ws_life (sy_super sy) (tw_name w)) \<longrightarrow>
       (\<exists>r \<in> set (readsOf w es). confirms w (kl_uid (ws_life (sy_super sy) (tw_name w))) r)))"

lemma readsOf_snoc: "readsOf w (es @ [e]) = readsOf w es @ readOf w e"
  by (simp add: readsOf_def)

fun goodCall :: "crd_call \<Rightarrow> bool" where
  "goodCall (Publish obs) = (co_lagErr obs = None)"
| "goodCall (PublishLag e q) = (e \<noteq> '''')"

lemma removeObserved_good: "removeObserved k = (k', calls) \<Longrightarrow> \<forall>c \<in> set calls. goodCall c"
  by (auto simp: removeObserved_def observed_def)

lemma becomeReady_good: "becomeReady t gt w inp uid k = (retry, k', calls) \<Longrightarrow> \<forall>c \<in> set calls. goodCall c"
  by (auto simp: becomeReady_def observed_def Let_def split: option.splits if_splits)

lemma classifyCRD_good: "classifyCRD t gt w inp u k = (retry, k', calls) \<Longrightarrow> \<forall>c \<in> set calls. goodCall c"
  using becomeReady_good [of t gt w inp "crd_uid u" k retry k' calls]
  by (auto simp: classifyCRD_def observed_def removeObserved_def split: prod.splits if_splits)

lemma readCRD_good:
  assumes "readCRD t gt w inp k = (retry, k', calls)"
  shows "\<forall>c \<in> set calls. goodCall c"
proof (cases "cr_answer inp")
  case (CrdAnswer u)
  define k0 where "k0 = (if cw_firstUID k = '''' then k\<lparr>cw_firstUID := crd_uid u\<rparr> else k)"
  obtain k1 calls1 where rm: "removeObserved k0 = (k1, calls1)" by fastforce
  obtain r2 k2 calls2 where cl: "classifyCRD t gt w inp u k1 = (r2, k2, calls2)" by (metis prod_cases3)
  have "calls = calls1 @ calls2 \<or> classifyCRD t gt w inp u k0 = (retry, k', calls)"
    using assms CrdAnswer rm cl by (auto simp: readCRD_def k0_def [symmetric] split: if_splits)
  then show ?thesis using removeObserved_good [OF rm] classifyCRD_good [OF cl] classifyCRD_good by auto
next
  case CrdNotFound
  then show ?thesis using assms by (auto simp: readCRD_def removeObserved_def observed_def Let_def split: if_splits)
qed (use assms in \<open>auto simp: readCRD_def\<close>)

lemma lagErr_read:
  assumes "workerRead t gt w inp (k, d) = (retry, k', d')" "co_lagErr (ds_obs d (tw_name w)) \<noteq> Some ''''"
  shows "co_lagErr (ds_obs d' (tw_name w)) \<noteq> Some ''''"
proof -
  obtain calls where rd: "readCRD t gt w inp k = (retry, k', calls)"
    and d': "d' = fold (performCall (tw_name w)) calls (reportRead w inp d)"
    using assms(1) by (auto simp: workerRead_def split: prod.splits)
  have "co_lagErr (ds_obs (fold (performCall kind) cs s) kind) \<noteq> Some ''''"
    if "\<forall>c \<in> set cs. goodCall c" "co_lagErr (ds_obs s kind) \<noteq> Some ''''" for cs s kind
    using that
  proof (induction cs rule: rev_induct)
    case (snoc c cs)
    then show ?case by (cases c) (auto simp: publish_def publishLag_def)
  qed simp
  from this [OF readCRD_good [OF rd]] assms(2) show ?thesis unfolding d' by simp
qed

lemma start_tracks: "fresh sy \<Longrightarrow> tracksHistory [] sy"
  using fresh_superOK [of sy]
  by (auto simp: tracksHistory_def fresh_def Let_def remembers_def readsOf_def agrees_def newCrdWorker_def noObservation_def workerGeneration_def
      generationAfter_def wasAbsent_def firstFound_def noLife_def lifePresent_def)

lemma superOK_discovery:
  assumes "superOK s" "\<And>v. v \<in> set (ws_watches s) \<Longrightarrow> co_lagErr (ds_obs d (tw_name v)) \<noteq> Some ''''"
  shows "superOK (s\<lparr>ws_discovery := d\<rparr>)"
  using assms by (auto simp: superOK_def kindOK_def)

lemma nextLife_uid:
  assumes "lifePresent (nextLife obs l)"
  shows "lifePresent l \<and> kl_uid (nextLife obs l) = kl_uid l \<or> obsGeneration obs = Ready (kl_uid (nextLife obs l))"
  using assms by (auto simp: nextLife_def obsGeneration_def lifePresent_def removedLife_def split: if_splits)

lemma read_tracks:
  assumes "tracksHistory es sy"
  shows "tracksHistory (es @ [ReadEvent w inp]) (systemStep gt (ReadEvent w inp) sy)"
proof (cases "w \<in> set (ws_watches (sy_super sy))")
  case False
  then show ?thesis using assms by (auto simp: tracksHistory_def readsOf_snoc)
next
  case True
  let ?s = "sy_super sy"
  obtain retry k d where rd: "workerRead (ws_syncTimeout ?s) gt w inp (sy_workers sy (tw_name w), ws_discovery ?s) = (retry, k, d)"
    by (metis prod_cases3)
  have sy': "systemStep gt (ReadEvent w inp) sy = \<lparr>sy_workers = (sy_workers sy)(tw_name w := k), sy_super = ?s\<lparr>ws_discovery := d\<rparr>\<rparr>"
    using True rd by simp
  have ok: "superOK ?s" using assms by (simp add: tracksHistory_def)
  have other: "ds_obs d n = ds_obs (ws_discovery ?s) n" if "n \<noteq> tw_name w" for n
    using rd that by (auto simp: workerRead_def performCalls_other split: prod.splits)
  have names: "v = w" if "v \<in> set (ws_watches ?s)" "tw_name v = tw_name w" for v
    using that True ok by (auto simp: superOK_def distinct_map inj_on_def)
  have "co_lagErr (ds_obs d (tw_name v)) \<noteq> Some ''''" if "v \<in> set (ws_watches ?s)" for v
    using lagErr_read [OF rd] other [of "tw_name v"] names [OF that] ok that True
    by (cases "tw_name v = tw_name w") (auto simp: superOK_def)
  note ok' = superOK_discovery [OF ok this]
  have "readStep w (readsOf w es) inp k (ds_obs d (tw_name w))"
    using workerRead_step [OF _ rd] assms True by (simp add: tracksHistory_def)
  then have rem: "remembers w (readsOf w es @ [inp]) k (ds_obs d (tw_name w))" by (simp add: readStep_def)
  have "remembers v (readsOf v (es @ [ReadEvent w inp])) (((sy_workers sy)(tw_name w := k)) (tw_name v)) (ds_obs d (tw_name v)) \<and>
      (lifePresent (ws_life ?s (tw_name v)) \<longrightarrow> (\<exists>r \<in> set (readsOf v (es @ [ReadEvent w inp])). confirms v (kl_uid (ws_life ?s (tw_name v))) r))"
    if v: "v \<in> set (ws_watches ?s)" for v
  proof (cases "v = w")
    case True
    then show ?thesis using rem assms v by (auto simp: readsOf_snoc tracksHistory_def)
  next
    case False
    then have "tw_name v \<noteq> tw_name w" using names [OF v] by blast
    then show ?thesis using assms v False other by (auto simp: readsOf_snoc tracksHistory_def)
  qed
  then show ?thesis unfolding tracksHistory_def sy' using ok' by simp
qed

lemma pass_life:
  assumes "superOK s" "w \<in> set (ws_watches s)"
  shows "ws_life (applyPass inp allowed s) (tw_name w) = ws_life s (tw_name w) \<or>
    ws_life (applyPass inp allowed s) (tw_name w) = nextLife (obsOf w s) (ws_life s (tw_name w))"
proof (cases "pi_ended inp")
  case False
  let ?s1 = "superviseHealth inp s"
  have kinds: "ws_life (applyKinds inp allowed ws t) (tw_name w) = ws_life t (tw_name w) \<or>
      ws_life (applyKinds inp allowed ws t) (tw_name w) = nextLife (obsOf w t) (ws_life t (tw_name w))"
    if "set ws \<subseteq> set (ws_watches s)" "distinct (map tw_name ws)" "distinct (map tw_gk ws)" "gm_sorted (ws_health t)"
      "\<forall>v \<in> set ws. kindOK v t \<and> co_lagErr (obsOf v t) \<noteq> Some ''''" for ws t
    using that
  proof (induction ws arbitrary: t)
    case (Cons v ws)
    let ?t1 = "applyKind inp allowed v t"
    have on: "stepOn v t ?t1" by (rule applyKind_on)
    have st: "steady t ?t1" using on by (simp add: stepOn_def)
    show ?case
    proof (cases "pi_endedAt inp (tw_name v)")
      case run: False
      show ?thesis
      proof (cases "v = w")
        case True
        have "ws_life ?t1 (tw_name w) = nextLife (obsOf w t) (ws_life t (tw_name w))"
          using applyKind_ok [of w t inp allowed] Cons.prems(4,5) True by (simp add: kindStepped_def)
        moreover have "ws_life (applyKinds inp allowed ws ?t1) (tw_name w) = ws_life ?t1 (tw_name w)"
        proof -
          have "\<forall>u \<in> set ws. apart w u" using distinct_apart [OF Cons.prems(2,3)] True by blast
          from applyKinds_on [OF this] show ?thesis by (simp add: sameFor_def)
        qed
        ultimately show ?thesis using run by simp
      next
        case False
        have "apart w v" using False Cons.prems(1) assms by (auto simp: apart_def superOK_def distinct_map inj_on_def)
        then have same: "sameFor w t ?t1" using on by (simp add: stepOn_def)
        have ok: "\<forall>u \<in> set ws. kindOK u ?t1 \<and> co_lagErr (obsOf u ?t1) \<noteq> Some ''''"
        proof
          fix u assume u: "u \<in> set ws"
          have "sameFor u t ?t1" using on distinct_apart [OF Cons.prems(2,3) u] by (simp add: stepOn_def)
          then show "kindOK u ?t1 \<and> co_lagErr (obsOf u ?t1) \<noteq> Some ''''"
            using kindOK_same [OF _ st Cons.prems(4)] Cons.prems(5) u st by (auto simp: steady_def)
        qed
        have "gm_sorted (ws_health ?t1)" using st Cons.prems(4) by (simp add: steady_def)
        then have "ws_life (applyKinds inp allowed ws ?t1) (tw_name w) = ws_life ?t1 (tw_name w) \<or>
            ws_life (applyKinds inp allowed ws ?t1) (tw_name w) = nextLife (obsOf w ?t1) (ws_life ?t1 (tw_name w))"
          using Cons.IH [of ?t1] Cons.prems ok by simp
        then show ?thesis using run same st by (simp add: sameFor_def steady_def)
      qed
    qed simp
  qed simp
  have st: "steady s ?s1" by (rule superviseHealth_steady)
  have ok: "\<forall>v \<in> set (ws_watches s). kindOK v ?s1 \<and> co_lagErr (obsOf v ?s1) \<noteq> Some ''''"
  proof
    fix v assume v: "v \<in> set (ws_watches s)"
    then have "sameFor v s ?s1" using superviseHealth_frame assms(1) by (simp add: superOK_def)
    then show "kindOK v ?s1 \<and> co_lagErr (obsOf v ?s1) \<noteq> Some ''''"
      using kindOK_same [OF _ st] assms(1) v st by (auto simp: superOK_def steady_def)
  qed
  have "gm_sorted (ws_health ?s1)" "distinct (map tw_name (ws_watches s))" "distinct (map tw_gk (ws_watches s))"
    using assms(1) st by (simp_all add: superOK_def steady_def)
  from kinds [OF subset_refl this(2,3,1) ok] show ?thesis using False
    by (simp add: applyPass_def superviseHealth_def effect)
qed (simp add: applyPass_def)

lemma pass_tracks:
  assumes "tracksHistory es sy"
  shows "tracksHistory (es @ [PassEvent allowed inp]) (systemStep gt (PassEvent allowed inp) sy)"
proof -
  let ?s = "sy_super sy" and ?s' = "applyPass inp allowed (sy_super sy)"
  have ok: "superOK ?s" using assms by (simp add: tracksHistory_def)
  have ok': "superOK ?s'" "ws_watches ?s' = ws_watches ?s" using applyPass_ok [OF ok] by simp_all
  have disc: "ws_discovery ?s' = ws_discovery ?s"
    using superviseHealth_steady [of ?s inp] applyKinds_steady [of "superviseHealth inp ?s" inp allowed "ws_watches ?s"]
    by (simp add: applyPass_def steady_def)
  have "\<exists>r \<in> set (readsOf w es). confirms w (kl_uid (ws_life ?s' (tw_name w))) r"
    if w: "w \<in> set (ws_watches ?s)" "lifePresent (ws_life ?s' (tw_name w))" for w
  proof -
    let ?l = "ws_life ?s (tw_name w)"
    have gen: "obsGeneration (obsOf w ?s) = generationAfter w (readsOf w es)"
      using assms w(1) agrees_generation by (auto simp: tracksHistory_def remembers_def)
    have old: "lifePresent ?l \<Longrightarrow> \<exists>r \<in> set (readsOf w es). confirms w (kl_uid ?l) r"
      using assms w(1) by (simp add: tracksHistory_def)
    from pass_life [OF ok w(1), of inp allowed] show ?thesis
    proof
      assume "ws_life ?s' (tw_name w) = ?l"
      then show ?thesis using old w(2) by simp
    next
      assume n: "ws_life ?s' (tw_name w) = nextLife (obsOf w ?s) ?l"
      then show ?thesis using nextLife_uid [of "obsOf w ?s" ?l] w(2) old generation_evidence [of w "readsOf w es"] gen by metis
    qed
  qed
  then show ?thesis using assms ok' disc by (auto simp: tracksHistory_def readsOf_snoc)
qed

lemma runner_tracks:
  assumes "tracksHistory es sy" "runnerStep w (sy_super sy) s'" "w \<in> set (ws_watches (sy_super sy))" "ws_running (sy_super sy) (tw_name w)"
    "\<And>v. readOf v e = []"
  shows "tracksHistory (es @ [e]) (sy\<lparr>sy_super := s'\<rparr>)"
proof -
  have "superOK s'" using runnerStep_ok [OF _ assms(2-4)] assms(1) by (simp add: tracksHistory_def)
  moreover have "ws_watches s' = ws_watches (sy_super sy)" "ws_discovery s' = ws_discovery (sy_super sy)" "ws_life s' = ws_life (sy_super sy)"
    using assms(2) by (simp_all add: runnerStep_def stepOn_def steady_def)
  ultimately show ?thesis using assms(1) by (simp add: tracksHistory_def readsOf_snoc assms(5))
qed

lemma history_tracks:
  assumes "fresh sy"
  shows "tracksHistory es (systemRun gt es sy)"
proof (induction es rule: rev_induct)
  case Nil
  show ?case using start_tracks [OF assms] by (simp add: systemRun_def)
next
  case (snoc e es)
  let ?sy = "systemRun gt es sy"
  have run: "systemRun gt (es @ [e]) sy = systemStep gt e ?sy" by (simp add: systemRun_def)
  have idle: "tracksHistory (es @ [e]) ?sy" if "\<And>v. readOf v e = []" using snoc.IH that by (simp add: tracksHistory_def readsOf_snoc)
  show ?case unfolding run
  proof (cases e)
    case (ReadEvent w inp)
    then show "tracksHistory (es @ [e]) (systemStep gt e ?sy)" using read_tracks [OF snoc.IH] by simp
  next
    case (PassEvent allowed inp)
    then show "tracksHistory (es @ [e]) (systemStep gt e ?sy)" using pass_tracks [OF snoc.IH, of allowed inp gt] by simp
  next
    case (RunEvent w awaiting re)
    then show "tracksHistory (es @ [e]) (systemStep gt e ?sy)"
      using runner_tracks [OF snoc.IH runOnceStep_step, of w e] idle by (auto split: if_splits)
  next
    case (RunnerErrorEvent w now later err)
    then show "tracksHistory (es @ [e]) (systemStep gt e ?sy)"
      using runner_tracks [OF snoc.IH runnerError_step, of w e] idle by (auto split: if_splits)
  qed
qed

subsection \<open>Nothing is deleted without evidence\<close>


subsection \<open>A removal that is never acted on\<close>

lemma pass_keeps_running:
  assumes "superOK s" "w \<in> set (ws_watches s)" "ws_life s (tw_name w) = l" "nextLife (obsOf w s) l = l" "kl_state l = CrdReady"
    "\<not> pi_ended inp" "\<forall>v \<in> set (ws_watches s). \<not> pi_endedAt inp (tw_name v)" "Allows allowed (tw_gk w)"
  shows "superOK (applyPass inp allowed s) \<and> ws_watches (applyPass inp allowed s) = ws_watches s \<and>
    ws_life (applyPass inp allowed s) (tw_name w) = l \<and> ws_running (applyPass inp allowed s) (tw_name w) \<and>
    ws_discovery (applyPass inp allowed s) = ws_discovery s"
proof -
  have "ws_discovery (applyPass inp allowed s) = ws_discovery s"
    using superviseHealth_steady [of s inp] applyKinds_steady [of "superviseHealth inp s" inp allowed "ws_watches s"]
    by (simp add: applyPass_def steady_def)
  then show ?thesis using applyPass_ok [OF assms(1), of inp allowed] assms(2-)
    by (auto simp: kindStepped_def kindSettled_def Let_def)
qed

definition completePass :: "WatchSupervisor \<Rightarrow> ThirdPartyWatch \<Rightarrow> WorkloadKindSet \<times> pass_input \<Rightarrow> bool" where
  "completePass s w p \<longleftrightarrow> Allows (fst p) (tw_gk w) \<and> \<not> pi_ended (snd p) \<and> (\<forall>v \<in> set (ws_watches s). \<not> pi_endedAt (snd p) (tw_name v))"

text \<open>
  C26. A removal can be lost: if the supervisor still runs a kind for one generation of its CRD when discovery
  has already seen that generation replaced and the new one removed again (or unservable), then no later
  pass stops the runner, retires the generation or untracks the kind, as long as no further
  generation becomes ready, although the CRD is gone.
\<close>

theorem coalesced_removal_missed:
  assumes "fresh sy" "sy_super (systemRun gt es sy) = s" "w \<in> set (ws_watches s)"
    "ws_life s (tw_name w) = \<lparr>kl_state = CrdReady, kl_uid = u, kl_reason = r\<rparr>"
    "generationAfter w (readsOf w es) \<in> {Removed v, Unservable v}" "v \<noteq> u" "passes \<noteq> []" "\<forall>p \<in> set passes. completePass s w p"
  shows "let s' = sy_super (systemRun gt (map (\<lambda>p. PassEvent (fst p) (snd p)) passes) (systemRun gt es sy)) in
    ws_running s' (tw_name w) \<and> ws_life s' (tw_name w) = ws_life s (tw_name w) \<and>
    (ws_tracked s' \<noteq> None \<longrightarrow> tracked_Has (ws_tracked s') (tw_gk w))"
proof -
  let ?l = "ws_life s (tw_name w)"
  have tr: "tracksHistory es (systemRun gt es sy)" by (rule history_tracks [OF assms(1)])
  then have ok: "superOK s" using assms(2) by (simp add: tracksHistory_def)
  have "obsGeneration (obsOf w s) \<in> {Removed v, Unservable v}"
    using tr assms(2,3,5) agrees_generation by (auto simp: tracksHistory_def remembers_def)
  then have "(co_state (obsOf w s) = CrdRemoved \<or> co_state (obsOf w s) = CrdUnservable) \<and> co_uid (obsOf w s) = v"
    by (cases "co_state (obsOf w s)") (auto simp: obsGeneration_def)
  then have stay: "nextLife (obsOf w s) ?l = ?l"
    using assms(4,6) by (auto simp: nextLife_def generationEnded_def)
  have run: "superOK (sy_super sy') \<and> ws_watches (sy_super sy') = ws_watches s \<and> ws_life (sy_super sy') (tw_name w) = ?l \<and>
      ws_discovery (sy_super sy') = ws_discovery s \<and> (ps \<noteq> [] \<longrightarrow> ws_running (sy_super sy') (tw_name w))"
    if "\<forall>p \<in> set ps. completePass s w p" "sy' = systemRun gt (map (\<lambda>p. PassEvent (fst p) (snd p)) ps) (systemRun gt es sy)" for ps sy'
    using that
  proof (induction ps arbitrary: sy' rule: rev_induct)
    case Nil
    then show ?case using ok assms(2) by (simp add: systemRun_def)
  next
    case (snoc p ps)
    let ?sy = "systemRun gt (map (\<lambda>p. PassEvent (fst p) (snd p)) ps) (systemRun gt es sy)"
    have sy': "sy' = systemStep gt (PassEvent (fst p) (snd p)) ?sy" using snoc.prems(2) by (simp add: systemRun_def)
    have ih: "superOK (sy_super ?sy)" "ws_watches (sy_super ?sy) = ws_watches s" "ws_life (sy_super ?sy) (tw_name w) = ?l"
      "ws_discovery (sy_super ?sy) = ws_discovery s" using snoc.IH [OF _ refl] snoc.prems(1) by auto
    have "completePass s w p" using snoc.prems(1) by simp
    then show ?case using pass_keeps_running [OF ih(1), of w ?l "snd p" "fst p"] ih(2-4) stay assms(3,4)
      by (simp add: sy' completePass_def)
  qed
  have "ws_running s' (tw_name w) \<and> ws_life s' (tw_name w) = ?l \<and> (ws_tracked s' \<noteq> None \<longrightarrow> tracked_Has (ws_tracked s') (tw_gk w))"
    if "s' = sy_super (systemRun gt (map (\<lambda>p. PassEvent (fst p) (snd p)) passes) (systemRun gt es sy))" for s'
    using run [OF assms(8) refl] assms(3,4,7) unfolding that
    by (auto simp: superOK_def kindOK_def Let_def lifePresent_def)
  then show ?thesis by (simp add: Let_def)
qed

subsection \<open>Examples\<close>

definition exampleDocument :: AIBOM where
  "exampleDocument = \<lparr>ab_spec = \<lparr>sp_workloadRef = \<lparr>wr_apiVersion = ''g/v1'', wr_kind = ''K'', wr_name = ''a''\<rparr>, sp_bomFormat = '''', sp_bomSpecVersion = ''''\<rparr>,
     ab_owner = None, ab_status = emptyStatus\<rparr>"

definition exampleSystem :: watch_system where
  "exampleSystem = \<lparr>sy_workers = (\<lambda>_. newCrdWorker),
     sy_super = startSupervisor \<lparr>kn_initialBackoff = 0, kn_maxBackoff = 0, kn_cacheSyncTimeout = 0, kn_reprobeInterval = 0\<rparr> True
       (Some NewTrackedKinds) None None 0 [] [((''d'', ''k-a''), exampleDocument)] [exampleWatch]\<rparr>"

definition examplePass :: pass_input where
  "examplePass = \<lparr>pi_ended = False, pi_endedAt = (\<lambda>_. False), pi_sweepEnded = (\<lambda>_. False), pi_now = (\<lambda>_ _. 1),
     pi_gvkText = (\<lambda>g. fst g), pi_aiboms = (\<lambda>_. Inr [((''d'', ''k-a''), exampleDocument)]), pi_delete = (\<lambda>_ _. WriteOK)\<rparr>"

definition installed :: "string \<Rightarrow> system_event" where
  "installed u = ReadEvent exampleWatch (exampleRead (CrdAnswer (exampleCRD u)))"

definition uninstalled :: system_event where
  "uninstalled = ReadEvent exampleWatch (exampleRead CrdNotFound)"

lemma exampleSystem_fresh: "fresh exampleSystem"
  by (simp add: fresh_def exampleSystem_def startSupervisor_def setDesired_def initDiscoveryHealth_def Let_def exampleWatch_def
      CRDDiscoveryKind_def noObservation_def tracked_Has_def NewTrackedKinds_def Register_def gm_sorted_Cons)

lemma example_swept:
  "((''d'', ''k-a''), exampleDocument) \<in> set (ws_aiboms (sy_super (systemRun fst [installed ''u'', PassEvent AllWorkloadKinds examplePass] exampleSystem)))"
  "ws_aiboms (applyPass examplePass (NewWorkloadKindSet [])
     (sy_super (systemRun fst [installed ''u'', PassEvent AllWorkloadKinds examplePass] exampleSystem))) = []"
  by code_simp+


definition lostHistory :: "system_event list" where
  "lostHistory = [installed ''u'', PassEvent AllWorkloadKinds examplePass, uninstalled, installed ''v'', uninstalled]"

lemma example_lost:
  "ws_watches (sy_super (systemRun fst lostHistory exampleSystem)) = [exampleWatch]"
  "ws_life (sy_super (systemRun fst lostHistory exampleSystem)) ''K'' = \<lparr>kl_state = CrdReady, kl_uid = ''u'', kl_reason = ''''\<rparr>"
  by code_simp+

theorem coalesced_removal_missed_witness:
  "ws_running (sy_super (systemRun fst [PassEvent AllWorkloadKinds examplePass] (systemRun fst lostHistory exampleSystem))) ''K''"
proof -
  have name: "tw_name exampleWatch = ''K''" by (simp add: exampleWatch_def)
  have reads: "readsOf exampleWatch lostHistory = [exampleRead (CrdAnswer (exampleCRD ''u'')), exampleRead CrdNotFound,
      exampleRead (CrdAnswer (exampleCRD ''v'')), exampleRead CrdNotFound]"
    by (simp add: readsOf_def lostHistory_def installed_def uninstalled_def)
  have gen: "generationAfter exampleWatch (readsOf exampleWatch lostHistory) \<in> {Removed ''v'', Unservable ''v''}"
    unfolding reads by (simp add: generationAfter_def exampleReads ended_def)
  have pass: "\<forall>p \<in> set [(AllWorkloadKinds, examplePass)]. completePass (sy_super (systemRun fst lostHistory exampleSystem)) exampleWatch p"
    by (simp add: completePass_def examplePass_def Allows_def AllWorkloadKinds_def)
  have mem: "exampleWatch \<in> set (ws_watches (sy_super (systemRun fst lostHistory exampleSystem)))" by (simp add: example_lost(1))
  have ne: "''v'' \<noteq> ''u''" by simp
  from coalesced_removal_missed [OF exampleSystem_fresh refl mem _ gen ne _ pass, unfolded name, OF example_lost(2)]
  show ?thesis by (simp add: Let_def)
qed

subsection \<open>What a pass establishes\<close>



text \<open>
  C27. Acting on the same observations and allowlist again changes nothing: a complete pass after any history
  is idempotent, in its whole state, notices and deletions included, whatever the clock and the API
  answer the second time.
\<close>

theorem pass_idempotent:
  assumes "fresh sy" "sy_super (systemRun gt es sy) = s" "\<not> pi_ended inp" "\<forall>w \<in> set (ws_watches s). \<not> pi_endedAt inp (tw_name w)"
  shows "applyPass inp' allowed (applyPass inp allowed s) = applyPass inp allowed s"
proof -
  have "superOK s" using history_tracks [OF assms(1), of es gt] assms(2) by (simp add: tracksHistory_def)
  from applyPass_again [OF this assms(3,4)] show ?thesis .
qed

theorem pass_idempotent_witness:
  "let s = sy_super (systemRun fst lostHistory exampleSystem) in
   applyPass (examplePass\<lparr>pi_now := (\<lambda>_ _. 7)\<rparr>) AllWorkloadKinds (applyPass examplePass AllWorkloadKinds s) = applyPass examplePass AllWorkloadKinds s"
  unfolding Let_def by (rule pass_idempotent [OF exampleSystem_fresh refl]) (simp_all add: examplePass_def)

subsection \<open>Late installations\<close>

text \<open>The runs of a runner, each on a fresh informer, one after the other.\<close>

definition runAll :: "ThirdPartyWatch \<Rightarrow> run_event list list \<Rightarrow> WatchSupervisor \<Rightarrow> WatchSupervisor" where
  "runAll w runs s = fold (\<lambda>es s. fst (runOnce w None es s)) runs s"

fun returns :: "run_event \<Rightarrow> bool" where
  "returns (ControllerReturned e) = True"
| "returns ContextDone = True"
| "returns _ = False"

text \<open>The informer syncs before the run returns.\<close>

definition syncs :: "run_event list \<Rightarrow> bool" where
  "syncs es \<longleftrightarrow> (\<exists>now. Synced now \<in> set (takeWhile (\<lambda>e. \<not> returns e) es))"

text \<open>A start that is still owed, and what a step appends to the notices.\<close>

definition owed :: "ThirdPartyWatch \<Rightarrow> WatchSupervisor \<Rightarrow> bool" where
  "owed w s \<longleftrightarrow> ws_pendingStart s (tw_name w) \<and> \<not> IsHealthy (ws_health s) (tw_name w)"

definition announces :: "ThirdPartyWatch \<Rightarrow> WatchSupervisor \<Rightarrow> WatchSupervisor \<Rightarrow> WatchTransition list \<Rightarrow> bool" where
  "announces w s s' new \<longleftrightarrow> ws_notices s' = ws_notices s @ new \<and> gm_sorted (ws_health s') \<and>
     (owed w s \<and> owed w s' \<and> filter wt_healthy new = [] \<or>
      owed w s \<and> \<not> ws_pendingStart s' (tw_name w) \<and>
        (\<exists>t rest. filter wt_healthy new = t # rest \<and> wt_started t \<and> (\<forall>x \<in> set rest. \<not> wt_started x)) \<or>
      \<not> ws_pendingStart s (tw_name w) \<and> \<not> ws_pendingStart s' (tw_name w) \<and> (\<forall>x \<in> set new. wt_healthy x \<longrightarrow> \<not> wt_started x))"

lemma announces_refl: "gm_sorted (ws_health s) \<Longrightarrow> owed w s \<or> \<not> ws_pendingStart s (tw_name w) \<Longrightarrow> announces w s s []"
  by (auto simp: announces_def)

lemma announces_trans: "announces w s s' a \<Longrightarrow> announces w s' s'' b \<Longrightarrow> announces w s s'' (a @ b)"
  unfolding announces_def owed_def by fastforce

lemma IsHealthy_unhealthy: "gm_sorted h \<Longrightarrow> \<not> IsHealthy (fst (MarkUnhealthy n k (Some e) h)) k"
  by (simp add: MarkUnhealthy_def Let_def IsHealthy_def map_of_gm_put)

lemma unhealthy_notice: "snd (MarkUnhealthy n k e h) = Some t \<Longrightarrow> \<not> wt_healthy t"
  by (auto simp: MarkUnhealthy_def Let_def split: option.splits if_splits)

lemma runnerError_announces:
  assumes "gm_sorted (ws_health s)" "owed w s \<or> \<not> ws_pendingStart s (tw_name w)"
  shows "\<exists>new. announces w s (runnerError now later w (Some err) s) new"
proof -
  have mark: "announces w s (markRunnerUnhealthy t w err s0)
      (case snd (MarkUnhealthy t (tw_name w) (Some (watchError_str err)) (ws_health s0)) of None \<Rightarrow> [] | Some x \<Rightarrow> [x])"
    if "ws_health s0 = ws_health s" "ws_notices s0 = ws_notices s" "ws_pendingStart s0 = ws_pendingStart s" for t s0
    using that assms health_put(1) IsHealthy_unhealthy unhealthy_notice
    by (auto simp: announces_def owed_def markRunnerUnhealthy_def notify_def split: option.split)
  show ?thesis
  proof (cases "absenceShaped err")
    case True
    define since where "since = (case ws_absentSince s (tw_name w) of None \<Rightarrow> now | Some t \<Rightarrow> t)"
    let ?s1 = "s\<lparr>ws_poked := (ws_poked s)(tw_name w := True), ws_absentSince := (ws_absentSince s)(tw_name w := Some since)\<rparr>"
    have "runnerError now later w (Some err) s = (if later - since < ws_syncTimeout s then ?s1 else markRunnerUnhealthy later w err ?s1)"
      using True by (simp add: runnerError_def since_def Let_def)
    moreover have "announces w s ?s1 []" using assms by (auto simp: announces_def owed_def)
    ultimately show ?thesis using mark [of ?s1 later] by auto
  next
    case False
    then show ?thesis using mark [of "clearAbsent (tw_name w) s" later] by (auto simp: runnerError_def clearAbsent_def)
  qed
qed

lemma healthy_announces:
  assumes "gm_sorted (ws_health s)" "ws_pendingStart s (tw_name w) \<longrightarrow> owed w s"
  shows "\<exists>new. announces w s (markRunnerHealthy now w (ws_pendingStart s (tw_name w)) (setPendingStart (tw_name w) False s)) new \<and>
    \<not> ws_pendingStart (markRunnerHealthy now w (ws_pendingStart s (tw_name w)) (setPendingStart (tw_name w) False s)) (tw_name w)"
proof (cases "ws_pendingStart s (tw_name w)")
  case True
  then have nh: "\<not> wst_healthy (health_get (ws_health s) (tw_name w) now)"
    using assms(2) by (auto simp: owed_def IsHealthy_def health_get_def freshStatus_def split: option.splits)
  let ?t = "\<lparr>wt_kind = tw_name w, wt_healthy = True, wt_disabled = False, wt_started = True, wt_message = tw_name w @ '' watch started''\<rparr>"
  have "snd (MarkStarted now (tw_name w) (ws_health s)) = Some ?t" using nh by (simp add: MarkStarted_def markHealthy_def Let_def)
  then show ?thesis using True assms health_put(1) [OF assms(1)]
    by (intro exI [of _ "[?t]"]) (auto simp: announces_def markRunnerHealthy_def notify_def setPendingStart_def MarkStarted_def)
next
  case False
  let ?h = "MarkHealthy now (tw_name w) (ws_health s)"
  have "\<forall>t. snd ?h = Some t \<longrightarrow> \<not> wt_started t" by (auto simp: MarkHealthy_def markHealthy_def Let_def)
  then show ?thesis using False health_put(1) [OF assms(1)]
    by (intro exI [of _ "case snd ?h of None \<Rightarrow> [] | Some t \<Rightarrow> [t]"])
      (auto simp: announces_def markRunnerHealthy_def notify_def setPendingStart_def MarkHealthy_def split: option.split)
qed

lemma clearAbsent_announces:
  "announces w s s' new \<Longrightarrow> announces w (clearAbsent k s) s' new = announces w s s' new"
  by (simp add: announces_def owed_def clearAbsent_def)

lemma runOnceStep_announces:
  assumes "gm_sorted (ws_health s)" "owed w s \<or> \<not> ws_pendingStart s (tw_name w)"
    "runOnceStep w e (awaiting, s) = ((awaiting', s'), r)" "awaiting \<or> \<not> ws_pendingStart s (tw_name w)"
  shows "(\<exists>new. announces w s s' new) \<and> (awaiting' \<or> \<not> ws_pendingStart s' (tw_name w)) \<and> (r \<noteq> None) = returns e \<and>
    ((\<exists>now. e = Synced now) \<and> awaiting \<longrightarrow> \<not> ws_pendingStart s' (tw_name w))"
proof -
  let ?c = "clearAbsent (tw_name w) s"
  have c: "gm_sorted (ws_health ?c)" "owed w ?c = owed w s" "ws_pendingStart ?c = ws_pendingStart s"
    using assms(1) by (simp_all add: clearAbsent_def owed_def)
  have from_c: "announces w ?c s'' new \<Longrightarrow> announces w s s'' new" for s'' new
    by (simp add: announces_def owed_def clearAbsent_def)
  have idle: "announces w s s []" by (rule announces_refl [OF assms(1,2)])
  have pend: "ws_pendingStart (runnerError now later w eo s) = ws_pendingStart s" for now later eo
    by (simp add: runnerError_def Let_def markRunnerUnhealthy_def effect clearAbsent_def split: option.split)
  show ?thesis
  proof (cases e)
    case (Synced now)
    show ?thesis
    proof (cases awaiting)
      case True
      have "s' = markRunnerHealthy now w (ws_pendingStart ?c (tw_name w)) (setPendingStart (tw_name w) False ?c)" "awaiting' = False" "r = None"
        using assms(3) Synced True by (auto simp: takePendingStart_def)
      moreover have "ws_pendingStart ?c (tw_name w) \<longrightarrow> owed w ?c" using assms(2) c by auto
      ultimately show ?thesis using healthy_announces [OF c(1), of w now] from_c Synced by auto
    next
      case False
      then show ?thesis using assms(3,4) Synced idle by auto
    qed
  next
    case (WatchFailed now later err)
    then show ?thesis using assms(3,4) runnerError_announces [OF assms(1,2), of now later err] pend by auto
  next
    case (Tick now later p)
    show ?thesis
    proof (cases "probe p")
      case (Some err)
      then show ?thesis using Tick assms(3,4) runnerError_announces [OF assms(1,2), of now later err] pend by auto
    next
      case None
      show ?thesis
      proof (cases "ws_pendingStart s (tw_name w)")
        case True
        then have "s' = ?c" "awaiting' = awaiting" "r = None" using assms(3,4) Tick None c(3) by (auto simp: Let_def)
        moreover have "announces w ?c ?c []" by (rule announces_refl) (use c assms(2) in auto)
        ultimately show ?thesis using from_c assms(4) c(3) Tick by auto
      next
        case False
        then have s': "s' = markRunnerHealthy later w False ?c" "awaiting' = awaiting" "r = None"
          using assms(3) Tick None c(3) by (auto simp: Let_def split: if_splits)
        have "setPendingStart (tw_name w) False ?c = ?c" using False c(3) by (auto simp: setPendingStart_def clearAbsent_def fun_upd_idem)
        then show ?thesis using healthy_announces [OF c(1), of w later] from_c False c(3) s' Tick by auto
      qed
    qed
  qed (use assms(3,4) idle in auto)
qed

lemma announces_state: "announces w s s' new \<Longrightarrow> gm_sorted (ws_health s') \<and> (owed w s' \<or> \<not> ws_pendingStart s' (tw_name w))"
  by (auto simp: announces_def)

lemma announces_pending: "announces w s s' new \<Longrightarrow> \<not> ws_pendingStart s (tw_name w) \<Longrightarrow> \<not> ws_pendingStart s' (tw_name w)"
  by (auto simp: announces_def owed_def)

lemma runOnceLoop_announces:
  assumes "gm_sorted (ws_health s)" "owed w s \<or> \<not> ws_pendingStart s (tw_name w)" "awaiting \<or> \<not> ws_pendingStart s (tw_name w)"
    "runOnceLoop w es (awaiting, s) = ((awaiting', s'), r)"
  shows "(\<exists>new. announces w s s' new) \<and> (awaiting \<and> syncs es \<longrightarrow> \<not> ws_pendingStart s' (tw_name w))"
  using assms
proof (induction es arbitrary: awaiting s)
  case Nil
  then show ?case using announces_refl by (auto simp: syncs_def)
next
  case (Cons e es)
  obtain aw s1 r1 where st: "runOnceStep w e (awaiting, s) = ((aw, s1), r1)" by (metis prod.collapse)
  note step = runOnceStep_announces [OF Cons.prems(1,2) st Cons.prems(3)]
  obtain n1 where n1: "announces w s s1 n1" using step by blast
  show ?case
  proof (cases r1)
    case (Some err)
    then have "s' = s1" "returns e" using Cons.prems(4) st step by auto
    then show ?thesis using n1 by (auto simp: syncs_def)
  next
    case None
    then have loop: "runOnceLoop w es (aw, s1) = ((awaiting', s'), r)" and nr: "\<not> returns e" using Cons.prems(4) st step by auto
    note ih = Cons.IH [OF _ _ _ loop]
    have ih: "(\<exists>new. announces w s1 s' new) \<and> (aw \<and> syncs es \<longrightarrow> \<not> ws_pendingStart s' (tw_name w))"
      using ih announces_state [OF n1] step by blast
    then obtain n2 where n2: "announces w s1 s' n2" by blast
    have "\<not> ws_pendingStart s' (tw_name w)" if "awaiting" "syncs (e # es)"
    proof (cases "(\<exists>now. e = Synced now) \<or> \<not> aw")
      case True
      then have "\<not> ws_pendingStart s1 (tw_name w)" using step that(1) by blast
      then show ?thesis using announces_pending [OF n2] by blast
    next
      case False
      then have "syncs es" using that(2) nr by (auto simp: syncs_def)
      then show ?thesis using ih False by blast
    qed
    then show ?thesis using announces_trans [OF n1 n2] by blast
  qed
qed

lemma runAll_announces:
  assumes "gm_sorted (ws_health s)" "owed w s \<or> \<not> ws_pendingStart s (tw_name w)"
  shows "(\<exists>new. announces w s (runAll w runs s) new) \<and> ((\<exists>es \<in> set runs. syncs es) \<longrightarrow> \<not> ws_pendingStart (runAll w runs s) (tw_name w))"
  using assms
proof (induction runs arbitrary: s)
  case Nil
  then show ?case using announces_refl by (auto simp: runAll_def)
next
  case (Cons es runs)
  obtain aw s1 r where lp: "runOnceLoop w es (True, s) = ((aw, s1), r)" by (metis prod.collapse)
  have one: "runAll w (es # runs) s = runAll w runs s1" by (simp add: runAll_def runOnce_def lp)
  note step = runOnceLoop_announces [OF Cons.prems _ lp]
  then obtain n1 where n1: "announces w s s1 n1" by blast
  note ih = Cons.IH [OF announces_state [OF n1, THEN conjunct1] announces_state [OF n1, THEN conjunct2]]
  then obtain n2 where n2: "announces w s1 (runAll w runs s1) n2" by blast
  show ?case unfolding one using announces_trans [OF n1 n2] ih step announces_pending [OF n2] by auto
qed


lemma lateExample:
  "let s = sy_super (systemRun fst [uninstalled, installed ''u'', PassEvent AllWorkloadKinds examplePass] exampleSystem) in
     ws_pendingStart s ''K'' \<and> \<not> IsHealthy (ws_health s) ''K'' \<and> ws_notices s = []"
  by code_simp


subsection \<open>Well-formedness\<close>

text \<open>
  C29. The state of the supervisor is well-formed after any history: a runner runs only for a ready generation
  and never for a disabled kind, a kind is activated and takes part in roll-up exactly while its CRD is
  present, a start is owed only while a runner runs, an unservable kind is degraded or disabled, and
  its observation is of the generation that its reads establish.
\<close>

theorem supervisor_wellformed:
  assumes "fresh sy" "sy_super (systemRun gt es sy) = s" "w \<in> set (ws_watches s)"
  shows "let l = ws_life s (tw_name w) in
    ws_activated s (tw_name w) = lifePresent l \<and> (ws_tracked s \<noteq> None \<longrightarrow> tracked_Has (ws_tracked s) (tw_gk w) = lifePresent l) \<and>
    (ws_running s (tw_name w) \<longrightarrow> kl_state l = CrdReady \<and> isOn (entry w s)) \<and>
    (ws_pendingStart s (tw_name w) \<longrightarrow> ws_running s (tw_name w)) \<and>
    (kl_state l = CrdUnservable \<longrightarrow> isDegraded (entry w s) \<or> (\<exists>r. isDisabled r (entry w s))) \<and>
    obsGeneration (obsOf w s) = generationAfter w (readsOf w es)"
proof -
  have "tracksHistory es (systemRun gt es sy)" by (rule history_tracks [OF assms(1)])
  then show ?thesis using assms(2,3) agrees_generation
    by (auto simp: tracksHistory_def superOK_def kindOK_def remembers_def Let_def)
qed

theorem supervisor_wellformed_witness:
  "let s = sy_super (systemRun fst lostHistory exampleSystem) in
     obsGeneration (obsOf exampleWatch s) = Removed ''v'' \<and> ws_activated s ''K''"
proof -
  let ?s = "sy_super (systemRun fst lostHistory exampleSystem)"
  have "exampleWatch \<in> set (ws_watches ?s)" by (simp add: example_lost(1))
  note wf = supervisor_wellformed [OF exampleSystem_fresh refl this]
  have name: "tw_name exampleWatch = ''K''" by (simp add: exampleWatch_def)
  have "readsOf exampleWatch lostHistory = [exampleRead (CrdAnswer (exampleCRD ''u'')), exampleRead CrdNotFound,
      exampleRead (CrdAnswer (exampleCRD ''v'')), exampleRead CrdNotFound]"
    by (simp add: readsOf_def lostHistory_def installed_def uninstalled_def)
  then have "generationAfter exampleWatch (readsOf exampleWatch lostHistory) = Removed ''v''"
    by (simp add: generationAfter_def exampleReads ended_def)
  then show ?thesis using wf by (simp add: Let_def name example_lost(2) lifePresent_def)
qed

end
