(* ===== verification/Cr_Objects.thy ===== *)
theory Cr_Objects
  imports Inference_Spec
begin

text \<open>
  What the scrapers of custom resources share. A custom resource arrives as an
  \<^verbatim>\<open>*unstructured.Unstructured\<close>: a JSON map that the code reads with the accessors of \<^verbatim>\<open>apimachinery\<close>.
  These accessors and the converter to typed structs are third-party code, so they are the fields of a
  parameter \<open>api\<close>; the model keeps of their documentation only what their result types say: a value is
  there, has another type (the accessor returns an error), or is absent. \<open>plainApi\<close>, at the end, is one concrete
  instance for examples.
\<close>

datatype 'a nested = Absent | WrongType string | Present 'a

record unstructured_api =
  ua_kind :: "jobject \<Rightarrow> string"
  ua_string :: "jobject \<Rightarrow> string list \<Rightarrow> string nested"
  ua_int64 :: "jobject \<Rightarrow> string list \<Rightarrow> int nested"
  ua_map :: "jobject \<Rightarrow> string list \<Rightarrow> jobject nested"
  ua_slice :: "jobject \<Rightarrow> string list \<Rightarrow> json list nested"
  ua_stringMap :: "jobject \<Rightarrow> string list \<Rightarrow> gomap nested"
  ua_field :: "jobject \<Rightarrow> string list \<Rightarrow> json nested"
  ua_podTemplate :: "jobject \<Rightarrow> string + pod_template"
  ua_envVar :: "jobject \<Rightarrow> string + env_var"

text \<open>\<^verbatim>\<open>v, _, _ := Nested...\<close> takes the zero value unless the value is there.\<close>

definition stringAt :: "unstructured_api \<Rightarrow> jobject \<Rightarrow> string list \<Rightarrow> string" where
  "stringAt api obj path = (case ua_string api obj path of Present s \<Rightarrow> s | _ \<Rightarrow> '''')"

definition sliceAt :: "unstructured_api \<Rightarrow> jobject \<Rightarrow> string list \<Rightarrow> json list" where
  "sliceAt api obj path = (case ua_slice api obj path of Present xs \<Rightarrow> xs | _ \<Rightarrow> [])"

text \<open>\<^verbatim>\<open>nestedPresent\<close> of \<^verbatim>\<open>lws.go\<close>.\<close>

definition nestedPresent :: "unstructured_api \<Rightarrow> jobject \<Rightarrow> string list \<Rightarrow> bool" where
  "nestedPresent api obj path = (case ua_field api obj path of Present _ \<Rightarrow> True | _ \<Rightarrow> False)"

text \<open>The number as a property, when the field is there.\<close>

definition intProp :: "unstructured_api \<Rightarrow> jobject \<Rightarrow> string list \<Rightarrow> string \<Rightarrow> gomap" where
  "intProp api obj path key = (case ua_int64 api obj path of Present n \<Rightarrow> [(key, showInt n)] | _ \<Rightarrow> [])"

definition strProp :: "string \<Rightarrow> string \<Rightarrow> gomap" where
  "strProp key v = (if v \<noteq> '''' then [(key, v)] else [])"

text \<open>What \<^verbatim>\<open>%T\<close> prints for a JSON value.\<close>

fun json_typename :: "json \<Rightarrow> string" where
  "json_typename JNull = ''<nil>''"
| "json_typename (JBool _) = ''bool''"
| "json_typename (JInt _) = ''int64''"
| "json_typename (JFloat _) = ''float64''"
| "json_typename (JString _) = ''string''"
| "json_typename (JArray _) = ''[]interface {}''"
| "json_typename (JObject _) = ''map[string]interface {}''"

subsection \<open>The shape of a scrape\<close>

text \<open>The guards at the start of every \<^verbatim>\<open>Scrape\<close>.\<close>

definition crObject :: "string \<Rightarrow> Workload \<Rightarrow> go_error + (object_meta \<times> jobject)" where
  "crObject name w = (case w_object w of
     None \<Rightarrow> Inl (nilObject name (w_kind w))
   | Some (Unstructured m obj) \<Rightarrow> Inr (m, obj)
   | Some other \<Rightarrow> Inl (ErrorString (name @ '': workload Object is '' @ object_typename other @
       '', want *unstructured.Unstructured'')))"

definition nilConfigFor :: "string \<Rightarrow> go_error" where
  "nilConfigFor name = ErrorString (name @ '': cfg is nil; reconciler must pass a non-nil InferenceConfig'')"

definition addError :: "string \<Rightarrow> BOMInputs \<Rightarrow> BOMInputs" where
  "addError msg b = b\<lparr>bi_errors := bi_errors b @ [ErrorString msg]\<rparr>"

definition addComponents :: "Component list \<Rightarrow> BOMInputs \<Rightarrow> BOMInputs" where
  "addComponents cs b = b\<lparr>bi_components := bi_components b @ cs\<rparr>"

definition startCR :: "string \<Rightarrow> WorkloadCategory \<Rightarrow> time \<Rightarrow> BOMInputs" where
  "startCR name cat t = emptyInputs\<lparr>bi_scraperName := name, bi_category := cat, bi_scrapeTimestamp := t\<rparr>"

text \<open>The end of every \<^verbatim>\<open>Scrape\<close>: signatures, order, cap, confidence, provenance.\<close>

definition finishCR :: "string \<Rightarrow> SignatureVerifier option \<Rightarrow> time \<Rightarrow> gomap list \<Rightarrow> BOMInputs \<Rightarrow> BOMInputs" where
  "finishCR name v t maps b =
    (let signed = b\<lparr>bi_components := sortComponents (applySignatures v (bi_components b) maps)\<rparr>;
         capped = capComponents signed
     in capped\<lparr>bi_confidence := aggregateConfidence (bi_components capped), bi_provenance := [provenanceOf name t]\<rparr>)"

text \<open>The annotation models of the resource itself, the last extraction of every scraper but NIM's.\<close>

definition workloadAnnotationModels :: "object_meta \<Rightarrow> Component list" where
  "workloadAnnotationModels m = extractAnnotationModels (om_annotations m) SourceWorkloadAnnotation ''metadata.annotations''"

definition putAll :: "gomap \<Rightarrow> gomap \<Rightarrow> gomap" where
  "putAll es props = fold (\<lambda>(k, v) m. gm_put k v m) es props"

text \<open>
  Extraction from one pod template: decode it, run the shared extraction with locators rooted at
  \<open>locator\<close>, and rewrite the properties of the components it appended with \<open>tag\<close>. \<open>None\<close> stands for
  the nil annotations of a template that did not decode.
\<close>

definition scrapeTemplateWith ::
  "unstructured_api \<Rightarrow> (Component \<Rightarrow> gomap) \<Rightarrow> jobject \<Rightarrow> string \<Rightarrow> pod list \<Rightarrow> InferenceConfig option \<Rightarrow>
   BOMInputs \<Rightarrow> BOMInputs \<times> gomap option" where
  "scrapeTemplateWith api tag pt locator pods cfg inputs = (case ua_podTemplate api pt of
     Inl err \<Rightarrow> (addError (locator @ '': not a PodTemplateSpec: '' @ err @ ''; skipped'') inputs, None)
   | Inr tmpl \<Rightarrow>
      (let before = length (bi_components inputs);
           out = scrapePodSpecAt inputs (pt_spec tmpl) (pt_annotations tmpl) pods cfg
             (locator @ ''.spec'') (locator @ ''.metadata.annotations'')
       in (out\<lparr>bi_components := take before (bi_components out) @
               map (\<lambda>c. withProperties (tag c) c) (drop before (bi_components out))\<rparr>,
           Some (pt_annotations tmpl))))"

subsection \<open>What the shared parts guarantee\<close>

lemma addError_simps [simp]:
  "bi_components (addError msg b) = bi_components b" "bi_errors (addError msg b) = bi_errors b @ [ErrorString msg]"
  "bi_scraperName (addError msg b) = bi_scraperName b" "bi_scrapeTimestamp (addError msg b) = bi_scrapeTimestamp b"
  "bi_truncatedComponents (addError msg b) = bi_truncatedComponents b" "bi_category (addError msg b) = bi_category b"
  by (simp_all add: addError_def)

lemma addComponents_simps [simp]:
  "bi_components (addComponents cs b) = bi_components b @ cs" "bi_errors (addComponents cs b) = bi_errors b"
  "bi_scraperName (addComponents cs b) = bi_scraperName b" "bi_scrapeTimestamp (addComponents cs b) = bi_scrapeTimestamp b"
  "bi_truncatedComponents (addComponents cs b) = bi_truncatedComponents b" "bi_category (addComponents cs b) = bi_category b"
  by (simp_all add: addComponents_def)

lemma startCR_simps [simp]:
  "bi_components (startCR name cat t) = []" "bi_errors (startCR name cat t) = []"
  "bi_scraperName (startCR name cat t) = name" "bi_scrapeTimestamp (startCR name cat t) = t"
  "bi_truncatedComponents (startCR name cat t) = 0" "bi_category (startCR name cat t) = cat"
  by (simp_all add: startCR_def emptyInputs_def)

definition extendInputs :: "Component list \<Rightarrow> go_error list \<Rightarrow> BOMInputs \<Rightarrow> BOMInputs" where
  "extendInputs cs es b = b\<lparr>bi_components := bi_components b @ cs, bi_errors := bi_errors b @ es\<rparr>"

lemma extendInputs_simps [simp]:
  "bi_components (extendInputs cs es b) = bi_components b @ cs" "bi_errors (extendInputs cs es b) = bi_errors b @ es"
  "bi_scraperName (extendInputs cs es b) = bi_scraperName b" "bi_scrapeTimestamp (extendInputs cs es b) = bi_scrapeTimestamp b"
  "bi_truncatedComponents (extendInputs cs es b) = bi_truncatedComponents b"
  "extendInputs cs' es' (extendInputs cs es b) = extendInputs (cs @ cs') (es @ es') b"
  "extendInputs [] [] b = b"
  by (simp_all add: extendInputs_def)

lemma as_extendInputs:
  "addError msg b = extendInputs [] [ErrorString msg] b" "addComponents cs b = extendInputs cs [] b"
  by (simp_all add: addError_def addComponents_def extendInputs_def)

lemma errors_emptyInputs [simp]: "bi_errors emptyInputs = []" "bi_components emptyInputs = []"
  by (simp_all add: emptyInputs_def)

text \<open>A loop that only records errors and builds a list can start from any inputs.\<close>

lemma fold_error_list:
  assumes step: "\<And>x es b out. f x (extendInputs [] es b, out) = (extendInputs [] (es @ g x) b, out @ h x)"
  shows "fold f xs (b, []) = (extendInputs [] (bi_errors (fst (fold f xs (emptyInputs, [])))) b, snd (fold f xs (emptyInputs, [])))"
proof -
  have "fold f xs (extendInputs [] es b, out) = (extendInputs [] (es @ concat (map g xs)) b, out @ concat (map h xs))" for es b out
    by (induction xs arbitrary: es out) (simp_all add: step)
  from this [of "[]" _ "[]"] show ?thesis by (simp add: emptyInputs_def)
qed

text \<open>The components that one decoded template contributes, before they are tagged.\<close>

definition templateComponents :: "pod_template \<Rightarrow> string \<Rightarrow> pod list \<Rightarrow> InferenceConfig option \<Rightarrow> Component list" where
  "templateComponents tmpl locator pods cfg =
     bi_components (scrapePodSpecAt emptyInputs (pt_spec tmpl) (pt_annotations tmpl) pods cfg
       (locator @ ''.spec'') (locator @ ''.metadata.annotations''))"

lemma scrapePodSpecAt_extend:
  "scrapePodSpecAt inputs (pt_spec tmpl) (pt_annotations tmpl) pods cfg (locator @ ''.spec'') (locator @ ''.metadata.annotations'')
     = extendInputs (templateComponents tmpl locator pods cfg) [] inputs"
  by (simp add: scrapePodSpecAt_def templateComponents_def emptyInputs_def extendInputs_def)

type_synonym parts = "Component list \<times> go_error list \<times> gomap list"

definition templateParts ::
  "unstructured_api \<Rightarrow> (Component \<Rightarrow> gomap) \<Rightarrow> jobject \<Rightarrow> string \<Rightarrow> pod list \<Rightarrow> InferenceConfig option \<Rightarrow> parts" where
  "templateParts api tag pt locator pods cfg = (case ua_podTemplate api pt of
     Inl err \<Rightarrow> ([], [ErrorString (locator @ '': not a PodTemplateSpec: '' @ err @ ''; skipped'')], [])
   | Inr tmpl \<Rightarrow> (map (\<lambda>c. withProperties (tag c) c) (templateComponents tmpl locator pods cfg), [], [pt_annotations tmpl]))"

fun extendParts :: "parts \<Rightarrow> BOMInputs \<times> gomap list \<Rightarrow> BOMInputs \<times> gomap list" where
  "extendParts (cs, es, ms) (b, maps) = (extendInputs cs es b, maps @ ms)"

fun joinParts :: "parts \<Rightarrow> parts \<Rightarrow> parts" where
  "joinParts (cs, es, ms) (cs', es', ms') = (cs @ cs', es @ es', ms @ ms')"

definition concatParts :: "parts list \<Rightarrow> parts" where
  "concatParts ps = (concat (map fst ps), concat (map (fst \<circ> snd) ps), concat (map (snd \<circ> snd) ps))"

lemma concatParts_simps [simp]: "concatParts [] = ([], [], [])" "concatParts (p # ps) = joinParts p (concatParts ps)"
  by (cases p; simp add: concatParts_def)+

lemma extendParts_join: "extendParts q (extendParts p st) = extendParts (joinParts p q) st"
  by (cases p; cases q; cases st) simp

lemma extendParts_none [simp]: "extendParts ([], [], []) st = st"
  by (cases st) simp

lemma fold_extendParts:
  assumes "\<And>x st. f x st = extendParts (p x) st"
  shows "fold f xs st = extendParts (concatParts (map p xs)) st"
  by (induction xs arbitrary: st) (simp_all add: assms extendParts_join)

lemma scrapeTemplateWith_parts:
  "(case scrapeTemplateWith api tag pt locator pods cfg b of
      (b', None) \<Rightarrow> (b', maps) | (b', Some a) \<Rightarrow> (b', maps @ [a])) =
   extendParts (templateParts api tag pt locator pods cfg) (b, maps)"
  by (cases "ua_podTemplate api pt")
    (simp_all add: scrapeTemplateWith_def templateParts_def scrapePodSpecAt_extend as_extendInputs Let_def,
     simp add: extendInputs_def)

lemma scrapeTemplateWith_fst:
  "fst (scrapeTemplateWith api tag pt locator pods cfg b) =
     (case templateParts api tag pt locator pods cfg of (cs, es, ms) \<Rightarrow> extendInputs cs es b)"
  by (cases "ua_podTemplate api pt")
    (simp_all add: scrapeTemplateWith_def templateParts_def scrapePodSpecAt_extend as_extendInputs Let_def,
     simp add: extendInputs_def)

text \<open>The result of a scrape whose extraction contributed \<open>cs\<close>, \<open>es\<close> and the annotation maps \<open>ms\<close>.\<close>

definition crResult :: "string \<Rightarrow> WorkloadCategory \<Rightarrow> SignatureVerifier option \<Rightarrow> time \<Rightarrow> parts \<Rightarrow> BOMInputs" where
  "crResult name cat v t p = (case p of (cs, es, ms) \<Rightarrow> finishCR name v t ms (extendInputs cs es (startCR name cat t)))"

lemma length_applySignatures [simp]: "length (applySignatures v cs ms) = length cs"
  by (simp add: applySignatures_map)

lemma finishCR_components:
  "bi_components (finishCR name v t maps b) = take 256 (sortComponents (applySignatures v (bi_components b) maps))"
  by (simp add: finishCR_def capComponents_def MaxComponentsPerDocument_def Let_def)

lemma crResult_fields:
  assumes "p = (cs, es, ms)"
  shows "bi_components (crResult name cat v t p) = take 256 (sortComponents (applySignatures v cs ms))"
    and "bi_errors (crResult name cat v t p) = es"
    and "bi_truncatedComponents (crResult name cat v t p) = int (length cs - 256)"
    and "bi_confidence (crResult name cat v t p) = aggregateConfidence (bi_components (crResult name cat v t p))"
    and "bi_scraperName (crResult name cat v t p) = name"
    and "bi_scrapeTimestamp (crResult name cat v t p) = t"
    and "bi_category (crResult name cat v t p) = cat"
  by (simp_all add: assms crResult_def finishCR_def capComponents_def MaxComponentsPerDocument_def Let_def of_nat_diff
      extendInputs_def)

lemma crResult_clock: "zeroTimestamps (crResult name cat v t p) = zeroTimestamps (crResult name cat v t' p)"
  by (cases p)
    (simp add: crResult_def finishCR_def capComponents_def startCR_def extendInputs_def emptyInputs_def zeroTimestamps_def
      provenanceOf_def zeroProvenanceTimestamps_map Let_def)

lemma crResult_bounded:
  assumes "p = (cs, es, ms)"
  shows "length (bi_components (crResult name cat v t p)) \<le> 256 \<and>
    int (length (bi_components (crResult name cat v t p))) + bi_truncatedComponents (crResult name cat v t p) = int (length cs) \<and>
    sorted (map componentOrder (bi_components (crResult name cat v t p))) \<and>
    bi_confidence (crResult name cat v t p) = aggregateConfidence (bi_components (crResult name cat v t p)) \<and>
    bi_errors (crResult name cat v t p) = es"
  unfolding crResult_fields(1-3) [OF assms] crResult_fields(4) [OF assms]
  by (auto simp: crResult_fields(1) [OF assms] intro: map_take_sorted sorted_sortComponents)

text \<open>
  The contract of a custom-resource scraper: what it extracts does not depend on the verifier or the clock,
  and its result is \<open>crResult\<close> of that. Every such scraper is one that the hash-based skip may use.
\<close>

locale cr_scraper =
  fixes scrape :: "SignatureVerifier option \<Rightarrow> time \<Rightarrow> Workload \<Rightarrow> InferenceConfig option \<Rightarrow> go_error + BOMInputs"
    and name :: string and cat :: WorkloadCategory
    and extracted :: "Workload \<Rightarrow> InferenceConfig option \<Rightarrow> go_error + parts"
  assumes scrape_extracted: "scrape v t w cfg = map_sum id (crResult name cat v t) (extracted w cfg)"
begin

lemma result:
  assumes "scrape v t w cfg = Inr b"
  obtains cs es ms where "extracted w cfg = Inr (cs, es, ms)" "b = crResult name cat v t (cs, es, ms)"
  using assms by (cases "extracted w cfg") (auto simp: scrape_extracted)

lemma bounded:
  assumes "scrape v t w cfg = Inr b"
  shows "length (bi_components b) \<le> 256 \<and> sorted (map componentOrder (bi_components b)) \<and>
    bi_confidence b = aggregateConfidence (bi_components b) \<and> bi_truncatedComponents b \<ge> 0 \<and>
    (bi_truncatedComponents b > 0 \<longrightarrow> length (bi_components b) = 256)"
proof -
  obtain cs es ms where "extracted w cfg = Inr (cs, es, ms)" and b: "b = crResult name cat v t (cs, es, ms)"
    using assms by (rule result)
  have "length (bi_components b) = min 256 (length cs)" "bi_truncatedComponents b = int (length cs - 256)"
    using crResult_fields(1,3) [OF refl, of name cat v t cs es ms] by (simp_all add: b)
  then show ?thesis
    using crResult_bounded [OF refl, of name cat v t cs es ms] by (auto simp: b)
qed

end

sublocale cr_scraper \<subseteq> named_scraper "scrape v" name
proof unfold_locales
  fix t t' w c b
  show "map_sum id zeroTimestamps (scrape v t w c) = map_sum id zeroTimestamps (scrape v t' w c)"
    by (cases "extracted w c") (simp_all add: scrape_extracted crResult_clock [of name cat v t _ t'])
  assume "scrape v t w c = Inr b"
  then obtain p where "b = crResult name cat v t p" by (cases "extracted w c") (auto simp: scrape_extracted)
  then show "bi_scraperName b = name" "bi_scrapeTimestamp b = t"
    by (cases p; simp add: crResult_fields)+
qed

context cr_scraper begin

lemma rescrape:
  assumes "scrape v t w cfg = Inr b"
  shows "\<exists>b'. scrape v t' w cfg = Inr b' \<and>
    HashBOMInputs marshal shaSum (Some b') = HashBOMInputs marshal shaSum (Some b)"
proof -
  obtain b' where b': "scrape v t' w cfg = Inr b'"
    using assms by (cases "extracted w cfg") (auto simp: scrape_extracted)
  then show ?thesis using hash_stable [OF b' assms] by blast
qed

end

subsection \<open>From what is extracted to what is returned\<close>

text \<open>
  \<open>recordedAs c0 c\<close>: \<open>c\<close> is \<open>c0\<close> up to the order of its children and the signature properties. Everything a
  scrape returns is an extracted component recorded so, and without truncation every extracted component is
  returned.
\<close>

definition recordedAs :: "Component \<Rightarrow> Component \<Rightarrow> bool" where
  "recordedAs c0 c \<longleftrightarrow> cType c = cType c0 \<and> cName c = cName c0 \<and> cVersion c = cVersion c0 \<and> cHashes c = cHashes c0 \<and>
     cEvidence c = cEvidence c0 \<and> cConfidence c = cConfidence c0 \<and>
     (gm_sorted (cProperties c0) \<longrightarrow>
       (\<forall>k. \<not> hasPrefix k ''signature.'' \<longrightarrow> map_of (cProperties c) k = map_of (cProperties c0) k))"

definition sortChildren :: "Component \<Rightarrow> Component" where
  "sortChildren c = (if cChildren c = [] then c
     else Component (cType c) (cName c) (cVersion c) (cPURL c) (cHashes c) (cEvidence c)
       (cConfidence c) (cProperties c) (sortComponents (cChildren c)))"

lemma set_sortComponents: "set (sortComponents cs) = sortChildren ` set cs"
  by (subst sortComponents.simps) (auto simp: sortChildren_def)

lemma recordResult_unsigned:
  "gm_sorted p \<Longrightarrow> \<not> hasPrefix k ''signature.'' \<Longrightarrow> map_of (recordResult r p) k = map_of p k"
  by (rule recordResult_other) (auto simp: signature_props hasPrefix_def)

lemma recordedAs_sign: "recordedAs c (sortChildren (applySignature v ref digest c))" "recordedAs c (sortChildren c)"
  by (auto simp: recordedAs_def sortChildren_def applySignature_def recordResult_unsigned)

lemma applySignatures_image:
  obtains f where "applySignatures v cs ms = map f cs" "\<And>c. recordedAs c (sortChildren (f c))"
proof
  show "applySignatures v cs ms = map (if firstNonEmpty AnnotationSignatureRef ms = '''' then (\<lambda>c. c)
      else applySignature (case v of None \<Rightarrow> NoopVerifier | Some v \<Rightarrow> v)
        (firstNonEmpty AnnotationSignatureRef ms) (firstNonEmpty AnnotationModelDigest ms)) cs"
    by (rule applySignatures_map)
qed (simp add: recordedAs_sign)

lemma recorded_sound:
  assumes "c \<in> set (bi_components (crResult name cat v t (cs, es, ms)))"
  shows "\<exists>c0 \<in> set cs. recordedAs c0 c"
proof -
  obtain f where f: "applySignatures v cs ms = map f cs" "\<And>c. recordedAs c (sortChildren (f c))"
    using applySignatures_image by blast
  have "c \<in> set (sortComponents (map f cs))"
    using assms unfolding crResult_fields(1) [OF refl] f(1) by (rule in_set_takeD)
  then show ?thesis using f(2) by (auto simp: set_sortComponents)
qed

lemma recorded_complete:
  assumes "c0 \<in> set cs" "bi_truncatedComponents (crResult name cat v t (cs, es, ms)) = 0"
  shows "\<exists>c \<in> set (bi_components (crResult name cat v t (cs, es, ms))). recordedAs c0 c"
proof -
  obtain f where f: "applySignatures v cs ms = map f cs" "\<And>c. recordedAs c (sortChildren (f c))"
    using applySignatures_image by blast
  have "length cs \<le> 256" using assms(2) by (simp add: crResult_fields(3) [OF refl])
  then have "bi_components (crResult name cat v t (cs, es, ms)) = sortComponents (map f cs)"
    unfolding crResult_fields(1) [OF refl] f(1) by simp
  then show ?thesis using assms(1) f(2) by (auto simp: set_sortComponents)
qed

subsection \<open>What a pod template can contribute\<close>

lemma templateComponents_plain: "c \<in> set (templateComponents tmpl locator pods cfg) \<Longrightarrow> plainComponent c"
  by (auto simp: templateComponents_def scrapePodSpecAt_def emptyInputs_def intro: plain_extractors plain_annotation)

subsection \<open>A concrete instance of the accessors\<close>

fun valueAt :: "json \<Rightarrow> string list \<Rightarrow> json nested" where
  "valueAt v [] = Present v"
| "valueAt (JObject m) (k # ks) = (case map_of m k of None \<Rightarrow> Absent | Some v \<Rightarrow> valueAt v ks)"
| "valueAt v (k # ks) = WrongType (k @ '' accessor error'')"

definition viewAs :: "(json \<Rightarrow> 'a option) \<Rightarrow> json nested \<Rightarrow> 'a nested" where
  "viewAs view n = (case n of Absent \<Rightarrow> Absent | WrongType e \<Rightarrow> WrongType e
     | Present v \<Rightarrow> (case view v of Some x \<Rightarrow> Present x | None \<Rightarrow> WrongType ''accessor error''))"

fun asString :: "json \<Rightarrow> string option" where "asString (JString s) = Some s" | "asString _ = None"
fun asInt :: "json \<Rightarrow> int option" where "asInt (JInt n) = Some n" | "asInt _ = None"
fun asMap :: "json \<Rightarrow> jobject option" where "asMap (JObject m) = Some m" | "asMap _ = None"
fun asSlice :: "json \<Rightarrow> json list option" where "asSlice (JArray xs) = Some xs" | "asSlice _ = None"

fun asStringMap :: "json \<Rightarrow> gomap option" where
  "asStringMap (JObject m) = (if list_all (\<lambda>(k, v). asString v \<noteq> None) m
     then Some (map (\<lambda>(k, v). (k, case asString v of Some s \<Rightarrow> s | None \<Rightarrow> '''')) m) else None)"
| "asStringMap _ = None"

definition plainString :: "jobject \<Rightarrow> string list \<Rightarrow> string" where
  "plainString m path = (case viewAs asString (valueAt (JObject m) path) of Present s \<Rightarrow> s | _ \<Rightarrow> '''')"

definition plainContainers :: "jobject \<Rightarrow> container list" where
  "plainContainers m = (case viewAs asSlice (valueAt (JObject m) [''spec'', ''containers'']) of
     Present xs \<Rightarrow> map (\<lambda>v. let c = (case asMap v of Some c \<Rightarrow> c | None \<Rightarrow> []) in
       \<lparr>ct_name = plainString c [''name''], ct_image = plainString c [''image''], ct_args = [], ct_env = [], ct_volumeMounts = []\<rparr>) xs
   | _ \<Rightarrow> [])"

definition plainApi :: unstructured_api where
  "plainApi = \<lparr>ua_kind = \<lambda>m. plainString m [''kind''],
     ua_string = \<lambda>m path. viewAs asString (valueAt (JObject m) path),
     ua_int64 = \<lambda>m path. viewAs asInt (valueAt (JObject m) path),
     ua_map = \<lambda>m path. viewAs asMap (valueAt (JObject m) path),
     ua_slice = \<lambda>m path. viewAs asSlice (valueAt (JObject m) path),
     ua_stringMap = \<lambda>m path. viewAs asStringMap (valueAt (JObject m) path),
     ua_field = \<lambda>m path. valueAt (JObject m) path,
     ua_podTemplate = \<lambda>m. Inr \<lparr>pt_annotations = [], pt_spec = emptyPodSpec\<lparr>ps_containers := plainContainers m\<rparr>\<rparr>,
     ua_envVar = \<lambda>m. Inr \<lparr>env_name = plainString m [''name''], env_value = plainString m [''value''], env_valueFrom = False\<rparr>\<rparr>"

end
