(* ===== verification/Serving_Scrapers.thy ===== *)
theory Serving_Scrapers
  imports Cr_Objects
begin

text \<open>
  \<^verbatim>\<open>kserve.go\<close>, \<^verbatim>\<open>lws.go\<close> and \<^verbatim>\<open>disaggregatedset.go\<close> of \<^verbatim>\<open>internal/scraper\<close>. Each scraper is followed by what it
  extracts as parts (components, recorded errors, annotation maps for the signature lookup), which gives the
  interpretation of \<open>cr_scraper\<close>.
\<close>

subsection \<open>KServe\<close>

definition kserveHandledKinds :: "WorkloadKind list" where
  "kserveHandledKinds = [\<lparr>wk_group = ''serving.kserve.io'', wk_version = ''v1beta1'', wk_kind = ''InferenceService''\<rparr>]"

definition kserve_HandlesKind :: "WorkloadKind \<Rightarrow> bool" where
  "kserve_HandlesKind k = list_ex (\<lambda>kk. kk = k) kserveHandledKinds"

definition extractPredictor :: "unstructured_api \<Rightarrow> jobject \<Rightarrow> Component list" where
  "extractPredictor api obj =
    (let model = [''spec'', ''predictor'', ''model''];
         modelFormatName = stringAt api obj (model @ [''modelFormat'', ''name'']);
         modelFormatVersion = stringAt api obj (model @ [''modelFormat'', ''version'']);
         runtimeRef = stringAt api obj (model @ [''runtime'']);
         storageUri = stringAt api obj (model @ [''storageUri'']);
         serviceAccountName = stringAt api obj [''spec'', ''predictor'', ''serviceAccountName'']
     in (if modelFormatName \<noteq> '''' then
           [mkComponent ComponentApplication (TruncateString modelFormatName MaxComponentNameLength)
              (TruncateString modelFormatVersion MaxComponentNameLength) ConfidenceDeclared
              \<lparr>ev_source = SourceCRDField, ev_locator = ''spec.predictor.model.modelFormat.name''\<rparr>
              ([(''runtime.name'', modelFormatName), (''runtime.source'', ''kserve.predictor.model.modelFormat'')] @
               strProp ''kserve.runtime.ref'' runtimeRef @ strProp ''kserve.serviceAccountName'' serviceAccountName)]
         else []) @
        (if storageUri \<noteq> '''' then
           [mkComponent ComponentMLModel (TruncateString storageUri MaxComponentNameLength) '''' ConfidenceDeclared
              \<lparr>ev_source = SourceCRDField, ev_locator = ''spec.predictor.model.storageUri''\<rparr>
              ([(''identity.confidence'', ''claimed''), (''identity.source'', ''kserve.storageUri'')] @
               strProp ''kserve.serviceAccountName'' serviceAccountName)]
         else []))"

definition kserve_Scrape ::
  "unstructured_api \<Rightarrow> SignatureVerifier option \<Rightarrow> time \<Rightarrow> Workload \<Rightarrow> InferenceConfig option \<Rightarrow> go_error + BOMInputs" where
  "kserve_Scrape api v t w cfg = (case crObject ''inference.kserve'' w of
     Inl e \<Rightarrow> Inl e
   | Inr (m, obj) \<Rightarrow> Inr (finishCR ''inference.kserve'' v t [om_annotations m]
       (addComponents (extractPredictor api obj)
         (addComponents (workloadAnnotationModels m) (startCR ''inference.kserve'' CategoryNone t)))))"

definition kserveParts :: "unstructured_api \<Rightarrow> Workload \<Rightarrow> InferenceConfig option \<Rightarrow> go_error + parts" where
  "kserveParts api w cfg = (case crObject ''inference.kserve'' w of Inl e \<Rightarrow> Inl e
   | Inr (m, obj) \<Rightarrow> Inr (workloadAnnotationModels m @ extractPredictor api obj, [], [om_annotations m]))"

interpretation kserve: cr_scraper "kserve_Scrape api" "''inference.kserve''" CategoryNone "kserveParts api"
  by unfold_locales
    (auto simp: kserve_Scrape_def kserveParts_def crResult_def as_extendInputs split: sum.splits)

subsection \<open>LeaderWorkerSet\<close>

definition lwsHandledKinds :: "WorkloadKind list" where
  "lwsHandledKinds = [\<lparr>wk_group = ''leaderworkerset.x-k8s.io'', wk_version = ''v1'', wk_kind = ''LeaderWorkerSet''\<rparr>]"

definition lws_HandlesKind :: "WorkloadKind \<Rightarrow> bool" where
  "lws_HandlesKind k = list_ex (\<lambda>kk. kk = k) lwsHandledKinds"

definition lwsTemplateLocator :: string where "lwsTemplateLocator = ''spec.leaderWorkerTemplate''"

definition lwsTag :: "gomap \<Rightarrow> gomap \<Rightarrow> Component \<Rightarrow> gomap" where
  "lwsTag componentProps groupProps c =
     (let p = putAll componentProps (cProperties c)
      in if cType c = ComponentContainer then putAll groupProps p else p)"

definition lws_scrapeTemplate ::
  "unstructured_api \<Rightarrow> BOMInputs \<Rightarrow> jobject \<Rightarrow> string \<Rightarrow> gomap \<Rightarrow> gomap \<Rightarrow> pod list \<Rightarrow> InferenceConfig option \<Rightarrow>
   BOMInputs \<times> gomap option" where
  "lws_scrapeTemplate api inputs pt locator componentProps groupProps pods cfg =
     scrapeTemplateWith api (lwsTag componentProps groupProps) pt locator pods cfg inputs"

text \<open>
  The body of the loop over the leader and the worker role, which \<^verbatim>\<open>lws.go\<close> runs on the resource and
  \<^verbatim>\<open>disaggregatedset.go\<close> on every role of a set: \<open>root\<close> holds the templates, \<open>prefix\<close> is where they are in the
  resource, and the state is the inputs with the annotation maps found so far.
\<close>

definition lwsRoleStep ::
  "unstructured_api \<Rightarrow> jobject \<Rightarrow> string \<Rightarrow> gomap \<Rightarrow> gomap \<Rightarrow> pod list \<Rightarrow> InferenceConfig option \<Rightarrow> string \<Rightarrow>
   BOMInputs \<times> gomap list \<Rightarrow> BOMInputs \<times> gomap list" where
  "lwsRoleStep api root prefix roleProps groupProps pods cfg role st = (case st of (inputs, annotationMaps) \<Rightarrow>
     let key = role @ ''Template''; path = [''spec'', ''leaderWorkerTemplate'', key]
     in case ua_map api root path of
       Present pt \<Rightarrow>
         (case lws_scrapeTemplate api inputs pt (prefix @ ''.'' @ key) (roleProps @ [(''lws.role'', role)]) groupProps pods cfg of
            (inputs', Some tmplAnnotations) \<Rightarrow> (inputs', annotationMaps @ [tmplAnnotations])
          | (inputs', None) \<Rightarrow> (inputs', annotationMaps))
     | _ \<Rightarrow>
         ((if nestedPresent api root path then addError (prefix @ ''.'' @ key @ '': not an object; skipped'') inputs
           else inputs), annotationMaps))"

definition lws_Scrape ::
  "unstructured_api \<Rightarrow> SignatureVerifier option \<Rightarrow> time \<Rightarrow> Workload \<Rightarrow> InferenceConfig option \<Rightarrow> go_error + BOMInputs" where
  "lws_Scrape api v t w cfg = (case crObject ''inference.lws'' w of
     Inl e \<Rightarrow> Inl e
   | Inr (m, obj) \<Rightarrow>
      if cfg = None then Inl (nilConfigFor ''inference.lws'')
      else (let groupProps = intProp api obj [''spec'', ''leaderWorkerTemplate'', ''size''] ''lws.size'' @
                    intProp api obj [''spec'', ''replicas''] ''lws.replicas'';
                (inputs, annotationMaps) = fold (lwsRoleStep api obj lwsTemplateLocator [] groupProps (w_pods w) cfg)
                    [''leader'', ''worker''] (startCR ''inference.lws'' CategoryInference t, [])
            in Inr (finishCR ''inference.lws'' v t (om_annotations m # annotationMaps)
                 (addComponents (workloadAnnotationModels m) inputs))))"

definition rolePart ::
  "unstructured_api \<Rightarrow> jobject \<Rightarrow> string \<Rightarrow> gomap \<Rightarrow> gomap \<Rightarrow> pod list \<Rightarrow> InferenceConfig option \<Rightarrow> string \<Rightarrow> parts" where
  "rolePart api root prefix roleProps groupProps pods cfg role =
     (let key = role @ ''Template''; path = [''spec'', ''leaderWorkerTemplate'', key]
      in case ua_map api root path of
        Present pt \<Rightarrow> templateParts api (lwsTag (roleProps @ [(''lws.role'', role)]) groupProps) pt (prefix @ ''.'' @ key) pods cfg
      | _ \<Rightarrow> ([], if nestedPresent api root path then [ErrorString (prefix @ ''.'' @ key @ '': not an object; skipped'')] else [], []))"

lemma lwsRoleStep_parts:
  "lwsRoleStep api root prefix roleProps groupProps pods cfg role st =
     extendParts (rolePart api root prefix roleProps groupProps pods cfg role) st"
proof (cases st)
  case (Pair b maps)
  let ?path = "[''spec'', ''leaderWorkerTemplate'', role @ ''Template'']"
  show ?thesis
  proof (cases "ua_map api root ?path")
    case (Present pt)
    then show ?thesis
      unfolding Pair lwsRoleStep_def rolePart_def Let_def lws_scrapeTemplate_def
      by (simp add: scrapeTemplateWith_parts)
  qed (simp_all add: Pair lwsRoleStep_def rolePart_def Let_def as_extendInputs)
qed

definition lwsGroupProps :: "unstructured_api \<Rightarrow> jobject \<Rightarrow> gomap" where
  "lwsGroupProps api obj = intProp api obj [''spec'', ''leaderWorkerTemplate'', ''size''] ''lws.size'' @
     intProp api obj [''spec'', ''replicas''] ''lws.replicas''"

definition bothRoles ::
  "unstructured_api \<Rightarrow> jobject \<Rightarrow> string \<Rightarrow> gomap \<Rightarrow> gomap \<Rightarrow> pod list \<Rightarrow> InferenceConfig option \<Rightarrow> parts" where
  "bothRoles api root prefix roleProps groupProps pods cfg =
     concatParts (map (rolePart api root prefix roleProps groupProps pods cfg) [''leader'', ''worker''])"

lemma fold_lwsRoleStep:
  "fold (lwsRoleStep api root prefix roleProps groupProps pods cfg) [''leader'', ''worker''] st =
     extendParts (bothRoles api root prefix roleProps groupProps pods cfg) st"
  unfolding bothRoles_def by (rule fold_extendParts) (rule lwsRoleStep_parts)

fun withWorkload :: "object_meta \<Rightarrow> parts \<Rightarrow> parts" where
  "withWorkload m (cs, es, ms) = (cs @ workloadAnnotationModels m, es, om_annotations m # ms)"

definition lwsParts :: "unstructured_api \<Rightarrow> Workload \<Rightarrow> InferenceConfig option \<Rightarrow> go_error + parts" where
  "lwsParts api w cfg = (case crObject ''inference.lws'' w of Inl e \<Rightarrow> Inl e
   | Inr (m, obj) \<Rightarrow> if cfg = None then Inl (nilConfigFor ''inference.lws'')
       else Inr (withWorkload m (bothRoles api obj lwsTemplateLocator [] (lwsGroupProps api obj) (w_pods w) cfg)))"

lemma finishCR_withWorkload:
  assumes "extendParts p (startCR name cat t, []) = (inputs, maps)"
  shows "finishCR name v t (om_annotations m # maps) (addComponents (workloadAnnotationModels m) inputs) =
    crResult name cat v t (withWorkload m p)"
  using assms by (cases p) (auto simp: crResult_def as_extendInputs)

interpretation lws: cr_scraper "lws_Scrape api" "''inference.lws''" CategoryInference "lwsParts api"
proof unfold_locales
  fix v t w cfg
  show "lws_Scrape api v t w cfg = map_sum id (crResult ''inference.lws'' CategoryInference v t) (lwsParts api w cfg)"
  proof (cases "crObject ''inference.lws'' w")
    case (Inr mo)
    obtain m obj where mo: "mo = (m, obj)" by (cases mo)
    let ?p = "bothRoles api obj lwsTemplateLocator [] (lwsGroupProps api obj) (w_pods w) cfg"
    obtain b maps where f: "extendParts ?p (startCR ''inference.lws'' CategoryInference t, []) = (b, maps)"
      by (cases "extendParts ?p (startCR ''inference.lws'' CategoryInference t, [])")
    show ?thesis
      unfolding lws_Scrape_def lwsParts_def Inr mo sum.case prod.case Let_def fold_lwsRoleStep lwsGroupProps_def [symmetric] f
      by (simp add: f finishCR_withWorkload [OF f])
  qed (simp add: lws_Scrape_def lwsParts_def)
qed

subsection \<open>DisaggregatedSet\<close>

definition disaggregatedSetHandledKinds :: "WorkloadKind list" where
  "disaggregatedSetHandledKinds =
     [\<lparr>wk_group = ''disaggregatedset.x-k8s.io'', wk_version = ''v1'', wk_kind = ''DisaggregatedSet''\<rparr>]"

definition disaggregatedSet_HandlesKind :: "WorkloadKind \<Rightarrow> bool" where
  "disaggregatedSet_HandlesKind k = list_ex (\<lambda>kk. kk = k) disaggregatedSetHandledKinds"

definition roleLocator :: "nat \<Rightarrow> string" where
  "roleLocator i = ''spec.roles['' @ showNat i @ '']''"

text \<open>One element of \<^verbatim>\<open>spec.roles\<close>; \<open>setProps\<close> are the properties shared by the whole set.\<close>

definition setRoleStep ::
  "unstructured_api \<Rightarrow> gomap \<Rightarrow> pod list \<Rightarrow> InferenceConfig option \<Rightarrow> nat \<times> json \<Rightarrow>
   BOMInputs \<times> gomap list \<Rightarrow> BOMInputs \<times> gomap list" where
  "setRoleStep api setProps pods cfg ir st = (case ir of (i, raw) \<Rightarrow> case st of (inputs, annotationMaps) \<Rightarrow>
     (case raw of
        JObject role \<Rightarrow>
         (let declared = stringAt api role [''name''];
              name = (if declared = '''' then showNat i else declared);
              inputs1 = (if declared = ''''
                then addError (roleLocator i @ ''.name: missing; role identified by index'') inputs else inputs);
              groupProps = setProps @ intProp api role [''spec'', ''leaderWorkerTemplate'', ''size''] ''lws.size'' @
                intProp api role [''spec'', ''replicas''] ''lws.replicas'';
              maps1 = (case ua_stringMap api role [''metadata'', ''annotations''] of
                  Present ann \<Rightarrow> if length ann > 0 then annotationMaps @ [ann] else annotationMaps
                | _ \<Rightarrow> annotationMaps)
          in fold (lwsRoleStep api role (roleLocator i @ ''.spec.leaderWorkerTemplate'')
                [(''disaggregatedset.role'', name)] groupProps pods cfg) [''leader'', ''worker''] (inputs1, maps1))
      | _ \<Rightarrow> (addError (roleLocator i @ '': not an object; skipped'') inputs, annotationMaps)))"

definition disaggregatedSet_Scrape ::
  "unstructured_api \<Rightarrow> SignatureVerifier option \<Rightarrow> time \<Rightarrow> Workload \<Rightarrow> InferenceConfig option \<Rightarrow> go_error + BOMInputs" where
  "disaggregatedSet_Scrape api v t w cfg = (case crObject ''inference.disaggregatedset'' w of
     Inl e \<Rightarrow> Inl e
   | Inr (m, obj) \<Rightarrow>
      if cfg = None then Inl (nilConfigFor ''inference.disaggregatedset'')
      else (let setProps = intProp api obj [''spec'', ''slices''] ''disaggregatedset.slices'';
                start = startCR ''inference.disaggregatedset'' CategoryInference t;
                inputs0 = (case ua_slice api obj [''spec'', ''roles''] of Present _ \<Rightarrow> start
                  | _ \<Rightarrow> if nestedPresent api obj [''spec'', ''roles'']
                         then addError ''spec.roles: not a list; skipped'' start else start);
                (inputs, annotationMaps) = fold (setRoleStep api setProps (w_pods w) cfg)
                    (enumerate 0 (sliceAt api obj [''spec'', ''roles''])) (inputs0, [om_annotations m])
            in Inr (finishCR ''inference.disaggregatedset'' v t annotationMaps
                 (addComponents (workloadAnnotationModels m) inputs))))"

definition setRolePart ::
  "unstructured_api \<Rightarrow> gomap \<Rightarrow> pod list \<Rightarrow> InferenceConfig option \<Rightarrow> nat \<times> json \<Rightarrow> parts" where
  "setRolePart api setProps pods cfg ir = (case ir of (i, raw) \<Rightarrow> (case raw of
     JObject role \<Rightarrow>
       (let declared = stringAt api role [''name'']
        in joinParts
          ([], if declared = '''' then [ErrorString (roleLocator i @ ''.name: missing; role identified by index'')] else [],
           case ua_stringMap api role [''metadata'', ''annotations''] of
             Present ann \<Rightarrow> if length ann > 0 then [ann] else [] | _ \<Rightarrow> [])
          (bothRoles api role (roleLocator i @ ''.spec.leaderWorkerTemplate'')
            [(''disaggregatedset.role'', if declared = '''' then showNat i else declared)]
            (setProps @ lwsGroupProps api role) pods cfg))
   | _ \<Rightarrow> ([], [ErrorString (roleLocator i @ '': not an object; skipped'')], [])))"

lemma setRoleStep_parts: "setRoleStep api setProps pods cfg ir st = extendParts (setRolePart api setProps pods cfg ir) st"
proof -
  obtain i raw where ir: "ir = (i, raw)" by (cases ir)
  obtain b maps where st: "st = (b, maps)" by (cases st)
  show ?thesis
  proof (cases raw)
    case (JObject role)
    let ?e = "if stringAt api role [''name''] = ''''
      then [ErrorString (roleLocator i @ ''.name: missing; role identified by index'')] else []"
    let ?m = "case ua_stringMap api role [''metadata'', ''annotations''] of
             Present ann \<Rightarrow> if length ann > 0 then [ann] else [] | _ \<Rightarrow> []"
    have "setRoleStep api setProps pods cfg ir st =
       fold (lwsRoleStep api role (roleLocator i @ ''.spec.leaderWorkerTemplate'')
          [(''disaggregatedset.role'', if stringAt api role [''name''] = '''' then showNat i else stringAt api role [''name''])]
          (setProps @ lwsGroupProps api role) pods cfg) [''leader'', ''worker''] (extendParts ([], ?e, ?m) st)"
      unfolding setRoleStep_def ir st prod.case JObject json.case Let_def lwsGroupProps_def
      by (rule arg_cong [where f = "fold _ _"]) (simp add: as_extendInputs split: nested.split)
    then show ?thesis
      unfolding fold_lwsRoleStep extendParts_join setRolePart_def ir prod.case JObject json.case Let_def .
  qed (simp_all add: setRoleStep_def setRolePart_def ir st as_extendInputs)
qed

definition setParts :: "unstructured_api \<Rightarrow> Workload \<Rightarrow> InferenceConfig option \<Rightarrow> go_error + parts" where
  "setParts api w cfg = (case crObject ''inference.disaggregatedset'' w of Inl e \<Rightarrow> Inl e
   | Inr (m, obj) \<Rightarrow> if cfg = None then Inl (nilConfigFor ''inference.disaggregatedset'')
     else Inr (withWorkload m (joinParts
       ([], case ua_slice api obj [''spec'', ''roles''] of Present _ \<Rightarrow> []
          | _ \<Rightarrow> if nestedPresent api obj [''spec'', ''roles''] then [ErrorString ''spec.roles: not a list; skipped''] else [], [])
       (concatParts (map (setRolePart api (intProp api obj [''spec'', ''slices''] ''disaggregatedset.slices'') (w_pods w) cfg)
          (enumerate 0 (sliceAt api obj [''spec'', ''roles''])))))))"

interpretation disaggregatedSet:
  cr_scraper "disaggregatedSet_Scrape api" "''inference.disaggregatedset''" CategoryInference "setParts api"
proof unfold_locales
  fix v t w cfg
  show "disaggregatedSet_Scrape api v t w cfg =
    map_sum id (crResult ''inference.disaggregatedset'' CategoryInference v t) (setParts api w cfg)"
  proof (cases "crObject ''inference.disaggregatedset'' w")
    case (Inr mo)
    obtain m obj where mo: "mo = (m, obj)" by (cases mo)
    let ?start = "startCR ''inference.disaggregatedset'' CategoryInference t"
    let ?setProps = "intProp api obj [''spec'', ''slices''] ''disaggregatedset.slices''"
    let ?e = "case ua_slice api obj [''spec'', ''roles''] of Present _ \<Rightarrow> []
        | _ \<Rightarrow> if nestedPresent api obj [''spec'', ''roles''] then [ErrorString ''spec.roles: not a list; skipped''] else []"
    let ?rs = "concatParts (map (setRolePart api ?setProps (w_pods w) cfg) (enumerate 0 (sliceAt api obj [''spec'', ''roles''])))"
    have f: "fold (setRoleStep api ?setProps (w_pods w) cfg) xs st =
        extendParts (concatParts (map (setRolePart api ?setProps (w_pods w) cfg) xs)) st" for xs st
      by (rule fold_extendParts) (rule setRoleStep_parts)
    have start: "(case ua_slice api obj [''spec'', ''roles''] of Present _ \<Rightarrow> ?start
        | _ \<Rightarrow> if nestedPresent api obj [''spec'', ''roles''] then addError ''spec.roles: not a list; skipped'' ?start else ?start) =
        extendInputs [] ?e ?start"
      by (simp add: as_extendInputs split: nested.split)
    obtain cs es ms where rs: "?rs = (cs, es, ms)" by (cases ?rs)
    show ?thesis
      unfolding disaggregatedSet_Scrape_def setParts_def Inr mo sum.case prod.case Let_def f start rs
      by (simp add: crResult_def as_extendInputs)
  qed (simp add: disaggregatedSet_Scrape_def setParts_def)
qed

end
