(* ===== verification/Nvidia_Scrapers.thy ===== *)
theory Nvidia_Scrapers
  imports Cr_Objects
begin

text \<open>
  \<^verbatim>\<open>dynamo.go\<close> and \<^verbatim>\<open>nimservice.go\<close> of \<^verbatim>\<open>internal/scraper\<close>, each with what it extracts as parts and the
  interpretation of \<open>cr_scraper\<close>.
\<close>

subsection \<open>Dynamo\<close>

definition dynamoHandledKinds :: "WorkloadKind list" where
  "dynamoHandledKinds =
     [\<lparr>wk_group = ''nvidia.com'', wk_version = ''v1beta1'', wk_kind = ''DynamoGraphDeployment''\<rparr>,
      \<lparr>wk_group = ''nvidia.com'', wk_version = ''v1beta1'', wk_kind = ''DynamoComponentDeployment''\<rparr>]"

definition dynamo_HandlesKind :: "WorkloadKind \<Rightarrow> bool" where
  "dynamo_HandlesKind k = list_ex (\<lambda>kk. kk = k) dynamoHandledKinds"

record dynamoComponent =
  dc_m :: jobject
  dc_locator :: string

definition dynamoEntry :: "nat \<times> json \<Rightarrow> BOMInputs \<times> dynamoComponent list \<Rightarrow> BOMInputs \<times> dynamoComponent list" where
  "dynamoEntry e st = (case e of (i, item) \<Rightarrow> case st of (inputs, out) \<Rightarrow>
     (case item of
        JObject m \<Rightarrow> (inputs, out @ [\<lparr>dc_m = m, dc_locator = ''spec.components['' @ showNat i @ '']''\<rparr>])
      | _ \<Rightarrow> (addError (''spec.components['' @ showNat i @ '']: not an object ('' @ json_typename item @ ''); skipped'') inputs, out)))"

definition dynamoComponents :: "unstructured_api \<Rightarrow> jobject \<Rightarrow> BOMInputs \<Rightarrow> BOMInputs \<times> dynamoComponent list" where
  "dynamoComponents api obj inputs =
    (if ua_kind api obj = ''DynamoComponentDeployment'' then
       (case ua_map api obj [''spec''] of Present spec \<Rightarrow> (inputs, [\<lparr>dc_m = spec, dc_locator = ''spec''\<rparr>]) | _ \<Rightarrow> (inputs, []))
     else fold dynamoEntry (enumerate 0 (sliceAt api obj [''spec'', ''components''])) (inputs, []))"

definition dynamoBackendRuntimes :: gomap where
  "dynamoBackendRuntimes = [(''vllm'', ''vllm''), (''sglang'', ''sglang''), (''trtllm'', ''tensorrt-llm'')]"

definition addDynamoComponentProps :: "gomap \<Rightarrow> string \<Rightarrow> string \<Rightarrow> gomap" where
  "addDynamoComponentProps props compName compType =
     putIf (compType \<noteq> '''') ''dynamo.component.type'' compType
      (putIf (compName \<noteq> '''') ''dynamo.component.name'' (TruncateString compName MaxComponentNameLength) props)"

definition dynamoTag :: "string \<Rightarrow> string \<Rightarrow> string \<Rightarrow> Component \<Rightarrow> gomap" where
  "dynamoTag compName compType roleName c =
     putIf (roleName \<noteq> '''') ''dynamo.role.name'' (TruncateString roleName MaxComponentNameLength)
       (addDynamoComponentProps (cProperties c) compName compType)"

definition dynamo_scrapeTemplate ::
  "unstructured_api \<Rightarrow> BOMInputs \<Rightarrow> jobject \<Rightarrow> string \<Rightarrow> string \<Rightarrow> string \<Rightarrow> string \<Rightarrow> pod list \<Rightarrow>
   InferenceConfig option \<Rightarrow> BOMInputs" where
  "dynamo_scrapeTemplate api inputs pt locator compName compType roleName pods cfg =
     fst (scrapeTemplateWith api (dynamoTag compName compType roleName) pt locator pods cfg inputs)"

text \<open>The declared runtime, with the topology of the graph as properties.\<close>

definition dynamoRuntime :: "unstructured_api \<Rightarrow> jobject \<Rightarrow> dynamoComponent list \<Rightarrow> Component list" where
  "dynamoRuntime api obj components =
    (let backend = stringAt api obj [''spec'', ''backendFramework'']
     in if backend = '''' then []
        else let runtime = (case map_of dynamoBackendRuntimes backend of Some r \<Rightarrow> r | None \<Rightarrow> backend)
             in [mkComponent ComponentApplication (TruncateString runtime MaxComponentNameLength) '''' ConfidenceDeclared
                  \<lparr>ev_source = SourceCRDField, ev_locator = ''spec.backendFramework''\<rparr>
                  ([(''runtime.name'', runtime), (''runtime.source'', ''dynamo.backendFramework''),
                    (''dynamo.backendFramework'', backend)] @
                   concat (map (\<lambda>cmp. let name = stringAt api (dc_m cmp) [''name'']; ctype = stringAt api (dc_m cmp) [''type'']
                     in if name \<noteq> '''' \<and> ctype \<noteq> ''''
                        then [(''dynamo.component.'' @ TruncateString name MaxComponentNameLength @ ''.type'', ctype)] else [])
                     components))])"

definition dynamoModel :: "unstructured_api \<Rightarrow> dynamoComponent \<Rightarrow> Component list" where
  "dynamoModel api cmp =
    (let m = dc_m cmp; modelName = stringAt api m [''modelRef'', ''name'']; revision = stringAt api m [''modelRef'', ''revision'']
     in if modelName = '''' then []
        else [Component ComponentMLModel (TruncateString modelName MaxComponentNameLength)
               (TruncateString revision MaxComponentNameLength) '''' []
               \<lparr>ev_source = SourceCRDField, ev_locator = dc_locator cmp @ ''.modelRef.name''\<rparr> ConfidenceDeclared
               (putIf (revision \<noteq> '''') ''model.revision'' (TruncateString revision MaxComponentNameLength)
                 (addDynamoComponentProps
                   (gm_from [(''identity.confidence'', ''claimed''), (''identity.source'', ''dynamo.modelRef'')])
                   (stringAt api m [''name'']) (stringAt api m [''type'']))) []])"

text \<open>A \<^verbatim>\<open>podTemplate\<close> of a component or of one of its roles.\<close>

definition dynamoTemplate ::
  "unstructured_api \<Rightarrow> jobject \<Rightarrow> string \<Rightarrow> string \<Rightarrow> string \<Rightarrow> string \<Rightarrow> pod list \<Rightarrow> InferenceConfig option \<Rightarrow> BOMInputs \<Rightarrow> BOMInputs" where
  "dynamoTemplate api holder base compName compType roleName pods cfg inputs = (case ua_map api holder [''podTemplate''] of
     Present pt \<Rightarrow> dynamo_scrapeTemplate api inputs pt (base @ ''.podTemplate'') compName compType roleName pods cfg
   | _ \<Rightarrow> if map_of holder ''podTemplate'' \<noteq> None
          then addError (base @ ''.podTemplate: not an object; skipped'') inputs else inputs)"

definition dynamoRole ::
  "unstructured_api \<Rightarrow> string \<Rightarrow> string \<Rightarrow> string \<Rightarrow> pod list \<Rightarrow> InferenceConfig option \<Rightarrow> nat \<times> json \<Rightarrow> BOMInputs \<Rightarrow> BOMInputs" where
  "dynamoRole api base compName compType pods cfg jr inputs = (case jr of (j, rawRole) \<Rightarrow>
     let roleBase = base @ ''.roles['' @ showNat j @ '']'' in
     (case rawRole of
        JObject roleMap \<Rightarrow> dynamoTemplate api roleMap roleBase compName compType (stringAt api roleMap [''name'']) pods cfg inputs
      | _ \<Rightarrow> addError (roleBase @ '': not an object ('' @ json_typename rawRole @ ''); skipped'') inputs))"

definition dynamoStep ::
  "unstructured_api \<Rightarrow> pod list \<Rightarrow> InferenceConfig option \<Rightarrow> dynamoComponent \<Rightarrow> BOMInputs \<Rightarrow> BOMInputs" where
  "dynamoStep api pods cfg cmp inputs =
    (let m = dc_m cmp; base = dc_locator cmp; compName = stringAt api m [''name'']; compType = stringAt api m [''type''];
         inputs1 = addComponents (dynamoModel api cmp) inputs;
         inputs2 = dynamoTemplate api m base compName compType '''' pods cfg inputs1
     in fold (dynamoRole api base compName compType pods cfg) (enumerate 0 (sliceAt api m [''roles''])) inputs2)"

definition dynamo_Scrape ::
  "unstructured_api \<Rightarrow> SignatureVerifier option \<Rightarrow> time \<Rightarrow> Workload \<Rightarrow> InferenceConfig option \<Rightarrow> go_error + BOMInputs" where
  "dynamo_Scrape api v t w cfg = (case crObject ''inference.dynamo'' w of
     Inl e \<Rightarrow> Inl e
   | Inr (m, obj) \<Rightarrow>
      if cfg = None then Inl (nilConfigFor ''inference.dynamo'')
      else (let (inputs0, components) = dynamoComponents api obj (startCR ''inference.dynamo'' CategoryInference t);
                inputs1 = addComponents (dynamoRuntime api obj components) inputs0;
                inputs2 = fold (dynamoStep api (w_pods w) cfg) components inputs1
            in Inr (finishCR ''inference.dynamo'' v t [om_annotations m] (addComponents (workloadAnnotationModels m) inputs2))))"

text \<open>What it extracts.\<close>

definition templatePart ::
  "unstructured_api \<Rightarrow> jobject \<Rightarrow> string \<Rightarrow> string \<Rightarrow> string \<Rightarrow> string \<Rightarrow> pod list \<Rightarrow> InferenceConfig option \<Rightarrow> parts" where
  "templatePart api holder base compName compType roleName pods cfg = (case ua_map api holder [''podTemplate''] of
     Present pt \<Rightarrow> (case templateParts api (dynamoTag compName compType roleName) pt (base @ ''.podTemplate'') pods cfg of
        (cs, es, ms) \<Rightarrow> (cs, es, []))
   | _ \<Rightarrow> ([], if map_of holder ''podTemplate'' \<noteq> None then [ErrorString (base @ ''.podTemplate: not an object; skipped'')] else [], []))"

definition dynamoRolePart ::
  "unstructured_api \<Rightarrow> string \<Rightarrow> string \<Rightarrow> string \<Rightarrow> pod list \<Rightarrow> InferenceConfig option \<Rightarrow> nat \<times> json \<Rightarrow> parts" where
  "dynamoRolePart api base compName compType pods cfg jr = (case jr of (j, rawRole) \<Rightarrow>
     let roleBase = base @ ''.roles['' @ showNat j @ '']'' in
     (case rawRole of
        JObject roleMap \<Rightarrow> templatePart api roleMap roleBase compName compType (stringAt api roleMap [''name'']) pods cfg
      | _ \<Rightarrow> ([], [ErrorString (roleBase @ '': not an object ('' @ json_typename rawRole @ ''); skipped'')], [])))"

definition dynamoPart :: "unstructured_api \<Rightarrow> pod list \<Rightarrow> InferenceConfig option \<Rightarrow> dynamoComponent \<Rightarrow> parts" where
  "dynamoPart api pods cfg cmp =
    (let m = dc_m cmp; base = dc_locator cmp; compName = stringAt api m [''name'']; compType = stringAt api m [''type'']
     in joinParts (dynamoModel api cmp, [], []) (joinParts (templatePart api m base compName compType '''' pods cfg)
         (concatParts (map (dynamoRolePart api base compName compType pods cfg) (enumerate 0 (sliceAt api m [''roles'']))))))"

lemma dynamoTemplate_part:
  "dynamoTemplate api holder base compName compType roleName pods cfg b =
     fst (extendParts (templatePart api holder base compName compType roleName pods cfg) (b, []))"
proof (cases "ua_map api holder [''podTemplate'']")
  case (Present pt)
  obtain cs es ms where "templateParts api (dynamoTag compName compType roleName) pt (base @ ''.podTemplate'') pods cfg = (cs, es, ms)"
    by (cases "templateParts api (dynamoTag compName compType roleName) pt (base @ ''.podTemplate'') pods cfg")
  then show ?thesis
    by (simp add: Present dynamoTemplate_def templatePart_def dynamo_scrapeTemplate_def scrapeTemplateWith_fst)
qed (simp_all add: dynamoTemplate_def templatePart_def as_extendInputs)

lemma fst_extendParts: "fst (extendParts p (b, ms)) = fst (extendParts p (b, ms'))"
  by (cases p) simp

lemma fold_fst_extendParts:
  assumes "\<And>x b. f x b = fst (extendParts (p x) (b, []))"
  shows "fold f xs b = fst (extendParts (concatParts (map p xs)) (b, []))"
proof (induction xs arbitrary: b)
  case (Cons x xs)
  have "fold f (x # xs) b = fst (extendParts (concatParts (map p xs)) (fst (extendParts (p x) (b, [])), []))"
    by (simp add: assms Cons.IH)
  also have "\<dots> = fst (extendParts (concatParts (map p xs)) (extendParts (p x) (b, [])))"
    by (cases "extendParts (p x) (b, [])") (simp add: fst_extendParts [of _ _ "[]"])
  finally show ?case by (simp add: extendParts_join)
qed simp

lemma dynamoRole_part:
  "dynamoRole api base compName compType pods cfg jr b =
     fst (extendParts (dynamoRolePart api base compName compType pods cfg jr) (b, []))"
proof -
  obtain j raw where "jr = (j, raw)" by (cases jr)
  then show ?thesis
    by (cases raw) (simp_all add: dynamoRole_def dynamoRolePart_def dynamoTemplate_part as_extendInputs)
qed

lemma fst_extendParts_join:
  "fst (extendParts q (fst (extendParts p (b, [])), [])) = fst (extendParts (joinParts p q) (b, []))"
  by (cases p; cases q) simp

lemma dynamoStep_part: "dynamoStep api pods cfg cmp b = fst (extendParts (dynamoPart api pods cfg cmp) (b, []))"
proof -
  have add: "addComponents cs b = fst (extendParts (cs, [], []) (b, []))" for cs b
    by (simp add: as_extendInputs)
  show ?thesis
    unfolding dynamoStep_def dynamoPart_def Let_def fold_fst_extendParts [OF dynamoRole_part] dynamoTemplate_part add
      fst_extendParts_join
    by (cases "dynamoModel api cmp") (auto simp: fst_extendParts_join)
qed

fun withOwnAnnotations :: "object_meta \<Rightarrow> parts \<Rightarrow> parts" where
  "withOwnAnnotations m (cs, es, ms) = (cs @ workloadAnnotationModels m, es, [om_annotations m])"

definition dynamoList :: "unstructured_api \<Rightarrow> jobject \<Rightarrow> go_error list \<times> dynamoComponent list" where
  "dynamoList api obj = (case dynamoComponents api obj emptyInputs of (b, comps) \<Rightarrow> (bi_errors b, comps))"

lemma dynamoEntry_form:
  "dynamoEntry x (extendInputs [] es b, out) = (extendInputs [] (es @ bi_errors (fst (dynamoEntry x (emptyInputs, [])))) b,
     out @ snd (dynamoEntry x (emptyInputs, [])))"
proof -
  obtain i item where x: "x = (i, item)" by (cases x)
  show ?thesis
    by (cases item) (simp_all add: x dynamoEntry_def as_extendInputs)
qed

lemma dynamoComponents_list:
  "dynamoComponents api obj b = (extendInputs [] (fst (dynamoList api obj)) b, snd (dynamoList api obj))"
proof (cases "ua_kind api obj = ''DynamoComponentDeployment''")
  case True
  then show ?thesis by (simp add: dynamoComponents_def dynamoList_def split: nested.split)
next
  case False
  let ?f = "fold dynamoEntry (enumerate 0 (sliceAt api obj [''spec'', ''components'']))"
  have "dynamoList api obj = (bi_errors (fst (?f (emptyInputs, []))), snd (?f (emptyInputs, [])))"
    using False by (simp add: dynamoComponents_def dynamoList_def case_prod_beta)
  then show ?thesis
    using False fold_error_list [where f = dynamoEntry and b = b, OF dynamoEntry_form]
    by (simp add: dynamoComponents_def)
qed

definition dynamoParts :: "unstructured_api \<Rightarrow> Workload \<Rightarrow> InferenceConfig option \<Rightarrow> go_error + parts" where
  "dynamoParts api w cfg = (case crObject ''inference.dynamo'' w of Inl e \<Rightarrow> Inl e
   | Inr (m, obj) \<Rightarrow> if cfg = None then Inl (nilConfigFor ''inference.dynamo'')
     else (case dynamoList api obj of (es, components) \<Rightarrow>
       Inr (withOwnAnnotations m (joinParts (dynamoRuntime api obj components, es, [])
         (concatParts (map (dynamoPart api (w_pods w) cfg) components))))))"

interpretation dynamo: cr_scraper "dynamo_Scrape api" "''inference.dynamo''" CategoryInference "dynamoParts api"
proof unfold_locales
  fix v t w cfg
  show "dynamo_Scrape api v t w cfg = map_sum id (crResult ''inference.dynamo'' CategoryInference v t) (dynamoParts api w cfg)"
  proof (cases "crObject ''inference.dynamo'' w")
    case (Inr mo)
    obtain m obj where mo: "mo = (m, obj)" by (cases mo)
    obtain es components where l: "dynamoList api obj = (es, components)" by (cases "dynamoList api obj")
    obtain cs es' ms where p: "concatParts (map (dynamoPart api (w_pods w) cfg) components) = (cs, es', ms)"
      by (cases "concatParts (map (dynamoPart api (w_pods w) cfg) components)")
    show ?thesis
      unfolding dynamo_Scrape_def dynamoParts_def Inr mo sum.case prod.case Let_def dynamoComponents_list l
        fold_fst_extendParts [OF dynamoStep_part] p
      by (simp add: crResult_def as_extendInputs p)
  qed (simp add: dynamo_Scrape_def dynamoParts_def)
qed

subsection \<open>NIM\<close>

definition nimServiceHandledKinds :: "WorkloadKind list" where
  "nimServiceHandledKinds = [\<lparr>wk_group = ''apps.nvidia.com'', wk_version = ''v1alpha1'', wk_kind = ''NIMService''\<rparr>]"

definition nim_HandlesKind :: "WorkloadKind \<Rightarrow> bool" where
  "nim_HandlesKind k = list_ex (\<lambda>kk. kk = k) nimServiceHandledKinds"

definition nimImagePrefix :: string where "nimImagePrefix = ''nvcr.io/nim/''"

definition nimModelFromImagePath :: "string \<Rightarrow> string" where
  "nimModelFromImagePath repo =
    (if \<not> hasPrefix repo nimImagePrefix then ''''
     else let rest0 = trimPrefix repo nimImagePrefix;
              rest = (case cutFirst CHR ''@'' rest0 of Some (a, _) \<Rightarrow> a | None \<Rightarrow> rest0);
              parts = splitOn CHR ''/'' rest
          in if length parts \<noteq> 2 \<or> parts ! 0 = '''' \<or> parts ! 1 = '''' then '''' else rest)"

definition nimStorageProps :: "unstructured_api \<Rightarrow> jobject \<Rightarrow> gomap" where
  "nimStorageProps api obj =
    (let name = stringAt api obj [''spec'', ''storage'', ''nimCache'', ''name''];
         profile = stringAt api obj [''spec'', ''storage'', ''nimCache'', ''profile''];
         pvc = (case ua_map api obj [''spec'', ''storage'', ''pvc''] of Present m \<Rightarrow> m | _ \<Rightarrow> []);
         pvcName = stringAt api pvc [''name''];
         hp = stringAt api obj [''spec'', ''storage'', ''hostPath''];
         emptyDir = (case ua_map api obj [''spec'', ''storage'', ''emptyDir''] of Present _ \<Rightarrow> True | _ \<Rightarrow> False);
         cut = (\<lambda>s. TruncateString s MaxComponentNameLength);
         kinds = (if name \<noteq> '''' then [''nimCache''] else []) @ (if length pvc > 0 then [''pvc''] else []) @
           (if hp \<noteq> '''' then [''hostPath''] else []) @ (if emptyDir then [''emptyDir''] else [])
     in (if name \<noteq> '''' then (''nim.storage.nimCache.name'', cut name) #
            (if profile \<noteq> '''' then [(''nim.storage.nimCache.profile'', cut profile)] else []) else []) @
        (if length pvc > 0 \<and> pvcName \<noteq> '''' then [(''nim.storage.pvc.name'', cut pvcName)] else []) @
        (if hp \<noteq> '''' then [(''nim.storage.hostPath'', cut hp)] else []) @
        (if length kinds > 0 then [(''nim.storage.kind'', joinWith '','' (sort kinds))] else []))"

definition nimRuntime :: "unstructured_api \<Rightarrow> jobject \<Rightarrow> Component" where
  "nimRuntime api obj =
    (let platform = stringAt api obj [''spec'', ''inferencePlatform'']
     in mkComponent ComponentApplication ''nim'' '''' ConfidenceDeclared \<lparr>ev_source = SourceCRDField, ev_locator = ''kind''\<rparr>
       ([(''runtime.name'', ''nim''), (''runtime.source'', ''nimservice.kind'')] @ nimStorageProps api obj @
        strProp ''nim.inferencePlatform'' platform @
        (case ua_map api obj [''spec'', ''multiNode''] of
           Present mn \<Rightarrow> (''nim.multiNode'', ''true'') # strProp ''nim.multiNode.backendType'' (stringAt api mn [''backendType'']) @
             intProp api mn [''parallelism'', ''tensor''] ''nim.multiNode.parallelism.tensor'' @
             intProp api mn [''parallelism'', ''pipeline''] ''nim.multiNode.parallelism.pipeline''
         | _ \<Rightarrow> [])))"

definition nimImage :: "unstructured_api \<Rightarrow> jobject \<Rightarrow> Component list" where
  "nimImage api obj =
    (let repo = stringAt api obj [''spec'', ''image'', ''repository'']; tag = stringAt api obj [''spec'', ''image'', ''tag'']
     in if repo = '''' then []
        else let ref = (if tag \<noteq> '''' \<and> CHR ''@'' \<notin> set repo then repo @ '':'' @ tag else repo)
             in case parseImageRef ref of (name, parsedTag, digest) \<Rightarrow>
               [Component ComponentContainer (TruncateString name MaxComponentNameLength)
                 (TruncateString parsedTag MaxComponentNameLength) ''''
                 (if digest \<noteq> '''' then [(''sha256'', trimPrefix digest ''sha256:'')] else [])
                 \<lparr>ev_source = SourceImageReference, ev_locator = ''spec.image.repository''\<rparr>
                 (if digest \<noteq> '''' then ConfidenceDeclared else ConfidenceUnresolved)
                 (gm_from [(''image.reference'', ref), (''image.repository'', repo), (''image.tag'', tag)]) []])"

text \<open>\<^verbatim>\<open>spec.env\<close>: an entry that is no object or does not convert is recorded and left out of the list.\<close>

definition nimEnvStep ::
  "unstructured_api \<Rightarrow> nat \<times> json \<Rightarrow> BOMInputs \<times> env_var list \<Rightarrow> BOMInputs \<times> env_var list" where
  "nimEnvStep api e st = (case e of (i, item) \<Rightarrow> case st of (inputs, env) \<Rightarrow>
     let at = ''spec.env['' @ showNat i @ '']'' in
     (case item of
        JObject m \<Rightarrow> (case ua_envVar api m of
            Inl err \<Rightarrow> (addError (at @ '': '' @ err @ ''; skipped'') inputs, env)
          | Inr ev \<Rightarrow> (inputs, env @ [ev]))
      | _ \<Rightarrow> (addError (at @ '': not an object ('' @ json_typename item @ ''); skipped'') inputs, env)))"

text \<open>\<^verbatim>\<open>spec.args\<close>: an element that is no string is recorded and left empty in its place.\<close>

definition nimArgStep :: "nat \<times> json \<Rightarrow> BOMInputs \<times> string list \<Rightarrow> BOMInputs \<times> string list" where
  "nimArgStep e st = (case e of (i, item) \<Rightarrow> case st of (inputs, args) \<Rightarrow>
     (case item of
        JString s \<Rightarrow> (inputs, args @ [s])
      | _ \<Rightarrow> (addError (''spec.args['' @ showNat i @ '']: not a string ('' @ json_typename item @ ''); skipped'') inputs,
              args @ [''''])))"

definition nimEnvModels ::
  "unstructured_api \<Rightarrow> jobject \<Rightarrow> InferenceConfig option \<Rightarrow> BOMInputs \<Rightarrow> BOMInputs \<times> Component list" where
  "nimEnvModels api obj cfg inputs = (case ua_slice api obj [''spec'', ''env''] of
     WrongType err \<Rightarrow> (addError (''spec.env: '' @ err @ ''; skipped'') inputs, [])
   | Absent \<Rightarrow> (inputs, [])
   | Present rawEnv \<Rightarrow> (case fold (nimEnvStep api) (enumerate 0 rawEnv) (inputs, []) of
       (inputs', env) \<Rightarrow> (inputs', envVarModels env '''' ''spec'' cfg)))"

definition nimArgModels ::
  "unstructured_api \<Rightarrow> jobject \<Rightarrow> InferenceConfig option \<Rightarrow> BOMInputs \<Rightarrow> BOMInputs \<times> Component list" where
  "nimArgModels api obj cfg inputs = (case ua_slice api obj [''spec'', ''args''] of
     WrongType err \<Rightarrow> (addError (''spec.args: '' @ err @ ''; skipped'') inputs, [])
   | Absent \<Rightarrow> (inputs, [])
   | Present rawArgs \<Rightarrow> (case fold nimArgStep (enumerate 0 rawArgs) (inputs, []) of
       (inputs', args) \<Rightarrow> (inputs', argModels args '''' ''spec'' cfg)))"

definition nimImageModel :: "string \<Rightarrow> Component list" where
  "nimImageModel repo = (let model = nimModelFromImagePath repo in
     if model = '''' then []
     else [mkComponent ComponentMLModel (TruncateString model MaxComponentNameLength) '''' ConfidenceInferred
            \<lparr>ev_source = SourceImageReference, ev_locator = ''spec.image.repository''\<rparr>
            [(''identity.confidence'', ''claimed''), (''identity.source'', ''nim.imagePath'')]])"

definition putMissing :: "gomap \<Rightarrow> gomap \<Rightarrow> gomap" where
  "putMissing es props = fold (\<lambda>(k, v) m. if map_of m k = None then gm_put k v m else m) es props"

definition withStorage :: "gomap \<Rightarrow> Component \<Rightarrow> Component" where
  "withStorage storageProps c = (if cType c \<noteq> ComponentMLModel then c
     else withProperties (putMissing storageProps (cProperties c)) c)"

definition nim_Scrape ::
  "unstructured_api \<Rightarrow> SignatureVerifier option \<Rightarrow> time \<Rightarrow> Workload \<Rightarrow> InferenceConfig option \<Rightarrow> go_error + BOMInputs" where
  "nim_Scrape api v t w cfg = (case crObject ''inference.nimservice'' w of
     Inl e \<Rightarrow> Inl e
   | Inr (m, obj) \<Rightarrow>
      if cfg = None then Inl (nilConfigFor ''inference.nimservice'')
      else (let start = startCR ''inference.nimservice'' CategoryInference t;
                inputs1 = addComponents (nimRuntime api obj # nimImage api obj) start;
                (inputs2, envs) = nimEnvModels api obj cfg inputs1;
                (inputs3, args) = nimArgModels api obj cfg inputs2;
                declared = envs @ args @ workloadAnnotationModels m;
                inputs4 = addComponents declared inputs3;
                inputs5 = (if length declared = 0
                  then addComponents (nimImageModel (stringAt api obj [''spec'', ''image'', ''repository''])) inputs4
                  else inputs4);
                inputs6 = inputs5\<lparr>bi_components := map (withStorage (nimStorageProps api obj)) (bi_components inputs5)\<rparr>
            in Inr (finishCR ''inference.nimservice'' v t [om_annotations m] inputs6)))"

text \<open>What it extracts.\<close>

definition nimEnvErrors :: "unstructured_api \<Rightarrow> jobject \<Rightarrow> InferenceConfig option \<Rightarrow> go_error list" where
  "nimEnvErrors api obj cfg = bi_errors (fst (nimEnvModels api obj cfg emptyInputs))"

definition nimArgErrors :: "unstructured_api \<Rightarrow> jobject \<Rightarrow> InferenceConfig option \<Rightarrow> go_error list" where
  "nimArgErrors api obj cfg = bi_errors (fst (nimArgModels api obj cfg emptyInputs))"

lemma nimEnvStep_form:
  "nimEnvStep api x (extendInputs [] es b, out) = (extendInputs [] (es @ bi_errors (fst (nimEnvStep api x (emptyInputs, [])))) b,
     out @ snd (nimEnvStep api x (emptyInputs, [])))"
proof -
  obtain i item where x: "x = (i, item)" by (cases x)
  show ?thesis
    by (cases item) (simp_all add: x nimEnvStep_def as_extendInputs Let_def split: sum.split)
qed

lemma nimArgStep_form:
  "nimArgStep x (extendInputs [] es b, out) = (extendInputs [] (es @ bi_errors (fst (nimArgStep x (emptyInputs, [])))) b,
     out @ snd (nimArgStep x (emptyInputs, [])))"
proof -
  obtain i item where x: "x = (i, item)" by (cases x)
  show ?thesis
    by (cases item) (simp_all add: x nimArgStep_def as_extendInputs)
qed

lemma nimEnvModels_form:
  "nimEnvModels api obj cfg b = (extendInputs [] (nimEnvErrors api obj cfg) b, snd (nimEnvModels api obj cfg emptyInputs))"
proof -
  have f: "fold (nimEnvStep api) xs (b, []) = (extendInputs [] (bi_errors (fst (fold (nimEnvStep api) xs (emptyInputs, [])))) b,
      snd (fold (nimEnvStep api) xs (emptyInputs, [])))" for xs b
    by (rule fold_error_list) (rule nimEnvStep_form)
  show ?thesis
    by (cases "ua_slice api obj [''spec'', ''env'']")
      (simp_all add: nimEnvModels_def nimEnvErrors_def as_extendInputs case_prod_beta f [of _ b])
qed

lemma nimArgModels_form:
  "nimArgModels api obj cfg b = (extendInputs [] (nimArgErrors api obj cfg) b, snd (nimArgModels api obj cfg emptyInputs))"
proof -
  have f: "fold (nimArgStep) xs (b, []) = (extendInputs [] (bi_errors (fst (fold (nimArgStep) xs (emptyInputs, [])))) b,
      snd (fold (nimArgStep) xs (emptyInputs, [])))" for xs b
    by (rule fold_error_list) (rule nimArgStep_form)
  show ?thesis
    by (cases "ua_slice api obj [''spec'', ''args'']")
      (simp_all add: nimArgModels_def nimArgErrors_def as_extendInputs case_prod_beta f [of _ b])
qed

definition nimDeclared :: "unstructured_api \<Rightarrow> object_meta \<Rightarrow> jobject \<Rightarrow> InferenceConfig option \<Rightarrow> Component list" where
  "nimDeclared api m obj cfg = snd (nimEnvModels api obj cfg emptyInputs) @ snd (nimArgModels api obj cfg emptyInputs) @
     workloadAnnotationModels m"

definition nimRepo :: "unstructured_api \<Rightarrow> jobject \<Rightarrow> string" where
  "nimRepo api obj = stringAt api obj [''spec'', ''image'', ''repository'']"

definition nimModels :: "unstructured_api \<Rightarrow> object_meta \<Rightarrow> jobject \<Rightarrow> InferenceConfig option \<Rightarrow> Component list" where
  "nimModels api m obj cfg = (if nimDeclared api m obj cfg = [] then nimImageModel (nimRepo api obj) else nimDeclared api m obj cfg)"

definition nimParts :: "unstructured_api \<Rightarrow> Workload \<Rightarrow> InferenceConfig option \<Rightarrow> go_error + parts" where
  "nimParts api w cfg = (case crObject ''inference.nimservice'' w of Inl e \<Rightarrow> Inl e
   | Inr (m, obj) \<Rightarrow> if cfg = None then Inl (nilConfigFor ''inference.nimservice'')
     else Inr (map (withStorage (nimStorageProps api obj)) (nimRuntime api obj # nimImage api obj @ nimModels api m obj cfg),
            nimEnvErrors api obj cfg @ nimArgErrors api obj cfg, [om_annotations m]))"

interpretation nim: cr_scraper "nim_Scrape api" "''inference.nimservice''" CategoryInference "nimParts api"
proof unfold_locales
  fix v t w cfg
  show "nim_Scrape api v t w cfg = map_sum id (crResult ''inference.nimservice'' CategoryInference v t) (nimParts api w cfg)"
  proof (cases "crObject ''inference.nimservice'' w")
    case (Inr mo)
    obtain m obj where mo: "mo = (m, obj)" by (cases mo)
    let ?es = "nimEnvErrors api obj cfg @ nimArgErrors api obj cfg"
    have ext: "(extendInputs cs es (startCR n c t))\<lparr>bi_components := map f (bi_components (extendInputs cs es (startCR n c t)))\<rparr> =
        extendInputs (map f cs) es (startCR n c t)" for cs es f n c t
      by (simp add: extendInputs_def startCR_def emptyInputs_def)
    show ?thesis
      unfolding nim_Scrape_def nimParts_def Inr mo sum.case prod.case Let_def as_extendInputs extendInputs_simps
        nimEnvModels_form [of _ _ _ "extendInputs _ _ _"] nimArgModels_form [of _ _ _ "extendInputs _ _ _"]
        nimDeclared_def [symmetric] nimRepo_def [symmetric] if_distrib [of "\<lambda>b. b\<lparr>bi_components := _ b\<rparr>"]
      by (cases "nimDeclared api m obj cfg = []")
        (simp_all add: ext crResult_def nimModels_def del: extendInputs_simps(1) list.map map_append)
  qed (simp add: nim_Scrape_def nimParts_def)
qed

end
