(* ===== verification/Cr_Contracts.thy ===== *)
theory Cr_Contracts
  imports Serving_Scrapers Nvidia_Scrapers
begin

text \<open>
  What the documents of custom resources can be relied on for: where a model in them comes from, that a malformed
  part of a resource does not hide the others, and that a later scrape of the same resource is no change.
\<close>

subsection \<open>Models are declared\<close>

text \<open>A model that somebody wrote down: in the resource, an argument, a variable or an annotation.\<close>

definition declaredSources :: "EvidenceSource set" where
  "declaredSources = {SourceCRDField, SourceEnvVar, SourceContainerArg, SourcePodTemplateAnnotation, SourceWorkloadAnnotation}"

definition declaredModel :: "Component \<Rightarrow> bool" where
  "declaredModel c \<longleftrightarrow> cType c = ComponentMLModel \<longrightarrow> ev_source (cEvidence c) \<in> declaredSources \<and>
     cConfidence c = (if ev_source (cEvidence c) = SourceEnvVar then ConfidenceInferred else ConfidenceDeclared)"

lemma mkComponent_sel [simp]:
  "cType (mkComponent t n v cf ev p) = t" "cName (mkComponent t n v cf ev p) = n"
  "cConfidence (mkComponent t n v cf ev p) = cf" "cEvidence (mkComponent t n v cf ev p) = ev"
  "cProperties (mkComponent t n v cf ev p) = gm_from p"
  by (simp_all add: mkComponent_def)

lemma declaredModel_withProperties [simp]: "declaredModel (withProperties p c) = declaredModel c"
  by (simp add: declaredModel_def)

lemma declaredModel_recorded: "recordedAs c0 c \<Longrightarrow> declaredModel c = declaredModel c0"
  by (simp add: recordedAs_def declaredModel_def)

lemma container_shape:
  obtains n t d s l where "extractContainerComponentAt loc ct init i pods cfg = [containerComponent ct init n t d s l]"
  | n t d s l b r m where "extractContainerComponentAt loc ct init i pods cfg =
      [containerComponent ct init n t d s l, runtimeComponent ct t b r m]"
proof -
  have "\<exists>n t d s l b r m. extractContainerComponentAt loc ct init i pods cfg = [containerComponent ct init n t d s l]
     \<or> extractContainerComponentAt loc ct init i pods cfg = [containerComponent ct init n t d s l, runtimeComponent ct t b r m]"
    by (simp add: extractContainerComponentAt_def Let_def case_prod_beta) blast
  then show ?thesis using that by blast
qed

lemma declared_container:
  assumes "c \<in> set (extractContainerComponentAt loc ct init i pods cfg)"
  shows "cType c \<noteq> ComponentMLModel"
proof -
  have "cType (containerComponent ct init n t d s l) = ComponentContainer" for n t d s l
    by (simp add: containerComponent_def)
  moreover have "cType (runtimeComponent ct t b r m) = ComponentApplication" for t b r m
    by (simp add: runtimeComponent_def Let_def)
  ultimately show ?thesis using assms by (cases rule: container_shape [of loc ct init i pods cfg]) auto
qed

lemma env_models:
  "c \<in> set (envVarModels env n b cfg) \<Longrightarrow>
   cType c = ComponentMLModel \<and> ev_source (cEvidence c) = SourceEnvVar \<and> cConfidence c = ConfidenceInferred"
  by (auto simp: envVarModels_def envVarModel_def split: prod.splits if_splits)

lemma arg_models:
  "c \<in> set (argModels args n b cfg) \<Longrightarrow>
   cType c = ComponentMLModel \<and> ev_source (cEvidence c) = SourceContainerArg \<and> cConfidence c = ConfidenceDeclared"
proof -
  have "c \<in> set (argModelsFrom j args n b cfg) \<Longrightarrow> cType c = ComponentMLModel \<and>
      ev_source (cEvidence c) = SourceContainerArg \<and> cConfidence c = ConfidenceDeclared" for j
  proof (induction j args n b cfg rule: argModelsFrom.induct)
    case (2 i arg rest n b cfg)
    then show ?case
      by (cases "cutFirst CHR ''='' arg") (auto simp: argComponent_def Let_def split: if_splits)
  qed simp
  then show "c \<in> set (argModels args n b cfg) \<Longrightarrow> cType c = ComponentMLModel \<and>
      ev_source (cEvidence c) = SourceContainerArg \<and> cConfidence c = ConfidenceDeclared"
    by (simp add: argModels_def)
qed

lemma annotation_models:
  "c \<in> set (extractAnnotationModels as src b) \<Longrightarrow>
   cType c = ComponentMLModel \<and> ev_source (cEvidence c) = src \<and> cConfidence c = ConfidenceDeclared"
  by (auto simp: extractAnnotationModels_def annotationModel_def split: prod.splits if_splits)

lemma volume_models: "c \<in> set (extractVolumeMountModelsAt loc ct vs init i cfg) \<Longrightarrow> cType c = ComponentData"
proof -
  have "c \<in> set (volumeMountModel b vs n cfg im) \<Longrightarrow> cType c = ComponentData" for b n im
    by (cases im; cases "lookupVolumeSource (vm_name (snd im)) vs")
      (auto simp: volumeMountModel_def split: if_splits)
  then show "c \<in> set (extractVolumeMountModelsAt loc ct vs init i cfg) \<Longrightarrow> cType c = ComponentData"
    by (auto simp: extractVolumeMountModelsAt_def)
qed

lemma declared_extractors:
  "c \<in> set (extractContainerComponentAt loc ct init i pods cfg) \<Longrightarrow> declaredModel c"
  "c \<in> set (extractEnvVarModelsAt loc ct init i cfg) \<Longrightarrow> declaredModel c"
  "c \<in> set (extractArgModelsAt loc ct init i cfg) \<Longrightarrow> declaredModel c"
  "c \<in> set (extractVolumeMountModelsAt loc ct vs init i cfg) \<Longrightarrow> declaredModel c"
  "c \<in> set (extractAnnotationModels as src b) \<Longrightarrow> src \<in> declaredSources - {SourceEnvVar} \<Longrightarrow> declaredModel c"
  using declared_container volume_models env_models arg_models annotation_models
  by (auto simp: declaredModel_def declaredSources_def extractEnvVarModelsAt_def extractArgModelsAt_def)

lemma declared_template: "c \<in> set (templateComponents tmpl locator pods cfg) \<Longrightarrow> declaredModel c"
  by (auto simp: templateComponents_def scrapePodSpecAt_def intro: declared_extractors)
    (rule declared_extractors(5), assumption, simp add: declaredSources_def)

lemma declared_templateParts: "c \<in> set (fst (templateParts api tag pt locator pods cfg)) \<Longrightarrow> declaredModel c"
  by (auto simp: templateParts_def intro: declared_template split: sum.splits)

lemma declared_workload: "c \<in> set (workloadAnnotationModels m) \<Longrightarrow> declaredModel c"
  unfolding workloadAnnotationModels_def by (rule declared_extractors(5)) (auto simp: declaredSources_def)

lemma fst_joinParts [simp]: "fst (joinParts p q) = fst p @ fst q"
  by (cases p; cases q) simp

lemma fst_concatParts: "fst (concatParts ps) = concat (map fst ps)"
  by (simp add: concatParts_def)

lemma declared_rolePart: "c \<in> set (fst (rolePart api root prefix rp gp pods cfg role)) \<Longrightarrow> declaredModel c"
  by (auto simp: rolePart_def Let_def intro: declared_templateParts split: nested.splits)

lemma declared_bothRoles: "c \<in> set (fst (bothRoles api root prefix rp gp pods cfg)) \<Longrightarrow> declaredModel c"
  by (auto simp: bothRoles_def intro: declared_rolePart)

lemma declared_setRolePart: "c \<in> set (fst (setRolePart api sp pods cfg ir)) \<Longrightarrow> declaredModel c"
  by (cases ir; cases "snd ir") (auto simp: setRolePart_def Let_def intro: declared_bothRoles)

lemma declared_templatePart: "c \<in> set (fst (templatePart api h base n ty r pods cfg)) \<Longrightarrow> declaredModel c"
  by (auto simp: templatePart_def split: nested.splits prod.splits intro: declared_templateParts [of _ api _ _ _ pods cfg])
    (metis declared_templateParts fst_conv)

lemma declared_dynamoRolePart: "c \<in> set (fst (dynamoRolePart api base n ty pods cfg jr)) \<Longrightarrow> declaredModel c"
  by (cases jr; cases "snd jr") (auto simp: dynamoRolePart_def Let_def intro: declared_templatePart)

lemma declared_dynamoPart: "c \<in> set (fst (dynamoPart api pods cfg x)) \<Longrightarrow> declaredModel c"
  by (auto simp: dynamoPart_def Let_def fst_concatParts intro: declared_templatePart declared_dynamoRolePart)
    (auto simp: dynamoModel_def Let_def declaredModel_def declaredSources_def split: if_splits)

lemma fst_withWorkload [simp]:
  "fst (withWorkload m p) = fst p @ workloadAnnotationModels m"
  "fst (withOwnAnnotations m p) = fst p @ workloadAnnotationModels m"
  by (cases p; simp)+

lemma declared_extracted:
  "kserveParts api w cfg = Inr p \<Longrightarrow> c \<in> set (fst p) \<Longrightarrow> declaredModel c"
  "lwsParts api w cfg = Inr p \<Longrightarrow> c \<in> set (fst p) \<Longrightarrow> declaredModel c"
  "setParts api w cfg = Inr p \<Longrightarrow> c \<in> set (fst p) \<Longrightarrow> declaredModel c"
  "dynamoParts api w cfg = Inr p \<Longrightarrow> c \<in> set (fst p) \<Longrightarrow> declaredModel c"
proof -
  have predictor: "c \<in> set (extractPredictor api obj) \<Longrightarrow> declaredModel c" for obj
    by (auto simp: extractPredictor_def Let_def declaredModel_def declaredSources_def split: if_splits)
  have runtime: "c \<in> set (dynamoRuntime api obj cs) \<Longrightarrow> declaredModel c" for obj cs
    by (auto simp: dynamoRuntime_def Let_def declaredModel_def split: if_splits)
  show "kserveParts api w cfg = Inr p \<Longrightarrow> c \<in> set (fst p) \<Longrightarrow> declaredModel c"
    by (auto simp: kserveParts_def intro: predictor declared_workload split: sum.splits prod.splits)
  show "lwsParts api w cfg = Inr p \<Longrightarrow> c \<in> set (fst p) \<Longrightarrow> declaredModel c"
    by (auto simp: lwsParts_def intro: declared_bothRoles declared_workload split: sum.splits prod.splits if_splits)
  show "setParts api w cfg = Inr p \<Longrightarrow> c \<in> set (fst p) \<Longrightarrow> declaredModel c"
    by (auto simp: setParts_def fst_concatParts intro: declared_setRolePart declared_workload
        split: sum.splits prod.splits if_splits)
  show "dynamoParts api w cfg = Inr p \<Longrightarrow> c \<in> set (fst p) \<Longrightarrow> declaredModel c"
    by (auto simp: dynamoParts_def fst_concatParts intro: declared_dynamoPart declared_workload runtime
        split: sum.splits prod.splits if_splits)
qed




subsection \<open>The model of a NIM image\<close>

lemma splitOn_two:
  assumes "length (splitOn c s) = 2"
  shows "s = splitOn c s ! 0 @ c # splitOn c s ! 1 \<and> c \<notin> set (splitOn c s ! 0) \<and> c \<notin> set (splitOn c s ! 1)"
proof -
  obtain a b where ab: "splitOn c s = [a, b]"
    using assms by (auto simp: numeral_2_eq_2 length_Suc_conv)
  moreover have "joinWith [c] (splitOn c s) = s" by (rule joinWith_splitOn)
  ultimately show ?thesis using splitOn_no_sep [of _ c s] by auto
qed

text \<open>The repositories that name a NIM: the prefix, \<^verbatim>\<open><org>/<name>\<close>, and possibly a digest.\<close>

definition nimRepository :: "string \<Rightarrow> string \<Rightarrow> bool" where
  "nimRepository repo model \<longleftrightarrow> (\<exists>org name sfx. repo = nimImagePrefix @ model @ sfx \<and> model = org @ ''/'' @ name \<and>
     org \<noteq> '''' \<and> name \<noteq> '''' \<and> CHR ''/'' \<notin> set org \<union> set name \<and> CHR ''@'' \<notin> set model \<and>
     (sfx = '''' \<or> hd sfx = CHR ''@''))"

lemma nimModelFromImagePath_sound:
  assumes "nimModelFromImagePath repo = model" "model \<noteq> ''''"
  shows "nimRepository repo model"
proof -
  have "hasPrefix repo nimImagePrefix" using assms by (auto simp: nimModelFromImagePath_def split: if_splits)
  then obtain rest0 where repo: "repo = nimImagePrefix @ rest0" by (rule hasPrefixE)
  define rest where "rest = (case cutFirst CHR ''@'' rest0 of Some (a, _) \<Rightarrow> a | None \<Rightarrow> rest0)"
  have m: "model = rest" "length (splitOn CHR ''/'' rest) = 2" "splitOn CHR ''/'' rest ! 0 \<noteq> ''''" "splitOn CHR ''/'' rest ! 1 \<noteq> ''''"
    using assms by (auto simp: nimModelFromImagePath_def repo rest_def [symmetric] Let_def split: if_splits)
  have sfx: "CHR ''@'' \<notin> set rest \<and> (\<exists>sfx. rest0 = rest @ sfx \<and> (sfx = '''' \<or> hd sfx = CHR ''@''))"
  proof (cases "cutFirst CHR ''@'' rest0")
    case None
    then have "rest = rest0" "CHR ''@'' \<notin> set rest0" by (simp_all add: rest_def cutFirst_None [symmetric])
    then show ?thesis by simp
  next
    case (Some ab)
    then obtain a b where "cutFirst CHR ''@'' rest0 = Some (a, b)" by (cases ab) auto
    then have "rest = a" by (simp add: rest_def)
    moreover have "rest0 = a @ CHR ''@'' # b \<and> CHR ''@'' \<notin> set a"
      using \<open>cutFirst CHR ''@'' rest0 = Some (a, b)\<close> by (simp add: cutFirst_Some)
    ultimately show ?thesis by simp
  qed
  show ?thesis
    using sfx m splitOn_two [OF m(2)] unfolding nimRepository_def repo by auto
qed

lemma nimModelFromImagePath_complete:
  assumes "nimRepository repo model"
  shows "nimModelFromImagePath repo = model"
proof -
  obtain org name sfx where r: "repo = nimImagePrefix @ model @ sfx" "model = org @ ''/'' @ name" "org \<noteq> ''''" "name \<noteq> ''''"
      "CHR ''/'' \<notin> set org" "CHR ''/'' \<notin> set name" "CHR ''@'' \<notin> set model" "sfx = '''' \<or> hd sfx = CHR ''@''"
    using assms by (auto simp: nimRepository_def)
  have "(case cutFirst CHR ''@'' (model @ sfx) of Some (a, _) \<Rightarrow> a | None \<Rightarrow> model @ sfx) = model"
  proof (cases sfx)
    case Nil
    then have "cutFirst CHR ''@'' (model @ sfx) = None" using r(7) by (simp add: cutFirst_None)
    then show ?thesis using Nil by simp
  next
    case (Cons x xs)
    then have "cutFirst CHR ''@'' (model @ sfx) = Some (model, xs)" using r(7,8) by (simp add: cutFirst_Some)
    then show ?thesis by simp
  qed
  moreover have "splitOn CHR ''/'' model = [org, name]"
    using r(5,6) by (simp add: r(2) splitOn_append splitOn_notin)
  ultimately show ?thesis
    unfolding nimModelFromImagePath_def r(1) by (simp add: r(3,4) Let_def)
qed

lemma declared_nim:
  assumes "c \<in> set (nimDeclared api m obj cfg)"
  shows "cType c = ComponentMLModel \<and> ev_source (cEvidence c) \<noteq> SourceImageReference"
  using assms env_models arg_models annotation_models
  by (auto simp: nimDeclared_def nimEnvModels_def nimArgModels_def workloadAnnotationModels_def
      split: nested.splits prod.splits)

text \<open>Sorting and signing keep how many components of each type there are.\<close>

lemma types_kept: "mset (map cType (sortComponents (applySignatures v cs ms))) = mset (map cType cs)"
proof -
  have "map cType (sortComponents xs) = map cType (sort_key componentOrder xs)" for xs
    by (subst sortComponents.simps) simp
  moreover have "map cType (applySignatures v cs ms) = map cType cs"
    by (simp add: applySignatures_map)
  ultimately show ?thesis by (metis mset_map mset_sort)
qed

lemma length_filter_types: "length (filter (\<lambda>c. P (cType c)) xs) = size (filter_mset P (mset (map cType xs)))"
  by (induction xs) simp_all

lemma count_kept:
  "length (filter (\<lambda>c. P (cType c)) (sortComponents (applySignatures v cs ms))) = length (filter (\<lambda>c. P (cType c)) cs)"
  by (simp only: length_filter_types types_kept)

lemma nim_shape:
  fixes api m obj cfg
  defines "cs \<equiv> map (withStorage (nimStorageProps api obj)) (nimRuntime api obj # nimImage api obj @ nimModels api m obj cfg)"
  shows "filter (\<lambda>c. cType c = ComponentMLModel) cs = map (withStorage (nimStorageProps api obj)) (nimModels api m obj cfg)"
    and "length (filter (\<lambda>c. cType c \<noteq> ComponentMLModel) cs) \<le> 2"
proof -
  let ?f = "withStorage (nimStorageProps api obj)"
  have ty: "cType (?f c) = cType c" for c by (simp add: withStorage_def)
  have rt: "cType (nimRuntime api obj) = ComponentApplication" by (simp add: nimRuntime_def Let_def)
  have im: "\<forall>c \<in> set (nimImage api obj). cType c = ComponentContainer" "length (nimImage api obj) \<le> 1"
    by (auto simp: nimImage_def Let_def split: prod.splits)
  have mo: "\<forall>c \<in> set (nimModels api m obj cfg). cType c = ComponentMLModel"
    using declared_nim by (auto simp: nimModels_def nimImageModel_def Let_def split: if_splits)
  have "filter (\<lambda>c. cType c = ComponentMLModel) (map ?f xs) = map ?f (filter (\<lambda>c. cType c = ComponentMLModel) xs)" for xs
    by (simp add: filter_map comp_def ty)
  moreover have "filter (\<lambda>c. cType c = ComponentMLModel) (nimImage api obj) = []" using im(1) by (auto simp: filter_empty_conv)
  moreover have "filter (\<lambda>c. cType c = ComponentMLModel) (nimModels api m obj cfg) = nimModels api m obj cfg" using mo by simp
  ultimately show "filter (\<lambda>c. cType c = ComponentMLModel) cs = map ?f (nimModels api m obj cfg)"
    by (simp add: cs_def rt ty)
  have "filter (\<lambda>c. cType c \<noteq> ComponentMLModel) (nimModels api m obj cfg) = []" using mo by (auto simp: filter_empty_conv)
  moreover have "length (filter (\<lambda>c. cType c \<noteq> ComponentMLModel) (nimImage api obj)) \<le> 1"
    using im(2) length_filter_le order_trans by blast
  ultimately show "length (filter (\<lambda>c. cType c \<noteq> ComponentMLModel) cs) \<le> 2"
    by (simp add: cs_def filter_map comp_def ty rt)
qed

lemma nim_models_kept:
  assumes "nim_Scrape api v t w (Some cfg) = Inr b" "w_object w = Some (Unstructured m obj)"
  defines "kept \<equiv> filter (\<lambda>c. cType c = ComponentMLModel) (bi_components b)"
  shows "length kept \<le> length (nimModels api m obj (Some cfg))"
    and "kept = [] \<longleftrightarrow> nimModels api m obj (Some cfg) = []"
    and "c \<in> set kept \<Longrightarrow> \<exists>c0 \<in> set (nimModels api m obj (Some cfg)). cName c = cName c0 \<and> cEvidence c = cEvidence c0 \<and>
      cConfidence c = cConfidence c0"
proof -
  let ?f = "withStorage (nimStorageProps api obj)" and ?ms = "nimModels api m obj (Some cfg)"
  let ?cs = "map ?f (nimRuntime api obj # nimImage api obj @ ?ms)"
  let ?S = "sortComponents (applySignatures v ?cs [om_annotations m])"
  have "nimParts api w (Some cfg) = Inr (?cs, nimEnvErrors api obj (Some cfg) @ nimArgErrors api obj (Some cfg), [om_annotations m])"
    using assms(2) by (simp add: nimParts_def crObject_def)
  then have b: "b = crResult ''inference.nimservice'' CategoryInference v t
      (?cs, nimEnvErrors api obj (Some cfg) @ nimArgErrors api obj (Some cfg), [om_annotations m])"
    using assms(1) by (simp add: nim.scrape_extracted)
  have comps: "bi_components b = take 256 ?S" unfolding b by (rule crResult_fields(1)) (rule refl)
  note shape = nim_shape [of api obj m "Some cfg"]
  have total: "length (filter (\<lambda>c. cType c = ComponentMLModel) ?S) = length ?ms"
    unfolding count_kept [of "\<lambda>y. y = ComponentMLModel"] shape(1) by simp
  have others: "length (filter (\<lambda>c. cType c \<noteq> ComponentMLModel) ?S) \<le> 2"
    unfolding count_kept [of "\<lambda>y. y \<noteq> ComponentMLModel"] by (rule shape(2))
  have split: "length (filter (\<lambda>c. cType c = ComponentMLModel) ?S) =
      length kept + length (filter (\<lambda>c. cType c = ComponentMLModel) (drop 256 ?S))"
    unfolding kept_def comps length_append [symmetric] filter_append [symmetric] append_take_drop_id ..
  then show "length kept \<le> length ?ms" using total by simp
  show "kept = [] \<longleftrightarrow> ?ms = []"
  proof
    assume "kept = []"
    then have none: "\<forall>c \<in> set (take 256 ?S). cType c \<noteq> ComponentMLModel" unfolding kept_def comps by (auto simp: filter_empty_conv)
    then have "length (take 256 ?S) = length (filter (\<lambda>c. cType c \<noteq> ComponentMLModel) (take 256 ?S))" by simp
    also have "\<dots> \<le> length (filter (\<lambda>c. cType c \<noteq> ComponentMLModel) ?S)"
      by (metis append_take_drop_id filter_append le_add1 length_append)
    finally have "length ?S \<le> 2" using others by (simp only: length_take)
    then have "filter (\<lambda>c. cType c = ComponentMLModel) (drop 256 ?S) = []" by simp
    then show "?ms = []" using split total \<open>kept = []\<close> by simp
  next
    assume "?ms = []"
    then show "kept = []" using split total by simp
  qed
  assume c: "c \<in> set kept"
  then have "c \<in> set (bi_components b)" "cType c = ComponentMLModel" by (auto simp: kept_def)
  then obtain c0 where c0: "c0 \<in> set ?cs" "recordedAs c0 c" unfolding b using recorded_sound by blast
  moreover have "cType c0 = ComponentMLModel" using c0(2) \<open>cType c = ComponentMLModel\<close> by (simp add: recordedAs_def)
  ultimately have "c0 \<in> set (filter (\<lambda>c. cType c = ComponentMLModel) ?cs)" unfolding set_filter by blast
  then obtain c1 where "c1 \<in> set ?ms" "c0 = ?f c1" unfolding shape(1) by auto
  then show "\<exists>c0 \<in> set ?ms. cName c = cName c0 \<and> cEvidence c = cEvidence c0 \<and> cConfidence c = cConfidence c0"
    using c0(2) by (auto simp: recordedAs_def withStorage_def)
qed


subsection \<open>The inventory of a DisaggregatedSet\<close>

lemma map_of_putAll:
  "gm_sorted p \<Longrightarrow> map_of (putAll es p) k = (case map_of (rev es) k of Some v \<Rightarrow> Some v | None \<Rightarrow> map_of p k) \<and>
     gm_sorted (putAll es p)"
proof (induction es arbitrary: p)
  case (Cons e es)
  obtain k' v' where e: "e = (k', v')" by (cases e)
  have "gm_sorted (gm_put k' v' p)" using Cons.prems by simp
  from Cons.IH [OF this] show ?case
    by (auto simp: putAll_def e map_of_gm_put [OF Cons.prems] map_add_def split: option.splits)
qed (simp add: putAll_def)

lemma intProp_keys: "map_of (rev (intProp api obj path key)) k \<noteq> None \<Longrightarrow> k = key"
  by (auto simp: intProp_def split: nested.splits if_splits)

lemma container_recorded:
  assumes "ct \<in> set (ps_containers (pt_spec tmpl))"
  shows "\<exists>c \<in> set (templateComponents tmpl locator pods cfg). cType c = ComponentContainer \<and> gm_sorted (cProperties c) \<and>
    map_of (cProperties c) ''image.reference'' = Some (ct_image ct) \<and> map_of (cProperties c) ''container.name'' = Some (ct_name ct)"
proof -
  obtain i where "i < length (ps_containers (pt_spec tmpl))" "ps_containers (pt_spec tmpl) ! i = ct"
    using assms by (auto simp: in_set_conv_nth)
  then have "(i, ct) \<in> set (enumerate 0 (ps_containers (pt_spec tmpl)))"
    by (auto simp: in_set_enumerate_eq)
  moreover obtain n t d s l rest where
    "extractContainerComponentAt (locator @ ''.spec'') ct False i pods cfg = containerComponent ct False n t d s l # rest"
    by (cases rule: container_shape [of "locator @ ''.spec''" ct False i pods cfg]) auto
  ultimately have "containerComponent ct False n t d s l \<in> set (templateComponents tmpl locator pods cfg)"
    by (force simp: templateComponents_def scrapePodSpecAt_def)
  then show ?thesis
    by (rule bexI [rotated]) (simp add: containerComponent_def gm_from_def map_of_gm_put gm_sorted_Cons)
qed

lemma tagged_container:
  fixes c :: Component and api :: unstructured_api and obj role :: jobject and path1 :: "string list" and name r :: string
  assumes "gm_sorted (cProperties c)" "cType c = ComponentContainer"
  defines "gp \<equiv> intProp api obj path1 ''disaggregatedset.slices'' @ lwsGroupProps api role"
  shows "map_of (lwsTag ([(''disaggregatedset.role'', name)] @ [(''lws.role'', r)]) gp c) ''disaggregatedset.role'' = Some name"
    and "map_of (lwsTag ([(''disaggregatedset.role'', name)] @ [(''lws.role'', r)]) gp c) ''lws.role'' = Some r"
    and "k \<in> {''image.reference'', ''container.name''} \<Longrightarrow>
      map_of (lwsTag ([(''disaggregatedset.role'', name)] @ [(''lws.role'', r)]) gp c) k = map_of (cProperties c) k"
    and "gm_sorted (lwsTag ([(''disaggregatedset.role'', name)] @ [(''lws.role'', r)]) gp c)"
proof -
  have none: "map_of (rev gp) k = None" if "k \<notin> {''disaggregatedset.slices'', ''lws.size'', ''lws.replicas''}" for k
    using that intProp_keys [of api _ _ _ k]
    by (fastforce simp: gp_def lwsGroupProps_def map_add_def split: option.splits)
  let ?cp = "[(''disaggregatedset.role'', name)] @ [(''lws.role'', r)]"
  have s: "gm_sorted (putAll ?cp (cProperties c))" using map_of_putAll [OF assms(1)] by blast
  have tag: "lwsTag ?cp gp c = putAll gp (putAll ?cp (cProperties c))" by (simp add: lwsTag_def assms(2))
  show "gm_sorted (lwsTag ?cp gp c)" unfolding tag using map_of_putAll [OF s] by blast
  have look: "map_of (lwsTag ?cp gp c) k = (case map_of (rev ?cp) k of Some v \<Rightarrow> Some v | None \<Rightarrow> map_of (cProperties c) k)"
    if "k \<notin> {''disaggregatedset.slices'', ''lws.size'', ''lws.replicas''}" for k
    unfolding tag map_of_putAll [OF s, THEN conjunct1] none [OF that] option.case
    by (rule map_of_putAll [OF assms(1), THEN conjunct1])
  show "map_of (lwsTag ?cp gp c) ''disaggregatedset.role'' = Some name" by (subst look) simp_all
  show "map_of (lwsTag ?cp gp c) ''lws.role'' = Some r" by (subst look) simp_all
  show "k \<in> {''image.reference'', ''container.name''} \<Longrightarrow> map_of (lwsTag ?cp gp c) k = map_of (cProperties c) k"
    by (subst look) auto
qed

lemma unsigned_keys:
  "recordedAs c0 c \<Longrightarrow> gm_sorted (cProperties c0) \<Longrightarrow> \<not> hasPrefix k ''signature.'' \<Longrightarrow>
   map_of (cProperties c) k = map_of (cProperties c0) k"
  by (simp add: recordedAs_def)

text \<open>
  C34. Malformed parts of a DisaggregatedSet never hide the others: when nothing was cut off, every container of
  every leader or worker template that decodes is in the document with its image, and with the name of its role
  (the index when the role has none) and of its template, whatever the other roles look like.
\<close>

theorem set_inventory_complete:
  assumes "disaggregatedSet_Scrape api v t w (Some cfg) = Inr b" "w_object w = Some (Unstructured m obj)"
    and "bi_truncatedComponents b = 0"
    and "ua_slice api obj [''spec'', ''roles''] = Present roles" "i < length roles" "roles ! i = JObject role"
    and "r \<in> {''leader'', ''worker''}" "ua_map api role [''spec'', ''leaderWorkerTemplate'', r @ ''Template''] = Present pt"
    and "ua_podTemplate api pt = Inr tmpl" "ct \<in> set (ps_containers (pt_spec tmpl))"
  shows "\<exists>c \<in> set (bi_components b). cType c = ComponentContainer \<and>
    map_of (cProperties c) ''image.reference'' = Some (ct_image ct) \<and>
    map_of (cProperties c) ''container.name'' = Some (ct_name ct) \<and>
    map_of (cProperties c) ''disaggregatedset.role'' =
      Some (if stringAt api role [''name''] = '''' then showNat i else stringAt api role [''name'']) \<and>
    map_of (cProperties c) ''lws.role'' = Some r"
proof -
  let ?sp = "intProp api obj [''spec'', ''slices''] ''disaggregatedset.slices''"
  let ?gp = "?sp @ lwsGroupProps api role"
  let ?name = "if stringAt api role [''name''] = '''' then showNat i else stringAt api role [''name'']"
  let ?prefix = "roleLocator i @ ''.spec.leaderWorkerTemplate''"
  let ?loc = "?prefix @ ''.'' @ r @ ''Template''"
  let ?tag = "lwsTag ([(''disaggregatedset.role'', ?name)] @ [(''lws.role'', r)]) ?gp"
  obtain cs es ms where p: "setParts api w (Some cfg) = Inr (cs, es, ms)"
    and b: "b = crResult ''inference.disaggregatedset'' CategoryInference v t (cs, es, ms)"
    using assms(1) by (rule disaggregatedSet.result)
  obtain c0 where c0: "c0 \<in> set (templateComponents tmpl ?loc (w_pods w) (Some cfg))" "cType c0 = ComponentContainer"
      "gm_sorted (cProperties c0)" "map_of (cProperties c0) ''image.reference'' = Some (ct_image ct)"
      "map_of (cProperties c0) ''container.name'' = Some (ct_name ct)"
    using container_recorded [OF assms(10)] by blast
  let ?c1 = "withProperties (?tag c0) c0"
  have "?c1 \<in> set (fst (templateParts api ?tag pt ?loc (w_pods w) (Some cfg)))"
    using c0(1) by (simp add: templateParts_def assms(9))
  then have "?c1 \<in> set (fst (rolePart api role ?prefix [(''disaggregatedset.role'', ?name)] ?gp (w_pods w) (Some cfg) r))"
    by (simp add: rolePart_def assms(8))
  then have "?c1 \<in> set (fst (bothRoles api role ?prefix [(''disaggregatedset.role'', ?name)] ?gp (w_pods w) (Some cfg)))"
    using assms(7) by (auto simp: bothRoles_def)
  then have "?c1 \<in> set (fst (setRolePart api ?sp (w_pods w) (Some cfg) (i, JObject role)))"
    by (simp add: setRolePart_def Let_def)
  moreover have "(i, JObject role) \<in> set (enumerate 0 (sliceAt api obj [''spec'', ''roles'']))"
    using assms(4-6) by (auto simp: in_set_enumerate_eq sliceAt_def)
  ultimately have "?c1 \<in> set (fst (concatParts (map (setRolePart api ?sp (w_pods w) (Some cfg))
      (enumerate 0 (sliceAt api obj [''spec'', ''roles''])))))"
    by (auto simp: fst_concatParts)
  then have "?c1 \<in> set cs"
    using p assms(2) by (auto simp: setParts_def crObject_def dest!: arg_cong [where f = fst])
  then obtain c where c: "c \<in> set (bi_components b)" "recordedAs ?c1 c"
    using recorded_complete assms(3) unfolding b by blast
  note tagged = tagged_container [OF c0(3,2)]
  have ty: "cType c = ComponentContainer" using c(2) c0(2) by (simp add: recordedAs_def)
  have keys: "map_of (cProperties c) k = map_of (?tag c0) k" if "\<not> hasPrefix k ''signature.''" for k
    using unsigned_keys [OF c(2) _ that] tagged(4) by simp
  show ?thesis
  proof (rule bexI [OF _ c(1)], intro conjI)
    show "map_of (cProperties c) ''image.reference'' = Some (ct_image ct)"
      by (subst keys) (simp add: hasPrefix_def, subst tagged(3), simp, rule c0(4))
    show "map_of (cProperties c) ''container.name'' = Some (ct_name ct)"
      by (subst keys) (simp add: hasPrefix_def, subst tagged(3), simp, rule c0(5))
    show "map_of (cProperties c) ''disaggregatedset.role'' = Some ?name"
      by (subst keys) (simp add: hasPrefix_def, rule tagged(1))
    show "map_of (cProperties c) ''lws.role'' = Some r"
      by (subst keys) (simp add: hasPrefix_def, rule tagged(2))
  qed (rule ty)
qed

subsection \<open>Stability\<close>

text \<open>
  Custom resources take part in the skip of unchanged workloads: a scrape of the same resource at another time
  succeeds too, with inputs of the same hash; the components are sorted, at most 256, and anything cut off leaves
  exactly 256.
\<close>

theorem custom_resource_scrapes_stable:
  assumes "scrape \<in> {kserve_Scrape api, lws_Scrape api, disaggregatedSet_Scrape api, dynamo_Scrape api, nim_Scrape api}"
    and "scrape v t w cfg = Inr b"
  shows "\<exists>b'. scrape v t' w cfg = Inr b' \<and>
    HashBOMInputs marshal shaSum (Some b') = HashBOMInputs marshal shaSum (Some b) \<and>
    length (bi_components b) \<le> 256 \<and> sorted (map componentOrder (bi_components b)) \<and>
    (bi_truncatedComponents b > 0 \<longrightarrow> length (bi_components b) = 256)"
proof -
  consider "scrape = kserve_Scrape api" | "scrape = lws_Scrape api" | "scrape = disaggregatedSet_Scrape api"
    | "scrape = dynamo_Scrape api" | "scrape = nim_Scrape api" using assms(1) by blast
  then show ?thesis
  proof cases
    case 1
    show ?thesis using kserve.rescrape kserve.bounded assms(2) unfolding 1 by blast
  next
    case 2
    show ?thesis using lws.rescrape lws.bounded assms(2) unfolding 2 by blast
  next
    case 3
    show ?thesis using disaggregatedSet.rescrape disaggregatedSet.bounded assms(2) unfolding 3 by blast
  next
    case 4
    show ?thesis using dynamo.rescrape dynamo.bounded assms(2) unfolding 4 by blast
  next
    case 5
    show ?thesis using nim.rescrape nim.bounded assms(2) unfolding 5 by blast
  qed
qed

subsection \<open>Examples\<close>

text \<open>A set with a malformed role, and a role without a name whose leader template has one container.\<close>

definition exampleSet :: jobject where
  "exampleSet = [(''spec'', JObject [(''roles'', JArray [JInt 3,
     JObject [(''spec'', JObject [(''leaderWorkerTemplate'', JObject
       [(''size'', JInt 2),
        (''leaderTemplate'', JObject [(''spec'', JObject [(''containers'',
           JArray [JObject [(''name'', JString ''main''), (''image'', JString ''vllm:v1'')]])])])])])]])])]"

definition crWorkload :: "jobject \<Rightarrow> Workload" where
  "crWorkload obj = exampleWorkload\<lparr>w_object := Some (Unstructured emptyMeta obj)\<rparr>"

definition exampleLeader :: jobject where
  "exampleLeader = [(''spec'', JObject [(''containers'',
     JArray [JObject [(''name'', JString ''main''), (''image'', JString ''vllm:v1'')]])])]"

definition exampleRole :: jobject where
  "exampleRole = [(''spec'', JObject [(''leaderWorkerTemplate'', JObject
       [(''size'', JInt 2), (''leaderTemplate'', JObject exampleLeader)])])]"

definition exampleContainer :: container where
  "exampleContainer = \<lparr>ct_name = ''main'', ct_image = ''vllm:v1'', ct_args = [], ct_env = [], ct_volumeMounts = []\<rparr>"

lemma exampleSet_eq: "exampleSet = [(''spec'', JObject [(''roles'', JArray [JInt 3, JObject exampleRole])])]"
  by (simp add: exampleSet_def exampleRole_def exampleLeader_def)

lemma exampleSet_scrape:
  "case disaggregatedSet_Scrape plainApi None 0 (crWorkload exampleSet) (Some exampleConfig) of
     Inl _ \<Rightarrow> False | Inr b \<Rightarrow> bi_truncatedComponents b = 0 \<and> length (bi_components b) = 1"
  by code_simp

theorem set_inventory_complete_witness:
  "\<exists>b. disaggregatedSet_Scrape plainApi None 0 (crWorkload exampleSet) (Some exampleConfig) = Inr b \<and>
    (\<exists>c \<in> set (bi_components b). map_of (cProperties c) ''disaggregatedset.role'' = Some ''1'' \<and>
       map_of (cProperties c) ''image.reference'' = Some ''vllm:v1'')"
proof -
  obtain b where b: "disaggregatedSet_Scrape plainApi None 0 (crWorkload exampleSet) (Some exampleConfig) = Inr b"
    "bi_truncatedComponents b = 0"
    using exampleSet_scrape by (auto split: sum.splits)
  have r: "ua_slice plainApi exampleSet [''spec'', ''roles''] = Present [JInt 3, JObject exampleRole]"
    "ua_map plainApi exampleRole [''spec'', ''leaderWorkerTemplate'', ''leader'' @ ''Template''] = Present exampleLeader"
    "ua_podTemplate plainApi exampleLeader = Inr \<lparr>pt_annotations = [], pt_spec = emptyPodSpec\<lparr>ps_containers := [exampleContainer]\<rparr>\<rparr>"
    "stringAt plainApi exampleRole [''name''] = ''''" "showNat 1 = ''1''"
    by code_simp+
  have "\<exists>c \<in> set (bi_components b). cType c = ComponentContainer \<and>
    map_of (cProperties c) ''image.reference'' = Some (ct_image exampleContainer) \<and>
    map_of (cProperties c) ''container.name'' = Some (ct_name exampleContainer) \<and>
    map_of (cProperties c) ''disaggregatedset.role'' =
      Some (if stringAt plainApi exampleRole [''name''] = '''' then showNat 1 else stringAt plainApi exampleRole [''name'']) \<and>
    map_of (cProperties c) ''lws.role'' = Some ''leader''"
    by (rule set_inventory_complete [OF b(1) _ b(2) r(1) _ _ _ r(2,3)]) (simp_all add: crWorkload_def)
  then show ?thesis using b(1) r(4,5) by (auto simp: exampleContainer_def)
qed

definition exampleNim :: jobject where
  "exampleNim = [(''spec'', JObject [(''image'', JObject
     [(''repository'', JString ''nvcr.io/nim/meta/llama-3''), (''tag'', JString ''1.0'')])])]"

lemma exampleNim_scrape:
  "case nim_Scrape plainApi None 0 (crWorkload exampleNim) (Some exampleConfig) of
     Inl _ \<Rightarrow> False | Inr b \<Rightarrow> map (\<lambda>c. (cType c, cName c)) (bi_components b) =
       [(ComponentApplication, ''nim''), (ComponentContainer, ''nvcr.io/nim/meta/llama-3''), (ComponentMLModel, ''meta/llama-3'')]"
  by code_simp



theorem custom_resource_scrapes_stable_witness:
  "\<exists>b b'. nim_Scrape plainApi None 0 (crWorkload exampleNim) (Some exampleConfig) = Inr b \<and>
     nim_Scrape plainApi None 9 (crWorkload exampleNim) (Some exampleConfig) = Inr b' \<and>
     HashBOMInputs (\<lambda>_. Inr ''json'') id (Some b') = HashBOMInputs (\<lambda>_. Inr ''json'') id (Some b)"
proof -
  obtain b where b: "nim_Scrape plainApi None 0 (crWorkload exampleNim) (Some exampleConfig) = Inr b"
    using exampleNim_scrape by (auto split: sum.splits)
  show ?thesis
    using b custom_resource_scrapes_stable [of "nim_Scrape plainApi" plainApi None 0 "crWorkload exampleNim"
        "Some exampleConfig" b 9 "\<lambda>_. Inr ''json''" id] by auto
qed

end
