(* ===== verification/Namespace_Observer.thy ===== *)
theory Namespace_Observer
  imports Scraper_Types
begin

text \<open>
  \<^verbatim>\<open>internal/controller/namespace_observer.go\<close>: per opted-in namespace the workloads that reached
  detection, and one event once the first pass has settled. The timer of a namespace is its deadline;
  \<open>announce\<close> may run at any time for any namespace, since a timer that was stopped too late still
  runs its callback when it gets the lock. The events of the recorder are kept in the state.
\<close>

record namespaceObservation =
  nobs_uid :: string
  nobs_first :: time
  nobs_timer :: "time option"
  nobs_announced :: bool
  nobs_workloads :: "(string \<times> bool) list"

record ns_event =
  nev_namespace :: string
  nev_uid :: string
  nev_message :: string

record NamespaceObserver =
  nob_recorder :: bool
  nob_settle :: int
  nob_maxWait :: int
  nob_namespaces :: "(string \<times> namespaceObservation) list"
  nob_events :: "ns_event list"

definition DefaultNamespaceObservationSettle :: int where "DefaultNamespaceObservationSettle = 10 * 10 ^ 9"
definition DefaultNamespaceObservationMaxWait :: int where "DefaultNamespaceObservationMaxWait = 60 * 10 ^ 9"

definition newNamespaceObserver :: "bool \<Rightarrow> int \<Rightarrow> int \<Rightarrow> NamespaceObserver" where
  "newNamespaceObserver recorder settle maxWait =
    \<lparr>nob_recorder = recorder, nob_settle = settle, nob_maxWait = maxWait, nob_namespaces = [], nob_events = []\<rparr>"

definition NewNamespaceObserver :: "bool \<Rightarrow> NamespaceObserver" where
  "NewNamespaceObserver recorder =
    newNamespaceObserver recorder DefaultNamespaceObservationSettle DefaultNamespaceObservationMaxWait"

text \<open>The record of a namespace after one more workload, from the record found under its name.\<close>

definition considerIn :: "int \<Rightarrow> int \<Rightarrow> time \<Rightarrow> string \<Rightarrow> string \<Rightarrow> bool \<Rightarrow> namespaceObservation option \<Rightarrow> namespaceObservation" where
  "considerIn settle maxWait now uid workload matched found =
    (let obs = (case found of Some x \<Rightarrow> if nobs_uid x \<noteq> uid then None else Some x | None \<Rightarrow> None);
         cur = (case obs of Some x \<Rightarrow> x
           | None \<Rightarrow> \<lparr>nobs_uid = uid, nobs_first = now, nobs_timer = Some (now + settle), nobs_announced = False, nobs_workloads = []\<rparr>);
         remaining = nobs_first cur + maxWait - now;
         wait = (if remaining < settle then max remaining 0 else settle);
         timed = (if map_of (nobs_workloads cur) workload = None then cur\<lparr>nobs_timer := Some (now + wait)\<rparr> else cur)
     in if nobs_announced cur then cur else timed\<lparr>nobs_workloads := gm_put workload matched (nobs_workloads cur)\<rparr>)"

definition Considered :: "time \<Rightarrow> string \<Rightarrow> string \<Rightarrow> string \<Rightarrow> bool \<Rightarrow> NamespaceObserver option \<Rightarrow> NamespaceObserver option" where
  "Considered now name uid workload matched obsv = (case obsv of None \<Rightarrow> None
     | Some st \<Rightarrow>
        if \<not> nob_recorder st then Some st
        else Some (st\<lparr>nob_namespaces := gm_put name
          (considerIn (nob_settle st) (nob_maxWait st) now uid workload matched (map_of (nob_namespaces st) name))
          (nob_namespaces st)\<rparr>))"

definition Forget :: "string \<Rightarrow> NamespaceObserver option \<Rightarrow> NamespaceObserver option" where
  "Forget name obsv = map_option (\<lambda>st. st\<lparr>nob_namespaces := filter (\<lambda>e. fst e \<noteq> name) (nob_namespaces st)\<rparr>) obsv"

definition namespaceObservedMessage :: "nat \<Rightarrow> nat \<Rightarrow> string" where
  "namespaceObservedMessage considered matched =
    ''k8s-aibom is inventorying this namespace: '' @ showNat considered @ '' workload(s) considered, '' @ showNat matched @
    '' matched an AI workload signal and have an AIBOM, '' @ showInt (int considered - int matched) @
    '' matched none. Detection is conservative: a workload whose images match no runtime pattern gets no AIBOM (see docs/scraper-heuristics.md).''"

definition announce :: "string \<Rightarrow> string \<Rightarrow> NamespaceObserver option \<Rightarrow> NamespaceObserver option" where
  "announce name uid obsv = (case obsv of None \<Rightarrow> None
     | Some st \<Rightarrow>
        (case map_of (nob_namespaces st) name of
           None \<Rightarrow> Some st
         | Some obs \<Rightarrow>
             if nobs_uid obs \<noteq> uid \<or> nobs_announced obs then Some st
             else Some (st\<lparr>nob_namespaces := gm_put name (obs\<lparr>nobs_announced := True, nobs_workloads := []\<rparr>) (nob_namespaces st),
               nob_events := nob_events st @ [\<lparr>nev_namespace = name, nev_uid = uid,
                 nev_message = namespaceObservedMessage (length (nobs_workloads obs))
                   (length (filter snd (nobs_workloads obs)))\<rparr>]\<rparr>)))"

definition observedWorkloadKey :: "Workload \<Rightarrow> string" where
  "observedWorkloadKey w = wk_group (w_kind w) @ ''/'' @ wk_kind (w_kind w) @ ''/'' @ w_name w"

subsection \<open>What is announced\<close>

text \<open>The calls an observer receives, with the time of the clock where it is read.\<close>

datatype obs_call = CConsidered time string string string bool | CForget string | CAnnounce string string

fun obs_step :: "obs_call \<Rightarrow> NamespaceObserver option \<Rightarrow> NamespaceObserver option" where
  "obs_step (CConsidered now n u w m) st = Considered now n u w m st"
| "obs_step (CForget n) st = Forget n st"
| "obs_step (CAnnounce n u) st = announce n u st"

definition obs_run :: "obs_call list \<Rightarrow> NamespaceObserver option \<Rightarrow> NamespaceObserver option" where
  "obs_run calls st = fold obs_step calls st"

text \<open>
  The period of a namespace: the calls since it was last forgotten or seen with another UID. The
  verdicts of a period are the last word on each workload considered in it.
\<close>

fun startsOver :: "string \<Rightarrow> string \<Rightarrow> obs_call \<Rightarrow> bool" where
  "startsOver n u (CConsidered _ n' u' _ _) = (n' = n \<and> u' \<noteq> u)"
| "startsOver n u (CForget n') = (n' = n)"
| "startsOver n u (CAnnounce _ _) = False"

definition period :: "string \<Rightarrow> string \<Rightarrow> obs_call list \<Rightarrow> obs_call list" where
  "period n u calls = rev (takeWhile (\<lambda>c. \<not> startsOver n u c) (rev calls))"

fun verdict :: "string \<Rightarrow> string \<Rightarrow> obs_call \<Rightarrow> (string \<rightharpoonup> bool) \<Rightarrow> (string \<rightharpoonup> bool)" where
  "verdict n u (CConsidered _ n' u' w m) f = (if n' = n \<and> u' = u then f(w \<mapsto> m) else f)"
| "verdict n u (CForget n') f = f"
| "verdict n u (CAnnounce n' u') f = f"

definition verdicts :: "string \<Rightarrow> string \<Rightarrow> obs_call list \<Rightarrow> (string \<rightharpoonup> bool)" where
  "verdicts n u calls = fold (verdict n u) (period n u calls) Map.empty"

text \<open>Whether the period has announced itself: an announcement after a workload was considered.\<close>

definition announcedIn :: "string \<Rightarrow> string \<Rightarrow> obs_call list \<Rightarrow> bool" where
  "announcedIn n u calls \<longleftrightarrow> (\<exists>a b. period n u calls = a @ CAnnounce n u # b \<and> fold (verdict n u) a Map.empty \<noteq> Map.empty)"

lemma period_snoc: "period n u (cs @ [c]) = (if startsOver n u c then [] else period n u cs @ [c])"
  by (simp add: period_def)

lemma verdicts_snoc: "verdicts n u (cs @ [c]) = (if startsOver n u c then Map.empty else verdict n u c (verdicts n u cs))"
  by (simp add: verdicts_def period_snoc)

lemma announcedIn_snoc:
  "announcedIn n u (cs @ [c]) =
    (\<not> startsOver n u c \<and> (announcedIn n u cs \<or> (c = CAnnounce n u \<and> verdicts n u cs \<noteq> Map.empty)))"
proof (cases "startsOver n u c")
  case False
  have "(\<exists>a b. period n u cs @ [c] = a @ CAnnounce n u # b \<and> fold (verdict n u) a Map.empty \<noteq> Map.empty) =
     (announcedIn n u cs \<or> (c = CAnnounce n u \<and> verdicts n u cs \<noteq> Map.empty))" (is "?L = ?R")
  proof
    assume ?L
    then obtain a b where ab: "period n u cs @ [c] = a @ CAnnounce n u # b" "fold (verdict n u) a Map.empty \<noteq> Map.empty" by blast
    then show ?R by (cases b rule: rev_cases) (auto simp: announcedIn_def verdicts_def)
  next
    assume ?R
    then show ?L
    proof
      assume "announcedIn n u cs"
      then obtain a b where "period n u cs = a @ CAnnounce n u # b" "fold (verdict n u) a Map.empty \<noteq> Map.empty"
        unfolding announcedIn_def by blast
      then show ?L by (intro exI [of _ a] exI [of _ "b @ [c]"]) simp
    qed (auto simp: verdicts_def)
  qed
  then show ?thesis using False by (simp add: announcedIn_def period_snoc)
qed (simp add: announcedIn_def period_snoc)

lemma verdicts_other: "verdicts n u cs \<noteq> Map.empty \<Longrightarrow> u' \<noteq> u \<Longrightarrow> verdicts n u' cs = Map.empty"
proof (induction cs rule: rev_induct)
  case Nil
  then show ?case by (simp add: verdicts_def period_def)
next
  case (snoc c cs)
  then show ?case by (cases c) (auto simp: verdicts_snoc split: if_splits)
qed

lemma announcedIn_verdicts: "announcedIn n u cs \<Longrightarrow> verdicts n u cs \<noteq> Map.empty"
proof (induction cs rule: rev_induct)
  case Nil
  then show ?case by (simp add: announcedIn_def period_def)
next
  case (snoc c cs)
  then show ?case by (cases c) (auto simp: verdicts_snoc announcedIn_snoc split: if_splits)
qed

text \<open>The state of an observer after a list of calls.\<close>

definition tracksName :: "obs_call list \<Rightarrow> string \<Rightarrow> namespaceObservation option \<Rightarrow> bool" where
  "tracksName cs n found = (case found of
     None \<Rightarrow> (\<forall>u. verdicts n u cs = Map.empty)
   | Some obs \<Rightarrow> verdicts n (nobs_uid obs) cs \<noteq> Map.empty \<and>
       nobs_announced obs = announcedIn n (nobs_uid obs) cs \<and> gm_sorted (nobs_workloads obs) \<and>
       (\<not> nobs_announced obs \<longrightarrow> map_of (nobs_workloads obs) = verdicts n (nobs_uid obs) cs))"

definition tracks :: "obs_call list \<Rightarrow> NamespaceObserver \<Rightarrow> bool" where
  "tracks cs st \<longleftrightarrow> nob_recorder st \<and> gm_sorted (nob_namespaces st) \<and>
    (\<forall>n. tracksName cs n (map_of (nob_namespaces st) n))"

lemma tracks_update:
  assumes "tracks cs st" "nob_recorder st'" "gm_sorted (nob_namespaces st')"
    "\<And>k. k \<noteq> n \<Longrightarrow> map_of (nob_namespaces st') k = map_of (nob_namespaces st) k"
    "\<And>k v. k \<noteq> n \<Longrightarrow> verdicts k v (cs @ [c]) = verdicts k v cs \<and> announcedIn k v (cs @ [c]) = announcedIn k v cs"
    "tracksName (cs @ [c]) n (map_of (nob_namespaces st') n)"
  shows "tracks (cs @ [c]) st'"
proof -
  have "tracksName (cs @ [c]) k f = tracksName cs k f" if "k \<noteq> n" for k f
    using assms(5) [OF that] by (cases f) (simp_all add: tracksName_def)
  then have "tracksName (cs @ [c]) k (map_of (nob_namespaces st') k)" if "k \<noteq> n" for k
    using assms(1) assms(4) [OF that] that by (simp add: tracks_def)
  then show ?thesis using assms(2,3,6) unfolding tracks_def by metis
qed

lemma tracksD: "tracks cs st \<Longrightarrow> tracksName cs n (map_of (nob_namespaces st) n)"
  by (simp add: tracks_def)

lemma considerIn_fresh:
  assumes "found = None \<or> (\<exists>x. found = Some x \<and> nobs_uid x \<noteq> u)"
  shows "nobs_uid (considerIn settle maxWait now u w m found) = u" "\<not> nobs_announced (considerIn settle maxWait now u w m found)"
    "nobs_workloads (considerIn settle maxWait now u w m found) = [(w, m)]"
  using assms by (auto simp: considerIn_def Let_def)

lemma considerIn_found:
  assumes "nobs_uid x = u"
  shows "nobs_uid (considerIn settle maxWait now u w m (Some x)) = u"
    "nobs_announced (considerIn settle maxWait now u w m (Some x)) = nobs_announced x"
    "nobs_workloads (considerIn settle maxWait now u w m (Some x)) =
      (if nobs_announced x then nobs_workloads x else gm_put w m (nobs_workloads x))"
  using assms by (auto simp: considerIn_def Let_def)

text \<open>A namespace under steady churn still gets its event: a new workload never moves the timer past the longest wait.\<close>

lemma considerIn_deadline:
  assumes "\<not> nobs_announced (considerIn settle maxWait now u w m found)"
    "nobs_timer (considerIn settle maxWait now u w m found) = Some d" "0 \<le> settle" "0 \<le> maxWait"
  shows "(case found of Some x \<Rightarrow> nobs_timer x = Some d | None \<Rightarrow> False) \<or> d \<le> now + settle \<and> d \<le> max now (nobs_first (considerIn settle maxWait now u w m found) + maxWait)"
  using assms by (auto simp: considerIn_def Let_def split: option.splits if_splits)

lemma tracksName_consider:
  assumes "tracksName cs n found"
  shows "tracksName (cs @ [CConsidered now n u w m]) n (Some (considerIn settle maxWait now u w m found))"
proof -
  have snoc: "verdicts n u (cs @ [CConsidered now n u w m]) = (verdicts n u cs)(w \<mapsto> m)"
    "announcedIn n u (cs @ [CConsidered now n u w m]) = announcedIn n u cs"
    by (auto simp: verdicts_snoc announcedIn_snoc)
  show ?thesis
  proof (cases "found = None \<or> (\<exists>x. found = Some x \<and> nobs_uid x \<noteq> u)")
    case True
    then have none: "verdicts n u cs = Map.empty"
      using assms verdicts_other by (auto simp: tracksName_def)
    then have "\<not> announcedIn n u cs" using announcedIn_verdicts by blast
    then show ?thesis by (simp add: tracksName_def considerIn_fresh [OF True] snoc none gm_sorted_Cons)
  next
    case False
    then obtain x where x: "found = Some x" "nobs_uid x = u" by (cases found) auto
    then show ?thesis using assms
      by (simp add: tracksName_def considerIn_found [OF x(2)] snoc map_of_gm_put)
  qed
qed

lemma tracks_Considered:
  assumes "tracks cs st"
  shows "\<exists>st'. Considered now n u w m (Some st) = Some st' \<and> tracks (cs @ [CConsidered now n u w m]) st' \<and> nob_events st' = nob_events st"
proof -
  let ?obs = "considerIn (nob_settle st) (nob_maxWait st) now u w m (map_of (nob_namespaces st) n)"
  let ?st' = "st\<lparr>nob_namespaces := gm_put n ?obs (nob_namespaces st)\<rparr>"
  have wf: "nob_recorder st" "gm_sorted (nob_namespaces st)" using assms by (simp_all add: tracks_def)
  have "tracks (cs @ [CConsidered now n u w m]) ?st'"
    by (rule tracks_update [OF assms, where n = n])
      (simp_all add: wf map_of_gm_put verdicts_snoc announcedIn_snoc tracksName_consider [OF tracksD [OF assms]])
  then show ?thesis by (simp add: Considered_def wf)
qed

lemma gm_sorted_filter: "gm_sorted m \<Longrightarrow> gm_sorted (filter P m)"
  by (induction m) (auto simp: gm_sorted_Cons)

lemma map_of_filter_key: "map_of (filter (\<lambda>e. fst e \<noteq> n) m) = (map_of m)(n := None)"
  by (induction m) auto

lemma tracks_Forget:
  assumes "tracks cs st"
  shows "\<exists>st'. Forget n (Some st) = Some st' \<and> tracks (cs @ [CForget n]) st' \<and> nob_events st' = nob_events st"
proof -
  let ?st' = "st\<lparr>nob_namespaces := filter (\<lambda>e. fst e \<noteq> n) (nob_namespaces st)\<rparr>"
  have wf: "nob_recorder st" "gm_sorted (nob_namespaces st)" using assms by (simp_all add: tracks_def)
  have "tracks (cs @ [CForget n]) ?st'"
    by (rule tracks_update [OF assms, where n = n])
      (simp_all add: wf gm_sorted_filter map_of_filter_key verdicts_snoc announcedIn_snoc tracksName_def)
  then show ?thesis by (simp add: Forget_def)
qed

lemma length_gm_map: "gm_sorted m \<Longrightarrow> length m = card (dom (map_of m))"
proof -
  assume "gm_sorted m"
  then have "distinct (map fst m)" by (induction m) (auto simp: gm_sorted_Cons)
  then show ?thesis by (metis distinct_card dom_map_of_conv_image_fst length_map set_map)
qed

lemma filter_gm_map: "gm_sorted m \<Longrightarrow> length (filter snd m) = card {w. map_of m w = Some True}"
proof -
  assume s: "gm_sorted m"
  then have d: "distinct (map fst m)" by (induction m) (auto simp: gm_sorted_Cons)
  have "dom (map_of (filter snd m)) = {w. (w, True) \<in> set m}"
    unfolding dom_map_of_conv_image_fst by force
  then have "dom (map_of (filter snd m)) = {w. map_of m w = Some True}" by (simp add: map_of_eq_Some_iff [OF d])
  then show ?thesis using length_gm_map [OF gm_sorted_filter [OF s]] by simp
qed

definition observed :: "string \<Rightarrow> string \<Rightarrow> obs_call list \<Rightarrow> ns_event" where
  "observed n u cs = \<lparr>nev_namespace = n, nev_uid = u,
     nev_message = namespaceObservedMessage (card (dom (verdicts n u cs))) (card {w. verdicts n u cs w = Some True})\<rparr>"

lemma tracks_announce:
  assumes "tracks cs st"
  shows "\<exists>st'. announce n u (Some st) = Some st' \<and> tracks (cs @ [CAnnounce n u]) st' \<and>
    nob_events st' = nob_events st @ (if verdicts n u cs \<noteq> Map.empty \<and> \<not> announcedIn n u cs then [observed n u cs] else [])"
proof -
  have wf: "nob_recorder st" "gm_sorted (nob_namespaces st)" using assms by (simp_all add: tracks_def)
  note at = tracksD [OF assms, of n]
  have other: "verdicts k v (cs @ [CAnnounce n u]) = verdicts k v cs" for k v by (simp add: verdicts_snoc)
  show ?thesis
  proof (cases "verdicts n u cs \<noteq> Map.empty \<and> \<not> announcedIn n u cs")
    case True
    obtain obs where obs: "map_of (nob_namespaces st) n = Some obs" using at True by (cases "map_of (nob_namespaces st) n") (auto simp: tracksName_def)
    then have "verdicts n (nobs_uid obs) cs \<noteq> Map.empty" using at by (simp add: tracksName_def)
    then have uid: "nobs_uid obs = u" using True verdicts_other by blast
    have w: "gm_sorted (nobs_workloads obs)" "map_of (nobs_workloads obs) = verdicts n u cs" "\<not> nobs_announced obs"
      using at True by (simp_all add: tracksName_def obs uid)
    let ?new = "obs\<lparr>nobs_announced := True, nobs_workloads := []\<rparr>"
    let ?st' = "st\<lparr>nob_namespaces := gm_put n ?new (nob_namespaces st), nob_events := nob_events st @ [observed n u cs]\<rparr>"
    have "announce n u (Some st) = Some ?st'"
      by (simp add: announce_def obs uid w(3) observed_def length_gm_map [OF w(1)] filter_gm_map [OF w(1)] w(2))
    moreover have "tracks (cs @ [CAnnounce n u]) ?st'"
      by (rule tracks_update [OF assms, where n = n])
        (simp_all add: wf map_of_gm_put other announcedIn_snoc tracksName_def uid True)
    ultimately show ?thesis using True by simp
  next
    case False
    then have same: "announcedIn k v (cs @ [CAnnounce n u]) = announcedIn k v cs" for k v by (auto simp: announcedIn_snoc)
    have "announce n u (Some st) = Some st"
    proof (cases "map_of (nob_namespaces st) n")
      case (Some obs)
      then show ?thesis using at False by (auto simp: announce_def tracksName_def)
    qed (simp add: announce_def)
    moreover have "tracksName (cs @ [CAnnounce n u]) k f = tracksName cs k f" for k f
      by (cases f) (simp_all add: tracksName_def other same)
    then have "tracks (cs @ [CAnnounce n u]) st" using assms by (simp add: tracks_def)
    ultimately show ?thesis using False by simp
  qed
qed

lemma tracks_run: "\<exists>st. obs_run cs (Some (newNamespaceObserver True settle maxWait)) = Some st \<and> tracks cs st"
proof (induction cs rule: rev_induct)
  case Nil
  show ?case by (simp add: obs_run_def tracks_def tracksName_def newNamespaceObserver_def verdicts_def period_def)
next
  case (snoc c cs)
  then obtain st where st: "obs_run cs (Some (newNamespaceObserver True settle maxWait)) = Some st" "tracks cs st" by blast
  then show ?case
  proof (cases c)
    case (CConsidered now n u w m)
    then show ?thesis using tracks_Considered [OF st(2), of now n u w m] st(1) by (auto simp: obs_run_def)
  next
    case (CForget n)
    then show ?thesis using tracks_Forget [OF st(2), of n] st(1) by (auto simp: obs_run_def)
  next
    case (CAnnounce n u)
    obtain st' where "announce n u (Some st) = Some st'" "tracks (cs @ [CAnnounce n u]) st'"
      using tracks_announce [OF st(2), of n u] by blast
    then show ?thesis using st(1) CAnnounce by (simp add: obs_run_def)
  qed
qed

text \<open>
  C23. However the calls of the reconcilers, forgetting and the timers interleave, a namespace is announced
  exactly once per period in which it stays opted in under one UID, when its timer first fires after a
  workload was considered; the event counts the distinct workloads considered in that period and those
  whose last verdict was a match. No other call emits anything.
\<close>

theorem namespace_announced_once:
  assumes "obs_run cs (Some (newNamespaceObserver True settle maxWait)) = Some st"
  shows "\<exists>st'. obs_step c (Some st) = Some st' \<and>
    nob_events st' = nob_events st @
      (case c of CAnnounce n u \<Rightarrow>
         if verdicts n u cs \<noteq> Map.empty \<and> \<not> announcedIn n u cs
         then [\<lparr>nev_namespace = n, nev_uid = u, nev_message = namespaceObservedMessage
           (card (dom (verdicts n u cs))) (card {w. verdicts n u cs w = Some True})\<rparr>] else []
       | _ \<Rightarrow> [])"
proof -
  have tr: "tracks cs st" using tracks_run [of cs settle maxWait] assms by auto
  show ?thesis
  proof (cases c)
    case (CConsidered now n u w m)
    then show ?thesis using tracks_Considered [OF tr, of now n u w m] by auto
  next
    case (CForget n)
    then show ?thesis using tracks_Forget [OF tr, of n] by auto
  next
    case (CAnnounce n u)
    obtain st' where "announce n u (Some st) = Some st'"
      "nob_events st' = nob_events st @ (if verdicts n u cs \<noteq> Map.empty \<and> \<not> announcedIn n u cs then [observed n u cs] else [])"
      using tracks_announce [OF tr, of n u] by blast
    then show ?thesis by (simp add: CAnnounce observed_def)
  qed
qed

theorem namespace_announced_once_witness:
  "\<exists>st st'. obs_run [CConsidered 0 ''ml'' ''u'' ''a'' True, CConsidered 1 ''ml'' ''u'' ''b'' False] (Some (newNamespaceObserver True 10 60)) = Some st \<and>
     obs_step (CAnnounce ''ml'' ''u'') (Some st) = Some st' \<and> nev_message (last (nob_events st')) = namespaceObservedMessage 2 1"
proof -
  let ?cs = "[CConsidered 0 ''ml'' ''u'' ''a'' True, CConsidered 1 ''ml'' ''u'' ''b'' False]"
  obtain st where st: "obs_run ?cs (Some (newNamespaceObserver True 10 60)) = Some st"
    using tracks_run [of ?cs 10 60] by blast
  have per: "period ''ml'' ''u'' ?cs = ?cs" by (simp add: period_def)
  then have v: "verdicts ''ml'' ''u'' ?cs = [''a'' \<mapsto> True, ''b'' \<mapsto> False]" by (simp add: verdicts_def)
  then have c: "card (dom (verdicts ''ml'' ''u'' ?cs)) = 2" by simp
  have "{w. verdicts ''ml'' ''u'' ?cs w = Some True} = {''a''}" by (auto simp: v)
  then have d: "card {w. verdicts ''ml'' ''u'' ?cs w = Some True} = 1" by simp
  have a: "\<not> announcedIn ''ml'' ''u'' ?cs" by (auto simp: announcedIn_def per Cons_eq_append_conv)
  have ne: "verdicts ''ml'' ''u'' ?cs \<noteq> Map.empty" by (simp add: v)
  obtain st' where "obs_step (CAnnounce ''ml'' ''u'') (Some st) = Some st'"
    "nob_events st' = nob_events st @ [\<lparr>nev_namespace = ''ml'', nev_uid = ''u'', nev_message = namespaceObservedMessage 2 1\<rparr>]"
    using namespace_announced_once [OF st, of "CAnnounce ''ml'' ''u''"] a ne by (auto simp: c d)
  then show ?thesis using st by auto
qed

end
