(* ===== verification/Workload_Reconciler.thy ===== *)
theory Workload_Reconciler
  imports Aibom_Status Ownership Namespace_Observer Config_Store Multi_Scraper Sink_Gcs
begin

text \<open>
  \<^verbatim>\<open>internal/controller/workload_reconciler.go\<close>: the kind-neutral reconcile of a workload. One reconcile is
  a function of the request, of what the cluster, the scraper's clock and the sinks answer, and of the
  state it changes: the stored AIBOM of the workload, the namespace observer, the metrics, the events
  and the calls of the sinks. The parts of the function are its stages: the guards, the scrape, the
  dedup and the build with its publication. JSON, SHA-256, the CycloneDX encoder, the condition
  helpers and the owner-reference helper are parameters.
\<close>

subsection \<open>Requests, answers and state\<close>

record WorkloadReconcileRequest =
  rq_workload :: Workload
  rq_aibomName :: string
  rq_setOwnerReference :: "AIBOM \<Rightarrow> string + AIBOM"
  rq_bomBuildOptions :: BuildOptions
  rq_summaryOptions :: SummaryOptions
  rq_generation :: int
  rq_owned :: "OwnedWorkload list"

datatype emit_answer = Emitted string "string option" | Panicked string

datatype delete_answer = Deleted | DeleteNotFound | DeleteError string

datatype status_answer = StatusOK | StatusConflict | StatusError string

text \<open>The dependencies that a reconciler is constructed with; a sink is of any type with a name.\<close>

record 's WorkloadReconciler =
  wr_scraper :: Scraper
  wr_tracked :: "TrackedKinds option"
  wr_hasRecorder :: bool
  wr_sinkName :: "'s \<Rightarrow> string"
  wr_sinkWriteOnly :: "'s \<Rightarrow> bool"
  wr_marshal :: "BOMInputs \<Rightarrow> string + string"
  wr_encode :: "cdx_bom \<Rightarrow> string + string"
  wr_sha256 :: "string \<Rightarrow> string"
  wr_findCondition :: find_condition

text \<open>
  What one reconcile observes: the snapshot it loads, the allowlist that \<^verbatim>\<open>TrackedKinds\<close> loads for
  itself, the reads and writes of the API, readings of the clock, and the answers of the sinks.
\<close>

record 's cluster_input =
  ci_snapshot :: "'s Snapshot"
  ci_liveAllowlist :: WorkloadKindSet
  ci_clock :: "nat \<Rightarrow> time"
  ci_namespace :: "namespace api_result"
  ci_owner :: owner_env
  ci_get :: "AIBOM api_result"
  ci_failureGet :: "AIBOM api_result"
  ci_delete :: delete_answer
  ci_upsert :: "string option"
  ci_statusUpdate :: status_answer
  ci_setCondition :: set_condition
  ci_emit :: "'s \<Rightarrow> Document \<Rightarrow> SinkMeta \<Rightarrow> emit_answer"

record 's cluster_state =
  cl_aibom :: "AIBOM option"
  cl_observer :: "NamespaceObserver option"
  cl_outcomes :: "(string \<times> string) list"
  cl_extractionErrors :: "(string \<times> string) list"
  cl_sinkEmitFailures :: "(string \<times> string \<times> string) list"
  cl_persistFailures :: "(string \<times> string) list"
  cl_events :: "string list"
  cl_emitted :: "('s \<times> Document \<times> SinkMeta) list"

definition requestKind :: "WorkloadReconcileRequest \<Rightarrow> string" where
  "requestKind req = wk_kind (w_kind (rq_workload req))"

text \<open>\<^verbatim>\<open>metrics.WorkloadReconcileOutcomes\<close>, and the result of a reconcile that ends with an error or nil.\<close>

definition countOutcome :: "WorkloadReconcileRequest \<Rightarrow> string \<Rightarrow> 's cluster_state \<Rightarrow> 's cluster_state" where
  "countOutcome req outcome st = st\<lparr>cl_outcomes := cl_outcomes st @ [(requestKind req, outcome)]\<rparr>"

definition returnError :: "'s cluster_state \<times> string option \<Rightarrow> 's cluster_state \<times> reconcile_result" where
  "returnError r = (fst r, case snd r of None \<Rightarrow> Done | Some e \<Rightarrow> Failed e)"

subsection \<open>Helpers\<close>

definition deleteWorkloadAIBOM ::
  "'s cluster_input \<Rightarrow> string \<Rightarrow> 's cluster_state \<Rightarrow> 's cluster_state \<times> string option" where
  "deleteWorkloadAIBOM inp why st = (case ci_get inp of
     NotFound \<Rightarrow> (st, None)
   | ApiError e \<Rightarrow> (st, Some (''get '' @ why @ '' AIBOM: '' @ e))
   | Found _ \<Rightarrow> (case ci_delete inp of
        Deleted \<Rightarrow> (st\<lparr>cl_aibom := None\<rparr>, None)
      | DeleteNotFound \<Rightarrow> (st, None)
      | DeleteError e \<Rightarrow> (st, Some (''delete '' @ why @ '' AIBOM: '' @ e))))"

definition countExtractionErrors ::
  "'s WorkloadReconciler \<Rightarrow> go_error list \<Rightarrow> 's cluster_state \<Rightarrow> 's cluster_state" where
  "countExtractionErrors r errs st = st\<lparr>cl_extractionErrors := cl_extractionErrors st @
     map (\<lambda>e. (scr_name (wr_scraper r), case e of ExtractionError src _ \<Rightarrow> source_str src | ErrorString _ \<Rightarrow> ''unknown'')) errs\<rparr>"

definition recordStatusPersistFailure ::
  "'s WorkloadReconciler \<Rightarrow> WorkloadReconcileRequest \<Rightarrow> string \<Rightarrow> 's cluster_state \<Rightarrow> 's cluster_state" where
  "recordStatusPersistFailure r req err st =
    (let st1 = st\<lparr>cl_persistFailures := cl_persistFailures st @ [(w_namespace (rq_workload req), requestKind req)]\<rparr>
     in if wr_hasRecorder r then st1\<lparr>cl_events := cl_events st1 @ [''failed to persist AIBOM status: '' @ err]\<rparr> else st1)"

definition persistFailureStatus ::
  "'s WorkloadReconciler \<Rightarrow> 's cluster_input \<Rightarrow> WorkloadReconcileRequest \<Rightarrow> string \<Rightarrow> string \<Rightarrow> 's cluster_state \<Rightarrow> 's cluster_state" where
  "persistFailureStatus r inp req reason message st = (case ci_failureGet inp of
     Found existing \<Rightarrow>
       (let s = ab_status existing;
            s' = s\<lparr>as_consecutiveErrors := as_consecutiveErrors s + 1,
                   as_conditions := ci_setCondition inp \<lparr>cond_type = ''Ready'', cond_status = False, cond_reason = reason,
                     cond_observedGeneration = rq_generation req, cond_message = message, cond_lastTransitionTime = 0\<rparr> (as_conditions s)\<rparr>
        in case ci_statusUpdate inp of
             StatusOK \<Rightarrow> st\<lparr>cl_aibom := Some (existing\<lparr>ab_status := s'\<rparr>)\<rparr>
           | StatusConflict \<Rightarrow> st
           | StatusError e \<Rightarrow> recordStatusPersistFailure r req e st)
   | _ \<Rightarrow> st)"

text \<open>
  The fan-out. The sinks run concurrently and independently; a result is stored at the index of its
  sink, so the order of the results is the configured order whatever the order of completion.
\<close>

definition sinkMeta :: "Document \<Rightarrow> Workload \<Rightarrow> time \<Rightarrow> SinkMeta" where
  "sinkMeta doc w now = \<lparr>sm_workloadKind = wk_kind (w_kind w), sm_workloadNamespace = w_namespace w, sm_workloadName = w_name w,
     sm_workloadCategory = category_str (w_category w), sm_bomHash = doc_sha256 doc, sm_timestamp = now\<rparr>"

definition sinkResultOf :: "'s WorkloadReconciler \<Rightarrow> 's cluster_input \<Rightarrow> Document \<Rightarrow> SinkMeta \<Rightarrow> 's \<Rightarrow> SinkResult" where
  "sinkResultOf r inp doc meta s = (case ci_emit inp s doc meta of
     Emitted url err \<Rightarrow> \<lparr>sr_sink = wr_sinkName r s, sr_url = url, sr_writeOnly = wr_sinkWriteOnly r s, sr_err = err\<rparr>
   | Panicked v \<Rightarrow> \<lparr>sr_sink = wr_sinkName r s, sr_url = '''', sr_writeOnly = wr_sinkWriteOnly r s, sr_err = Some (''panic in sink: '' @ v)\<rparr>)"

definition emitToExternalSinks ::
  "'s WorkloadReconciler \<Rightarrow> 's cluster_input \<Rightarrow> Document option \<Rightarrow> Workload \<Rightarrow> 's list \<Rightarrow> 's cluster_state \<Rightarrow>
   SinkResult list \<times> 's cluster_state" where
  "emitToExternalSinks r inp docp w sinks st = (case docp of None \<Rightarrow> ([], st)
   | Some doc \<Rightarrow>
      if sinks = [] then ([], st)
      else (let meta = sinkMeta doc w (ci_clock inp 3); results = map (sinkResultOf r inp doc meta) sinks
        in (results, st\<lparr>cl_emitted := cl_emitted st @ map (\<lambda>s. (s, doc, meta)) sinks,
             cl_sinkEmitFailures := cl_sinkEmitFailures st @
               map (\<lambda>x. (sr_sink x, w_namespace w, wk_kind (w_kind w))) (filter (\<lambda>x. sr_err x \<noteq> None) results)\<rparr>)))"

text \<open>
  \<^verbatim>\<open>controllerutil.CreateOrUpdate\<close> on the stored resource: the mutation is applied to what is stored, or
  to a new resource, and the result is written unless the API answers with an error.
\<close>

definition emptyAIBOM :: AIBOM where
  "emptyAIBOM = \<lparr>ab_spec = \<lparr>sp_workloadRef = \<lparr>wr_apiVersion = '''', wr_kind = '''', wr_name = ''''\<rparr>, sp_bomFormat = '''', sp_bomSpecVersion = ''''\<rparr>,
     ab_owner = None, ab_status = emptyStatus\<rparr>"

definition createOrUpdate ::
  "'s cluster_input \<Rightarrow> (AIBOM \<Rightarrow> string + AIBOM) \<Rightarrow> 's cluster_state \<Rightarrow> 's cluster_state \<times> (string + AIBOM)" where
  "createOrUpdate inp mutate st =
    (case mutate (case cl_aibom st of Some a \<Rightarrow> a | None \<Rightarrow> emptyAIBOM) of
       Inl e \<Rightarrow> (st, Inl e)
     | Inr a \<Rightarrow> (case ci_upsert inp of Some e \<Rightarrow> (st, Inl e) | None \<Rightarrow> (st\<lparr>cl_aibom := Some a\<rparr>, Inr a)))"

definition formatAPIVersion :: "WorkloadKind \<Rightarrow> string" where
  "formatAPIVersion k = (if wk_group k = '''' then wk_version k else wk_group k @ ''/'' @ wk_version k)"

definition specOf :: "WorkloadReconcileRequest \<Rightarrow> Document \<Rightarrow> AIBOMSpec" where
  "specOf req doc = (let w = rq_workload req in
     \<lparr>sp_workloadRef = \<lparr>wr_apiVersion = formatAPIVersion (w_kind w), wr_kind = wk_kind (w_kind w), wr_name = w_name w\<rparr>,
      sp_bomFormat = doc_format doc, sp_bomSpecVersion = doc_version doc\<rparr>)"

text \<open>The text of a build error (\<^verbatim>\<open>internal/bom/builder.go\<close>).\<close>

fun buildError_str :: "build_error \<Rightarrow> string" where
  "buildError_str NilInputs = ''bom: BOMInputs is nil''"
| "buildError_str (UnknownHashAlgorithm key) =
    ''unknown hash algorithm key: '' @ goQuote key @ ''; supported: '' @ joinWith '', '' supportedHashAlgKeys"
| "buildError_str (InComponent i t n e) =
    ''component '' @ showNat i @ '' ('' @ ctype_str t @ ''/'' @ n @ ''): '' @ buildError_str e"
| "buildError_str (EncodeError e) = ''bom: encode: '' @ e"

subsection \<open>The stages of a reconcile\<close>

text \<open>The terminal status write and what the reconcile returns for its answers.\<close>

definition writeStatus ::
  "'s WorkloadReconciler \<Rightarrow> 's cluster_input \<Rightarrow> WorkloadReconcileRequest \<Rightarrow> string \<Rightarrow> AIBOM \<Rightarrow> reconcile_result \<Rightarrow> 's cluster_state \<Rightarrow>
   's cluster_state \<times> reconcile_result" where
  "writeStatus r inp req what aibom success st = (case ci_statusUpdate inp of
     StatusOK \<Rightarrow> (st\<lparr>cl_aibom := Some aibom\<rparr>, success)
   | StatusConflict \<Rightarrow> (st, Requeue)
   | StatusError e \<Rightarrow> (recordStatusPersistFailure r req e st, Failed (what @ '': '' @ e)))"

text \<open>The dedup fast path: the inputs are those of the stored hash.\<close>

definition fastPath ::
  "'s WorkloadReconciler \<Rightarrow> 's cluster_input \<Rightarrow> WorkloadReconcileRequest \<Rightarrow> BOMInputs \<Rightarrow> AIBOM \<Rightarrow> 's cluster_state \<Rightarrow>
   's cluster_state \<times> reconcile_result" where
  "fastPath r inp req inputs existing st =
    (let prev = ab_status existing;
         s = recordExtractionErrors (wr_findCondition r) (BuildFastPathStatus (ci_clock inp 2) (Some prev) (rq_generation req))
               (as_consecutiveErrors prev) (bi_errors inputs) (sn_staleThresholdReconciles (ci_snapshot inp))
     in writeStatus r inp req ''update AIBOM status (fast path)'' (existing\<lparr>ab_status := s\<rparr>) Done
          (countExtractionErrors r (bi_errors inputs) st))"

text \<open>The full path: build, fan out, create or update the resource, write its status.\<close>

definition fullStatus ::
  "'s WorkloadReconciler \<Rightarrow> 's cluster_input \<Rightarrow> WorkloadReconcileRequest \<Rightarrow> BOMInputs \<Rightarrow> string \<Rightarrow> AIBOMStatus \<Rightarrow> Document \<Rightarrow>
   SinkResult list \<Rightarrow> AIBOMStatus" where
  "fullStatus r inp req inputs inputHash prev doc results =
    (let snap = ci_snapshot inp;
         s0 = BuildStatus (ci_clock inp 4) (Some doc) (rq_summaryOptions req) results (rq_generation req) inputHash (sn_inlineThreshold snap);
         s1 = (if anySinkFailed results then s0\<lparr>as_inputHash := ''''\<rparr> else s0);
         s2 = recordExtractionErrors (wr_findCondition r) s1 (as_consecutiveErrors prev) (bi_errors inputs) (sn_staleThresholdReconciles snap)
     in s2\<lparr>as_conditions := keepTransitionTimes (wr_findCondition r) (as_conditions s2) (as_conditions prev)\<rparr>)"

definition buildAndPublish ::
  "'s WorkloadReconciler \<Rightarrow> 's cluster_input \<Rightarrow> WorkloadReconcileRequest \<Rightarrow> BOMInputs \<Rightarrow> string \<Rightarrow> AIBOMStatus \<Rightarrow> 's cluster_state \<Rightarrow>
   's cluster_state \<times> reconcile_result" where
  "buildAndPublish r inp req inputs inputHash prev st =
    (case Build (wr_encode r) (wr_sha256 r) (ci_clock inp 2) (Some inputs)
            ((rq_bomBuildOptions req)\<lparr>bo_ownedWorkloads := ownedStrings (rq_owned req)\<rparr>) of
       Inl e \<Rightarrow> (persistFailureStatus r inp req ''BuildFailed'' (''BOM build failed: '' @ buildError_str e) st,
                Failed (''build: '' @ buildError_str e))
     | Inr doc \<Rightarrow>
        (case emitToExternalSinks r inp (Some doc) (rq_workload req) (sn_externalSinks (ci_snapshot inp)) st of
           (results, st1) \<Rightarrow>
             (let status = fullStatus r inp req inputs inputHash prev doc results;
                  st2 = countExtractionErrors r (bi_errors inputs) st1
              in case createOrUpdate inp (\<lambda>a. rq_setOwnerReference req (a\<lparr>ab_spec := specOf req doc\<rparr>)) st2 of
                   (st3, Inl e) \<Rightarrow> (st3, Failed (''create-or-update AIBOM: '' @ e))
                 | (st3, Inr aibom) \<Rightarrow>
                     writeStatus r inp req ''update AIBOM status'' (aibom\<lparr>ab_status := status\<rparr>)
                       (if anySinkFailed results then RequeueAfter SinkRetryRequeueAfter else Done) st3)))"

text \<open>The request with the category the scrape found, and the inputs with the absorbed workloads.\<close>

definition withCategory :: "BOMInputs \<Rightarrow> WorkloadReconcileRequest \<Rightarrow> WorkloadReconcileRequest" where
  "withCategory inputs req = (let c = category_str (bi_category inputs) in
     if c = '''' then req
     else req\<lparr>rq_summaryOptions := (rq_summaryOptions req)\<lparr>so_workloadCategory := c\<rparr>,
              rq_bomBuildOptions := (rq_bomBuildOptions req)\<lparr>bo_workloadCategory := c\<rparr>,
              rq_workload := (rq_workload req)\<lparr>w_category := bi_category inputs\<rparr>\<rparr>)"

definition withOwned :: "WorkloadReconcileRequest \<Rightarrow> BOMInputs \<Rightarrow> BOMInputs" where
  "withOwned req inputs = inputs\<lparr>bi_ownedWorkloads := ownedStrings (rq_owned req)\<rparr>"

definition publishWorkload ::
  "'s WorkloadReconciler \<Rightarrow> 's cluster_input \<Rightarrow> WorkloadReconcileRequest \<Rightarrow> BOMInputs \<Rightarrow> 's cluster_state \<Rightarrow>
   's cluster_state \<times> reconcile_result" where
  "publishWorkload r inp req0 inputs0 st =
    (let req = withCategory inputs0 req0; inputs = withOwned req inputs0 in
     case HashBOMInputs (wr_marshal r) (wr_sha256 r) (Some inputs) of
       Inl e \<Rightarrow> (st, Failed (''hash inputs: '' @ e))
     | Inr inputHash \<Rightarrow>
        (case ci_get inp of
           ApiError e \<Rightarrow> (st, Failed (''get existing AIBOM: '' @ e))
         | NotFound \<Rightarrow> buildAndPublish r inp req inputs inputHash emptyStatus st
         | Found existing \<Rightarrow>
             if as_inputHash (ab_status existing) \<noteq> '''' \<and> as_inputHash (ab_status existing) = inputHash
             then fastPath r inp req inputs existing st
             else if as_lastReconciled (ab_status existing) = None then (st, RequeueAfter BootstrapRaceRequeueAfter)
             else buildAndPublish r inp req inputs inputHash (ab_status existing) st))"

definition scrapeWorkload ::
  "'s WorkloadReconciler \<Rightarrow> 's cluster_input \<Rightarrow> WorkloadReconcileRequest \<Rightarrow> namespace \<Rightarrow> 's cluster_state \<Rightarrow>
   's cluster_state \<times> reconcile_result" where
  "scrapeWorkload r inp req ns st =
    (let w = rq_workload req;
         considered = (\<lambda>matched st. st\<lparr>cl_observer := Considered (ci_clock inp 1) (ns_name ns) (ns_uid ns)
            (observedWorkloadKey w) matched (cl_observer st)\<rparr>)
     in case scr_scrape (wr_scraper r) (ci_clock inp 0) w (sn_patterns (ci_snapshot inp)) of
          Inl e \<Rightarrow> (persistFailureStatus r inp req ''ScrapeFailed'' (''scrape failed: '' @ error_str e) st,
                   Failed (''scrape: '' @ error_str e))
        | Inr inputs \<Rightarrow>
            if bi_confidence inputs = ConfidenceUnresolved
            then returnError (deleteWorkloadAIBOM inp ''orphaned'' (considered False (countOutcome req ''unmatched'' st)))
            else publishWorkload r inp req inputs (considered True (countOutcome req ''matched'' st)))"

text \<open>The guards. A request always carries its object, which the per-kind reconcilers have just read.\<close>

definition requestMeta :: "WorkloadReconcileRequest \<Rightarrow> object_meta" where
  "requestMeta req = (case w_object (rq_workload req) of Some x \<Rightarrow> object_metadata x | None \<Rightarrow> emptyMeta)"

definition namespaceOptedIn :: "'s Snapshot \<Rightarrow> namespace \<Rightarrow> bool" where
  "namespaceOptedIn snap ns = (case sn_namespaceSelector snap of None \<Rightarrow> False | Some sel \<Rightarrow> sel_matches sel (ns_labels ns))"

definition kindAllowed :: "'s Snapshot \<Rightarrow> WorkloadReconcileRequest \<Rightarrow> bool" where
  "kindAllowed snap req = (let k = w_kind (rq_workload req) in Allows (sn_workloadKinds snap) (gkind (wk_group k) (wk_kind k)))"

definition ownerOutcome :: "'s WorkloadReconciler \<Rightarrow> 's cluster_input \<Rightarrow> WorkloadReconcileRequest \<Rightarrow> owner_outcome" where
  "ownerOutcome r inp req = resolveTrackedOwner (ci_owner inp) (wr_tracked r) (ci_liveAllowlist inp) (requestMeta req)"

definition reconcileWorkload ::
  "'s WorkloadReconciler \<Rightarrow> 's cluster_input \<Rightarrow> WorkloadReconcileRequest \<Rightarrow> 's cluster_state \<Rightarrow> 's cluster_state \<times> reconcile_result" where
  "reconcileWorkload r inp req st = (case ci_namespace inp of
     NotFound \<Rightarrow> (st, Done)
   | ApiError e \<Rightarrow> (st, Failed (''get namespace '' @ w_namespace (rq_workload req) @ '': '' @ e))
   | Found ns \<Rightarrow>
       if \<not> namespaceOptedIn (ci_snapshot inp) ns
       then (let st1 = countOutcome req ''not_opted_in'' st in
         returnError (deleteWorkloadAIBOM inp ''orphaned'' (st1\<lparr>cl_observer := Forget (ns_name ns) (cl_observer st1)\<rparr>)))
       else if \<not> kindAllowed (ci_snapshot inp) req
       then returnError (deleteWorkloadAIBOM inp ''not-allowed'' (countOutcome req ''kind_not_allowed'' st))
       else (case ownerOutcome r inp req of
           OwnerTracked _ \<Rightarrow> returnError (deleteWorkloadAIBOM inp ''rolled-up'' (countOutcome req ''rolled_up'' st))
         | OwnerUnresolved _ \<Rightarrow> scrapeWorkload r inp req ns (countOutcome req ''rollup_unresolved'' st)
         | OwnerNone \<Rightarrow> scrapeWorkload r inp req ns st))"

end
