(* ===== verification/Workload_Lifecycle.thy ===== *)
theory Workload_Lifecycle
  imports Workload_Reconciler
begin

text \<open>
  What the reconcile of a workload guarantees: which workloads get a document and which lose theirs,
  how delivery to the external sinks is retried over a run of reconciles, and two ways in which the
  status of a resource stays wrong although every later reconcile of the workload succeeds.
\<close>

subsection \<open>What the stages change\<close>

named_theorems frame \<open>what a stage leaves alone\<close>

lemma countOutcome_frame [frame]:
  "cl_aibom (countOutcome req o' st) = cl_aibom st" "cl_emitted (countOutcome req o' st) = cl_emitted st"
  by (simp_all add: countOutcome_def)

lemma countExtractionErrors_frame [frame]:
  "cl_aibom (countExtractionErrors r errs st) = cl_aibom st" "cl_emitted (countExtractionErrors r errs st) = cl_emitted st"
  by (simp_all add: countExtractionErrors_def)

lemma recordStatusPersistFailure_frame [frame]:
  "cl_aibom (recordStatusPersistFailure r req e st) = cl_aibom st"
  "cl_emitted (recordStatusPersistFailure r req e st) = cl_emitted st"
  by (simp_all add: recordStatusPersistFailure_def Let_def)

lemma persistFailureStatus_emitted [frame]: "cl_emitted (persistFailureStatus r inp req reason msg st) = cl_emitted st"
  by (simp add: persistFailureStatus_def Let_def frame split: api_result.split status_answer.split)

lemma deleteWorkloadAIBOM_emitted [frame]: "cl_emitted (fst (deleteWorkloadAIBOM inp why st)) = cl_emitted st"
  by (simp add: deleteWorkloadAIBOM_def split: api_result.split delete_answer.split)

lemma writeStatus_emitted [frame]: "cl_emitted (fst (writeStatus r inp req what a success st)) = cl_emitted st"
  by (simp add: writeStatus_def frame split: status_answer.split)

lemma createOrUpdate_emitted [frame]: "cl_emitted (fst (createOrUpdate inp f st)) = cl_emitted st"
  by (simp add: createOrUpdate_def split: sum.split option.split)

lemma emitToExternalSinks_aibom [frame]: "cl_aibom (snd (emitToExternalSinks r inp d w sinks st)) = cl_aibom st"
  by (simp add: emitToExternalSinks_def Let_def split: option.split)

lemma emitToExternalSinks_results:
  "emitToExternalSinks r inp (Some doc) w sinks st = (results, st') \<Longrightarrow>
     results = map (sinkResultOf r inp doc (sinkMeta doc w (ci_clock inp 3))) sinks \<and>
     cl_emitted st' = cl_emitted st @ map (\<lambda>s. (s, doc, sinkMeta doc w (ci_clock inp 3))) sinks \<and> cl_aibom st' = cl_aibom st"
  by (auto simp: emitToExternalSinks_def Let_def split: if_splits)

text \<open>The reads are those of the stored resource.\<close>

definition freshReads :: "'s cluster_input \<Rightarrow> 's cluster_state \<Rightarrow> bool" where
  "freshReads inp st \<longleftrightarrow> ci_get inp = (case cl_aibom st of None \<Rightarrow> NotFound | Some a \<Rightarrow> Found a) \<and> ci_failureGet inp = ci_get inp \<and>
     (ci_delete inp = DeleteNotFound \<longrightarrow> cl_aibom st = None)"

lemma persistFailureStatus_creates_nothing:
  "freshReads inp st \<Longrightarrow> cl_aibom st = None \<Longrightarrow> cl_aibom (persistFailureStatus r inp req reason msg st) = None"
  by (simp add: persistFailureStatus_def freshReads_def)

lemma deleteWorkloadAIBOM_done:
  assumes "freshReads inp st" "returnError (deleteWorkloadAIBOM inp why st) = (st', res)"
  shows "if cl_aibom st \<noteq> None \<and> (\<exists>e. ci_delete inp = DeleteError e) then cl_aibom st' = cl_aibom st \<and> (\<exists>e. res = Failed e)
    else cl_aibom st' = None \<and> res = Done"
  using assms by (auto simp: returnError_def deleteWorkloadAIBOM_def freshReads_def split: option.splits delete_answer.splits)

subsection \<open>Detection\<close>

text \<open>The workload passes the guards and the scrape finds these inputs in it.\<close>

definition guarded :: "'s WorkloadReconciler \<Rightarrow> 's cluster_input \<Rightarrow> WorkloadReconcileRequest \<Rightarrow> bool" where
  "guarded r inp req \<longleftrightarrow> (\<exists>ns. ci_namespace inp = Found ns \<and> namespaceOptedIn (ci_snapshot inp) ns) \<and>
     kindAllowed (ci_snapshot inp) req \<and> (\<forall>w. ownerOutcome r inp req \<noteq> OwnerTracked w)"

definition scraped :: "'s WorkloadReconciler \<Rightarrow> 's cluster_input \<Rightarrow> WorkloadReconcileRequest \<Rightarrow> go_error + BOMInputs" where
  "scraped r inp req = scr_scrape (wr_scraper r) (ci_clock inp 0) (rq_workload req) (sn_patterns (ci_snapshot inp))"

definition detected :: "'s WorkloadReconciler \<Rightarrow> 's cluster_input \<Rightarrow> WorkloadReconcileRequest \<Rightarrow> BOMInputs \<Rightarrow> bool" where
  "detected r inp req inputs \<longleftrightarrow> guarded r inp req \<and> scraped r inp req = Inr inputs \<and> bi_confidence inputs \<noteq> ConfidenceUnresolved"

lemma reconcile_guarded:
  assumes "guarded r inp req"
  shows "\<exists>ns st0. ci_namespace inp = Found ns \<and> reconcileWorkload r inp req st = scrapeWorkload r inp req ns st0 \<and>
    cl_aibom st0 = cl_aibom st \<and> cl_emitted st0 = cl_emitted st"
proof -
  obtain ns where ns: "ci_namespace inp = Found ns" "namespaceOptedIn (ci_snapshot inp) ns" "kindAllowed (ci_snapshot inp) req"
    "\<And>w. ownerOutcome r inp req \<noteq> OwnerTracked w"
    using assms by (auto simp: guarded_def)
  then show ?thesis
    by (cases "ownerOutcome r inp req") (auto simp: reconcileWorkload_def frame)
qed

lemma reconcile_detected:
  assumes "detected r inp req inputs"
  shows "\<exists>st0. reconcileWorkload r inp req st = publishWorkload r inp req inputs st0 \<and>
    cl_aibom st0 = cl_aibom st \<and> cl_emitted st0 = cl_emitted st"
proof -
  obtain ns st0 where st0: "reconcileWorkload r inp req st = scrapeWorkload r inp req ns st0"
    "cl_aibom st0 = cl_aibom st" "cl_emitted st0 = cl_emitted st"
    using reconcile_guarded [of r inp req st] assms by (auto simp: detected_def)
  let ?st = "(countOutcome req ''matched'' st0)\<lparr>cl_observer := Considered (ci_clock inp 1) (ns_name ns) (ns_uid ns)
     (observedWorkloadKey (rq_workload req)) True (cl_observer (countOutcome req ''matched'' st0))\<rparr>"
  have "scrapeWorkload r inp req ns st0 = publishWorkload r inp req inputs ?st"
    using assms by (simp add: scrapeWorkload_def detected_def scraped_def Let_def)
  then show ?thesis using st0 by (intro exI [of _ ?st]) (simp add: frame)
qed

subsection \<open>Who has a document\<close>

text \<open>The reconcile reaches a verdict against a document of its own for this workload.\<close>

definition suppressed :: "'s WorkloadReconciler \<Rightarrow> 's cluster_input \<Rightarrow> WorkloadReconcileRequest \<Rightarrow> bool" where
  "suppressed r inp req \<longleftrightarrow> (\<exists>ns. ci_namespace inp = Found ns \<and>
     (\<not> namespaceOptedIn (ci_snapshot inp) ns \<or> \<not> kindAllowed (ci_snapshot inp) req \<or>
      (\<exists>w. ownerOutcome r inp req = OwnerTracked w) \<or>
      (\<exists>inputs. scraped r inp req = Inr inputs \<and> bi_confidence inputs = ConfidenceUnresolved)))"

lemma reconcile_suppressed:
  assumes "suppressed r inp req"
  shows "\<exists>why st0. reconcileWorkload r inp req st = returnError (deleteWorkloadAIBOM inp why st0) \<and>
    cl_aibom st0 = cl_aibom st \<and> cl_emitted st0 = cl_emitted st"
proof -
  obtain ns where ns: "ci_namespace inp = Found ns" and
    verdict: "\<not> namespaceOptedIn (ci_snapshot inp) ns \<or> \<not> kindAllowed (ci_snapshot inp) req \<or>
      (\<exists>w. ownerOutcome r inp req = OwnerTracked w) \<or>
      (\<exists>inputs. scraped r inp req = Inr inputs \<and> bi_confidence inputs = ConfidenceUnresolved)"
    using assms by (auto simp: suppressed_def)
  consider (notOptedIn) "\<not> namespaceOptedIn (ci_snapshot inp) ns"
    | (kind) "namespaceOptedIn (ci_snapshot inp) ns" "\<not> kindAllowed (ci_snapshot inp) req"
    | (owner) w where "namespaceOptedIn (ci_snapshot inp) ns" "kindAllowed (ci_snapshot inp) req" "ownerOutcome r inp req = OwnerTracked w"
    | (unmatched) inputs where "guarded r inp req" "scraped r inp req = Inr inputs" "bi_confidence inputs = ConfidenceUnresolved"
    using verdict ns unfolding guarded_def by blast
  then show ?thesis
  proof cases
    case notOptedIn
    then show ?thesis using ns
      by (simp add: reconcileWorkload_def Let_def) (intro exI conjI, rule refl, simp_all add: frame)
  next
    case kind
    then show ?thesis using ns
      by (simp add: reconcileWorkload_def) (intro exI conjI, rule refl, simp_all add: frame)
  next
    case owner
    then show ?thesis using ns
      by (simp add: reconcileWorkload_def) (intro exI conjI, rule refl, simp_all add: frame)
  next
    case unmatched
    obtain n st0 where st0: "reconcileWorkload r inp req st = scrapeWorkload r inp req n st0"
      "cl_aibom st0 = cl_aibom st" "cl_emitted st0 = cl_emitted st"
      using reconcile_guarded [OF unmatched(1), of st] by blast
    then show ?thesis using unmatched(2,3)
      by (simp add: scrapeWorkload_def scraped_def Let_def) (intro exI conjI, rule refl, simp_all add: frame)
  qed
qed

lemma suppressed_effect:
  assumes "freshReads inp st" "suppressed r inp req" "reconcileWorkload r inp req st = (st', res)"
  shows "cl_emitted st' = cl_emitted st \<and>
    (if cl_aibom st \<noteq> None \<and> (\<exists>e. ci_delete inp = DeleteError e) then cl_aibom st' = cl_aibom st \<and> (\<exists>e. res = Failed e)
     else cl_aibom st' = None \<and> res = Done)"
proof -
  obtain why st0 where st0: "returnError (deleteWorkloadAIBOM inp why st0) = (st', res)"
    "cl_aibom st0 = cl_aibom st" "cl_emitted st0 = cl_emitted st"
    using reconcile_suppressed [OF assms(2), of st] assms(3) by auto
  then have "cl_emitted st' = cl_emitted st"
    using deleteWorkloadAIBOM_emitted [of inp why st0] by (auto simp: returnError_def)
  moreover have "freshReads inp st0" using assms(1) st0(2) by (simp add: freshReads_def)
  ultimately show ?thesis using deleteWorkloadAIBOM_done [OF _ st0(1)] st0(2) by simp
qed

text \<open>
  C18. A workload whose namespace is not opted in, whose kind is not allowed, that a tracked kind owns, or in
  which the scrape finds no signal, ends without a document: if its reads are fresh, an existing AIBOM
  is deleted or the reconcile fails so that it is retried; nothing is sent to any sink.
\<close>

theorem suppressed_workload_loses_document:
  assumes "freshReads inp st" "suppressed r inp req" "reconcileWorkload r inp req st = (st', res)"
  shows "cl_emitted st' = cl_emitted st \<and>
    (if cl_aibom st \<noteq> None \<and> (\<exists>e. ci_delete inp = DeleteError e) then cl_aibom st' = cl_aibom st \<and> (\<exists>e. res = Failed e)
     else cl_aibom st' = None \<and> res = Done)"
  using suppressed_effect [OF assms] .

text \<open>What \<^verbatim>\<open>SetControllerReference\<close> promises: only the owner references of the resource change.\<close>

definition setsOwnerOnly :: "WorkloadReconcileRequest \<Rightarrow> bool" where
  "setsOwnerOnly req \<longleftrightarrow> (\<forall>a a'. rq_setOwnerReference req a = Inr a' \<longrightarrow> ab_spec a' = ab_spec a \<and> ab_status a' = ab_status a)"

text \<open>The document of a reconcile, and the calls of the sinks that carry it.\<close>

definition documentOf :: "'s WorkloadReconciler \<Rightarrow> 's cluster_input \<Rightarrow> WorkloadReconcileRequest \<Rightarrow> BOMInputs \<Rightarrow> build_error + Document" where
  "documentOf r inp req inputs = Build (wr_encode r) (wr_sha256 r) (ci_clock inp 2) (Some (withOwned req inputs))
     ((rq_bomBuildOptions (withCategory inputs req))\<lparr>bo_ownedWorkloads := ownedStrings (rq_owned req)\<rparr>)"

definition metaOf :: "'s cluster_input \<Rightarrow> WorkloadReconcileRequest \<Rightarrow> BOMInputs \<Rightarrow> Document \<Rightarrow> SinkMeta" where
  "metaOf inp req inputs doc = sinkMeta doc (rq_workload (withCategory inputs req)) (ci_clock inp 3)"

lemma withCategory_sel [simp]:
  "rq_owned (withCategory i req) = rq_owned req" "rq_setOwnerReference (withCategory i req) = rq_setOwnerReference req"
  "rq_generation (withCategory i req) = rq_generation req" "withOwned (withCategory i req) = withOwned req"
  "w_kind (rq_workload (withCategory i req)) = w_kind (rq_workload req)"
  "w_name (rq_workload (withCategory i req)) = w_name (rq_workload req)"
  "w_namespace (rq_workload (withCategory i req)) = w_namespace (rq_workload req)"
  by (auto simp: withCategory_def withOwned_def Let_def)

lemma specOf_withCategory [simp]: "specOf (withCategory i req) doc = specOf req doc"
  by (simp add: specOf_def Let_def)

lemma buildAndPublish_doc:
  assumes "documentOf r inp req inputs = Inr doc"
  shows "\<exists>st1. buildAndPublish r inp (withCategory inputs req) (withOwned req inputs) h prev st =
    (let results = map (sinkResultOf r inp doc (metaOf inp req inputs doc)) (sn_externalSinks (ci_snapshot inp));
         status = fullStatus r inp (withCategory inputs req) (withOwned req inputs) h prev doc results
     in case createOrUpdate inp (\<lambda>a. rq_setOwnerReference req (a\<lparr>ab_spec := specOf req doc\<rparr>)) st1 of
          (st3, Inl e) \<Rightarrow> (st3, Failed (''create-or-update AIBOM: '' @ e))
        | (st3, Inr aibom) \<Rightarrow>
            writeStatus r inp (withCategory inputs req) ''update AIBOM status'' (aibom\<lparr>ab_status := status\<rparr>)
              (if anySinkFailed results then RequeueAfter SinkRetryRequeueAfter else Done) st3) \<and>
    cl_emitted st1 = cl_emitted st @ map (\<lambda>s. (s, doc, metaOf inp req inputs doc)) (sn_externalSinks (ci_snapshot inp)) \<and>
    cl_aibom st1 = cl_aibom st"
proof -
  obtain results st1 where em: "emitToExternalSinks r inp (Some doc) (rq_workload (withCategory inputs req)) (sn_externalSinks (ci_snapshot inp)) st = (results, st1)"
    by fastforce
  note res = emitToExternalSinks_results [OF em, folded metaOf_def]
  show ?thesis
    using assms em res
    by (intro exI [of _ "countExtractionErrors r (bi_errors (withOwned req inputs)) st1"])
      (simp add: buildAndPublish_def documentOf_def Let_def frame)
qed

lemma buildAndPublish_effect:
  assumes "documentOf r inp req inputs = Inr doc" "setsOwnerOnly req"
    "buildAndPublish r inp (withCategory inputs req) (withOwned req inputs) h prev st = (st', res)"
  shows "cl_emitted st' = cl_emitted st @ map (\<lambda>s. (s, doc, metaOf inp req inputs doc)) (sn_externalSinks (ci_snapshot inp)) \<and>
    (cl_aibom st' = cl_aibom st \<or> (\<exists>a. cl_aibom st' = Some a \<and> ab_spec a = specOf req doc))"
proof -
  obtain st1 where st1: "buildAndPublish r inp (withCategory inputs req) (withOwned req inputs) h prev st =
      (let results = map (sinkResultOf r inp doc (metaOf inp req inputs doc)) (sn_externalSinks (ci_snapshot inp));
           status = fullStatus r inp (withCategory inputs req) (withOwned req inputs) h prev doc results
       in case createOrUpdate inp (\<lambda>a. rq_setOwnerReference req (a\<lparr>ab_spec := specOf req doc\<rparr>)) st1 of
            (st3, Inl e) \<Rightarrow> (st3, Failed (''create-or-update AIBOM: '' @ e))
          | (st3, Inr aibom) \<Rightarrow>
              writeStatus r inp (withCategory inputs req) ''update AIBOM status'' (aibom\<lparr>ab_status := status\<rparr>)
                (if anySinkFailed results then RequeueAfter SinkRetryRequeueAfter else Done) st3)"
    "cl_emitted st1 = cl_emitted st @ map (\<lambda>s. (s, doc, metaOf inp req inputs doc)) (sn_externalSinks (ci_snapshot inp))"
    "cl_aibom st1 = cl_aibom st"
    using buildAndPublish_doc [OF assms(1), of h prev st] by blast
  obtain st3 out where cu: "createOrUpdate inp (\<lambda>a. rq_setOwnerReference req (a\<lparr>ab_spec := specOf req doc\<rparr>)) st1 = (st3, out)"
    by fastforce
  have em: "cl_emitted st3 = cl_emitted st1"
    using createOrUpdate_emitted [of inp "\<lambda>a. rq_setOwnerReference req (a\<lparr>ab_spec := specOf req doc\<rparr>)" st1] cu by simp
  show ?thesis
  proof (cases out)
    case (Inl e)
    then have "st' = st3" using assms(3) st1(1) cu by (simp add: Let_def)
    moreover have "cl_aibom st3 = cl_aibom st1" using cu Inl by (auto simp: createOrUpdate_def split: sum.splits option.splits)
    ultimately show ?thesis using em st1 by simp
  next
    case (Inr a)
    have a: "ab_spec a = specOf req doc" "cl_aibom st3 = Some a"
      using cu Inr assms(2) by (auto simp: createOrUpdate_def setsOwnerOnly_def split: sum.splits option.splits)
    then show ?thesis using assms(3) st1 cu Inr em
      by (auto simp: Let_def writeStatus_def frame split: status_answer.splits)
  qed
qed

lemma fastPath_emitted [frame]: "cl_emitted (fst (fastPath r inp req inputs a st)) = cl_emitted st"
  by (simp add: fastPath_def Let_def frame)

lemma publishWorkload_effect:
  assumes "publishWorkload r inp req inputs st = (st', res)" "setsOwnerOnly req" "freshReads inp st"
  shows "(cl_emitted st' = cl_emitted st \<and> (cl_aibom st = None \<longrightarrow> cl_aibom st' = None)) \<or>
    (\<exists>doc. documentOf r inp req inputs = Inr doc \<and>
      cl_emitted st' = cl_emitted st @ map (\<lambda>s. (s, doc, metaOf inp req inputs doc)) (sn_externalSinks (ci_snapshot inp)) \<and>
      (cl_aibom st' = cl_aibom st \<or> (\<exists>a. cl_aibom st' = Some a \<and> ab_spec a = specOf req doc)))"
proof (cases "HashBOMInputs (wr_marshal r) (wr_sha256 r) (Some (withOwned req inputs))")
  case (Inl e)
  then show ?thesis using assms(1) by (simp add: publishWorkload_def Let_def)
next
  case (Inr h)
  have build: ?thesis if b: "buildAndPublish r inp (withCategory inputs req) (withOwned req inputs) h prev st = (st', res)" for prev
  proof (cases "documentOf r inp req inputs")
    case (Inl e)
    then have "st' = persistFailureStatus r inp (withCategory inputs req) ''BuildFailed'' (''BOM build failed: '' @ buildError_str e) st"
      using b by (simp add: buildAndPublish_def documentOf_def)
    then show ?thesis using persistFailureStatus_creates_nothing [OF assms(3)] by (simp add: frame)
  next
    case (Inr doc)
    then show ?thesis using buildAndPublish_effect [OF Inr assms(2) b] by blast
  qed
  show ?thesis
  proof (cases "cl_aibom st")
    case None
    then show ?thesis using assms(1,3) Inr build by (simp add: publishWorkload_def Let_def freshReads_def)
  next
    case (Some a)
    then have branches: "(st', res) =
       (if as_inputHash (ab_status a) \<noteq> '''' \<and> as_inputHash (ab_status a) = h then fastPath r inp (withCategory inputs req) (withOwned req inputs) a st
        else if as_lastReconciled (ab_status a) = None then (st, RequeueAfter BootstrapRaceRequeueAfter)
        else buildAndPublish r inp (withCategory inputs req) (withOwned req inputs) h (ab_status a) st)"
      using assms(1,3) Inr unfolding publishWorkload_def Let_def withCategory_sel freshReads_def by simp
    consider "(st', res) = fastPath r inp (withCategory inputs req) (withOwned req inputs) a st"
      | "(st', res) = (st, RequeueAfter BootstrapRaceRequeueAfter)"
      | "(st', res) = buildAndPublish r inp (withCategory inputs req) (withOwned req inputs) h (ab_status a) st"
      using branches by (meson)
    then show ?thesis
    proof cases
      case 1
      then have "cl_emitted st' = cl_emitted st"
        using fastPath_emitted [of r inp "withCategory inputs req" "withOwned req inputs" a st] by (metis fst_conv)
      then show ?thesis using Some by simp
    next
      case 2
      then show ?thesis by simp
    next
      case 3
      then show ?thesis using build by metis
    qed
  qed
qed


subsection \<open>Delivery over a run of reconciles\<close>

text \<open>A run with fresh reads, with the results the reconciles return to the queue.\<close>

definition fresh :: "'s cluster_input \<Rightarrow> 's cluster_state \<Rightarrow> 's cluster_input" where
  "fresh inp st = (let a = (case cl_aibom st of None \<Rightarrow> NotFound | Some x \<Rightarrow> Found x) in inp\<lparr>ci_get := a, ci_failureGet := a\<rparr>)"

fun runWorkload ::
  "'s WorkloadReconciler \<Rightarrow> WorkloadReconcileRequest \<Rightarrow> 's cluster_input list \<Rightarrow> 's cluster_state \<Rightarrow> 's cluster_state \<times> reconcile_result list" where
  "runWorkload r req [] st = (st, [])"
| "runWorkload r req (inp # inps) st =
    (let (st1, res) = reconcileWorkload r (fresh inp st) req st; (st2, ress) = runWorkload r req inps st1 in (st2, res # ress))"

lemma fresh_frame [simp]:
  "detected r (fresh inp st) req = detected r inp req" "documentOf r (fresh inp st) = documentOf r inp"
  "metaOf (fresh inp st) = metaOf inp" "ci_snapshot (fresh inp st) = ci_snapshot inp" "ci_upsert (fresh inp st) = ci_upsert inp"
  "ci_statusUpdate (fresh inp st) = ci_statusUpdate inp" "sinkResultOf r (fresh inp st) = sinkResultOf r inp"
  "scraped r (fresh inp st) req = scraped r inp req" "guarded r (fresh inp st) req = guarded r inp req"
  "ci_setCondition (fresh inp st) = ci_setCondition inp" "ci_clock (fresh inp st) = ci_clock inp"
  by (simp_all add: fresh_def Let_def detected_def guarded_def ownerOutcome_def scraped_def documentOf_def metaOf_def sinkResultOf_def fun_eq_iff)

lemma fresh_get [simp]:
  "ci_get (fresh inp st) = (case cl_aibom st of None \<Rightarrow> NotFound | Some x \<Rightarrow> Found x)"
  "ci_failureGet (fresh inp st) = ci_get (fresh inp st)"
  by (simp_all add: fresh_def Let_def)

definition storedHash :: "'s cluster_state \<Rightarrow> string" where
  "storedHash st = (case cl_aibom st of None \<Rightarrow> '''' | Some a \<Rightarrow> as_inputHash (ab_status a))"

definition settled :: "'s cluster_state \<Rightarrow> bool" where
  "settled st \<longleftrightarrow> (\<forall>a. cl_aibom st = Some a \<longrightarrow> as_lastReconciled (ab_status a) \<noteq> None)"

definition setsOwner :: "WorkloadReconcileRequest \<Rightarrow> bool" where
  "setsOwner req \<longleftrightarrow> (\<forall>a. \<exists>a'. rq_setOwnerReference req a = Inr a' \<and> ab_spec a' = ab_spec a \<and> ab_status a' = ab_status a)"

text \<open>A reconcile in which nothing but a sink fails, for inputs with hash \<open>h\<close>.\<close>

definition steady :: "'s WorkloadReconciler \<Rightarrow> WorkloadReconcileRequest \<Rightarrow> string \<Rightarrow> 's cluster_input \<Rightarrow> bool" where
  "steady r req h inp \<longleftrightarrow> (\<exists>inputs doc. detected r inp req inputs \<and>
     HashBOMInputs (wr_marshal r) (wr_sha256 r) (Some (withOwned req inputs)) = Inr h \<and>
     documentOf r inp req inputs = Inr doc \<and> ci_upsert inp = None \<and> ci_statusUpdate inp = StatusOK)"

text \<open>The sink calls of a full reconcile, and whether some sink does not accept.\<close>

definition deliveries :: "'s WorkloadReconciler \<Rightarrow> WorkloadReconcileRequest \<Rightarrow> 's cluster_input \<Rightarrow> ('s \<times> Document \<times> SinkMeta) list" where
  "deliveries r req inp = (case scraped r inp req of Inl _ \<Rightarrow> []
     | Inr inputs \<Rightarrow> (case documentOf r inp req inputs of Inl _ \<Rightarrow> []
        | Inr doc \<Rightarrow> map (\<lambda>s. (s, doc, metaOf inp req inputs doc)) (sn_externalSinks (ci_snapshot inp))))"

fun accepts :: "emit_answer \<Rightarrow> bool" where
  "accepts (Emitted _ err) = (err = None)"
| "accepts (Panicked _) = False"

definition rejected :: "'s WorkloadReconciler \<Rightarrow> WorkloadReconcileRequest \<Rightarrow> 's cluster_input \<Rightarrow> bool" where
  "rejected r req inp \<longleftrightarrow> (\<exists>(s, doc, meta) \<in> set (deliveries r req inp). \<not> accepts (ci_emit inp s doc meta))"

lemma deliveries_fresh [simp]:
  "deliveries r req (fresh inp st) = deliveries r req inp" "rejected r req (fresh inp st) = rejected r req inp"
proof -
  show d: "deliveries r req (fresh inp st) = deliveries r req inp"
    by (simp add: deliveries_def split: sum.split)
  have "ci_emit (fresh inp st) = ci_emit inp" by (simp add: fresh_def Let_def)
  then show "rejected r req (fresh inp st) = rejected r req inp" by (simp add: rejected_def d)
qed

lemma sinkResult_err: "sr_err (sinkResultOf r inp doc meta s) = None \<longleftrightarrow> accepts (ci_emit inp s doc meta)"
  by (cases "ci_emit inp s doc meta") (simp_all add: sinkResultOf_def)

lemma recordExtractionErrors_sel [simp]:
  "as_inputHash (recordExtractionErrors findC s p errs th) = as_inputHash s"
  "as_lastReconciled (recordExtractionErrors findC s p errs th) = as_lastReconciled s"
  by (auto simp: recordExtractionErrors_def Let_def split: option.split)

lemma fullStatus_sel:
  "as_inputHash (fullStatus r inp req inputs h prev doc results) = (if anySinkFailed results then '''' else h)"
  "as_lastReconciled (fullStatus r inp req inputs h prev doc results) = Some (ci_clock inp 4)"
  by (simp_all add: fullStatus_def Let_def BuildStatus_def)

lemma fastPath_ok:
  assumes "ci_statusUpdate inp = StatusOK"
  shows "\<exists>st' s. fastPath r inp req inputs a st = (st', Done) \<and> cl_aibom st' = Some (a\<lparr>ab_status := s\<rparr>) \<and> cl_emitted st' = cl_emitted st \<and>
    s = recordExtractionErrors (wr_findCondition r) (BuildFastPathStatus (ci_clock inp 2) (Some (ab_status a)) (rq_generation req))
          (as_consecutiveErrors (ab_status a)) (bi_errors inputs) (sn_staleThresholdReconciles (ci_snapshot inp))"
  using assms by (simp add: fastPath_def writeStatus_def Let_def frame)

lemma buildAndPublish_ok:
  assumes "documentOf r inp req inputs = Inr doc" "setsOwner req" "ci_upsert inp = None" "ci_statusUpdate inp = StatusOK"
    "deliveries r req inp = map (\<lambda>s. (s, doc, metaOf inp req inputs doc)) (sn_externalSinks (ci_snapshot inp))"
  shows "\<exists>st' a. buildAndPublish r inp (withCategory inputs req) (withOwned req inputs) h prev st =
      (st', if rejected r req inp then RequeueAfter SinkRetryRequeueAfter else Done) \<and>
    cl_emitted st' = cl_emitted st @ deliveries r req inp \<and> cl_aibom st' = Some a \<and>
    as_inputHash (ab_status a) = (if rejected r req inp then '''' else h) \<and> as_lastReconciled (ab_status a) \<noteq> None"
proof -
  let ?results = "map (sinkResultOf r inp doc (metaOf inp req inputs doc)) (sn_externalSinks (ci_snapshot inp))"
  have failed: "anySinkFailed ?results = rejected r req inp"
    unfolding anySinkFailed_def list_ex_iff rejected_def assms(5) sinkResult_err [of r, symmetric] by auto
  obtain st1 where st1: "buildAndPublish r inp (withCategory inputs req) (withOwned req inputs) h prev st =
      (let results = ?results; status = fullStatus r inp (withCategory inputs req) (withOwned req inputs) h prev doc results
       in case createOrUpdate inp (\<lambda>a. rq_setOwnerReference req (a\<lparr>ab_spec := specOf req doc\<rparr>)) st1 of
            (st3, Inl e) \<Rightarrow> (st3, Failed (''create-or-update AIBOM: '' @ e))
          | (st3, Inr aibom) \<Rightarrow>
              writeStatus r inp (withCategory inputs req) ''update AIBOM status'' (aibom\<lparr>ab_status := status\<rparr>)
                (if anySinkFailed results then RequeueAfter SinkRetryRequeueAfter else Done) st3)"
    "cl_emitted st1 = cl_emitted st @ deliveries r req inp"
    using buildAndPublish_doc [OF assms(1), of h prev st] assms(5) by auto
  obtain a where "rq_setOwnerReference req ((case cl_aibom st1 of Some a \<Rightarrow> a | None \<Rightarrow> emptyAIBOM)\<lparr>ab_spec := specOf req doc\<rparr>) = Inr a"
    using assms(2) unfolding setsOwner_def by blast
  then have "createOrUpdate inp (\<lambda>a. rq_setOwnerReference req (a\<lparr>ab_spec := specOf req doc\<rparr>)) st1 = (st1\<lparr>cl_aibom := Some a\<rparr>, Inr a)"
    by (simp add: createOrUpdate_def assms(3))
  then show ?thesis using st1 failed
    by (simp add: Let_def writeStatus_def assms(4) fullStatus_sel)
qed

lemma steady_step:
  assumes "steady r req h inp" "settled st" "setsOwner req" "h \<noteq> ''''"
  shows "\<exists>st'. reconcileWorkload r (fresh inp st) req st =
      (st', if storedHash st \<noteq> h \<and> rejected r req inp then RequeueAfter SinkRetryRequeueAfter else Done) \<and> settled st' \<and>
    cl_emitted st' = cl_emitted st @ (if storedHash st = h then [] else deliveries r req inp) \<and>
    storedHash st' = (if storedHash st \<noteq> h \<and> rejected r req inp then '''' else h)"
proof -
  obtain inputs doc where s: "detected r inp req inputs" "documentOf r inp req inputs = Inr doc"
    "HashBOMInputs (wr_marshal r) (wr_sha256 r) (Some (withOwned req inputs)) = Inr h" "ci_upsert inp = None" "ci_statusUpdate inp = StatusOK"
    using assms(1) by (auto simp: steady_def)
  have del: "deliveries r req inp = map (\<lambda>s. (s, doc, metaOf inp req inputs doc)) (sn_externalSinks (ci_snapshot inp))"
    using s(1,2) by (simp add: deliveries_def detected_def)
  have "detected r (fresh inp st) req inputs" using s(1) by simp
  then obtain st0 where st0: "reconcileWorkload r (fresh inp st) req st = publishWorkload r (fresh inp st) req inputs st0"
    "cl_aibom st0 = cl_aibom st" "cl_emitted st0 = cl_emitted st" using reconcile_detected by blast
  show ?thesis
  proof (cases "storedHash st = h")
    case True
    then obtain a where a: "cl_aibom st = Some a" "as_inputHash (ab_status a) = h"
      using assms(4) by (auto simp: storedHash_def split: option.splits)
    obtain st' s' where fp: "fastPath r (fresh inp st) (withCategory inputs req) (withOwned req inputs) a st0 = (st', Done)"
      "cl_aibom st' = Some (a\<lparr>ab_status := s'\<rparr>)" "cl_emitted st' = cl_emitted st0"
      "as_inputHash s' = h" "as_lastReconciled s' \<noteq> None"
      using fastPath_ok [of "fresh inp st" r "withCategory inputs req" "withOwned req inputs" a st0] s(5) a(2)
      by (auto simp: BuildFastPathStatus_def)
    have "publishWorkload r (fresh inp st) req inputs st0 = (st', Done)"
      unfolding publishWorkload_def Let_def withCategory_sel using s(3) a assms(4) fp(1) by simp
    then show ?thesis using st0 fp True by (simp add: settled_def storedHash_def)
  next
    case False
    let ?prev = "case cl_aibom st of None \<Rightarrow> emptyStatus | Some a \<Rightarrow> ab_status a"
    obtain st' a where bp: "buildAndPublish r (fresh inp st) (withCategory inputs req) (withOwned req inputs) h ?prev st0 =
        (st', if rejected r req inp then RequeueAfter SinkRetryRequeueAfter else Done)"
      "cl_emitted st' = cl_emitted st0 @ deliveries r req inp" "cl_aibom st' = Some a"
      "as_inputHash (ab_status a) = (if rejected r req inp then '''' else h)" "as_lastReconciled (ab_status a) \<noteq> None"
      using buildAndPublish_ok [of r "fresh inp st" req inputs doc h ?prev st0] s(2,4,5) assms(3) del by auto
    have "publishWorkload r (fresh inp st) req inputs st0 = buildAndPublish r (fresh inp st) (withCategory inputs req) (withOwned req inputs) h ?prev st0"
    proof (cases "cl_aibom st")
      case None
      then show ?thesis unfolding publishWorkload_def Let_def withCategory_sel using s(3) by simp
    next
      case (Some b)
      then obtain t where "as_inputHash (ab_status b) \<noteq> h" "as_lastReconciled (ab_status b) = Some t"
        using False assms(2) by (auto simp: storedHash_def settled_def)
      then show ?thesis unfolding publishWorkload_def Let_def withCategory_sel using s(3) Some by simp
    qed
    then show ?thesis using st0 bp False by (simp add: settled_def storedHash_def)
  qed
qed

lemma delivered_run:
  assumes "\<forall>inp \<in> set inps. steady r req h inp" "settled st" "setsOwner req" "h \<noteq> ''''" "storedHash st = h"
  shows "\<exists>st'. runWorkload r req inps st = (st', map (\<lambda>_. Done) inps) \<and> cl_emitted st' = cl_emitted st \<and> storedHash st' = h"
  using assms(1,2,5)
proof (induction inps arbitrary: st)
  case (Cons inp inps)
  have "steady r req h inp" using Cons.prems(1) by simp
  from steady_step [OF this Cons.prems(2) assms(3,4)] Cons.prems(3)
  obtain st1 where st1: "reconcileWorkload r (fresh inp st) req st = (st1, Done)" "settled st1"
    "cl_emitted st1 = cl_emitted st" "storedHash st1 = h" by auto
  from Cons.IH [OF _ st1(2,4)] Cons.prems(1)
  obtain st' where "runWorkload r req inps st1 = (st', map (\<lambda>_. Done) inps)" "cl_emitted st' = cl_emitted st1" "storedHash st' = h" by auto
  then show ?case using st1 by simp
qed simp

text \<open>The reconciles of a run up to and including the first that every sink accepts.\<close>

definition attempts :: "('a \<Rightarrow> bool) \<Rightarrow> 'a list \<Rightarrow> 'a list" where
  "attempts p xs = takeWhile p xs @ take 1 (dropWhile p xs)"

text \<open>
  C20. A document that some sink did not accept is sent again: while the inputs keep their hash and nothing else
  fails, every reconcile sends the document to every sink and asks to be run again after a minute,
  until one in which all sinks accept; exactly then the hash is stored, and from then on nothing is
  sent and nothing is scheduled. If all sinks accept at once, each is called once.
\<close>

theorem delivery_retried_until_accepted:
  assumes "\<forall>inp \<in> set inps. steady r req h inp" "settled st" "setsOwner req" "h \<noteq> ''''" "storedHash st \<noteq> h"
  shows "\<exists>st'. runWorkload r req inps st =
      (st', map (\<lambda>_. RequeueAfter (60 * 10 ^ 9)) (takeWhile (rejected r req) inps) @ map (\<lambda>_. Done) (dropWhile (rejected r req) inps)) \<and>
    cl_emitted st' = cl_emitted st @ concat (map (deliveries r req) (attempts (rejected r req) inps)) \<and>
    (storedHash st' = h \<longleftrightarrow> (\<exists>inp \<in> set inps. \<not> rejected r req inp))"
  using assms(1,2,5)
proof (induction inps arbitrary: st)
  case Nil
  then show ?case by (simp add: attempts_def)
next
  case (Cons inp inps)
  have "steady r req h inp" using Cons.prems(1) by simp
  from steady_step [OF this Cons.prems(2) assms(3,4)] Cons.prems(3)
  obtain st1 where st1: "reconcileWorkload r (fresh inp st) req st =
      (st1, if rejected r req inp then RequeueAfter SinkRetryRequeueAfter else Done)" "settled st1"
    "cl_emitted st1 = cl_emitted st @ deliveries r req inp" "storedHash st1 = (if rejected r req inp then '''' else h)" by auto
  show ?case
  proof (cases "rejected r req inp")
    case True
    have "storedHash st1 \<noteq> h" using st1(4) True assms(4) by simp
    from Cons.IH [OF _ st1(2) this] Cons.prems(1)
    obtain st' where "runWorkload r req inps st1 = (st', map (\<lambda>_. RequeueAfter (60 * 10 ^ 9)) (takeWhile (rejected r req) inps) @
         map (\<lambda>_. Done) (dropWhile (rejected r req) inps))"
      "cl_emitted st' = cl_emitted st1 @ concat (map (deliveries r req) (attempts (rejected r req) inps))"
      "storedHash st' = h \<longleftrightarrow> (\<exists>inp \<in> set inps. \<not> rejected r req inp)" by auto
    then show ?thesis using st1 True by (simp add: attempts_def SinkRetryRequeueAfter_def)
  next
    case False
    have "\<forall>inp \<in> set inps. steady r req h inp" "storedHash st1 = h" using Cons.prems(1) st1(4) False by auto
    from delivered_run [OF this(1) st1(2) assms(3,4) this(2)]
    obtain st' where "runWorkload r req inps st1 = (st', map (\<lambda>_. Done) inps)" "cl_emitted st' = cl_emitted st1" "storedHash st' = h"
      by blast
    then show ?thesis using st1 False by (simp add: attempts_def)
  qed
qed

subsection \<open>Statuses that stay wrong\<close>

definition conditionAt :: "find_condition \<Rightarrow> AIBOMStatus \<Rightarrow> string \<Rightarrow> Condition option" where
  "conditionAt findC s t = map_option (\<lambda>i. as_conditions s ! i) (findC (as_conditions s) t)"

text \<open>What \<^verbatim>\<open>SetStatusCondition\<close> promises: the condition of that type is the new one.\<close>

definition sets_condition :: "find_condition \<Rightarrow> set_condition \<Rightarrow> bool" where
  "sets_condition findC setC \<longleftrightarrow> (\<forall>c cs. \<exists>i. findC (setC c cs) (cond_type c) = Some i \<and>
     cond_status (setC c cs ! i) = cond_status c \<and> cond_reason (setC c cs ! i) = cond_reason c)"

lemma update_other_condition:
  assumes "finds_first findC" "findC cs u = Some i" "\<And>c. cond_type (f c) = cond_type c" "t \<noteq> u"
  shows "map_option (\<lambda>j. cs[i := f (cs ! i)] ! j) (findC (cs[i := f (cs ! i)]) t) = map_option (\<lambda>j. cs ! j) (findC cs t)"
proof -
  have i: "i < length cs" "cond_type (cs ! i) = u" using finds_first_Some [OF assms(1,2)] by auto
  have "map cond_type (cs[i := f (cs ! i)]) = map cond_type cs" by (simp add: map_update assms(3) list_update_same_conv i)
  then have same: "findC (cs[i := f (cs ! i)]) t = findC cs t" by (rule finds_first_types [OF assms(1)])
  show ?thesis
  proof (cases "findC cs t")
    case (Some j)
    then have "j \<noteq> i" using finds_first_Some [OF assms(1) Some] i assms(4) by auto
    then show ?thesis using same Some by simp
  qed (simp add: same)
qed

lemma recordExtractionErrors_condition:
  assumes "finds_first findC" "t \<noteq> ''Stale''"
  shows "conditionAt findC (recordExtractionErrors findC s p errs th) t = conditionAt findC s t"
proof (cases "findC (as_conditions s) ''Stale''")
  case None
  then show ?thesis by (simp add: recordExtractionErrors_def Let_def conditionAt_def)
next
  case (Some i)
  let ?th = "if th \<le> 0 then 3 else th"
  let ?msg = "''workload produced extraction errors on '' @ showInt (p + 1) @ '' consecutive reconciles; errors: '' @ extractionErrorList errs"
  define f where "f c = (if errs = [] then
      (if cond_reason c = reasonExtractionErrorsPersistent
       then (staleTransition (as_lastReconciled s) False c)\<lparr>cond_reason := ''BOMGenerated'', cond_message := freshMessage\<rparr> else c)
    else if p + 1 < ?th then c
    else (staleTransition (as_lastReconciled s) True c)\<lparr>cond_reason := reasonExtractionErrorsPersistent, cond_message := ?msg\<rparr>)" for c
  have "cond_type (f c) = cond_type c" for c by (simp add: f_def)
  note upd = update_other_condition [OF assms(1) Some this assms(2)]
  have "as_conditions (recordExtractionErrors findC s p errs th) = (as_conditions s)[i := f (as_conditions s ! i)]"
    using Some by (auto simp: recordExtractionErrors_def Let_def f_def)
  then show ?thesis using upd by (simp add: conditionAt_def)
qed

lemma fast_step:
  assumes "steady r req h inp" "h \<noteq> ''''" "cl_aibom st = Some a" "as_inputHash (ab_status a) = h" "finds_first (wr_findCondition r)"
  shows "\<exists>st' a'. reconcileWorkload r (fresh inp st) req st = (st', Done) \<and> cl_aibom st' = Some a' \<and> as_inputHash (ab_status a') = h \<and>
    cl_emitted st' = cl_emitted st \<and>
    conditionAt (wr_findCondition r) (ab_status a') ''Ready'' = conditionAt (wr_findCondition r) (ab_status a) ''Ready''"
proof -
  obtain inputs where s: "detected r inp req inputs" "HashBOMInputs (wr_marshal r) (wr_sha256 r) (Some (withOwned req inputs)) = Inr h"
    "ci_statusUpdate inp = StatusOK" using assms(1) by (auto simp: steady_def)
  have "detected r (fresh inp st) req inputs" using s(1) by simp
  then obtain st0 where st0: "reconcileWorkload r (fresh inp st) req st = publishWorkload r (fresh inp st) req inputs st0"
    "cl_emitted st0 = cl_emitted st" using reconcile_detected by blast
  obtain st' s' where fp: "fastPath r (fresh inp st) (withCategory inputs req) (withOwned req inputs) a st0 = (st', Done)"
    "cl_aibom st' = Some (a\<lparr>ab_status := s'\<rparr>)" "cl_emitted st' = cl_emitted st0"
    "s' = recordExtractionErrors (wr_findCondition r) (BuildFastPathStatus (ci_clock inp 2) (Some (ab_status a)) (rq_generation req))
       (as_consecutiveErrors (ab_status a)) (bi_errors (withOwned req inputs)) (sn_staleThresholdReconciles (ci_snapshot inp))"
    using fastPath_ok [of "fresh inp st" r "withCategory inputs req" "withOwned req inputs" a st0] s(3) by auto
  have "publishWorkload r (fresh inp st) req inputs st0 = (st', Done)"
    unfolding publishWorkload_def Let_def withCategory_sel using s(2) assms(2,3,4) fp(1) by simp
  moreover have "conditionAt (wr_findCondition r) s' ''Ready'' = conditionAt (wr_findCondition r) (ab_status a) ''Ready''"
    unfolding fp(4) by (simp add: recordExtractionErrors_condition [OF assms(5)]) (simp add: conditionAt_def BuildFastPathStatus_def)
  moreover have "as_inputHash s' = h" using assms(4) by (simp add: fp(4) BuildFastPathStatus_def)
  ultimately show ?thesis using st0 fp(2,3) by simp
qed

lemma fast_run:
  assumes "\<forall>inp \<in> set inps. steady r req h inp" "h \<noteq> ''''" "cl_aibom st = Some a" "as_inputHash (ab_status a) = h" "finds_first (wr_findCondition r)"
  shows "\<exists>st' a'. runWorkload r req inps st = (st', map (\<lambda>_. Done) inps) \<and> cl_aibom st' = Some a' \<and> cl_emitted st' = cl_emitted st \<and>
    conditionAt (wr_findCondition r) (ab_status a') ''Ready'' = conditionAt (wr_findCondition r) (ab_status a) ''Ready''"
  using assms(1,3,4)
proof (induction inps arbitrary: st a)
  case (Cons inp inps)
  have "steady r req h inp" using Cons.prems(1) by simp
  from fast_step [OF this assms(2) Cons.prems(2,3) assms(5)]
  obtain st1 a1 where st1: "reconcileWorkload r (fresh inp st) req st = (st1, Done)" "cl_aibom st1 = Some a1"
    "as_inputHash (ab_status a1) = h" "cl_emitted st1 = cl_emitted st"
    "conditionAt (wr_findCondition r) (ab_status a1) ''Ready'' = conditionAt (wr_findCondition r) (ab_status a) ''Ready''" by blast
  from Cons.IH [OF _ st1(2,3)] Cons.prems(1)
  obtain st' a' where "runWorkload r req inps st1 = (st', map (\<lambda>_. Done) inps)" "cl_aibom st' = Some a'" "cl_emitted st' = cl_emitted st1"
    "conditionAt (wr_findCondition r) (ab_status a') ''Ready'' = conditionAt (wr_findCondition r) (ab_status a1) ''Ready''" by auto
  then show ?case using st1 by simp
qed simp

text \<open>
  C21. A failed scrape leaves Ready false for good while the inputs do not change: after one failure whose
  status write succeeds, every later reconcile succeeds, finds the stored hash and takes the fast path,
  which keeps the conditions; the resource says ScrapeFailed although the workload is scraped.
\<close>

theorem ready_stuck_after_scrape_failure:
  assumes "finds_first (wr_findCondition r)" "sets_condition (wr_findCondition r) (ci_setCondition inp0)"
    "guarded r inp0 req" "scraped r inp0 req = Inl e" "ci_statusUpdate inp0 = StatusOK"
    "cl_aibom st = Some a" "as_inputHash (ab_status a) = h" "h \<noteq> ''''" "\<forall>inp \<in> set inps. steady r req h inp"
  shows "\<exists>st' a' c. runWorkload r req (inp0 # inps) st = (st', Failed (''scrape: '' @ error_str e) # map (\<lambda>_. Done) inps) \<and>
    cl_aibom st' = Some a' \<and> conditionAt (wr_findCondition r) (ab_status a') ''Ready'' = Some c \<and>
    \<not> cond_status c \<and> cond_reason c = ''ScrapeFailed'' \<and> cl_emitted st' = cl_emitted st"
proof -
  have "guarded r (fresh inp0 st) req" using assms(3) by simp
  then obtain ns st0 where st0: "reconcileWorkload r (fresh inp0 st) req st = scrapeWorkload r (fresh inp0 st) req ns st0"
    "cl_emitted st0 = cl_emitted st" using reconcile_guarded by blast
  let ?c = "\<lparr>cond_type = ''Ready'', cond_status = False, cond_reason = ''ScrapeFailed'', cond_observedGeneration = rq_generation req,
     cond_message = ''scrape failed: '' @ error_str e, cond_lastTransitionTime = 0\<rparr>"
  let ?s = "(ab_status a)\<lparr>as_consecutiveErrors := as_consecutiveErrors (ab_status a) + 1,
     as_conditions := ci_setCondition inp0 ?c (as_conditions (ab_status a))\<rparr>"
  obtain c where c: "conditionAt (wr_findCondition r) ?s ''Ready'' = Some c" "\<not> cond_status c" "cond_reason c = ''ScrapeFailed''"
    using assms(2) [unfolded sets_condition_def, rule_format, of ?c "as_conditions (ab_status a)"] by (auto simp: conditionAt_def)
  define st1 where "st1 = st0\<lparr>cl_aibom := Some (a\<lparr>ab_status := ?s\<rparr>)\<rparr>"
  have "scraped r (fresh inp0 st) req = Inl e" using assms(4) by simp
  then have step: "reconcileWorkload r (fresh inp0 st) req st = (st1, Failed (''scrape: '' @ error_str e))"
    using assms(5,6) st0 by (simp add: scrapeWorkload_def scraped_def Let_def persistFailureStatus_def st1_def)
  have "cl_aibom st1 = Some (a\<lparr>ab_status := ?s\<rparr>)" "as_inputHash (ab_status (a\<lparr>ab_status := ?s\<rparr>)) = h"
    using assms(7) by (simp_all add: st1_def)
  from fast_run [OF assms(9,8) this assms(1)]
  obtain st' a' where "runWorkload r req inps st1 = (st', map (\<lambda>_. Done) inps)" "cl_aibom st' = Some a'" "cl_emitted st' = cl_emitted st1"
    "conditionAt (wr_findCondition r) (ab_status a') ''Ready'' = conditionAt (wr_findCondition r) ?s ''Ready''" by auto
  then show ?thesis using step c st0(2) by (simp add: st1_def)
qed

lemma deferred_step:
  assumes "detected r inp req inputs" "HashBOMInputs (wr_marshal r) (wr_sha256 r) (Some (withOwned req inputs)) = Inr h"
    "cl_aibom st = Some a" "ab_status a = emptyStatus"
  shows "\<exists>st'. reconcileWorkload r (fresh inp st) req st = (st', RequeueAfter BootstrapRaceRequeueAfter) \<and>
    cl_aibom st' = Some a \<and> cl_emitted st' = cl_emitted st"
proof -
  have "detected r (fresh inp st) req inputs" using assms(1) by simp
  then obtain st0 where st0: "reconcileWorkload r (fresh inp st) req st = publishWorkload r (fresh inp st) req inputs st0"
    "cl_aibom st0 = cl_aibom st" "cl_emitted st0 = cl_emitted st" using reconcile_detected by blast
  have "publishWorkload r (fresh inp st) req inputs st0 = (st0, RequeueAfter BootstrapRaceRequeueAfter)"
    unfolding publishWorkload_def Let_def withCategory_sel using assms(2-4) by (simp add: emptyStatus_def)
  then show ?thesis using st0 assms(3) by simp
qed

lemma deferred_run:
  assumes "\<forall>inp \<in> set inps. \<exists>inputs h. detected r inp req inputs \<and>
      HashBOMInputs (wr_marshal r) (wr_sha256 r) (Some (withOwned req inputs)) = Inr h"
    "cl_aibom st = Some a" "ab_status a = emptyStatus"
  shows "\<exists>st'. runWorkload r req inps st = (st', map (\<lambda>_. RequeueAfter BootstrapRaceRequeueAfter) inps) \<and>
    cl_aibom st' = Some a \<and> cl_emitted st' = cl_emitted st"
  using assms(1,2)
proof (induction inps arbitrary: st)
  case (Cons inp inps)
  obtain inputs h where "detected r inp req inputs" "HashBOMInputs (wr_marshal r) (wr_sha256 r) (Some (withOwned req inputs)) = Inr h"
    using Cons.prems(1) by auto
  from deferred_step [OF this Cons.prems(2) assms(3)]
  obtain st1 where st1: "reconcileWorkload r (fresh inp st) req st = (st1, RequeueAfter BootstrapRaceRequeueAfter)"
    "cl_aibom st1 = Some a" "cl_emitted st1 = cl_emitted st" by blast
  from Cons.IH [OF _ st1(2)] Cons.prems(1)
  obtain st' where "runWorkload r req inps st1 = (st', map (\<lambda>_. RequeueAfter BootstrapRaceRequeueAfter) inps)"
    "cl_aibom st' = Some a" "cl_emitted st' = cl_emitted st1" by auto
  then show ?case using st1 by simp
qed simp

text \<open>
  C22. If the first status write of a new AIBOM fails, by an error or a conflict, the workload is never
  reported: the resource exists without a status, every later reconcile takes that for the race with
  its creator and asks to be run again after two seconds, whatever the API would answer, and nothing
  is built, sent or written any more.
\<close>

theorem bootstrap_deferred_forever:
  assumes "cl_aibom st = None" "detected r inp0 req inputs0"
    "HashBOMInputs (wr_marshal r) (wr_sha256 r) (Some (withOwned req inputs0)) = Inr h0" "documentOf r inp0 req inputs0 = Inr doc"
    "ci_upsert inp0 = None" "ci_statusUpdate inp0 \<noteq> StatusOK" "setsOwner req"
    "\<forall>inp \<in> set inps. \<exists>inputs h. detected r inp req inputs \<and>
      HashBOMInputs (wr_marshal r) (wr_sha256 r) (Some (withOwned req inputs)) = Inr h"
  shows "\<exists>st' a res. runWorkload r req (inp0 # inps) st = (st', res # map (\<lambda>_. RequeueAfter (2 * 10 ^ 9)) inps) \<and>
    cl_aibom st' = Some a \<and> ab_status a = emptyStatus \<and> cl_emitted st' = cl_emitted st @ deliveries r req inp0"
proof -
  have "detected r (fresh inp0 st) req inputs0" using assms(2) by simp
  then obtain st0 where st0: "reconcileWorkload r (fresh inp0 st) req st = publishWorkload r (fresh inp0 st) req inputs0 st0"
    "cl_aibom st0 = None" "cl_emitted st0 = cl_emitted st" using reconcile_detected assms(1) by metis
  have pub: "publishWorkload r (fresh inp0 st) req inputs0 st0 =
      buildAndPublish r (fresh inp0 st) (withCategory inputs0 req) (withOwned req inputs0) h0 emptyStatus st0"
    unfolding publishWorkload_def Let_def withCategory_sel using assms(1,3) by simp
  have doc: "documentOf r (fresh inp0 st) req inputs0 = Inr doc" using assms(4) by simp
  have del: "deliveries r req inp0 = map (\<lambda>s. (s, doc, metaOf inp0 req inputs0 doc)) (sn_externalSinks (ci_snapshot inp0))"
    using assms(2,4) by (simp add: deliveries_def detected_def)
  obtain st1 where st1: "buildAndPublish r (fresh inp0 st) (withCategory inputs0 req) (withOwned req inputs0) h0 emptyStatus st0 =
      (let results = map (sinkResultOf r (fresh inp0 st) doc (metaOf (fresh inp0 st) req inputs0 doc)) (sn_externalSinks (ci_snapshot (fresh inp0 st)));
           status = fullStatus r (fresh inp0 st) (withCategory inputs0 req) (withOwned req inputs0) h0 emptyStatus doc results
       in case createOrUpdate (fresh inp0 st) (\<lambda>a. rq_setOwnerReference req (a\<lparr>ab_spec := specOf req doc\<rparr>)) st1 of
            (st3, Inl e) \<Rightarrow> (st3, Failed (''create-or-update AIBOM: '' @ e))
          | (st3, Inr aibom) \<Rightarrow>
              writeStatus r (fresh inp0 st) (withCategory inputs0 req) ''update AIBOM status'' (aibom\<lparr>ab_status := status\<rparr>)
                (if anySinkFailed results then RequeueAfter SinkRetryRequeueAfter else Done) st3)"
    "cl_emitted st1 = cl_emitted st0 @ deliveries r req inp0" "cl_aibom st1 = cl_aibom st0"
    using buildAndPublish_doc [OF doc, of h0 emptyStatus st0] del by auto
  obtain a where a: "rq_setOwnerReference req (emptyAIBOM\<lparr>ab_spec := specOf req doc\<rparr>) = Inr a" "ab_status a = emptyStatus"
    using assms(7) unfolding setsOwner_def by (metis (no_types) AIBOM.select_convs(3) AIBOM.surjective AIBOM.update_convs(1) emptyAIBOM_def)
  then have "createOrUpdate (fresh inp0 st) (\<lambda>a. rq_setOwnerReference req (a\<lparr>ab_spec := specOf req doc\<rparr>)) st1 = (st1\<lparr>cl_aibom := Some a\<rparr>, Inr a)"
    using st1(3) st0(2) by (simp add: createOrUpdate_def assms(5))
  then obtain st3 res where st3: "reconcileWorkload r (fresh inp0 st) req st = (st3, res)" "cl_aibom st3 = Some a"
    "cl_emitted st3 = cl_emitted st @ deliveries r req inp0"
    using st0 pub st1 assms(6) by (cases "ci_statusUpdate inp0") (simp_all add: Let_def writeStatus_def frame)
  from deferred_run [OF assms(8) st3(2) a(2)]
  obtain st' where "runWorkload r req inps st3 = (st', map (\<lambda>_. RequeueAfter BootstrapRaceRequeueAfter) inps)"
    "cl_aibom st' = Some a" "cl_emitted st' = cl_emitted st3" by blast
  then show ?thesis using st3 a(2) by (simp add: BootstrapRaceRequeueAfter_def)
qed

subsection \<open>A concrete workload\<close>

text \<open>One sink, a scraper that fails at negative times, and a namespace that is opted in by a label.\<close>

definition exampleReconciler :: "string WorkloadReconciler" where
  "exampleReconciler = \<lparr>wr_scraper = \<lparr>scr_name = ''multi.spec'', scr_handlesKind = (\<lambda>_. True),
       scr_scrape = (\<lambda>t w cfg. if t < 0 then Inl (ErrorString ''timeout'') else Inr (emptyInputs\<lparr>bi_confidence := ConfidenceDeclared\<rparr>))\<rparr>,
     wr_tracked = None, wr_hasRecorder = True, wr_sinkName = (\<lambda>s. s), wr_sinkWriteOnly = (\<lambda>_. False),
     wr_marshal = (\<lambda>_. Inr ''json''), wr_encode = (\<lambda>_. Inr ''{}''), wr_sha256 = (\<lambda>s. s), wr_findCondition = firstOfType\<rparr>"

definition exampleSnap :: "string Snapshot" where
  "exampleSnap = \<lparr>sn_patterns = None, sn_verification = None, sn_inlineThreshold = 0, sn_staleThresholdReconciles = 3,
     sn_namespaceSelector = Some \<lparr>sel_matches = (\<lambda>m. map_of m ''aibom'' = Some ''true''), sel_string = ''aibom=true''\<rparr>,
     sn_workloadKinds = AllWorkloadKinds, sn_logLevel = '''', sn_externalSinks = [''gcs''], sn_source = SourceConfigCR,
     sn_sourceGeneration = 1, sn_loadedAt = 0\<rparr>"

definition exampleSet :: set_condition where
  "exampleSet c cs = c # filter (\<lambda>x. cond_type x \<noteq> cond_type c) cs"

definition exampleInput :: "string \<Rightarrow> time \<Rightarrow> emit_answer \<Rightarrow> status_answer \<Rightarrow> string cluster_input" where
  "exampleInput label now ans wr = \<lparr>ci_snapshot = exampleSnap, ci_liveAllowlist = AllWorkloadKinds, ci_clock = (\<lambda>_. now),
     ci_namespace = Found \<lparr>ns_name = ''ml'', ns_uid = ''n'', ns_labels = [(''aibom'', label)], ns_terminating = False\<rparr>,
     ci_owner = \<lparr>oe_controllerOf = controllerRef, oe_parseGV = (\<lambda>_. Inl ''bad''), oe_get = (\<lambda>_ _. Inl (Unreadable ''none''))\<rparr>,
     ci_get = NotFound, ci_failureGet = NotFound, ci_delete = Deleted, ci_upsert = None, ci_statusUpdate = wr,
     ci_setCondition = exampleSet, ci_emit = (\<lambda>_ _ _. ans)\<rparr>"

definition exampleRequest :: WorkloadReconcileRequest where
  "exampleRequest = \<lparr>rq_workload = \<lparr>w_kind = \<lparr>wk_group = ''apps'', wk_version = ''v1'', wk_kind = ''Deployment''\<rparr>, w_category = CategoryInference,
       w_namespace = ''ml'', w_name = ''llm'', w_uid = ''u'', w_object = None, w_pods = []\<rparr>,
     rq_aibomName = ''apps-deployment-llm'', rq_setOwnerReference = (\<lambda>a. Inr (a\<lparr>ab_owner := Some ''u''\<rparr>)),
     rq_bomBuildOptions = exampleOptions, rq_summaryOptions = exampleOptionsSummary, rq_generation = 1, rq_owned = []\<rparr>"

definition exampleState :: "AIBOM option \<Rightarrow> string cluster_state" where
  "exampleState a = \<lparr>cl_aibom = a, cl_observer = None, cl_outcomes = [], cl_extractionErrors = [], cl_sinkEmitFailures = [],
     cl_persistFailures = [], cl_events = [], cl_emitted = []\<rparr>"

definition exampleHash :: string where "exampleHash = hexEncode ''json''"

lemma exampleHash_nonempty: "exampleHash \<noteq> ''''" by (simp add: exampleHash_def hexEncode_def)

lemma example_setsOwner: "setsOwner exampleRequest" "setsOwnerOnly exampleRequest"
  by (simp_all add: setsOwner_def setsOwnerOnly_def exampleRequest_def)

lemma example_guarded: "guarded exampleReconciler (exampleInput ''true'' now ans wr) exampleRequest"
  by (simp add: guarded_def exampleInput_def namespaceOptedIn_def kindAllowed_def ownerOutcome_def exampleReconciler_def
      exampleSnap_def resolveTrackedOwner_def Allows_def AllWorkloadKinds_def)

lemma example_detected:
  "0 \<le> now \<Longrightarrow> detected exampleReconciler (exampleInput ''true'' now ans wr) exampleRequest (emptyInputs\<lparr>bi_confidence := ConfidenceDeclared\<rparr>)"
  using example_guarded by (simp add: detected_def scraped_def exampleInput_def exampleReconciler_def)

lemma example_hash:
  "HashBOMInputs (wr_marshal exampleReconciler) (wr_sha256 exampleReconciler) (Some (withOwned exampleRequest inputs)) = Inr exampleHash"
  by (simp add: exampleReconciler_def HashBOMInputs_view exampleHash_def)

lemma example_document:
  "\<exists>doc. documentOf exampleReconciler inp exampleRequest (emptyInputs\<lparr>bi_confidence := ConfidenceDeclared\<rparr>) = Inr doc"
  unfolding documentOf_def exampleReconciler_def
  by (simp add: Build_document(1) withOwned_def emptyInputs_def)

lemma example_steady:
  assumes "0 \<le> now"
  shows "steady exampleReconciler exampleRequest exampleHash (exampleInput ''true'' now ans StatusOK)"
proof -
  have "ci_upsert (exampleInput ''true'' now ans StatusOK) = None" "ci_statusUpdate (exampleInput ''true'' now ans StatusOK) = StatusOK"
    by (simp_all add: exampleInput_def)
  then show ?thesis using example_detected [OF assms] example_hash example_document unfolding steady_def by blast
qed

lemma example_rejected:
  "0 \<le> now \<Longrightarrow> rejected exampleReconciler exampleRequest (exampleInput ''true'' now ans wr) = (\<not> accepts ans)"
proof -
  assume now: "0 \<le> now"
  obtain doc where "documentOf exampleReconciler (exampleInput ''true'' now ans wr) exampleRequest (emptyInputs\<lparr>bi_confidence := ConfidenceDeclared\<rparr>) = Inr doc"
    using example_document by blast
  moreover have "scraped exampleReconciler (exampleInput ''true'' now ans wr) exampleRequest = Inr (emptyInputs\<lparr>bi_confidence := ConfidenceDeclared\<rparr>)"
    using example_detected [OF now] by (simp add: detected_def)
  ultimately show ?thesis
    by (simp add: rejected_def deliveries_def) (simp add: exampleInput_def exampleSnap_def)
qed

lemma example_sets: "sets_condition firstOfType exampleSet"
  by (auto simp: sets_condition_def exampleSet_def firstOfType_def)

theorem suppressed_workload_loses_document_witness:
  "\<exists>st' res. reconcileWorkload exampleReconciler (fresh (exampleInput ''false'' 0 (Emitted '''' None) StatusOK) (exampleState (Some emptyAIBOM)))
     exampleRequest (exampleState (Some emptyAIBOM)) = (st', res) \<and> cl_aibom st' = None \<and> res = Done"
proof -
  let ?inp = "fresh (exampleInput ''false'' 0 (Emitted '''' None) StatusOK) (exampleState (Some emptyAIBOM))"
  obtain st' res where run: "reconcileWorkload exampleReconciler ?inp exampleRequest (exampleState (Some emptyAIBOM)) = (st', res)" by fastforce
  have "freshReads ?inp (exampleState (Some emptyAIBOM))" "ci_delete ?inp = Deleted"
    by (simp_all add: freshReads_def) (simp_all add: fresh_def exampleInput_def Let_def)
  moreover have "suppressed exampleReconciler ?inp exampleRequest"
    by (simp add: suppressed_def fresh_def exampleInput_def Let_def namespaceOptedIn_def exampleSnap_def)
  ultimately show ?thesis using suppressed_workload_loses_document [OF _ _ run] run by simp
qed


theorem delivery_retried_until_accepted_witness:
  "\<exists>st'. runWorkload exampleReconciler exampleRequest
      [exampleInput ''true'' 0 (Emitted '''' (Some ''503'')) StatusOK, exampleInput ''true'' 60 (Emitted ''gs://b/x'' None) StatusOK,
       exampleInput ''true'' 70 (Emitted ''gs://b/x'' None) StatusOK] (exampleState None) =
      (st', [RequeueAfter (60 * 10 ^ 9), Done, Done]) \<and> storedHash st' = exampleHash"
proof -
  let ?inps = "[exampleInput ''true'' 0 (Emitted '''' (Some ''503'')) StatusOK, exampleInput ''true'' 60 (Emitted ''gs://b/x'' None) StatusOK,
       exampleInput ''true'' 70 (Emitted ''gs://b/x'' None) StatusOK]"
  have "\<forall>inp \<in> set ?inps. steady exampleReconciler exampleRequest exampleHash inp" by (simp add: example_steady)
  moreover have "settled (exampleState None)" "storedHash (exampleState None) \<noteq> exampleHash"
    using exampleHash_nonempty by (simp_all add: settled_def storedHash_def exampleState_def)
  ultimately obtain st' where "runWorkload exampleReconciler exampleRequest ?inps (exampleState None) =
      (st', map (\<lambda>_. RequeueAfter (60 * 10 ^ 9)) (takeWhile (rejected exampleReconciler exampleRequest) ?inps) @
        map (\<lambda>_. Done) (dropWhile (rejected exampleReconciler exampleRequest) ?inps))"
    "storedHash st' = exampleHash \<longleftrightarrow> (\<exists>inp \<in> set ?inps. \<not> rejected exampleReconciler exampleRequest inp)"
    using delivery_retried_until_accepted [OF _ _ example_setsOwner(1) exampleHash_nonempty] by blast
  then show ?thesis by (simp add: example_rejected)
qed

theorem ready_stuck_after_scrape_failure_witness:
  "\<exists>st' a' c. runWorkload exampleReconciler exampleRequest
      [exampleInput ''true'' (- 1) (Emitted '''' None) StatusOK, exampleInput ''true'' 10 (Emitted '''' None) StatusOK]
      (exampleState (Some (emptyAIBOM\<lparr>ab_status := emptyStatus\<lparr>as_inputHash := exampleHash\<rparr>\<rparr>))) = (st', [Failed ''scrape: timeout'', Done]) \<and>
    cl_aibom st' = Some a' \<and> conditionAt firstOfType (ab_status a') ''Ready'' = Some c \<and> \<not> cond_status c"
proof -
  have find: "wr_findCondition exampleReconciler = firstOfType" by (simp add: exampleReconciler_def)
  have set: "ci_setCondition (exampleInput ''true'' (- 1) (Emitted '''' None) StatusOK) = exampleSet"
    "ci_statusUpdate (exampleInput ''true'' (- 1) (Emitted '''' None) StatusOK) = StatusOK" by (simp_all add: exampleInput_def)
  have fails: "scraped exampleReconciler (exampleInput ''true'' (- 1) (Emitted '''' None) StatusOK) exampleRequest = Inl (ErrorString ''timeout'')"
    by (simp add: scraped_def exampleReconciler_def exampleInput_def)
  let ?a = "emptyAIBOM\<lparr>ab_status := emptyStatus\<lparr>as_inputHash := exampleHash\<rparr>\<rparr>"
  have "cl_aibom (exampleState (Some ?a)) = Some ?a" by (simp add: exampleState_def)
  from ready_stuck_after_scrape_failure [OF _ _ example_guarded fails _ this, of exampleHash "[exampleInput ''true'' 10 (Emitted '''' None) StatusOK]"]
  show ?thesis using firstOfType example_sets set exampleHash_nonempty example_steady [of 10] unfolding find by auto
qed

theorem bootstrap_deferred_forever_witness:
  "\<exists>st' a res. runWorkload exampleReconciler exampleRequest
      [exampleInput ''true'' 0 (Emitted '''' None) (StatusError ''etcd timeout''), exampleInput ''true'' 10 (Emitted '''' None) StatusOK]
      (exampleState None) = (st', [res, RequeueAfter (2 * 10 ^ 9)]) \<and> cl_aibom st' = Some a \<and> ab_status a = emptyStatus"
proof -
  have none: "cl_aibom (exampleState None) = None" by (simp add: exampleState_def)
  obtain doc where doc: "documentOf exampleReconciler (exampleInput ''true'' 0 (Emitted '''' None) (StatusError ''etcd timeout'')) exampleRequest
      (emptyInputs\<lparr>bi_confidence := ConfidenceDeclared\<rparr>) = Inr doc" using example_document by blast
  have ans: "ci_upsert (exampleInput ''true'' 0 (Emitted '''' None) (StatusError ''etcd timeout'')) = None"
    "ci_statusUpdate (exampleInput ''true'' 0 (Emitted '''' None) (StatusError ''etcd timeout'')) \<noteq> StatusOK"
    by (simp_all add: exampleInput_def)
  have later: "\<forall>inp \<in> set [exampleInput ''true'' 10 (Emitted '''' None) StatusOK]. \<exists>inputs h. detected exampleReconciler inp exampleRequest inputs \<and>
      HashBOMInputs (wr_marshal exampleReconciler) (wr_sha256 exampleReconciler) (Some (withOwned exampleRequest inputs)) = Inr h"
    using example_detected [of 10] example_hash by auto
  from bootstrap_deferred_forever [OF none example_detected example_hash doc ans example_setsOwner(1) later]
  show ?thesis by auto
qed

end
