(* ===== verification/Workload_Watches.thy ===== *)
theory Workload_Watches
  imports Ownership Config_Types Scraper_Hash
begin

text \<open>
  The rest of \<^verbatim>\<open>internal/controller/workload_reconciler.go\<close>: the name of a workload's AIBOM, and what
  decides when a workload is reconciled again, that is the predicates of the namespace and pod watches
  and the functions that map their events to workloads. A predicate that leaves an event type out
  accepts it; an event whose object has another type carries \<open>None\<close>.
\<close>

subsection \<open>Names\<close>

definition trimRight :: "string \<Rightarrow> string \<Rightarrow> string" where
  "trimRight s cutset = rev (dropWhile (\<lambda>c. c \<in> set cutset) (rev s))"

definition aibomNamePrefix :: "string \<Rightarrow> string \<Rightarrow> string" where
  "aibomNamePrefix grp kind = (let base = toLower kind @ ''-'' in
     if grp \<noteq> '''' \<and> grp \<noteq> ''core'' then replaceByte (CHR ''.'') (CHR ''-'') (toLower grp) @ ''-'' @ base else base)"

definition AIBOMNameForWorkload :: "(string \<Rightarrow> string) \<Rightarrow> string \<Rightarrow> string \<Rightarrow> string \<Rightarrow> string" where
  "AIBOMNameForWorkload sha grp kind name =
    (let base = aibomNamePrefix grp kind @ name in
     if length base > 253 - 13
     then trimRight (take (253 - 13) base) ''-.'' @ ''-'' @ take 12 (hexEncode (sha (grp @ ''/'' @ kind @ ''/'' @ name)))
     else base)"

subsection \<open>Watch events\<close>

datatype 'o watch_event = CreateEvent 'o | UpdateEvent 'o 'o | DeleteEvent 'o | GenericEvent 'o

definition nsMatches :: "'s Snapshot \<Rightarrow> namespace \<Rightarrow> bool" where
  "nsMatches snap ns = (case sn_namespaceSelector snap of None \<Rightarrow> False | Some sel \<Rightarrow> sel_matches sel (ns_labels ns))"

fun NamespaceWatchPredicate :: "'s Snapshot \<Rightarrow> namespace option watch_event \<Rightarrow> bool" where
  "NamespaceWatchPredicate snap (UpdateEvent (Some old) (Some new)) = (nsMatches snap old \<noteq> nsMatches snap new)"
| "NamespaceWatchPredicate snap (UpdateEvent _ _) = False"
| "NamespaceWatchPredicate snap (CreateEvent o') = (case o' of None \<Rightarrow> False | Some ns \<Rightarrow> nsMatches snap ns)"
| "NamespaceWatchPredicate snap (DeleteEvent o') = (case o' of None \<Rightarrow> False | Some ns \<Rightarrow> nsMatches snap ns)"
| "NamespaceWatchPredicate snap (GenericEvent _) = True"

type_synonym request = "string \<times> string"

definition requestOf :: "object_meta \<Rightarrow> request" where
  "requestOf m = (om_namespace m, om_name m)"

definition EnqueueWorkloadsForNamespace :: "(string \<Rightarrow> string + object_meta list) \<Rightarrow> namespace option \<Rightarrow> request list" where
  "EnqueueWorkloadsForNamespace listIn obj = (case obj of None \<Rightarrow> []
     | Some ns \<Rightarrow> (case listIn (ns_name ns) of Inl _ \<Rightarrow> [] | Inr items \<Rightarrow> map requestOf items))"

definition podStatusesChanged :: "container_status list \<Rightarrow> container_status list \<Rightarrow> bool" where
  "podStatusesChanged old new =
    (if length old \<noteq> length new then True
     else (let oldMap = fold (\<lambda>s m. m(cs_name s \<mapsto> s)) old Map.empty in
       list_ex (\<lambda>s. case oldMap (cs_name s) of None \<Rightarrow> True | Some o' \<Rightarrow> cs_imageID o' \<noteq> cs_imageID s) new))"

fun PodImageIDChangedPredicate :: "pod option watch_event \<Rightarrow> bool" where
  "PodImageIDChangedPredicate (UpdateEvent (Some old) (Some new)) =
    (podStatusesChanged (pod_containerStatuses old) (pod_containerStatuses new) \<or>
     podStatusesChanged (pod_initContainerStatuses old) (pod_initContainerStatuses new))"
| "PodImageIDChangedPredicate (UpdateEvent _ _) = False"
| "PodImageIDChangedPredicate (CreateEvent _) = True"
| "PodImageIDChangedPredicate (DeleteEvent _) = True"
| "PodImageIDChangedPredicate (GenericEvent _) = True"

text \<open>\<open>getRS\<close> reads a ReplicaSet of the pod's namespace.\<close>

definition EnqueueWorkloadForPod ::
  "(owner_reference list \<Rightarrow> owner_reference option) \<Rightarrow> (string \<Rightarrow> string + object_meta) \<Rightarrow> string \<Rightarrow> pod option \<Rightarrow> request list" where
  "EnqueueWorkloadForPod controllerOf getRS targetKind obj = (case obj of None \<Rightarrow> []
     | Some p \<Rightarrow> (case controllerOf (om_ownerReferences (pod_meta p)) of None \<Rightarrow> []
        | Some ref \<Rightarrow>
           if or_kind ref = ''ReplicaSet'' \<and> or_apiVersion ref = ''apps/v1'' \<and> targetKind = ''Deployment''
           then (case getRS (or_name ref) of Inl _ \<Rightarrow> []
              | Inr rs \<Rightarrow> (case controllerOf (om_ownerReferences rs) of None \<Rightarrow> []
                  | Some parent \<Rightarrow> if or_kind parent = ''Deployment'' then [(om_namespace (pod_meta p), or_name parent)] else []))
           else if or_kind ref = targetKind then [(om_namespace (pod_meta p), or_name ref)]
           else []))"

subsection \<open>Which names are distinct\<close>

lemma length_trimRight: "length (trimRight s cutset) \<le> length s"
  using length_dropWhile_le [of "\<lambda>c. c \<in> set cutset" "rev s"] by (simp add: trimRight_def)

lemma known_prefixes:
  "map (\<lambda>k. aibomNamePrefix (gk_group k) (gk_kind k)) KnownWorkloadKinds =
    [''apps-deployment-'', ''apps-statefulset-'', ''apps-daemonset-'', ''batch-job-'', ''batch-cronjob-'',
     ''serving-kserve-io-inferenceservice-'', ''nvidia-com-dynamographdeployment-'', ''nvidia-com-dynamocomponentdeployment-'',
     ''apps-nvidia-com-nimservice-'', ''leaderworkerset-x-k8s-io-leaderworkerset-'', ''disaggregatedset-x-k8s-io-disaggregatedset-'']"
  by (simp add: KnownWorkloadKinds_def gkind_def Let_def aibomNamePrefix_def toLower_def toLowerByte_def replaceByte_def char_of_eq_iff)

lemma known_prefixes_free:
  assumes "k \<in> set KnownWorkloadKinds" "k' \<in> set KnownWorkloadKinds"
    "hasPrefix (aibomNamePrefix (gk_group k) (gk_kind k) @ n) (aibomNamePrefix (gk_group k') (gk_kind k'))"
    "length (aibomNamePrefix (gk_group k') (gk_kind k')) \<le> length (aibomNamePrefix (gk_group k) (gk_kind k))"
  shows "k = k'"
proof -
  let ?f = "\<lambda>k. aibomNamePrefix (gk_group k) (gk_kind k)"
  have "list_all (\<lambda>p. list_all (\<lambda>p'. hasPrefix p p' \<longrightarrow> p = p') (map ?f KnownWorkloadKinds)) (map ?f KnownWorkloadKinds)"
    unfolding known_prefixes by (simp add: hasPrefix_def)
  moreover have "distinct (map ?f KnownWorkloadKinds)" unfolding known_prefixes by simp
  ultimately have "\<forall>k \<in> set KnownWorkloadKinds. \<forall>k' \<in> set KnownWorkloadKinds. hasPrefix (?f k) (?f k') \<longrightarrow> k = k'"
    by (auto simp: list_all_iff distinct_map inj_on_def)
  moreover have "hasPrefix (aibomNamePrefix (gk_group k) (gk_kind k)) (aibomNamePrefix (gk_group k') (gk_kind k'))"
    using assms(3,4) by (simp add: hasPrefix_def)
  ultimately show ?thesis using assms(1,2) by blast
qed

lemma short_name: "length (aibomNamePrefix g k @ n) \<le> 240 \<Longrightarrow> AIBOMNameForWorkload sha g k n = aibomNamePrefix g k @ n"
  by (simp add: AIBOMNameForWorkload_def Let_def)

text \<open>
  The name of an AIBOM is at most 253 bytes long, as the API demands, and two workloads of known kinds
  whose names were not shortened never share an AIBOM: their kinds and names are equal if their AIBOM
  names are.
\<close>

theorem aibom_names:
  "length (AIBOMNameForWorkload sha grp kind name) \<le> 253 \<and>
   (\<forall>k \<in> set KnownWorkloadKinds. \<forall>k' \<in> set KnownWorkloadKinds. \<forall>n n'.
      length (aibomNamePrefix (gk_group k) (gk_kind k) @ n) \<le> 240 \<and> length (aibomNamePrefix (gk_group k') (gk_kind k') @ n') \<le> 240 \<and>
      AIBOMNameForWorkload sha (gk_group k) (gk_kind k) n = AIBOMNameForWorkload sha (gk_group k') (gk_kind k') n' \<longrightarrow> k = k' \<and> n = n')"
proof (intro conjI ballI allI impI)
  show "length (AIBOMNameForWorkload sha grp kind name) \<le> 253"
  proof (cases "length (aibomNamePrefix grp kind @ name) > 240")
    case True
    let ?t = "trimRight (take 240 (aibomNamePrefix grp kind @ name)) ''-.''"
    have "length ?t \<le> 240" by (rule order_trans [OF length_trimRight]) simp
    moreover have "AIBOMNameForWorkload sha grp kind name =
        ?t @ ''-'' @ take 12 (hexEncode (sha (grp @ ''/'' @ kind @ ''/'' @ name)))"
      using True by (simp add: AIBOMNameForWorkload_def Let_def)
    ultimately show ?thesis by simp
  qed (simp add: AIBOMNameForWorkload_def Let_def)
next
  fix k k' n n'
  assume k: "k \<in> set KnownWorkloadKinds" "k' \<in> set KnownWorkloadKinds"
    and "length (aibomNamePrefix (gk_group k) (gk_kind k) @ n) \<le> 240 \<and> length (aibomNamePrefix (gk_group k') (gk_kind k') @ n') \<le> 240 \<and>
      AIBOMNameForWorkload sha (gk_group k) (gk_kind k) n = AIBOMNameForWorkload sha (gk_group k') (gk_kind k') n'"
  then have eq: "aibomNamePrefix (gk_group k) (gk_kind k) @ n = aibomNamePrefix (gk_group k') (gk_kind k') @ n'"
    using short_name by metis
  show kk: "k = k'"
  proof (cases "length (aibomNamePrefix (gk_group k') (gk_kind k')) \<le> length (aibomNamePrefix (gk_group k) (gk_kind k))")
    case True
    have "hasPrefix (aibomNamePrefix (gk_group k) (gk_kind k) @ n) (aibomNamePrefix (gk_group k') (gk_kind k'))"
      unfolding eq by simp
    then show ?thesis using known_prefixes_free [OF k] True by blast
  next
    case False
    have "hasPrefix (aibomNamePrefix (gk_group k') (gk_kind k') @ n') (aibomNamePrefix (gk_group k) (gk_kind k))"
      unfolding eq [symmetric] by simp
    then show ?thesis using known_prefixes_free [OF k(2,1)] False by (metis nat_le_linear)
  qed
  then show "n = n'" using eq by simp
qed

theorem aibom_names_witness:
  "AIBOMNameForWorkload (\<lambda>s. s) ''apps'' ''Deployment'' ''a-b'' \<noteq> AIBOMNameForWorkload (\<lambda>s. s) ''batch'' ''Job'' ''a-b''"
proof -
  have "gkind ''apps'' ''Deployment'' \<in> set KnownWorkloadKinds" "gkind ''batch'' ''Job'' \<in> set KnownWorkloadKinds"
    by (simp_all add: KnownWorkloadKinds_def)
  moreover have "length (aibomNamePrefix ''apps'' ''Deployment'' @ ''a-b'') \<le> 240" "length (aibomNamePrefix ''batch'' ''Job'' @ ''a-b'') \<le> 240"
    by code_simp+
  ultimately show ?thesis
    using aibom_names [of "\<lambda>s. s" "''apps''" "''Deployment''" "''a-b''", THEN conjunct2, rule_format,
      of "gkind ''apps'' ''Deployment''" "gkind ''batch'' ''Job''" "''a-b''" "''a-b''"] by (auto simp: gkind_def)
qed

text \<open>
  A shortened name can be the name of another workload of the same kind: the trailing dashes of the cut
  name are dropped, so that a long name of dashes gives what a short name with the hash gives.
\<close>

lemma shortened_name_collides:
  fixes sha :: "string \<Rightarrow> string"
  defines "long \<equiv> ''a'' @ replicate 245 (CHR ''-'') @ ''b''"
  shows "\<exists>short. short \<noteq> long \<and> length short \<le> 14 \<and>
    AIBOMNameForWorkload sha ''apps'' ''Deployment'' short = AIBOMNameForWorkload sha ''apps'' ''Deployment'' long"
proof -
  let ?h = "take 12 (hexEncode (sha (''apps'' @ ''/'' @ ''Deployment'' @ ''/'' @ long)))"
  let ?short = "''a'' @ ''-'' @ ?h"
  have pre: "aibomNamePrefix ''apps'' ''Deployment'' = ''apps-deployment-''" by code_simp
  have "take 240 (''apps-deployment-'' @ long) = ''apps-deployment-a'' @ replicate 223 (CHR ''-'')"
    by (simp add: long_def)
  moreover have "dropWhile (\<lambda>c. c = CHR ''-'' \<or> c = CHR ''.'') (replicate n (CHR ''-'') @ xs) =
      dropWhile (\<lambda>c. c = CHR ''-'' \<or> c = CHR ''.'') xs" for n xs
    by (induction n) simp_all
  ultimately have "trimRight (take 240 (''apps-deployment-'' @ long)) ''-.'' = ''apps-deployment-a''"
    by (simp add: trimRight_def)
  then have "AIBOMNameForWorkload sha ''apps'' ''Deployment'' long = ''apps-deployment-a-'' @ ?h"
    by (simp add: AIBOMNameForWorkload_def Let_def pre) (simp add: long_def)
  moreover have "AIBOMNameForWorkload sha ''apps'' ''Deployment'' ?short = ''apps-deployment-a-'' @ ?h"
    by (simp add: AIBOMNameForWorkload_def Let_def pre)
  moreover have "length ?short \<le> 14" by simp
  moreover have "?short \<noteq> long"
  proof
    assume "?short = long"
    then have "length ?short = 247" by (simp add: long_def)
    then show False by simp
  qed
  ultimately show ?thesis by (intro exI [of _ ?short]) simp
qed

text \<open>An update of a pod is passed on exactly if the image of some container status changed.\<close>

lemma podStatusesChanged_iff:
  assumes "distinct (map cs_name old)" "distinct (map cs_name new)"
  shows "\<not> podStatusesChanged old new \<longleftrightarrow>
    map_of (map (\<lambda>s. (cs_name s, cs_imageID s)) old) = map_of (map (\<lambda>s. (cs_name s, cs_imageID s)) new)"
proof -
  define im where "im ss = map_of (map (\<lambda>s. (cs_name s, cs_imageID s)) ss)" for ss :: "container_status list"
  have fold_map: "fold (\<lambda>s m. m(cs_name s \<mapsto> s)) ss m = m ++ map_of (rev (map (\<lambda>s. (cs_name s, s)) ss))" for ss m
    by (induction ss arbitrary: m) simp_all
  have im_iff: "im ss n = Some i \<longleftrightarrow> (\<exists>s \<in> set ss. cs_name s = n \<and> cs_imageID s = i)" if "distinct (map cs_name ss)" for ss n i
    using that by (auto simp: im_def comp_def map_of_eq_Some_iff)
  have "distinct (map fst (map (\<lambda>s. (cs_name s, s)) old))" using assms(1) by (simp add: comp_def)
  then have "map_of (rev (map (\<lambda>s. (cs_name s, s)) old)) = map_of (map (\<lambda>s. (cs_name s, s)) old)"
    by (metis map_of_perm mset_rev)
  moreover have "im old = map_option cs_imageID \<circ> map_of (map (\<lambda>s. (cs_name s, s)) old)"
    using map_of_map [of cs_imageID "map (\<lambda>s. (cs_name s, s)) old"] by (simp add: im_def comp_def)
  ultimately have old: "im old = map_option cs_imageID \<circ> fold (\<lambda>s m. m(cs_name s \<mapsto> s)) old Map.empty"
    by (simp add: fold_map)
  have unchanged: "\<not> podStatusesChanged old new \<longleftrightarrow> length old = length new \<and> (\<forall>s \<in> set new. im old (cs_name s) = Some (cs_imageID s))"
    unfolding podStatusesChanged_def Let_def old by (auto simp: list_ex_iff split: option.splits)
  have len: "length ss = card (dom (im ss))" if "distinct (map cs_name ss)" for ss
    using that distinct_card [OF that] by (simp add: im_def dom_map_of_conv_image_fst image_image)
  show ?thesis unfolding im_def [symmetric]
  proof
    assume c: "\<not> podStatusesChanged old new"
    have le: "im new \<subseteq>\<^sub>m im old"
      unfolding map_le_def
    proof
      fix n assume "n \<in> dom (im new)"
      then obtain i where i: "im new n = Some i" by blast
      then obtain s where "s \<in> set new" "cs_name s = n" "cs_imageID s = i" using im_iff [OF assms(2)] by blast
      then show "im new n = im old n" using c unchanged i by auto
    qed
    have "finite (dom (im old))" by (simp add: im_def finite_dom_map_of)
    then have "dom (im new) = dom (im old)"
      using card_subset_eq map_le_implies_dom_le [OF le] c unchanged len [OF assms(1)] len [OF assms(2)] by metis
    then show "im old = im new" using le by (metis map_le_antisym map_le_def)
  next
    assume "im old = im new"
    then show "\<not> podStatusesChanged old new"
      using unchanged len [OF assms(1)] len [OF assms(2)] im_iff [OF assms(2)] by auto
  qed
qed

end
