(* ===== verification/Workload_Controllers.thy ===== *)
theory Workload_Controllers
  imports Cr_Contracts Workload_Lifecycle Workload_Watches Watch_Runner
begin

text \<open>
  The per-kind controllers of \<^verbatim>\<open>internal/controller\<close> and their wiring in \<^verbatim>\<open>cmd/manager/main.go\<close>. A controller reads
  its object, finds the pods that belong to it and hands a request to the kind-neutral reconcile. The answers of
  the API are the fields of a \<open>ControllerEnv\<close>; \<open>request_K\<close> is the part of the \<^verbatim>\<open>Reconcile\<close> of kind \<open>K\<close> up to the
  call of \<^verbatim>\<open>reconcileWorkload\<close>, which either ends the reconcile or has a request; the request of a root kind is
  missing (\<open>None\<close>) only if the closure over the descendants did not end. \<open>reconcile_K\<close> is the whole of it.
\<close>

record 'o ControllerEnv =
  ce_get :: "'o api_result"
  ce_selector :: "gomap option"
  ce_listPods :: "gomap \<Rightarrow> string + pod list"
  ce_allPods :: "string + pod list"
  ce_lister :: lister
  ce_orders :: "nat \<Rightarrow> (string \<times> ownedNode) list \<Rightarrow> (string \<times> ownedNode) list"
  ce_setControllerReference :: "object_meta \<Rightarrow> AIBOM \<Rightarrow> string + AIBOM"
  ce_controllerName :: string
  ce_controllerVersion :: string

type_synonym typed_object = "object_meta \<times> pod_template"
type_synonym cr_object = "object_meta \<times> jobject"
type_synonym request_result = "reconcile_result + WorkloadReconcileRequest"

text \<open>The request literal that every controller writes.\<close>

definition workloadRequest ::
  "'o ControllerEnv \<Rightarrow> string \<Rightarrow> string \<Rightarrow> string \<Rightarrow> string \<Rightarrow> string \<Rightarrow> k8s_object \<Rightarrow> pod list \<Rightarrow> OwnedWorkload list \<Rightarrow>
   WorkloadReconcileRequest" where
  "workloadRequest env aibomName grp ver kind apiVersion obj pods owned = (let m = object_metadata obj in
     \<lparr>rq_workload = \<lparr>w_kind = \<lparr>wk_group = grp, wk_version = ver, wk_kind = kind\<rparr>, w_category = CategoryInference,
        w_namespace = om_namespace m, w_name = om_name m, w_uid = om_uid m, w_object = Some obj, w_pods = pods\<rparr>,
      rq_aibomName = aibomName,
      rq_setOwnerReference = ce_setControllerReference env m,
      rq_bomBuildOptions = \<lparr>bo_workloadKind = kind, bo_workloadGroup = grp, bo_workloadAPIVer = ver,
        bo_workloadNamespace = om_namespace m, bo_workloadName = om_name m, bo_workloadUID = om_uid m,
        bo_workloadCategory = category_str CategoryInference, bo_controllerName = ce_controllerName env,
        bo_controllerVersion = ce_controllerVersion env, bo_ownedWorkloads = []\<rparr>,
      rq_summaryOptions = \<lparr>so_workloadKind = kind, so_workloadAPIVersion = apiVersion, so_workloadName = om_name m,
        so_workloadNamespace = om_namespace m, so_workloadCategory = category_str CategoryInference\<rparr>,
      rq_generation = om_generation m, rq_owned = owned\<rparr>)"

text \<open>\<^verbatim>\<open>client.IgnoreNotFound\<close> on the read of the object.\<close>

definition fetched :: "'o api_result \<Rightarrow> ('o \<Rightarrow> request_result) \<Rightarrow> request_result" where
  "fetched answer k = (case answer of NotFound \<Rightarrow> Inl Done | ApiError e \<Rightarrow> Inl (Failed e) | Found x \<Rightarrow> k x)"

definition runRequest ::
  "'s WorkloadReconciler \<Rightarrow> 's cluster_input \<Rightarrow> 's cluster_state \<Rightarrow> request_result \<Rightarrow> 's cluster_state \<times> reconcile_result" where
  "runRequest r inp st q = (case q of Inl res \<Rightarrow> (st, res) | Inr req \<Rightarrow> reconcileWorkload r inp req st)"

text \<open>A pod made of a template alone, as the Job and CronJob controllers append it.\<close>

definition templatePod :: "pod_template \<Rightarrow> pod" where
  "templatePod t = \<lparr>pod_meta = emptyMeta, pod_spec = pt_spec t, pod_containerStatuses = [], pod_initContainerStatuses = []\<rparr>"

subsection \<open>Kinds with a pod selector\<close>

text \<open>The start of every \<^verbatim>\<open>listOwnedPods\<close>; \<open>wrap\<close> is what the controller puts before a list error.\<close>

definition selectedPods :: "'o ControllerEnv \<Rightarrow> string \<Rightarrow> (pod list \<Rightarrow> string + pod list) \<Rightarrow> string + pod list" where
  "selectedPods env wrap k = (case ce_selector env of
     None \<Rightarrow> Inr []
   | Some matchLabels \<Rightarrow>
       if length matchLabels = 0 then Inr []
       else (case ce_listPods env matchLabels of Inl e \<Rightarrow> Inl (wrap @ e) | Inr pods \<Rightarrow> k pods))"

definition listOwnedPods_Deployment :: "'o ControllerEnv \<Rightarrow> object_meta \<Rightarrow> string + pod list" where
  "listOwnedPods_Deployment env dep = selectedPods env ''list pods: '' (\<lambda>pods.
     case replicaSetOwnerUIDs (ce_lister env) dep of Inl e \<Rightarrow> Inl e | Inr owners \<Rightarrow> Inr (filterPodsOwnedBy pods owners))"

definition listOwnedPods_StatefulSet :: "'o ControllerEnv \<Rightarrow> object_meta \<Rightarrow> string + pod list" where
  "listOwnedPods_StatefulSet env ss = selectedPods env ''list pods: '' (\<lambda>pods. Inr (filterPodsOwnedBy pods (singleOwner (om_uid ss))))"

definition listOwnedPods_DaemonSet :: "'o ControllerEnv \<Rightarrow> object_meta \<Rightarrow> string + pod list" where
  "listOwnedPods_DaemonSet env ds = selectedPods env ''list pods: '' (\<lambda>pods. Inr (filterPodsOwnedBy pods (singleOwner (om_uid ds))))"

definition listOwnedPods_Job :: "'o ControllerEnv \<Rightarrow> object_meta \<Rightarrow> string + pod list" where
  "listOwnedPods_Job env job = selectedPods env '''' (\<lambda>pods. Inr (filterPodsOwnedBy pods (singleOwner (om_uid job))))"

definition withPods :: "string + pod list \<Rightarrow> (pod list \<Rightarrow> WorkloadReconcileRequest) \<Rightarrow> request_result" where
  "withPods answer k = (case answer of Inl e \<Rightarrow> Inl (Failed e) | Inr pods \<Rightarrow> Inr (k pods))"

definition AIBOMNameForDeployment :: "(string \<Rightarrow> string) \<Rightarrow> object_meta \<Rightarrow> string" where
  "AIBOMNameForDeployment sha dep = AIBOMNameForWorkload sha ''apps'' ''Deployment'' (om_name dep)"

definition request_Deployment :: "(string \<Rightarrow> string) \<Rightarrow> typed_object ControllerEnv \<Rightarrow> request_result" where
  "request_Deployment sha env = fetched (ce_get env) (\<lambda>(m, t).
     withPods (listOwnedPods_Deployment env m) (\<lambda>pods.
       workloadRequest env (AIBOMNameForDeployment sha m) ''apps'' ''v1'' ''Deployment'' ''apps/v1'' (Deployment m t) pods []))"

definition request_StatefulSet :: "(string \<Rightarrow> string) \<Rightarrow> typed_object ControllerEnv \<Rightarrow> request_result" where
  "request_StatefulSet sha env = fetched (ce_get env) (\<lambda>(m, t).
     withPods (listOwnedPods_StatefulSet env m) (\<lambda>pods.
       workloadRequest env (AIBOMNameForWorkload sha ''apps'' ''StatefulSet'' (om_name m)) ''apps'' ''v1'' ''StatefulSet''
         ''apps/v1'' (StatefulSet m t) pods []))"

definition request_DaemonSet :: "(string \<Rightarrow> string) \<Rightarrow> typed_object ControllerEnv \<Rightarrow> request_result" where
  "request_DaemonSet sha env = fetched (ce_get env) (\<lambda>(m, t).
     withPods (listOwnedPods_DaemonSet env m) (\<lambda>pods.
       workloadRequest env (AIBOMNameForWorkload sha ''apps'' ''DaemonSet'' (om_name m)) ''apps'' ''v1'' ''DaemonSet''
         ''apps/v1'' (DaemonSet m t) pods []))"

definition request_Job :: "(string \<Rightarrow> string) \<Rightarrow> typed_object ControllerEnv \<Rightarrow> request_result" where
  "request_Job sha env = fetched (ce_get env) (\<lambda>(m, t).
     withPods (listOwnedPods_Job env m) (\<lambda>pods.
       workloadRequest env (AIBOMNameForWorkload sha ''batch'' ''Job'' (om_name m)) ''batch'' ''v1'' ''Job''
         ''batch/v1'' (Job m t) (pods @ [templatePod t]) []))"

definition reconcile_Deployment ::
  "'s WorkloadReconciler \<Rightarrow> typed_object ControllerEnv \<Rightarrow> 's cluster_input \<Rightarrow> 's cluster_state \<Rightarrow> 's cluster_state \<times> reconcile_result" where
  "reconcile_Deployment r env inp st = runRequest r inp st (request_Deployment (wr_sha256 r) env)"

definition reconcile_StatefulSet ::
  "'s WorkloadReconciler \<Rightarrow> typed_object ControllerEnv \<Rightarrow> 's cluster_input \<Rightarrow> 's cluster_state \<Rightarrow> 's cluster_state \<times> reconcile_result" where
  "reconcile_StatefulSet r env inp st = runRequest r inp st (request_StatefulSet (wr_sha256 r) env)"

definition reconcile_DaemonSet ::
  "'s WorkloadReconciler \<Rightarrow> typed_object ControllerEnv \<Rightarrow> 's cluster_input \<Rightarrow> 's cluster_state \<Rightarrow> 's cluster_state \<times> reconcile_result" where
  "reconcile_DaemonSet r env inp st = runRequest r inp st (request_DaemonSet (wr_sha256 r) env)"

definition reconcile_Job ::
  "'s WorkloadReconciler \<Rightarrow> typed_object ControllerEnv \<Rightarrow> 's cluster_input \<Rightarrow> 's cluster_state \<Rightarrow> 's cluster_state \<times> reconcile_result" where
  "reconcile_Job r env inp st = runRequest r inp st (request_Job (wr_sha256 r) env)"

subsection \<open>Root kinds\<close>

definition fetchedRoot :: "'o api_result \<Rightarrow> ('o \<Rightarrow> request_result option) \<Rightarrow> request_result option" where
  "fetchedRoot answer k = (case answer of NotFound \<Rightarrow> Some (Inl Done) | ApiError e \<Rightarrow> Some (Inl (Failed e)) | Found x \<Rightarrow> k x)"

definition descendantsOf :: "TrackedKinds option \<Rightarrow> 'o ControllerEnv \<Rightarrow> object_meta \<Rightarrow> (OwnedWorkload list \<times> pod list) option" where
  "descendantsOf tracked env m = rootDescendants tracked (ce_lister env) (ce_allPods env) (ce_orders env) (om_uid m)"

definition request_CronJob ::
  "TrackedKinds option \<Rightarrow> (string \<Rightarrow> string) \<Rightarrow> typed_object ControllerEnv \<Rightarrow> request_result option" where
  "request_CronJob tracked sha env = fetchedRoot (ce_get env) (\<lambda>(m, t).
     map_option (\<lambda>(owned, pods). Inr (workloadRequest env (AIBOMNameForWorkload sha ''batch'' ''CronJob'' (om_name m))
         ''batch'' ''v1'' ''CronJob'' ''batch/v1'' (CronJob m t) (pods @ [templatePod t]) owned))
       (descendantsOf tracked env m))"

text \<open>The six custom resources differ in their group, version and kind only.\<close>

definition request_CR ::
  "string \<Rightarrow> string \<Rightarrow> string \<Rightarrow> string \<Rightarrow> TrackedKinds option \<Rightarrow> (string \<Rightarrow> string) \<Rightarrow> cr_object ControllerEnv \<Rightarrow> request_result option" where
  "request_CR grp ver kind apiVersion tracked sha env = fetchedRoot (ce_get env) (\<lambda>(m, obj).
     map_option (\<lambda>(owned, pods). Inr (workloadRequest env (AIBOMNameForWorkload sha grp kind (om_name m))
         grp ver kind apiVersion (Unstructured m obj) pods owned))
       (descendantsOf tracked env m))"

definition request_InferenceService where
  "request_InferenceService = request_CR ''serving.kserve.io'' ''v1beta1'' ''InferenceService'' ''serving.kserve.io/v1beta1''"

definition request_DynamoGraphDeployment where
  "request_DynamoGraphDeployment = request_CR ''nvidia.com'' ''v1beta1'' ''DynamoGraphDeployment'' ''nvidia.com/v1beta1''"

definition request_DynamoComponentDeployment where
  "request_DynamoComponentDeployment = request_CR ''nvidia.com'' ''v1beta1'' ''DynamoComponentDeployment'' ''nvidia.com/v1beta1''"

definition request_NIMService where
  "request_NIMService = request_CR ''apps.nvidia.com'' ''v1alpha1'' ''NIMService'' ''apps.nvidia.com/v1alpha1''"

definition request_LeaderWorkerSet where
  "request_LeaderWorkerSet = request_CR ''leaderworkerset.x-k8s.io'' ''v1'' ''LeaderWorkerSet'' ''leaderworkerset.x-k8s.io/v1''"

definition request_DisaggregatedSet where
  "request_DisaggregatedSet = request_CR ''disaggregatedset.x-k8s.io'' ''v1'' ''DisaggregatedSet'' ''disaggregatedset.x-k8s.io/v1''"

definition reconcileRoot ::
  "(TrackedKinds option \<Rightarrow> (string \<Rightarrow> string) \<Rightarrow> 'o ControllerEnv \<Rightarrow> request_result option) \<Rightarrow>
   's WorkloadReconciler \<Rightarrow> 'o ControllerEnv \<Rightarrow> 's cluster_input \<Rightarrow> 's cluster_state \<Rightarrow> ('s cluster_state \<times> reconcile_result) option" where
  "reconcileRoot request r env inp st = map_option (runRequest r inp st) (request (wr_tracked r) (wr_sha256 r) env)"

definition reconcile_CronJob where "reconcile_CronJob = reconcileRoot request_CronJob"
definition reconcile_InferenceService where "reconcile_InferenceService = reconcileRoot request_InferenceService"
definition reconcile_DynamoGraphDeployment where "reconcile_DynamoGraphDeployment = reconcileRoot request_DynamoGraphDeployment"
definition reconcile_DynamoComponentDeployment where
  "reconcile_DynamoComponentDeployment = reconcileRoot request_DynamoComponentDeployment"
definition reconcile_NIMService where "reconcile_NIMService = reconcileRoot request_NIMService"
definition reconcile_LeaderWorkerSet where "reconcile_LeaderWorkerSet = reconcileRoot request_LeaderWorkerSet"
definition reconcile_DisaggregatedSet where "reconcile_DisaggregatedSet = reconcileRoot request_DisaggregatedSet"

subsection \<open>Watches of the built-in kinds\<close>

text \<open>
  The objects of an event that a map function sees, and the requests of a watch with a predicate. \<open>controllerOf\<close> is
  \<^verbatim>\<open>metav1.GetControllerOf\<close>.
\<close>

fun eventObjects :: "'o watch_event \<Rightarrow> 'o list" where
  "eventObjects (CreateEvent x) = [x]"
| "eventObjects (UpdateEvent x y) = [x, y]"
| "eventObjects (DeleteEvent x) = [x]"
| "eventObjects (GenericEvent x) = [x]"

definition routeEvents :: "('o watch_event \<Rightarrow> bool) \<Rightarrow> ('o \<Rightarrow> request list) \<Rightarrow> 'o watch_event \<Rightarrow> request list" where
  "routeEvents pred f ev = (if pred ev then concat (map f (eventObjects ev)) else [])"

definition allowlistSource :: "GroupKind \<Rightarrow> AllowlistFanout option \<Rightarrow> AllowlistFanout option" where
  "allowlistSource gk fanout = map_option (fanout_Source gk False) fanout"

record event_routes =
  er_namespace :: "namespace option watch_event \<Rightarrow> request list"
  er_pod :: "pod option watch_event \<Rightarrow> request list"

definition routesFor :: "'s Snapshot \<Rightarrow> (string \<Rightarrow> string + object_meta list) \<Rightarrow> (pod option \<Rightarrow> request list) \<Rightarrow> event_routes" where
  "routesFor snap listIn podRequests =
    \<lparr>er_namespace = routeEvents (NamespaceWatchPredicate snap) (EnqueueWorkloadsForNamespace listIn),
     er_pod = routeEvents PodImageIDChangedPredicate podRequests\<rparr>"

type_synonym 's typed_setup = "'s Snapshot \<Rightarrow> (string \<Rightarrow> string + object_meta list) \<Rightarrow>
  (owner_reference list \<Rightarrow> owner_reference option) \<Rightarrow> (string \<Rightarrow> string + object_meta) \<Rightarrow> AllowlistFanout option \<Rightarrow>
  event_routes \<times> AllowlistFanout option"

definition setup_Deployment :: "'s typed_setup" where
  "setup_Deployment snap listIn controllerOf getRS fanout =
    (routesFor snap listIn (EnqueueWorkloadForPod controllerOf getRS ''Deployment''), allowlistSource (gkind ''apps'' ''Deployment'') fanout)"

definition setup_StatefulSet :: "'s typed_setup" where
  "setup_StatefulSet snap listIn controllerOf getRS fanout =
    (routesFor snap listIn (EnqueueWorkloadForPod controllerOf getRS ''StatefulSet''), allowlistSource (gkind ''apps'' ''StatefulSet'') fanout)"

definition setup_DaemonSet :: "'s typed_setup" where
  "setup_DaemonSet snap listIn controllerOf getRS fanout =
    (routesFor snap listIn (EnqueueWorkloadForPod controllerOf getRS ''DaemonSet''), allowlistSource (gkind ''apps'' ''DaemonSet'') fanout)"

definition setup_Job :: "'s typed_setup" where
  "setup_Job snap listIn controllerOf getRS fanout =
    (routesFor snap listIn (EnqueueWorkloadForPod controllerOf getRS ''Job''), allowlistSource (gkind ''batch'' ''Job'') fanout)"

definition setup_CronJob ::
  "'s Snapshot \<Rightarrow> (string \<Rightarrow> string + object_meta list) \<Rightarrow> owner_env \<Rightarrow> AllowlistFanout option \<Rightarrow> event_routes \<times> AllowlistFanout option" where
  "setup_CronJob snap listIn owners fanout =
    (routesFor snap listIn (\<lambda>p. case p of None \<Rightarrow> [] | Some p \<Rightarrow> EnqueueRootForPod owners (gkind ''batch'' ''CronJob'') p),
     allowlistSource (gkind ''batch'' ''CronJob'') fanout)"

subsection \<open>Watches of the third-party kinds\<close>

definition watch_InferenceService :: ThirdPartyWatch where
  "watch_InferenceService = \<lparr>tw_name = ''InferenceService'', tw_gvk = (''serving.kserve.io'', ''v1beta1'', ''InferenceService''),
     tw_crd = ''inferenceservices.serving.kserve.io''\<rparr>"

definition watch_DynamoGraphDeployment :: ThirdPartyWatch where
  "watch_DynamoGraphDeployment = \<lparr>tw_name = ''DynamoGraphDeployment'', tw_gvk = (''nvidia.com'', ''v1beta1'', ''DynamoGraphDeployment''),
     tw_crd = ''dynamographdeployments.nvidia.com''\<rparr>"

definition watch_DynamoComponentDeployment :: ThirdPartyWatch where
  "watch_DynamoComponentDeployment = \<lparr>tw_name = ''DynamoComponentDeployment'',
     tw_gvk = (''nvidia.com'', ''v1beta1'', ''DynamoComponentDeployment''), tw_crd = ''dynamocomponentdeployments.nvidia.com''\<rparr>"

definition watch_NIMService :: ThirdPartyWatch where
  "watch_NIMService = \<lparr>tw_name = ''NIMService'', tw_gvk = (''apps.nvidia.com'', ''v1alpha1'', ''NIMService''),
     tw_crd = ''nimservices.apps.nvidia.com''\<rparr>"

definition watch_LeaderWorkerSet :: ThirdPartyWatch where
  "watch_LeaderWorkerSet = \<lparr>tw_name = ''LeaderWorkerSet'', tw_gvk = (''leaderworkerset.x-k8s.io'', ''v1'', ''LeaderWorkerSet''),
     tw_crd = ''leaderworkersets.leaderworkerset.x-k8s.io''\<rparr>"

definition watch_DisaggregatedSet :: ThirdPartyWatch where
  "watch_DisaggregatedSet = \<lparr>tw_name = ''DisaggregatedSet'', tw_gvk = (''disaggregatedset.x-k8s.io'', ''v1'', ''DisaggregatedSet''),
     tw_crd = ''disaggregatedsets.disaggregatedset.x-k8s.io''\<rparr>"

text \<open>The candidates that the manager registers, and the scrapers it gives to their controllers.\<close>

definition managerCandidates :: "ThirdPartyWatch list" where
  "managerCandidates = [watch_InferenceService, watch_DynamoGraphDeployment, watch_DynamoComponentDeployment, watch_NIMService,
     watch_LeaderWorkerSet, watch_DisaggregatedSet]"

definition candidateScrapers :: "unstructured_api \<Rightarrow> SignatureVerifier option \<Rightarrow> Scraper list" where
  "candidateScrapers api v =
    (let dynamo = \<lparr>scr_name = ''inference.dynamo'', scr_handlesKind = dynamo_HandlesKind, scr_scrape = dynamo_Scrape api v\<rparr>
     in [\<lparr>scr_name = ''inference.kserve'', scr_handlesKind = kserve_HandlesKind, scr_scrape = kserve_Scrape api v\<rparr>, dynamo, dynamo,
         \<lparr>scr_name = ''inference.nimservice'', scr_handlesKind = nim_HandlesKind, scr_scrape = nim_Scrape api v\<rparr>,
         \<lparr>scr_name = ''inference.lws'', scr_handlesKind = lws_HandlesKind, scr_scrape = lws_Scrape api v\<rparr>,
         \<lparr>scr_name = ''inference.disaggregatedset'', scr_handlesKind = disaggregatedSet_HandlesKind,
           scr_scrape = disaggregatedSet_Scrape api v\<rparr>])"

end
