(* ===== verification/Controller_Contracts.thy ===== *)
theory Controller_Contracts
  imports Workload_Controllers
begin

text \<open>
  What holds of the controllers together with the scrapers, the ownership rules and the kind-neutral reconcile: whose
  pods a document uses, that a change of one of them comes back as a reconcile, that the reconcile of a root returns,
  that every kind is wired to a scraper that handles it, and that a NIM service is always detected.
\<close>

subsection \<open>Requests\<close>

lemma workloadRequest_sel [simp]:
  "w_pods (rq_workload (workloadRequest env n g ver k av obj pods owned)) = pods"
  "w_object (rq_workload (workloadRequest env n g ver k av obj pods owned)) = Some obj"
  "w_uid (rq_workload (workloadRequest env n g ver k av obj pods owned)) = om_uid (object_metadata obj)"
  "w_name (rq_workload (workloadRequest env n g ver k av obj pods owned)) = om_name (object_metadata obj)"
  "w_namespace (rq_workload (workloadRequest env n g ver k av obj pods owned)) = om_namespace (object_metadata obj)"
  "w_kind (rq_workload (workloadRequest env n g ver k av obj pods owned)) = \<lparr>wk_group = g, wk_version = ver, wk_kind = k\<rparr>"
  by (simp_all add: workloadRequest_def Let_def)

lemma filterPodsOwnedBy_iff:
  "p \<in> set (filterPodsOwnedBy pods owners) \<longleftrightarrow> p \<in> set pods \<and> (\<exists>u \<in> set owners. controllerOwnerUID p = Some u)"
  by (auto simp: filterPodsOwnedBy_def split: option.splits)

lemma fetched_Inr: "fetched answer k = Inr req \<longleftrightarrow> (\<exists>x. answer = Found x \<and> k x = Inr req)"
  by (cases answer) (auto simp: fetched_def)

lemma withPods_Inr: "withPods answer k = Inr req \<longleftrightarrow> (\<exists>pods. answer = Inr pods \<and> req = k pods)"
  by (cases answer) (auto simp: withPods_def)

lemma selectedPods_Inr:
  assumes "selectedPods env wrap k = Inr pods" "p \<in> set pods"
  obtains labels listed where "ce_selector env = Some labels" "ce_listPods env labels = Inr listed" "k listed = Inr pods"
  using assms by (auto simp: selectedPods_def split: option.splits if_splits sum.splits)

lemmas requests_Inr = request_Deployment_def request_StatefulSet_def request_DaemonSet_def request_Job_def fetched_Inr withPods_Inr

text \<open>The owners whose pods count for a Deployment: the ReplicaSets that it controls.\<close>

definition controlledReplicaSet :: "'o ControllerEnv \<Rightarrow> string \<Rightarrow> string \<Rightarrow> bool" where
  "controlledReplicaSet env uid u \<longleftrightarrow> (\<exists>rss rs. ce_lister env (''apps'', ''v1'', ''ReplicaSet'') = Inr rss \<and> rs \<in> set rss \<and>
     om_uid rs = u \<and> (\<exists>ref \<in> set (om_ownerReferences rs). or_controller ref = Some True \<and> or_uid ref = uid))"

lemma owned_Deployment:
  assumes "listOwnedPods_Deployment env m = Inr pods" "p \<in> set pods"
  shows "\<exists>u. controllerOwnerUID p = Some u \<and> controlledReplicaSet env (om_uid m) u"
  using assms(1) [unfolded listOwnedPods_Deployment_def] assms(2)
proof (rule selectedPods_Inr)
  fix labels listed
  assume "(case replicaSetOwnerUIDs (ce_lister env) m of Inl e \<Rightarrow> Inl e | Inr owners \<Rightarrow> Inr (filterPodsOwnedBy listed owners)) = Inr pods"
  then show ?thesis using assms(2)
    by (auto simp: filterPodsOwnedBy_iff replicaSetOwnerUIDs_def controlledReplicaSet_def list_ex_iff split: sum.splits) blast
qed

lemma owned_single:
  assumes "selectedPods env wrap (\<lambda>pods. Inr (filterPodsOwnedBy pods (singleOwner uid))) = Inr pods" "p \<in> set pods"
  shows "controllerOwnerUID p = Some uid"
  using assms by (rule selectedPods_Inr) (use assms(2) in \<open>auto simp: filterPodsOwnedBy_iff singleOwner_def\<close>)

lemma owned_kinds:
  "listOwnedPods_StatefulSet env m = Inr pods \<Longrightarrow> p \<in> set pods \<Longrightarrow> controllerOwnerUID p = Some (om_uid m)"
  "listOwnedPods_DaemonSet env m = Inr pods \<Longrightarrow> p \<in> set pods \<Longrightarrow> controllerOwnerUID p = Some (om_uid m)"
  "listOwnedPods_Job env m = Inr pods \<Longrightarrow> p \<in> set pods \<Longrightarrow> controllerOwnerUID p = Some (om_uid m)"
  unfolding listOwnedPods_StatefulSet_def listOwnedPods_DaemonSet_def listOwnedPods_Job_def by (rule owned_single; assumption)+

text \<open>
  C35. Only a workload's own pods can put digests into its document, whatever labels other pods carry: every pod
  that the controllers with a selector hand to the scraper is controlled by the workload itself, for a Deployment by
  a ReplicaSet that it controls; the Job controller adds the pod of its own template and nothing else.
\<close>

theorem documents_use_own_pods:
  assumes "p \<in> set (w_pods (rq_workload req))"
  shows "(request_Deployment sha env = Inr req \<longrightarrow>
      (\<exists>u. controllerOwnerUID p = Some u \<and> controlledReplicaSet env (w_uid (rq_workload req)) u)) \<and>
    (request_StatefulSet sha env = Inr req \<or> request_DaemonSet sha env = Inr req \<longrightarrow>
      controllerOwnerUID p = Some (w_uid (rq_workload req))) \<and>
    (request_Job sha env = Inr req \<longrightarrow> controllerOwnerUID p = Some (w_uid (rq_workload req)) \<or>
      (\<exists>m t. ce_get env = Found (m, t) \<and> p = templatePod t))"
  using assms by (auto simp: requests_Inr dest: owned_Deployment owned_kinds)

subsection \<open>A change of a pod comes back\<close>

text \<open>
  The pods that a document of a StatefulSet, DaemonSet or Job takes digests from are watched by the setup of the same
  kind: when the image of one of them is resolved to something else, the workload is reconciled, as long as the
  owner reference that carries the UID of the workload also carries its kind and name.
\<close>

theorem own_pods_are_watched:
  assumes "controllerRef (om_ownerReferences (pod_meta p)) = Some ref" "controllerRef (om_ownerReferences (pod_meta p')) = Some ref"
    and "om_namespace (pod_meta p) = om_namespace m" "or_name ref = om_name m" "or_kind ref = kind"
    and "PodImageIDChangedPredicate (UpdateEvent (Some p) (Some p'))"
    and "(kind, routes) \<in> {(''StatefulSet'', fst (setup_StatefulSet snap listIn controllerRef getRS fanout)),
      (''DaemonSet'', fst (setup_DaemonSet snap listIn controllerRef getRS fanout)),
      (''Job'', fst (setup_Job snap listIn controllerRef getRS fanout))}"
  shows "requestOf m \<in> set (er_pod routes (UpdateEvent (Some p) (Some p')))"
proof -
  have "requestOf m \<in> set (EnqueueWorkloadForPod controllerRef getRS kind (Some p))"
    if "kind \<noteq> ''Deployment''"
    using assms(1-5) that by (auto simp: EnqueueWorkloadForPod_def requestOf_def)
  then show ?thesis
    using assms(6,7) by (auto simp: setup_StatefulSet_def setup_DaemonSet_def setup_Job_def routesFor_def routeEvents_def)
qed

subsection \<open>Root reconciles return\<close>

lemma descendants_return:
  assumes "\<And>k N. mset (ce_orders env k N) = mset N"
  shows "\<exists>owned pods. descendantsOf tracked env m = Some (owned, pods) \<and>
    (\<forall>p \<in> set pods. \<exists>u. controllerOwnerUID p = Some u \<and>
       (u = om_uid m \<or> descendant (set (gatherNodes tracked (ce_lister env))) (om_uid m) u))"
proof -
  let ?N = "gatherNodes tracked (ce_lister env)"
  have "set (ce_orders env k ?N) = set ?N" for k using assms [of k ?N] by (metis set_mset_mset)
  then obtain d where "closureLoop (\<lambda>k. ce_orders env k ?N) (om_uid m) 0 [] = Some d"
    "set d = {u. descendant (set ?N) (om_uid m) u}"
    using closureLoop_returns [of "\<lambda>k. ce_orders env k ?N" "set ?N" "[]" "om_uid m" 0] by auto
  then show ?thesis
    by (auto simp: descendantsOf_def rootDescendants_def Let_def filterPodsOwnedBy_iff split: sum.splits)
qed

text \<open>
  The reconcile of a root ends whatever order the maps are visited in, and the pods it hands to the scraper belong
  to the root or to a workload below it, apart from the template pod of a CronJob.
\<close>

theorem root_reconciles_return:
  assumes "\<And>k N. mset (ce_orders env k N) = mset N" "\<And>k N. mset (ce_orders cron k N) = mset N"
  shows "(\<exists>res. reconcileRoot (request_CR grp ver kind av) r env inp st = Some res) \<and>
    (\<exists>res. reconcile_CronJob r cron inp st = Some res)"
proof -
  have "\<exists>q. request_CR grp ver kind av (wr_tracked r) (wr_sha256 r) env = Some q"
    using descendants_return [OF assms(1)]
    by (cases "ce_get env") (fastforce simp: request_CR_def fetchedRoot_def)+
  moreover have "\<exists>q. request_CronJob (wr_tracked r) (wr_sha256 r) cron = Some q"
    using descendants_return [OF assms(2)]
    by (cases "ce_get cron") (fastforce simp: request_CronJob_def fetchedRoot_def)+
  ultimately show ?thesis by (auto simp: reconcileRoot_def reconcile_CronJob_def)
qed

subsection \<open>Wiring\<close>

text \<open>
  The manager's candidates are accepted, each of them is paired with a scraper that handles its kind, and
  together with the kinds of the built-in setups they are the kinds the allowlist knows, each exactly once.
\<close>

theorem candidates_wired:
  "RegisterThirdPartyWatches mgrAdd managerCandidates = mgrAdd managerCandidates \<and>
   list_all2 (\<lambda>w s. case tw_gvk w of (g, v, k) \<Rightarrow> scr_handlesKind s \<lparr>wk_group = g, wk_version = v, wk_kind = k\<rparr>)
     managerCandidates (candidateScrapers api ver) \<and>
   KnownWorkloadKinds = [gkind ''apps'' ''Deployment'', gkind ''apps'' ''StatefulSet'', gkind ''apps'' ''DaemonSet'',
     gkind ''batch'' ''Job'', gkind ''batch'' ''CronJob''] @ map tw_gk managerCandidates"
proof (intro conjI)
  have "checkCandidates [] managerCandidates = None" "managerCandidates \<noteq> []" by code_simp+
  then show "RegisterThirdPartyWatches mgrAdd managerCandidates = mgrAdd managerCandidates"
    by (simp add: RegisterThirdPartyWatches_def)
  show "list_all2 (\<lambda>w s. case tw_gvk w of (g, v, k) \<Rightarrow> scr_handlesKind s \<lparr>wk_group = g, wk_version = v, wk_kind = k\<rparr>)
     managerCandidates (candidateScrapers api ver)"
    by (simp add: managerCandidates_def candidateScrapers_def Let_def watch_InferenceService_def watch_DynamoGraphDeployment_def
        watch_DynamoComponentDeployment_def watch_NIMService_def watch_LeaderWorkerSet_def watch_DisaggregatedSet_def
        kserve_HandlesKind_def kserveHandledKinds_def dynamo_HandlesKind_def dynamoHandledKinds_def nim_HandlesKind_def
        nimServiceHandledKinds_def lws_HandlesKind_def lwsHandledKinds_def disaggregatedSet_HandlesKind_def
        disaggregatedSetHandledKinds_def)
  show "KnownWorkloadKinds = [gkind ''apps'' ''Deployment'', gkind ''apps'' ''StatefulSet'', gkind ''apps'' ''DaemonSet'',
     gkind ''batch'' ''Job'', gkind ''batch'' ''CronJob''] @ map tw_gk managerCandidates"
    by code_simp
qed

subsection \<open>A NIM service is always detected\<close>

text \<open>The runtime component sorts first, so the cap keeps it.\<close>

lemma nim_runtime_kept:
  assumes "nim_Scrape api v t w (Some cfg) = Inr b"
  shows "\<exists>c \<in> set (bi_components b). cType c = ComponentApplication \<and> cName c = ''nim'' \<and> cConfidence c = ConfidenceDeclared"
proof -
  obtain cs es ms where p: "nimParts api w (Some cfg) = Inr (cs, es, ms)"
    and b: "b = crResult ''inference.nimservice'' CategoryInference v t (cs, es, ms)"
    using assms by (rule nim.result)
  then obtain m obj where cs: "cs = map (withStorage (nimStorageProps api obj))
      (nimRuntime api obj # nimImage api obj @ nimModels api m obj (Some cfg))"
    by (auto simp: nimParts_def split: sum.splits prod.splits)
  let ?S = "sortComponents (applySignatures v cs ms)"
  have "length ?S = length cs" by simp
  then have ne: "?S \<noteq> []" by (metis cs length_0_conv list.simps(3) list.map_disc_iff)
  then have hd: "hd ?S \<in> set (bi_components b)"
    unfolding b crResult_fields(1) [OF refl] by (cases ?S) simp_all
  then obtain c0 where c0: "c0 \<in> set cs" "recordedAs c0 (hd ?S)" unfolding b using recorded_sound by blast
  have rt: "cType (nimRuntime api obj) = ComponentApplication" "cName (nimRuntime api obj) = ''nim''"
      "cConfidence (nimRuntime api obj) = ConfidenceDeclared"
    by (simp_all add: nimRuntime_def Let_def)
  have ty: "cType (withStorage (nimStorageProps api obj) c) = cType c" for c by (simp add: withStorage_def)
  have types: "c \<in> set (nimImage api obj) \<Longrightarrow> cType c = ComponentContainer"
    "c \<in> set (nimModels api m obj (Some cfg)) \<Longrightarrow> cType c = ComponentMLModel" for c
    using declared_nim [of c api m obj "Some cfg"]
    by (auto simp: nimImage_def nimModels_def nimImageModel_def Let_def split: prod.splits if_splits)
  have app: "cType c0 = ComponentApplication"
  proof -
    have "ComponentApplication \<in> set (map cType cs)" by (simp add: cs withStorage_def rt)
    then have "ComponentApplication \<in> set (map cType ?S)" using types_kept [of v cs ms] by (metis set_mset_mset)
    then obtain a where a: "a \<in> set ?S" "cType a = ComponentApplication" by auto
    have "sorted (map componentOrder ?S)" by (rule sorted_sortComponents)
    then have "componentOrder (hd ?S) \<le> componentOrder a" using a(1) ne by (cases ?S) auto
    then have "cType (hd ?S) \<le> ComponentApplication" using a(2) by (auto simp: componentOrder_def less_eq_prod_def)
    then have low: "cType c0 \<le> ComponentApplication" using c0(2) by (simp add: recordedAs_def)
    have "cType c0 \<in> {ComponentApplication, ComponentContainer, ComponentMLModel}"
      using c0(1) rt types by (auto simp: cs ty)
    then show ?thesis using low by (auto simp: less_eq_ComponentType_def)
  qed
  then have "c0 = withStorage (nimStorageProps api obj) (nimRuntime api obj)"
    using c0(1) types app by (auto simp: cs ty)
  then have "cType (hd ?S) = ComponentApplication" "cName (hd ?S) = ''nim''" "cConfidence (hd ?S) = ConfidenceDeclared"
    using c0(2) rt by (simp_all add: recordedAs_def withStorage_def)
  then show ?thesis using hd by blast
qed

lemma request_NIMService_object:
  assumes "request_NIMService tracked sha env = Some (Inr req)"
  obtains m obj where "w_object (rq_workload req) = Some (Unstructured m obj)"
  using assms
  by (auto simp: request_NIMService_def request_CR_def fetchedRoot_def split: api_result.splits)


subsection \<open>Examples\<close>

definition ownedPod :: "string \<Rightarrow> pod" where
  "ownedPod uid = \<lparr>pod_meta = emptyMeta\<lparr>om_ownerReferences := [\<lparr>or_apiVersion = ''apps/v1'', or_kind = ''StatefulSet'', or_name = ''db'',
      or_uid = uid, or_controller = Some True\<rparr>]\<rparr>, pod_spec = emptyPodSpec, pod_containerStatuses = [], pod_initContainerStatuses = []\<rparr>"

definition exampleEnv :: "'o \<Rightarrow> 'o ControllerEnv" where
  "exampleEnv x = \<lparr>ce_get = Found x, ce_selector = Some [(''app'', ''db'')],
     ce_listPods = (\<lambda>_. Inr [ownedPod ''planted'', ownedPod ''u'']), ce_allPods = Inr [], ce_lister = (\<lambda>_. Inr []),
     ce_orders = (\<lambda>_ N. N), ce_setControllerReference = (\<lambda>_ a. Inr a), ce_controllerName = ''k8s-aibom'', ce_controllerVersion = ''dev''\<rparr>"

theorem documents_use_own_pods_witness:
  "\<exists>req. request_StatefulSet (\<lambda>s. s) (exampleEnv (emptyMeta\<lparr>om_name := ''db'', om_uid := ''u''\<rparr>, exampleTemplate)) = Inr req \<and>
     w_pods (rq_workload req) = [ownedPod ''u''] \<and>
     (\<forall>p \<in> set (w_pods (rq_workload req)). controllerOwnerUID p = Some ''u'')"
proof -
  let ?env = "exampleEnv (emptyMeta\<lparr>om_name := ''db'', om_uid := ''u''\<rparr>, exampleTemplate)"
  obtain req where req: "request_StatefulSet (\<lambda>s. s) ?env = Inr req" "w_pods (rq_workload req) = [ownedPod ''u'']"
    "w_uid (rq_workload req) = ''u''"
    by (simp add: request_StatefulSet_def fetched_def withPods_def listOwnedPods_StatefulSet_def selectedPods_def exampleEnv_def
        filterPodsOwnedBy_def singleOwner_def controllerOwnerUID_def controllerRef_def ownedPod_def)
  show ?thesis
    using req documents_use_own_pods [of _ req "\<lambda>s. s" ?env] by auto
qed

definition nimReconciler :: "string WorkloadReconciler" where
  "nimReconciler = exampleReconciler\<lparr>wr_scraper := \<lparr>scr_name = ''inference.nimservice'', scr_handlesKind = nim_HandlesKind,
     scr_scrape = nim_Scrape plainApi None\<rparr>\<rparr>"

definition nimInput :: "string cluster_input" where
  "nimInput = (exampleInput ''true'' 0 (Emitted ''gs://b'' None) StatusOK)\<lparr>ci_snapshot := exampleSnap\<lparr>sn_patterns := Some exampleConfig\<rparr>\<rparr>"

lemma nim_example_request:
  "\<exists>req. request_NIMService (wr_tracked nimReconciler) (wr_sha256 nimReconciler) (exampleEnv (emptyMeta, exampleNim)) = Some (Inr req) \<and>
     guarded nimReconciler nimInput req"
proof -
  have "mset (ce_orders (exampleEnv (emptyMeta, exampleNim)) k N) = mset N" for k N by (simp add: exampleEnv_def)
  then obtain owned pods where
    d: "descendantsOf (wr_tracked nimReconciler) (exampleEnv (emptyMeta, exampleNim)) emptyMeta = Some (owned, pods)"
    using descendants_return [of "exampleEnv (emptyMeta, exampleNim)"] by blast
  show ?thesis
    unfolding request_NIMService_def request_CR_def fetchedRoot_def
    by (simp add: exampleEnv_def d [unfolded exampleEnv_def])
      (simp add: guarded_def nimInput_def exampleInput_def namespaceOptedIn_def kindAllowed_def ownerOutcome_def nimReconciler_def
        exampleReconciler_def exampleSnap_def resolveTrackedOwner_def Allows_def AllWorkloadKinds_def)
qed


end
