(* ===== verification/Plugin_Documents.thy ===== *)
theory Plugin_Documents
  imports Cr_Objects Aibom_Status
begin

text \<open>
  The \<^verbatim>\<open>kubectl aibom\<close> plugin, first part (\<^verbatim>\<open>cmd/kubectl-aibom/commands.go\<close>): reading the inline
  document of an AIBOM, and the commands \<^verbatim>\<open>view\<close>, \<^verbatim>\<open>verify\<close> and \<^verbatim>\<open>summary\<close>. An AIBOM is an
  unstructured object: its metadata and its JSON map. What the plugin calls is the parameter
  \<open>plugin_env\<close>: the accessors of \<^verbatim>\<open>apimachinery\<close>, the base64 decoder, SHA-256, \<^verbatim>\<open>json.Indent\<close>, and
  \<^verbatim>\<open>json.Unmarshal\<close> into the struct that \<^verbatim>\<open>find\<close> declares. Writes to the output streams succeed; a
  table is its rows, before \<^verbatim>\<open>tabwriter\<close> aligns their columns.
\<close>

record parsed_component =
  pc_type :: string
  pc_hashes :: "(string \<times> string) list"
  pc_properties :: "(string \<times> string) list"

record plugin_env =
  pe_api :: unstructured_api
  pe_bool :: "jobject \<Rightarrow> string list \<Rightarrow> bool nested"
  pe_base64 :: "string \<Rightarrow> string + string"
  pe_sha256 :: "string \<Rightarrow> string"
  pe_indent :: "string \<Rightarrow> string + string"
  pe_parse :: "string \<Rightarrow> string + parsed_component list"

type_synonym aibom_object = "object_meta \<times> jobject"

text \<open>What the commands print: table rows, single lines, or a document as it is.\<close>

datatype printed = Table "string list list" | Line string | Raw string | Usage

subsection \<open>The inline document\<close>

datatype inline_error =
    ErrTruncated string
  | ErrNoDocument
  | ErrReadingData string
  | ErrDecodingData string

fun inline_error_str :: "inline_error \<Rightarrow> string" where
  "inline_error_str (ErrTruncated reason) = (if reason = ''''
     then ''BOM is not stored inline (truncated or external); configure an external sink or fetch from the configured sink''
     else ''BOM is not stored inline: '' @ reason)"
| "inline_error_str ErrNoDocument = ''no BOM document in status (is the AIBOM Ready?)''"
| "inline_error_str (ErrReadingData e) = ''reading status.bomDocument.inline.data: '' @ e"
| "inline_error_str (ErrDecodingData e) = ''decoding inline BOM: '' @ e"

definition documentPath :: "string list \<Rightarrow> string list" where
  "documentPath path = [''status'', ''bomDocument''] @ path"

definition documentTruncated :: "plugin_env \<Rightarrow> jobject \<Rightarrow> bool" where
  "documentTruncated env obj \<longleftrightarrow> pe_bool env obj (documentPath [''truncated'']) = Present True"

definition externalReason :: string where
  "externalReason = ''document is in an external sink (status.bomDocument.external)''"

definition inlineBOM :: "plugin_env \<Rightarrow> jobject \<Rightarrow> inline_error + string" where
  "inlineBOM env obj =
    (let missing =
       (if documentTruncated env obj
        then ErrTruncated (stringAt (pe_api env) obj (documentPath [''truncationReason'']))
        else (case ua_map (pe_api env) obj (documentPath [''external'']) of
            Present ext \<Rightarrow> (if ext \<noteq> [] then ErrTruncated externalReason else ErrNoDocument)
          | _ \<Rightarrow> ErrNoDocument))
     in case ua_string (pe_api env) obj (documentPath [''inline'', ''data'']) of
          WrongType e \<Rightarrow> Inl (ErrReadingData e)
        | Absent \<Rightarrow> Inl missing
        | Present data \<Rightarrow>
           (if data = '''' then Inl missing
            else (case pe_base64 env data of
                Inl e \<Rightarrow> Inl (ErrDecodingData e)
              | Inr raw \<Rightarrow> Inr raw)))"

subsection \<open>view and verify\<close>

definition runView :: "plugin_env \<Rightarrow> jobject \<Rightarrow> bool \<Rightarrow> string + printed list" where
  "runView env obj raw = (case inlineBOM env obj of
     Inl e \<Rightarrow> Inl (inline_error_str e)
   | Inr doc \<Rightarrow>
      (if raw then Inr [Raw doc]
       else (case pe_indent env doc of
           Inl e \<Rightarrow> Inl (''BOM is not valid JSON (view --raw to inspect): '' @ e)
         | Inr pretty \<Rightarrow> Inr [Raw (pretty @ [newline])])))"

text \<open>\<^verbatim>\<open>uniqueStrings\<close> (\<^verbatim>\<open>find.go\<close>): the loop with its \<^verbatim>\<open>seen\<close> map.\<close>

definition uniqueStrings :: "string list \<Rightarrow> string list" where
  "uniqueStrings items = nubLoop id [] items"

text \<open>The elements of \<^verbatim>\<open>status.summary.models\<close> that are maps, and their two fields.\<close>

definition summaryModelMaps :: "plugin_env \<Rightarrow> jobject \<Rightarrow> jobject list" where
  "summaryModelMaps env obj =
     List.map_filter asMap (sliceAt (pe_api env) obj [''status'', ''summary'', ''models''])"

definition memberString :: "string \<Rightarrow> jobject \<Rightarrow> string" where
  "memberString key m = (case map_of m key of Some (JString s) \<Rightarrow> s | _ \<Rightarrow> '''')"

definition signedState :: "jobject \<Rightarrow> string" where
  "signedState m = (let st = memberString ''signed'' m in if st = '''' then ''unsigned'' else st)"

definition printSignatureFacts :: "plugin_env \<Rightarrow> jobject \<Rightarrow> printed list" where
  "printSignatureFacts env obj = map Line (uniqueStrings (map (\<lambda>m.
     ''model '' @ memberString ''identity'' m @ '': signature '' @ signedState m) (summaryModelMaps env obj)))"

definition runVerify :: "plugin_env \<Rightarrow> jobject \<Rightarrow> string + bool \<times> printed list" where
  "runVerify env obj =
    (let published = stringAt (pe_api env) obj (documentPath [''sha256'']) in
     if published = '''' then Inl ''no published sha256 in status.bomDocument''
     else (case inlineBOM env obj of
         Inl e \<Rightarrow> Inl (inline_error_str e)
       | Inr doc \<Rightarrow>
          (let computed = hexEncode (pe_sha256 env doc);
               matches = (computed = trimPrefix published ''sha256:'')
           in Inr (matches,
               [Line (''published: '' @ published), Line (''computed:  '' @ computed),
                Line (if matches then ''OK: document bytes match the published digest''
                      else ''MISMATCH: document does not match the published digest'')] @
               printSignatureFacts env obj))))"

subsection \<open>summary\<close>

definition orDash :: "string \<Rightarrow> string" where
  "orDash s = (if s = '''' then ''-'' else s)"

text \<open>The loop over the conditions: the last one of type Ready whose status is a string decides.\<close>

definition readyColumn :: "plugin_env \<Rightarrow> jobject \<Rightarrow> string" where
  "readyColumn env obj = fold (\<lambda>c ready. case asMap c of
       None \<Rightarrow> ready
     | Some cm \<Rightarrow> (if map_of cm ''type'' = Some (JString ''Ready'')
         then (case map_of cm ''status'' of Some (JString s) \<Rightarrow> s | _ \<Rightarrow> ready) else ready))
     (sliceAt (pe_api env) obj [''status'', ''conditions'']) ''-''"

definition listColumn :: "string list \<Rightarrow> string" where
  "listColumn xs = (if xs = [] then ''-'' else joinWith '','' xs)"

definition summaryRow :: "plugin_env \<Rightarrow> aibom_object \<Rightarrow> string list" where
  "summaryRow env u =
    (let (m, obj) = u;
         get = (\<lambda>path. stringAt (pe_api env) obj ([''status'', ''summary''] @ path));
         names = nubLoop id [] (filter (\<lambda>n. n \<noteq> '''') (map (memberString ''identity'') (summaryModelMaps env obj)));
         states = nubLoop id [] (map signedState (summaryModelMaps env obj))
     in [om_namespace m, om_name m, orDash (get [''workload'', ''kind'']), orDash (get [''workload'', ''name'']),
         orDash (get [''workload'', ''category'']), orDash (get [''runtime'', ''name'']), listColumn names,
         orDash (get [''confidence'']), listColumn states, readyColumn env obj])"

definition runSummary :: "plugin_env \<Rightarrow> aibom_object list \<Rightarrow> printed list \<times> printed list" where
  "runSummary env items =
    ([Table ([''NAMESPACE'', ''NAME'', ''WORKLOAD'', ''WORKLOAD-NAME'', ''CATEGORY'', ''RUNTIME'', ''MODELS'',
        ''CONFIDENCE'', ''SIGNED'', ''READY''] # map (summaryRow env) items)],
     (if items = [] then [Line ''No AIBOMs found. Nothing is inventoried until a namespace is opted in:'',
        Line ''  kubectl label namespace <name> aibom.k8saibom.dev/enabled=true'',
        Line ''The controller reports the same in the NamespacesOptedIn condition of AIBOMControllerConfig/default.'']
      else []))"

end
