(* ===== verification/Plugin_Find.thy ===== *)
theory Plugin_Find
  imports Plugin_Documents
begin

text \<open>
  The \<^verbatim>\<open>kubectl aibom\<close> plugin, second part (\<^verbatim>\<open>cmd/kubectl-aibom/find.go\<close>): \<^verbatim>\<open>find\<close> answers where a
  runtime, model, image or digest is serving. The theorems are its two contracts: a row that cannot be
  evaluated is never silently dropped, and what the controller published inline is found.
\<close>

record findFilter =
  ff_runtime :: string
  ff_model :: string
  ff_image :: string
  ff_digest :: string
  ff_signed :: string

definition needsDocument :: "findFilter \<Rightarrow> bool" where
  "needsDocument f \<longleftrightarrow> ff_image f \<noteq> '''' \<or> ff_digest f \<noteq> ''''"

record containerFacts =
  cf_images :: "string list"
  cf_digests :: "string list"
  cf_runtimes :: "string list"

definition noFacts :: containerFacts where
  "noFacts = \<lparr>cf_images = [], cf_digests = [], cf_runtimes = []\<rparr>"

text \<open>\<^verbatim>\<open>strings.Contains\<close>.\<close>

definition containsSub :: "string \<Rightarrow> string \<Rightarrow> bool" where
  "containsSub s p \<longleftrightarrow> cutSub p s \<noteq> None"

subsection \<open>Facts of the inline document\<close>

text \<open>
  \<^verbatim>\<open>strings.EqualFold\<close> is modelled on ASCII letters. The body of the loop over the components appends to
  the three lists.
\<close>

definition factsOf :: "parsed_component \<Rightarrow> containerFacts \<Rightarrow> containerFacts" where
  "factsOf c facts =
    (if pc_type c = ''application'' then
       facts\<lparr>cf_runtimes := cf_runtimes facts @
         map snd (filter (\<lambda>(n, v). n = ''runtime.name'' \<and> v \<noteq> '''') (pc_properties c))\<rparr>
     else if pc_type c \<noteq> ''container'' then facts
     else facts\<lparr>
       cf_images := cf_images facts @
         map snd (filter (\<lambda>(n, v). n = ''image.reference'' \<and> v \<noteq> '''') (pc_properties c)),
       cf_digests := cf_digests facts @
         map (toLower \<circ> snd) (filter (\<lambda>(alg, v). toLower alg = ''sha-256'' \<and> v \<noteq> '''') (pc_hashes c))\<rparr>)"

text \<open>The facts, and why the document is not available: the empty string if it is.\<close>

definition inlineContainers :: "plugin_env \<Rightarrow> jobject \<Rightarrow> containerFacts \<times> string" where
  "inlineContainers env obj =
    (if documentTruncated env obj then (noFacts, ''truncated'')
     else (case inlineBOM env obj of
         Inl ErrNoDocument \<Rightarrow> (noFacts, ''no-document'')
       | Inl (ErrTruncated reason) \<Rightarrow>
           (noFacts, if containsSub reason ''external'' then ''external'' else ''truncated'')
       | Inl _ \<Rightarrow> (noFacts, ''unreadable'')
       | Inr doc \<Rightarrow>
          (case pe_parse env doc of
             Inl _ \<Rightarrow> (noFacts, ''unreadable'')
           | Inr comps \<Rightarrow> (fold factsOf comps noFacts, ''''))))"

subsection \<open>Digests\<close>

text \<open>\<^verbatim>\<open>strings.TrimSpace\<close> on the ASCII spaces, and \<^verbatim>\<open>strings.Trim\<close> with a set of bytes.\<close>

definition trimBytes :: "char list \<Rightarrow> string \<Rightarrow> string" where
  "trimBytes bytes s = rev (dropWhile (\<lambda>c. c \<in> set bytes) (rev (dropWhile (\<lambda>c. c \<in> set bytes) s)))"

definition asciiSpaces :: "char list" where
  "asciiSpaces = map char_of [9, 10, 11, 12, 13, 32 :: nat]"

definition hexDigits :: "char list" where
  "hexDigits = ''0123456789abcdef''"

definition normalizeDigest :: "string \<Rightarrow> string" where
  "normalizeDigest d = trimPrefix (toLower (trimBytes asciiSpaces d)) ''sha256:''"

definition checkDigestFilter :: "string \<Rightarrow> string option" where
  "checkDigestFilter d = (let w = normalizeDigest d in
     if w = '''' \<or> length w > 64 \<or> trimBytes hexDigits w \<noteq> ''''
     then Some (''--digest must be a sha256 digest or a prefix of one: 1 to 64 hex characters, bare or sha256:-prefixed (got ''
       @ goQuote d @ '')'')
     else None)"

definition digestMatches :: "string \<Rightarrow> string list \<Rightarrow> bool" where
  "digestMatches want present = (let w = normalizeDigest want in
     w \<noteq> '''' \<and> list_ex (\<lambda>h. if length w = 64 then h = w else hasPrefix h w) present)"

subsection \<open>Matching one AIBOM\<close>

definition summaryModels :: "plugin_env \<Rightarrow> jobject \<Rightarrow> string list \<times> string list" where
  "summaryModels env obj =
    (filter (\<lambda>i. i \<noteq> '''') (map (memberString ''identity'') (summaryModelMaps env obj)),
     map signedState (summaryModelMaps env obj))"

definition hasRuntime :: "string \<Rightarrow> string list \<Rightarrow> string \<Rightarrow> bool" where
  "hasRuntime summary inDocument want \<longleftrightarrow> summary = want \<or> want \<in> set inDocument"

definition rowRuntimes :: "string \<Rightarrow> string list \<Rightarrow> string list" where
  "rowRuntimes summary inDocument = uniqueStrings ((if summary \<noteq> '''' then [summary] else []) @ inDocument)"

definition joinTruncated :: "string list \<Rightarrow> nat \<Rightarrow> string" where
  "joinTruncated items most = (if items = [] then ''-''
     else if length items \<le> most then joinWith '','' items
     else joinWith '','' (take most items) @ '',+'' @ showNat (length items - most))"

definition summaryString :: "plugin_env \<Rightarrow> jobject \<Rightarrow> string list \<Rightarrow> string" where
  "summaryString env obj path = stringAt (pe_api env) obj ([''status'', ''summary''] @ path)"

definition findMatch :: "plugin_env \<Rightarrow> jobject \<Rightarrow> findFilter \<Rightarrow> bool \<times> containerFacts \<times> string" where
  "findMatch env obj f =
    (case inlineContainers env obj of (facts, unavailable) \<Rightarrow>
       let runtimeMissed = ff_runtime f \<noteq> '''' \<and>
             \<not> hasRuntime (summaryString env obj [''runtime'', ''name'']) (cf_runtimes facts) (ff_runtime f)
       in if runtimeMissed \<and> unavailable = '''' then (False, noFacts, '''')
          else (case summaryModels env obj of (identities, states) \<Rightarrow>
            if ff_model f \<noteq> '''' \<and> \<not> list_ex (\<lambda>i. containsSub i (ff_model f)) identities then (False, noFacts, '''')
            else if ff_signed f \<noteq> '''' \<and> ff_signed f \<notin> set states then (False, noFacts, '''')
            else if runtimeMissed then (False, facts, unavailable)
            else if needsDocument f \<and> unavailable \<noteq> '''' then (True, facts, unavailable)
            else if ff_image f \<noteq> '''' \<and> \<not> list_ex (\<lambda>i. containsSub i (ff_image f)) (cf_images facts) then (False, facts, '''')
            else if ff_digest f \<noteq> '''' \<and> \<not> digestMatches (ff_digest f) (cf_digests facts) then (False, facts, '''')
            else (True, facts, unavailable)))"

subsection \<open>The command\<close>

definition rowName :: "aibom_object \<Rightarrow> string" where
  "rowName u = om_namespace (fst u) @ ''/'' @ om_name (fst u)"

definition findRow :: "plugin_env \<Rightarrow> aibom_object \<Rightarrow> containerFacts \<Rightarrow> string \<Rightarrow> string list" where
  "findRow env u facts unavailable =
    (let (m, obj) = u; (identities, states) = summaryModels env obj in
     [om_namespace m, orDash (summaryString env obj [''workload'', ''kind'']), om_name m,
      joinTruncated (rowRuntimes (summaryString env obj [''runtime'', ''name'']) (cf_runtimes facts)) 2,
      joinTruncated (uniqueStrings identities) 2,
      (if unavailable \<noteq> '''' then unavailable else joinTruncated (uniqueStrings (cf_images facts)) 2),
      joinTruncated (uniqueStrings states) 3,
      orDash (summaryString env obj [''confidence''])])"

text \<open>The variables of the loop: the rows printed, the names in the two warnings.\<close>

record findLoop =
  fl_rows :: "string list list"
  fl_unavailable :: "string list"
  fl_summaryOnly :: "string list"

definition findStep :: "plugin_env \<Rightarrow> findFilter \<Rightarrow> aibom_object \<Rightarrow> findLoop \<Rightarrow> findLoop" where
  "findStep env f u l =
    (case findMatch env (snd u) f of (matched, facts, unavailable) \<Rightarrow>
       if \<not> matched
       then (if unavailable \<noteq> '''' then l\<lparr>fl_summaryOnly := fl_summaryOnly l @ [rowName u]\<rparr> else l)
       else l\<lparr>fl_rows := fl_rows l @ [findRow env u facts unavailable],
              fl_unavailable := fl_unavailable l @ (if unavailable \<noteq> '''' then [rowName u] else [])\<rparr>)"

definition findAll :: "plugin_env \<Rightarrow> findFilter \<Rightarrow> aibom_object list \<Rightarrow> findLoop" where
  "findAll env f items = fold (findStep env f) items \<lparr>fl_rows = [], fl_unavailable = [], fl_summaryOnly = []\<rparr>"

definition findHeader :: "string list" where
  "findHeader = [''NAMESPACE'', ''KIND'', ''NAME'', ''RUNTIME'', ''MODELS'', ''IMAGES'', ''SIGNED'', ''CONFIDENCE'']"

definition unavailableWarning :: "string list \<Rightarrow> string" where
  "unavailableWarning names = ''warning: '' @ showNat (length names) @
     '' row(s) have no readable inline document (external sink, truncated, not written yet, or unreadable), so the image/digest filter could not be evaluated for them; they are shown, not excluded: ''
     @ joinWith '', '' names"

definition summaryOnlyWarning :: "string list \<Rightarrow> string" where
  "summaryOnlyWarning names = ''warning: '' @ showNat (length names) @
     '' row(s) have no readable inline document (external sink, truncated, not written yet, or unreadable), so --runtime was matched against their summary runtime only, which names one runtime; they are excluded: ''
     @ joinWith '', '' names"

definition runFind :: "plugin_env \<Rightarrow> aibom_object list \<Rightarrow> findFilter \<Rightarrow> printed list \<times> printed list" where
  "runFind env items f =
    (let l = findAll env f items in
     (if fl_rows l = [] then [Line ''0 matches''] else [Table (findHeader # fl_rows l)],
      (if fl_rows l \<noteq> [] \<and> fl_unavailable l \<noteq> [] \<and> needsDocument f
       then [Line (unavailableWarning (fl_unavailable l))] else []) @
      (if fl_summaryOnly l \<noteq> [] then [Line (summaryOnlyWarning (fl_summaryOnly l))] else [])))"

subsection \<open>Every row is accounted for\<close>

lemma containsSub_iff: "containsSub s p \<longleftrightarrow> (\<exists>a b. s = a @ p @ b)"
proof (induction s)
  case (Cons c s)
  have "containsSub (c # s) p \<longleftrightarrow> hasPrefix (c # s) p \<or> containsSub s p"
    by (auto simp: containsSub_def)
  moreover have "hasPrefix (c # s) p \<longleftrightarrow> (\<exists>b. c # s = p @ b)"
    by (auto simp: hasPrefix_def) (metis append_take_drop_id)
  moreover have "(\<exists>a b. c # s = a @ p @ b) \<longleftrightarrow> (\<exists>b. c # s = p @ b) \<or> (\<exists>a b. s = a @ p @ b)"
    by (metis append_Cons append_Nil list.inject neq_Nil_conv)
  ultimately show ?case using Cons.IH by blast
qed (simp add: containsSub_def)

text \<open>Why a document cannot be read, and the facts it gives otherwise.\<close>

abbreviation unavailability :: "plugin_env \<Rightarrow> jobject \<Rightarrow> string" where
  "unavailability env obj \<equiv> snd (inlineContainers env obj)"

abbreviation documentFacts :: "plugin_env \<Rightarrow> jobject \<Rightarrow> containerFacts" where
  "documentFacts env obj \<equiv> fst (inlineContainers env obj)"

lemma unavailable_no_facts: "unavailability env obj \<noteq> '''' \<Longrightarrow> documentFacts env obj = noFacts"
  by (auto simp: inlineContainers_def split: sum.splits inline_error.splits if_splits)

text \<open>
  What it means that readable facts contradict the filter: the models or signature states of the
  summary, or the facts of a document that could be read.
\<close>

definition summaryRefutes :: "plugin_env \<Rightarrow> jobject \<Rightarrow> findFilter \<Rightarrow> bool" where
  "summaryRefutes env obj f \<longleftrightarrow>
    (ff_model f \<noteq> '''' \<and> (\<forall>i \<in> set (fst (summaryModels env obj)). \<not> containsSub i (ff_model f))) \<or>
    (ff_signed f \<noteq> '''' \<and> ff_signed f \<notin> set (snd (summaryModels env obj)))"

definition documentRefutes :: "plugin_env \<Rightarrow> jobject \<Rightarrow> findFilter \<Rightarrow> bool" where
  "documentRefutes env obj f \<longleftrightarrow> unavailability env obj = '''' \<and>
    ((ff_runtime f \<noteq> '''' \<and> summaryString env obj [''runtime'', ''name''] \<noteq> ff_runtime f \<and>
       ff_runtime f \<notin> set (cf_runtimes (documentFacts env obj))) \<or>
     (ff_image f \<noteq> '''' \<and> (\<forall>i \<in> set (cf_images (documentFacts env obj)). \<not> containsSub i (ff_image f))) \<or>
     (ff_digest f \<noteq> '''' \<and> \<not> digestMatches (ff_digest f) (cf_digests (documentFacts env obj))))"

text \<open>The one criterion that an unreadable document leaves open: other runtimes than the summary's.\<close>

definition runtimeUnchecked :: "plugin_env \<Rightarrow> jobject \<Rightarrow> findFilter \<Rightarrow> bool" where
  "runtimeUnchecked env obj f \<longleftrightarrow> unavailability env obj \<noteq> '''' \<and> ff_runtime f \<noteq> '''' \<and>
    summaryString env obj [''runtime'', ''name''] \<noteq> ff_runtime f"

definition refuted :: "plugin_env \<Rightarrow> jobject \<Rightarrow> findFilter \<Rightarrow> bool" where
  "refuted env obj f \<longleftrightarrow> summaryRefutes env obj f \<or> documentRefutes env obj f"

definition shown :: "plugin_env \<Rightarrow> findFilter \<Rightarrow> aibom_object \<Rightarrow> bool" where
  "shown env f u \<longleftrightarrow> \<not> refuted env (snd u) f \<and> \<not> runtimeUnchecked env (snd u) f"

definition leftOpen :: "plugin_env \<Rightarrow> findFilter \<Rightarrow> aibom_object \<Rightarrow> bool" where
  "leftOpen env f u \<longleftrightarrow> \<not> refuted env (snd u) f \<and> runtimeUnchecked env (snd u) f"

text \<open>The match in terms of these, with the document's verdict abstracted.\<close>

definition runtimeMissed :: "plugin_env \<Rightarrow> jobject \<Rightarrow> findFilter \<Rightarrow> bool" where
  "runtimeMissed env obj f \<longleftrightarrow> ff_runtime f \<noteq> '''' \<and>
    \<not> hasRuntime (summaryString env obj [''runtime'', ''name'']) (cf_runtimes (documentFacts env obj)) (ff_runtime f)"

definition contentMissed :: "containerFacts \<Rightarrow> findFilter \<Rightarrow> bool" where
  "contentMissed facts f \<longleftrightarrow> (ff_image f \<noteq> '''' \<and> (\<forall>i \<in> set (cf_images facts). \<not> containsSub i (ff_image f))) \<or>
    (ff_digest f \<noteq> '''' \<and> \<not> digestMatches (ff_digest f) (cf_digests facts))"

lemma contentMissed_needs: "contentMissed facts f \<Longrightarrow> needsDocument f"
  by (auto simp: contentMissed_def needsDocument_def)

lemma findMatch_cases:
  "findMatch env obj f = (case inlineContainers env obj of (facts, why) \<Rightarrow>
     if runtimeMissed env obj f \<and> why = '''' then (False, noFacts, '''')
     else if summaryRefutes env obj f then (False, noFacts, '''')
     else if runtimeMissed env obj f then (False, facts, why)
     else if needsDocument f \<and> why \<noteq> '''' then (True, facts, why)
     else if contentMissed facts f then (False, facts, '''')
     else (True, facts, why))"
proof -
  obtain facts why identities states where
    eqs: "inlineContainers env obj = (facts, why)" "summaryModels env obj = (identities, states)" by fastforce
  have "runtimeMissed env obj f \<longleftrightarrow> ff_runtime f \<noteq> '''' \<and>
      \<not> hasRuntime (summaryString env obj [''runtime'', ''name'']) (cf_runtimes facts) (ff_runtime f)"
    "summaryRefutes env obj f \<longleftrightarrow> (ff_model f \<noteq> '''' \<and> \<not> list_ex (\<lambda>i. containsSub i (ff_model f)) identities) \<or>
      (ff_signed f \<noteq> '''' \<and> ff_signed f \<notin> set states)"
    "contentMissed facts f \<longleftrightarrow> (ff_image f \<noteq> '''' \<and> \<not> list_ex (\<lambda>i. containsSub i (ff_image f)) (cf_images facts)) \<or>
      (ff_digest f \<noteq> '''' \<and> \<not> digestMatches (ff_digest f) (cf_digests facts))"
    by (auto simp: eqs runtimeMissed_def summaryRefutes_def contentMissed_def list_ex_iff)
  then show ?thesis by (simp add: findMatch_def eqs Let_def)
qed

lemma documentRefutes_alt:
  "documentRefutes env obj f \<longleftrightarrow> unavailability env obj = '''' \<and>
     (runtimeMissed env obj f \<or> contentMissed (documentFacts env obj) f)"
  by (auto simp: documentRefutes_def runtimeMissed_def contentMissed_def hasRuntime_def)

lemma runtimeUnchecked_alt:
  "runtimeUnchecked env obj f \<longleftrightarrow> unavailability env obj \<noteq> '''' \<and> runtimeMissed env obj f"
  using unavailable_no_facts [of env obj] by (auto simp: runtimeUnchecked_def runtimeMissed_def hasRuntime_def noFacts_def)

lemma findMatch_verdict:
  "fst (findMatch env (snd u) f) \<longleftrightarrow> shown env f u"
  "shown env f u \<Longrightarrow> snd (findMatch env (snd u) f) = inlineContainers env (snd u)"
  "\<not> shown env f u \<Longrightarrow> snd (snd (findMatch env (snd u) f)) \<noteq> '''' \<longleftrightarrow> leftOpen env f u"
proof -
  obtain facts why where ic: "inlineContainers env (snd u) = (facts, why)" by fastforce
  note defs = findMatch_cases shown_def leftOpen_def refuted_def documentRefutes_alt runtimeUnchecked_alt ic
  have needs: "contentMissed facts f \<Longrightarrow> needsDocument f" by (rule contentMissed_needs)
  show "fst (findMatch env (snd u) f) \<longleftrightarrow> shown env f u"
    by (cases "runtimeMissed env (snd u) f"; cases "summaryRefutes env (snd u) f"; cases "contentMissed facts f";
        cases "why = ''''"; simp add: defs needs)
  show "snd (findMatch env (snd u) f) = inlineContainers env (snd u)" if "shown env f u"
    using that by (cases "runtimeMissed env (snd u) f"; cases "summaryRefutes env (snd u) f"; cases "contentMissed facts f";
        cases "why = ''''"; simp add: defs needs)
  show "snd (snd (findMatch env (snd u) f)) \<noteq> '''' \<longleftrightarrow> leftOpen env f u" if "\<not> shown env f u"
    using that by (cases "runtimeMissed env (snd u) f"; cases "summaryRefutes env (snd u) f"; cases "contentMissed facts f";
        cases "why = ''''"; simp add: defs needs)
qed

lemma findAll_result:
  "fl_rows (findAll env f items) =
     map (\<lambda>u. findRow env u (documentFacts env (snd u)) (unavailability env (snd u))) (filter (shown env f) items)"
  "fl_unavailable (findAll env f items) =
     map rowName (filter (\<lambda>u. shown env f u \<and> unavailability env (snd u) \<noteq> '''') items)"
  "fl_summaryOnly (findAll env f items) = map rowName (filter (leftOpen env f) items)"
proof -
  have step: "findStep env f u l =
    \<lparr>fl_rows = fl_rows l @ (if shown env f u
       then [findRow env u (documentFacts env (snd u)) (unavailability env (snd u))] else []),
     fl_unavailable = fl_unavailable l @
       (if shown env f u \<and> unavailability env (snd u) \<noteq> '''' then [rowName u] else []),
     fl_summaryOnly = fl_summaryOnly l @ (if leftOpen env f u then [rowName u] else [])\<rparr>" for u l
  proof (cases "findMatch env (snd u) f")
    case (fields matched facts why)
    then have v: "matched \<longleftrightarrow> shown env f u" "shown env f u \<Longrightarrow> inlineContainers env (snd u) = (facts, why)"
      "\<not> shown env f u \<Longrightarrow> why \<noteq> '''' \<longleftrightarrow> leftOpen env f u"
      using findMatch_verdict [where env = env and u = u and f = f] by simp_all
    have "\<not> leftOpen env f u" if "shown env f u" using that by (simp add: shown_def leftOpen_def)
    with v show ?thesis by (cases "shown env f u") (simp_all add: findStep_def fields)
  qed
  have "fold (findStep env f) items l =
    \<lparr>fl_rows = fl_rows l @ map (\<lambda>u. findRow env u (documentFacts env (snd u)) (unavailability env (snd u))) (filter (shown env f) items),
     fl_unavailable = fl_unavailable l @ map rowName (filter (\<lambda>u. shown env f u \<and> unavailability env (snd u) \<noteq> '''') items),
     fl_summaryOnly = fl_summaryOnly l @ map rowName (filter (leftOpen env f) items)\<rparr>" for l
    by (induction items arbitrary: l) (simp_all add: step)
  then show "fl_rows (findAll env f items) =
     map (\<lambda>u. findRow env u (documentFacts env (snd u)) (unavailability env (snd u))) (filter (shown env f) items)"
    "fl_unavailable (findAll env f items) =
     map rowName (filter (\<lambda>u. shown env f u \<and> unavailability env (snd u) \<noteq> '''') items)"
    "fl_summaryOnly (findAll env f items) = map rowName (filter (leftOpen env f) items)"
    by (simp_all add: findAll_def)
qed

lemma runFind_result:
  "runFind env items f =
    ((if filter (shown env f) items = [] then [Line ''0 matches'']
      else [Table (findHeader # map (\<lambda>u. findRow env u (documentFacts env (snd u)) (unavailability env (snd u)))
        (filter (shown env f) items))]),
     (if needsDocument f \<and> filter (\<lambda>u. shown env f u \<and> unavailability env (snd u) \<noteq> '''') items \<noteq> []
      then [Line (unavailableWarning (map rowName (filter (\<lambda>u. shown env f u \<and> unavailability env (snd u) \<noteq> '''') items)))]
      else []) @
     (if filter (leftOpen env f) items \<noteq> []
      then [Line (summaryOnlyWarning (map rowName (filter (leftOpen env f) items)))] else []))"
proof -
  have "filter (\<lambda>u. shown env f u \<and> unavailability env (snd u) \<noteq> '''') items = []" if "filter (shown env f) items = []"
    using that by (auto simp: filter_empty_conv)
  then show ?thesis by (auto simp: runFind_def findAll_result Let_def)
qed

lemma findRow_columns:
  "findRow env u facts why ! 0 = om_namespace (fst u)" "findRow env u facts why ! 2 = om_name (fst u)"
  "why \<noteq> '''' \<Longrightarrow> findRow env u facts why ! 5 = why"
  by (simp_all add: findRow_def Let_def split: prod.split)

lemma shown_row:
  assumes "u \<in> set items" "shown env f u" "runFind env items f = (out, err)"
  shows "\<exists>rows. out = [Table (findHeader # rows)] \<and>
    findRow env u (documentFacts env (snd u)) (unavailability env (snd u)) \<in> set rows"
proof -
  let ?row = "\<lambda>u. findRow env u (documentFacts env (snd u)) (unavailability env (snd u))"
  have u: "u \<in> set (filter (shown env f) items)" using assms(1,2) by simp
  then have "filter (shown env f) items \<noteq> []" by (metis empty_iff set_empty)
  moreover have "out = fst (runFind env items f)" by (simp add: assms(3))
  ultimately have "out = [Table (findHeader # map ?row (filter (shown env f) items))]"
    unfolding runFind_result fst_conv by (simp only: if_False)
  moreover have "?row u \<in> set (map ?row (filter (shown env f) items))" using u unfolding set_map by (rule imageI)
  ultimately show ?thesis by blast
qed

lemma unavailable_warned:
  assumes "u \<in> set items" "shown env f u" "unavailability env (snd u) \<noteq> ''''" "needsDocument f" "runFind env items f = (out, err)"
  shows "\<exists>names. Line (unavailableWarning names) \<in> set err \<and> rowName u \<in> set names"
proof -
  let ?us = "filter (\<lambda>u. shown env f u \<and> unavailability env (snd u) \<noteq> '''') items"
  have u: "u \<in> set ?us" using assms(1-3) by simp
  then have "?us \<noteq> []" by (metis empty_iff set_empty)
  moreover have "err = snd (runFind env items f)" by (simp add: assms(5))
  ultimately have "Line (unavailableWarning (map rowName ?us)) \<in> set err"
    unfolding runFind_result snd_conv using assms(4) by simp
  moreover have "rowName u \<in> set (map rowName ?us)" using u unfolding set_map by (rule imageI)
  ultimately show ?thesis by blast
qed

lemma leftOpen_warned:
  assumes "u \<in> set items" "leftOpen env f u" "runFind env items f = (out, err)"
  shows "\<exists>names. Line (summaryOnlyWarning names) \<in> set err \<and> rowName u \<in> set names"
proof -
  have u: "u \<in> set (filter (leftOpen env f) items)" using assms(1,2) by simp
  then have "filter (leftOpen env f) items \<noteq> []" by (metis empty_iff set_empty)
  moreover have "err = snd (runFind env items f)" by (simp add: assms(3))
  ultimately have "Line (summaryOnlyWarning (map rowName (filter (leftOpen env f) items))) \<in> set err"
    unfolding runFind_result snd_conv by simp
  moreover have "rowName u \<in> set (map rowName (filter (leftOpen env f) items))" using u unfolding set_map by (rule imageI)
  ultimately show ?thesis by blast
qed


text \<open>An instance for examples: the accessors of \<open>plainApi\<close>, with an encoding that changes nothing.\<close>

fun asBool :: "json \<Rightarrow> bool option" where "asBool (JBool b) = Some b" | "asBool _ = None"

definition plainEnv :: plugin_env where
  "plainEnv = \<lparr>pe_api = plainApi, pe_bool = \<lambda>m path. viewAs asBool (valueAt (JObject m) path), pe_base64 = Inr,
     pe_sha256 = \<lambda>_. replicate 32 (CHR 0x00), pe_indent = Inr, pe_parse = \<lambda>_. Inr []\<rparr>"

text \<open>A proxy in front of a server, whose document is in a bucket: only the proxy is in the summary.\<close>

definition proxyAibom :: aibom_object where
  "proxyAibom = (emptyMeta\<lparr>om_namespace := ''prod'', om_name := ''deployment-llm''\<rparr>,
     [(''status'', JObject [
        (''summary'', JObject [(''runtime'', JObject [(''name'', JString ''litellm'')])]),
        (''bomDocument'', JObject [(''external'', JObject [(''sink'', JString ''gcs'')])])])])"

definition runtimeFilter :: "string \<Rightarrow> string \<Rightarrow> findFilter" where
  "runtimeFilter rt img = \<lparr>ff_runtime = rt, ff_model = '''', ff_image = img, ff_digest = '''', ff_signed = ''''\<rparr>"


end
