(* ===== verification/Plugin_Args.thy ===== *)
theory Plugin_Args
  imports Plugin_Find
begin

text \<open>
  The \<^verbatim>\<open>kubectl aibom\<close> plugin, third part (\<^verbatim>\<open>cmd/kubectl-aibom/main.go\<close>): from the command line to the
  commands. Go's \<^verbatim>\<open>flag\<close> package is modelled as far as \<^verbatim>\<open>run\<close> uses it. The kubeconfig and the cluster
  behind it are the parameter \<open>connect\<close>.
\<close>

subsection \<open>The flag set\<close>

datatype flag_value = StringFlag string | BoolFlag bool

text \<open>
  The values of the flags, and in \<open>fs_actual\<close> the text of each flag that was set, by name: sorted, as
  \<^verbatim>\<open>fs.Visit\<close> goes through them. The long spellings of \<^verbatim>\<open>-n\<close> and \<^verbatim>\<open>-A\<close> are flags of their own that write
  the same variable.
\<close>

record flags =
  fs_actual :: "(string \<times> string) list"
  fs_namespace :: string
  fs_allNS :: bool
  fs_raw :: bool
  fs_runtime :: string
  fs_model :: string
  fs_image :: string
  fs_digest :: string
  fs_signed :: string
  fs_kubeconfig :: string
  fs_context :: string

definition initialFlags :: flags where
  "initialFlags = \<lparr>fs_actual = [], fs_namespace = '''', fs_allNS = False, fs_raw = False, fs_runtime = '''', fs_model = '''',
     fs_image = '''', fs_digest = '''', fs_signed = '''', fs_kubeconfig = '''', fs_context = ''''\<rparr>"

definition boolFlags :: "string list" where
  "boolFlags = [''A'', ''all-namespaces'', ''raw'']"

definition stringFlags :: "string list" where
  "stringFlags = [''n'', ''namespace'', ''runtime'', ''model'', ''image'', ''digest'', ''signed'', ''kubeconfig'', ''context'']"

definition setString :: "string \<Rightarrow> string \<Rightarrow> flags \<Rightarrow> flags" where
  "setString name v fs =
    (let fs = fs\<lparr>fs_actual := gm_put name v (fs_actual fs)\<rparr> in
     if name \<in> {''n'', ''namespace''} then fs\<lparr>fs_namespace := v\<rparr>
     else if name = ''runtime'' then fs\<lparr>fs_runtime := v\<rparr>
     else if name = ''model'' then fs\<lparr>fs_model := v\<rparr>
     else if name = ''image'' then fs\<lparr>fs_image := v\<rparr>
     else if name = ''digest'' then fs\<lparr>fs_digest := v\<rparr>
     else if name = ''signed'' then fs\<lparr>fs_signed := v\<rparr>
     else if name = ''kubeconfig'' then fs\<lparr>fs_kubeconfig := v\<rparr>
     else fs\<lparr>fs_context := v\<rparr>)"

definition setBool :: "string \<Rightarrow> bool \<Rightarrow> flags \<Rightarrow> flags" where
  "setBool name v fs =
    (let fs = fs\<lparr>fs_actual := gm_put name (if v then ''true'' else ''false'') (fs_actual fs)\<rparr> in
     if name = ''raw'' then fs\<lparr>fs_raw := v\<rparr> else fs\<lparr>fs_allNS := v\<rparr>)"

text \<open>\<^verbatim>\<open>strconv.ParseBool\<close>.\<close>

definition parseBool :: "string \<Rightarrow> bool option" where
  "parseBool s =
    (if s \<in> {''1'', ''t'', ''T'', ''true'', ''TRUE'', ''True''} then Some True
     else if s \<in> {''0'', ''f'', ''F'', ''false'', ''FALSE'', ''False''} then Some False else None)"

datatype flag_error = ErrHelp | FlagError string

text \<open>
  One round of \<^verbatim>\<open>FlagSet.parseOne\<close>: \<open>None\<close> stops the parser at what is not a flag or after \<^verbatim>\<open>--\<close>, with the
  arguments it leaves.
\<close>

definition parseOne :: "string \<Rightarrow> string list \<Rightarrow> flags \<Rightarrow> flag_error + (string list \<times> flags) option" where
  "parseOne s rest fs =
    (if length s < 2 \<or> s ! 0 \<noteq> CHR ''-'' \<or> s = ''--'' then Inr None
     else let name0 = (if s ! 1 = CHR ''-'' then drop 2 s else drop 1 s) in
       if name0 = '''' \<or> name0 ! 0 = CHR ''-'' \<or> name0 ! 0 = CHR ''=''
       then Inl (FlagError (''bad flag syntax: '' @ s))
       else let (name, v) = (case cutFirst (CHR ''='') name0 of None \<Rightarrow> (name0, None) | Some (n, x) \<Rightarrow> (n, Some x)) in
         if name \<in> set boolFlags then
           (case v of
              None \<Rightarrow> Inr (Some (rest, setBool name True fs))
            | Some x \<Rightarrow> (case parseBool x of
                Some b \<Rightarrow> Inr (Some (rest, setBool name b fs))
              | None \<Rightarrow> Inl (FlagError (''invalid boolean value '' @ goQuote x @ '' for -'' @ name @ '': parse error''))))
         else if name \<in> set stringFlags then
           (case v of
              Some x \<Rightarrow> Inr (Some (rest, setString name x fs))
            | None \<Rightarrow> (case rest of
                [] \<Rightarrow> Inl (FlagError (''flag needs an argument: -'' @ name))
              | x # rest' \<Rightarrow> Inr (Some (rest', setString name x fs))))
         else if name = ''help'' \<or> name = ''h'' then Inl ErrHelp
         else Inl (FlagError (''flag provided but not defined: -'' @ name)))"

lemma parseOne_shrinks: "parseOne s rest fs = Inr (Some (rest', fs')) \<Longrightarrow> length rest' \<le> length rest"
  by (auto simp: parseOne_def Let_def split: if_splits option.splits list.splits)

text \<open>\<^verbatim>\<open>FlagSet.Parse\<close>, with the arguments left in \<^verbatim>\<open>fs.Args()\<close>.\<close>

function parseFlags :: "string list \<Rightarrow> flags \<Rightarrow> flag_error + string list \<times> flags" where
  "parseFlags [] fs = Inr ([], fs)"
| "parseFlags (s # rest) fs = (case parseOne s rest fs of
     Inl e \<Rightarrow> Inl e
   | Inr None \<Rightarrow> Inr (if s = ''--'' then rest else s # rest, fs)
   | Inr (Some (rest', fs')) \<Rightarrow> parseFlags rest' fs')"
  by pat_completeness auto
termination
  by (relation "measure (length \<circ> fst)") (auto dest!: parseOne_shrinks)

subsection \<open>Separating the AIBOM name from the flags\<close>

definition isBoolFlag :: "string \<Rightarrow> bool" where
  "isBoolFlag a \<longleftrightarrow> trimPrefix (trimPrefix a ''-'') ''-'' \<in> set boolFlags"

definition takesNext :: "string \<Rightarrow> bool" where
  "takesNext a \<longleftrightarrow> \<not> isBoolFlag a \<and> CHR ''='' \<notin> set a"

text \<open>The loop over the arguments: the positional ones and those for the flag parser.\<close>

fun splitArgs :: "string list \<Rightarrow> string list \<times> string list" where
  "splitArgs [] = ([], [])"
| "splitArgs [a] = (if hasPrefix a ''-'' then ([], [a]) else ([a], []))"
| "splitArgs (a # b # rest) =
    (if \<not> hasPrefix a ''-'' then (case splitArgs (b # rest) of (pos, fl) \<Rightarrow> (a # pos, fl))
     else if takesNext a then (case splitArgs rest of (pos, fl) \<Rightarrow> (pos, a # b # fl))
     else (case splitArgs (b # rest) of (pos, fl) \<Rightarrow> (pos, a # fl)))"

definition flagName :: "string \<Rightarrow> string" where
  "flagName name = (if length name = 1 then ''-'' @ name else ''--'' @ name)"

subsection \<open>Argument checks\<close>

datatype subcommand = Summary | Find | View | Verify

definition subcommand_of :: "string \<Rightarrow> subcommand option" where
  "subcommand_of s = (if s = ''summary'' then Some Summary else if s = ''find'' then Some Find
     else if s = ''view'' then Some View else if s = ''verify'' then Some Verify else None)"

fun subcommand_str :: "subcommand \<Rightarrow> string" where
  "subcommand_str Summary = ''summary''"
| "subcommand_str Find = ''find''"
| "subcommand_str View = ''view''"
| "subcommand_str Verify = ''verify''"

definition usedFlags :: "subcommand \<Rightarrow> string list" where
  "usedFlags sub = [''n'', ''namespace'', ''kubeconfig'', ''context''] @
    (case sub of Summary \<Rightarrow> [''A'', ''all-namespaces'']
     | Find \<Rightarrow> [''A'', ''all-namespaces'', ''runtime'', ''model'', ''image'', ''digest'', ''signed'']
     | View \<Rightarrow> [''raw'']
     | Verify \<Rightarrow> [])"

definition filterFlags :: "string list" where
  "filterFlags = [''runtime'', ''model'', ''image'', ''digest'', ''signed'']"

definition filterOf :: "flags \<Rightarrow> findFilter" where
  "filterOf fs = \<lparr>ff_runtime = fs_runtime fs, ff_model = fs_model fs, ff_image = fs_image fs, ff_digest = fs_digest fs,
     ff_signed = fs_signed fs\<rparr>"

text \<open>The values of the filters, checked for \<^verbatim>\<open>find\<close>.\<close>

definition checkFilters :: "flags \<Rightarrow> string option" where
  "checkFilters fs =
    (let f = filterOf fs;
         empty = map fst (filter (\<lambda>(n, v). n \<in> set filterFlags \<and> v = '''') (fs_actual fs))
     in if empty \<noteq> [] then
          Some (joinWith '', '' (map flagName empty) @ '' needs a value; leave the flag out to match every AIBOM'')
        else if ff_signed f \<notin> {'''', ''unsigned'', ''claimed'', ''verified''} then
          Some ''--signed must be one of unsigned, claimed, verified''
        else if ff_digest f \<noteq> '''' then checkDigestFilter (ff_digest f)
        else None)"

text \<open>The checks between the parser and the kubeconfig; \<open>None\<close> lets the command proceed.\<close>

definition checkArgs :: "subcommand \<Rightarrow> string list \<Rightarrow> flags \<Rightarrow> string option" where
  "checkArgs sub positional fs =
    (let unused = filter (\<lambda>n. n \<notin> set (usedFlags sub)) (map fst (fs_actual fs));
         nsSet = list_ex (\<lambda>n. n = ''n'' \<or> n = ''namespace'') (map fst (fs_actual fs))
     in if unused \<noteq> [] then Some (joinWith '', '' (map flagName unused) @ '' does not apply to '' @ subcommand_str sub)
        else if fs_allNS fs \<and> nsSet then
          Some (''-n and -A cannot be used together (-n '' @
            (if fs_namespace fs = '''' then ''NAMESPACE'' else fs_namespace fs) @ '' for one namespace, -A for all)'')
        else if sub \<in> {Summary, Find} \<and> positional \<noteq> [] then
          Some (subcommand_str sub @ '' takes no positional arguments, got '' @ goQuote (hd positional) @ '' ('' @
            (if sub = Find then ''filters are flags, e.g. --runtime '' @ hd positional
             else ''for a namespace, use -n '' @ hd positional) @ '')'')
        else if sub = Find then checkFilters fs
        else if sub \<in> {View, Verify} \<and> length positional \<noteq> 1 then
          Some (subcommand_str sub @ '' requires exactly one AIBOM name (try: kubectl aibom summary)'')
        else None)"

datatype settled = ShowHelp | Rejected "printed list" string | Proceed subcommand "string list" flags

text \<open>A rejection prints its first argument before \<^verbatim>\<open>main\<close> prints the error; the flag parser reports its own errors.\<close>

definition settleArgs :: "string list \<Rightarrow> settled" where
  "settleArgs args = (case args of
     [] \<Rightarrow> Rejected [Usage] ''a subcommand is required''
   | s # rest \<Rightarrow>
      (if s \<in> {''help'', ''-h'', ''--help''} then ShowHelp
       else (case subcommand_of s of
           None \<Rightarrow> Rejected [Usage] (''unknown subcommand '' @ goQuote s)
         | Some sub \<Rightarrow>
            (case splitArgs rest of (positional, flagArgs) \<Rightarrow>
               (case parseFlags flagArgs initialFlags of
                  Inl ErrHelp \<Rightarrow> ShowHelp
                | Inl (FlagError e) \<Rightarrow> Rejected [Line e, Usage] e
                | Inr (_, fs) \<Rightarrow>
                   (case checkArgs sub positional fs of
                      Some e \<Rightarrow> Rejected [] e
                    | None \<Rightarrow> Proceed sub positional fs))))))"

subsection \<open>Running the command\<close>

record cluster =
  cl_namespace :: "string + string"
  cl_config :: "string + unit"
  cl_client :: "string + unit"
  cl_list :: "string option \<Rightarrow> string + aibom_object list"
  cl_get :: "string \<Rightarrow> string \<Rightarrow> string + aibom_object"

datatype run_end = ReturnNil | ReturnError string | Exit nat

type_synonym run_result = "(printed list \<times> printed list) \<times> run_end"

definition runCommand :: "plugin_env \<Rightarrow> cluster \<Rightarrow> string \<Rightarrow> subcommand \<Rightarrow> string list \<Rightarrow> flags \<Rightarrow> run_result" where
  "runCommand env cl ns sub positional fs =
    (let listed = cl_list cl (if fs_allNS fs then None else Some ns);
         got = cl_get cl ns (hd positional)
     in case sub of
       Summary \<Rightarrow> (case listed of Inl e \<Rightarrow> (([], []), ReturnError e) | Inr items \<Rightarrow> (runSummary env items, ReturnNil))
     | Find \<Rightarrow> (case listed of Inl e \<Rightarrow> (([], []), ReturnError e) | Inr items \<Rightarrow> (runFind env items (filterOf fs), ReturnNil))
     | View \<Rightarrow> (case got of Inl e \<Rightarrow> (([], []), ReturnError e)
         | Inr u \<Rightarrow> (case runView env (snd u) (fs_raw fs) of
             Inl e \<Rightarrow> (([], []), ReturnError e) | Inr out \<Rightarrow> ((out, []), ReturnNil)))
     | Verify \<Rightarrow> (case got of Inl e \<Rightarrow> (([], []), ReturnError e)
         | Inr u \<Rightarrow> (case runVerify env (snd u) of
             Inl e \<Rightarrow> (([], []), ReturnError e)
           | Inr (ok, out) \<Rightarrow> ((out, []), if ok then ReturnNil else Exit 2))))"

definition run :: "plugin_env \<Rightarrow> (string \<Rightarrow> string \<Rightarrow> cluster) \<Rightarrow> string list \<Rightarrow> run_result" where
  "run env connect args = (case settleArgs args of
     ShowHelp \<Rightarrow> (([], [Usage]), ReturnNil)
   | Rejected said e \<Rightarrow> (([], said), ReturnError e)
   | Proceed sub positional fs \<Rightarrow>
      (let cl = connect (fs_kubeconfig fs) (fs_context fs) in
       case (if fs_namespace fs = '''' \<and> \<not> fs_allNS fs then cl_namespace cl else Inr (fs_namespace fs)) of
         Inl e \<Rightarrow> (([], []), ReturnError (''resolving namespace: '' @ e))
       | Inr ns \<Rightarrow>
          (case cl_config cl of
             Inl e \<Rightarrow> (([], []), ReturnError (''loading kubeconfig: '' @ e))
           | Inr _ \<Rightarrow> (case cl_client cl of
               Inl e \<Rightarrow> (([], []), ReturnError e)
             | Inr _ \<Rightarrow> runCommand env cl ns sub positional fs))))"

text \<open>\<^verbatim>\<open>main\<close>: what is printed, and the exit code of the process.\<close>

definition plugin_main :: "plugin_env \<Rightarrow> (string \<Rightarrow> string \<Rightarrow> cluster) \<Rightarrow> string list \<Rightarrow> (printed list \<times> printed list) \<times> nat" where
  "plugin_main env connect args = (case run env connect args of
     ((out, err), ReturnNil) \<Rightarrow> ((out, err), 0)
   | ((out, err), ReturnError e) \<Rightarrow> ((out, err @ [Line (''kubectl-aibom: '' @ e)]), 1)
   | ((out, err), Exit n) \<Rightarrow> ((out, err), n))"

subsection \<open>Reading the arguments in one pass\<close>

text \<open>
  The reference: flags and names in any order, read from left to right, each flag with its value. A
  lone \<^verbatim>\<open>-\<close> is a name, and after \<^verbatim>\<open>--\<close> everything is.
\<close>

function readArgs :: "string list \<Rightarrow> flags \<Rightarrow> flag_error + string list \<times> flags" where
  "readArgs [] fs = Inr ([], fs)"
| "readArgs (a # rest) fs =
    (if \<not> hasPrefix a ''-'' \<or> a = ''-'' then map_sum id (apfst (Cons a)) (readArgs rest fs)
     else if a = ''--'' then Inr (rest, fs)
     else (case parseOne a rest fs of
         Inl e \<Rightarrow> Inl e
       | Inr None \<Rightarrow> Inr (a # rest, fs)
       | Inr (Some (rest', fs')) \<Rightarrow> readArgs rest' fs'))"
  by pat_completeness auto
termination
  by (relation "measure (length \<circ> fst)") (auto dest!: parseOne_shrinks)

lemma dash_cases:
  assumes "hasPrefix a ''-''" "a \<noteq> ''-''" "a \<noteq> ''--''"
  obtains name0 where "name0 = (if a ! 1 = CHR ''-'' then drop 2 a else drop 1 a)"
    "name0 = trimPrefix (trimPrefix a ''-'') ''-''" "name0 \<noteq> ''''" "length a \<ge> 2" "a ! 0 = CHR ''-''"
    "CHR ''='' \<in> set name0 \<longleftrightarrow> CHR ''='' \<in> set a"
proof -
  from assms(1,2) obtain x xs where a: "a = CHR ''-'' # x # xs"
    by (cases a; cases "tl a") (auto simp: hasPrefix_def)
  show ?thesis
  proof (rule that)
    show "(if a ! 1 = CHR ''-'' then drop 2 a else drop 1 a) = (if a ! 1 = CHR ''-'' then drop 2 a else drop 1 a)" ..
  qed (use assms(3) in \<open>auto simp: a trimPrefix_def hasPrefix_def\<close>)
qed

lemma boolFlags_no_equals: "name \<in> set boolFlags \<Longrightarrow> CHR ''='' \<notin> set name \<and> name \<noteq> '''' \<and> hd name \<noteq> CHR ''-'' \<and> hd name \<noteq> CHR ''=''"
  by (auto simp: boolFlags_def)

lemma parseOne_next:
  assumes "hasPrefix a ''-''" "a \<noteq> ''-''" "a \<noteq> ''--''" "takesNext a"
  shows "\<exists>r. \<forall>rest. parseOne a (b # rest) fs = map_sum id (\<lambda>fs'. Some (rest, fs')) r"
proof -
  obtain name0 where n: "name0 = (if a ! 1 = CHR ''-'' then drop 2 a else drop 1 a)"
    "name0 = trimPrefix (trimPrefix a ''-'') ''-''" "name0 \<noteq> ''''" "length a \<ge> 2" "a ! 0 = CHR ''-''"
    "CHR ''='' \<in> set name0 \<longleftrightarrow> CHR ''='' \<in> set a"
    using dash_cases [OF assms(1-3)] .
  have none: "cutFirst (CHR ''='') name0 = None" "name0 \<notin> set boolFlags"
    using assms(4) n(2,6) by (simp_all add: takesNext_def isBoolFlag_def cutFirst_None)
  show ?thesis
  proof (cases "name0 ! 0 = CHR ''-'' \<or> name0 ! 0 = CHR ''='' \<or> name0 \<notin> set stringFlags")
    case True
    have "\<forall>rest. parseOne a (b # rest) fs = Inl (if name0 ! 0 = CHR ''-'' \<or> name0 ! 0 = CHR ''=''
        then FlagError (''bad flag syntax: '' @ a)
        else if name0 = ''help'' \<or> name0 = ''h'' then ErrHelp
        else FlagError (''flag provided but not defined: -'' @ name0))"
      using True n(3-5) none assms(3) unfolding parseOne_def n(1) [symmetric] by (auto simp: Let_def stringFlags_def)
    then show ?thesis by (metis map_sum.simps(1) id_apply)
  next
    case False
    then show ?thesis using n(3-5) none assms(3) unfolding parseOne_def n(1) [symmetric]
      by (intro exI [of _ "Inr (setString name0 b fs)"]) (simp add: Let_def)
  qed
qed

lemma parseOne_alone:
  assumes "hasPrefix a ''-''" "a \<noteq> ''-''" "a \<noteq> ''--''" "\<not> takesNext a"
  shows "\<exists>r. \<forall>rest. parseOne a rest fs = map_sum id (\<lambda>fs'. Some (rest, fs')) r"
proof -
  obtain name0 where n: "name0 = (if a ! 1 = CHR ''-'' then drop 2 a else drop 1 a)"
    "name0 = trimPrefix (trimPrefix a ''-'') ''-''" "name0 \<noteq> ''''" "length a \<ge> 2" "a ! 0 = CHR ''-''"
    "CHR ''='' \<in> set name0 \<longleftrightarrow> CHR ''='' \<in> set a"
    using dash_cases [OF assms(1-3)] .
  have long: "\<not> length a < 2" using n(4) by simp
  consider "name0 ! 0 = CHR ''-'' \<or> name0 ! 0 = CHR ''=''"
    | "name0 \<in> set boolFlags" "cutFirst (CHR ''='') name0 = None" "\<not> (name0 ! 0 = CHR ''-'' \<or> name0 ! 0 = CHR ''='')"
    | name x where "cutFirst (CHR ''='') name0 = Some (name, x)" "\<not> (name0 ! 0 = CHR ''-'' \<or> name0 ! 0 = CHR ''='')"
    using assms(4) n(2,6) boolFlags_no_equals [of name0]
    by (cases "cutFirst (CHR ''='') name0") (auto simp: takesNext_def isBoolFlag_def cutFirst_None)
  then show ?thesis
  proof cases
    case 1
    then show ?thesis using long n(3,5) assms(3) unfolding parseOne_def n(1) [symmetric]
      by (intro exI [of _ "Inl (FlagError (''bad flag syntax: '' @ a))"]) simp
  next
    case 2
    then show ?thesis using long n(3,5) assms(3) unfolding parseOne_def n(1) [symmetric]
      by (intro exI [of _ "Inr (setBool name0 True fs)"]) (simp add: Let_def)
  next
    case 3
    then have "\<exists>r. \<forall>rest. parseOne a rest fs = (if name \<in> set boolFlags then
         (case parseBool x of Some v \<Rightarrow> Inr (Some (rest, setBool name v fs))
          | None \<Rightarrow> Inl (FlagError (''invalid boolean value '' @ goQuote x @ '' for -'' @ name @ '': parse error'')))
        else if name \<in> set stringFlags then Inr (Some (rest, setString name x fs)) else Inl r)"
      using long n(3,5) assms(3) unfolding parseOne_def n(1) [symmetric] by (auto simp: Let_def)
    then obtain r where r: "\<And>rest. parseOne a rest fs = (if name \<in> set boolFlags then
         (case parseBool x of Some v \<Rightarrow> Inr (Some (rest, setBool name v fs))
          | None \<Rightarrow> Inl (FlagError (''invalid boolean value '' @ goQuote x @ '' for -'' @ name @ '': parse error'')))
        else if name \<in> set stringFlags then Inr (Some (rest, setString name x fs)) else Inl r)" by blast
    show ?thesis
      by (rule exI [of _ "if name \<in> set boolFlags then
         (case parseBool x of Some v \<Rightarrow> Inr (setBool name v fs)
          | None \<Rightarrow> Inl (FlagError (''invalid boolean value '' @ goQuote x @ '' for -'' @ name @ '': parse error'')))
        else if name \<in> set stringFlags then Inr (setString name x fs) else Inl r"]) (simp add: r split: option.split)
  qed
qed

text \<open>
  Separating the names from the flags first and parsing the flags then gives what one pass over the
  arguments gives, and the parser leaves nothing over, if no argument is a bare \<^verbatim>\<open>-\<close> or \<^verbatim>\<open>--\<close>.
\<close>

lemma two_passes:
  assumes "''-'' \<notin> set args" "''--'' \<notin> set args"
  shows "readArgs args fs = (case splitArgs args of (pos, fl) \<Rightarrow>
    (case parseFlags fl fs of Inl e \<Rightarrow> Inl e | Inr (left, fs') \<Rightarrow> Inr (pos @ left, fs')))"
    and "splitArgs args = (pos, fl) \<Longrightarrow> parseFlags fl fs = Inr (left, fs') \<Longrightarrow> left = []"
proof -
  have "readArgs args fs = map_sum id (\<lambda>(_, fs'). (fst (splitArgs args), fs')) (parseFlags (snd (splitArgs args)) fs) \<and>
    (\<forall>left fs'. parseFlags (snd (splitArgs args)) fs = Inr (left, fs') \<longrightarrow> left = [])"
    using assms
  proof (induction args arbitrary: fs rule: splitArgs.induct)
    case (2 a)
    show ?case
    proof (cases "hasPrefix a ''-''")
      case True
      from 2 have a: "a \<noteq> ''-''" "a \<noteq> ''--''" by auto
      show ?thesis
      proof (cases "parseOne a [] fs")
        case (Inr q)
        have "q \<noteq> None" using Inr True a
          by (cases a; auto simp: parseOne_def hasPrefix_def Let_def neq_Nil_conv split: if_splits option.splits prod.splits)
        then obtain rest' fs' where "q = Some (rest', fs')" by (cases q) auto
        moreover then have "rest' = []" using parseOne_shrinks [of a "[]" fs rest' fs'] Inr by simp
        ultimately show ?thesis using Inr True a by simp
      qed (use True a in simp)
    qed simp
  next
    case (3 a b rest)
    from "3.prems" have a: "a \<noteq> ''-''" "a \<noteq> ''--''" by auto
    show ?case
    proof (cases "hasPrefix a ''-''")
      case False
      have "readArgs (b # rest) fs = map_sum id (\<lambda>(_, fs'). (fst (splitArgs (b # rest)), fs')) (parseFlags (snd (splitArgs (b # rest))) fs) \<and>
        (\<forall>left fs'. parseFlags (snd (splitArgs (b # rest))) fs = Inr (left, fs') \<longrightarrow> left = [])"
        by (rule "3.IH"(1)) (use False "3.prems" in auto)
      with False show ?thesis
        by (cases "splitArgs (b # rest)"; cases "parseFlags (snd (splitArgs (b # rest))) fs") auto
    next
      case True
      show ?thesis
      proof (cases "takesNext a")
        case next_: True
        obtain r where r: "\<And>rest. parseOne a (b # rest) fs = map_sum id (\<lambda>fs'. Some (rest, fs')) r"
          using parseOne_next [OF True a next_] by blast
        show ?thesis using "3.IH"(2) True next_ a "3.prems"
          by (cases r; cases "splitArgs rest") (simp_all add: r)
      next
        case alone: False
        obtain r where r: "\<And>rest. parseOne a rest fs = map_sum id (\<lambda>fs'. Some (rest, fs')) r"
          using parseOne_alone [OF True a alone] by blast
        show ?thesis using "3.IH"(3) True alone a "3.prems"
          by (cases r; cases "splitArgs (b # rest)") (simp_all add: r)
      qed
    qed
  qed simp
  then show "readArgs args fs = (case splitArgs args of (pos, fl) \<Rightarrow>
      (case parseFlags fl fs of Inl e \<Rightarrow> Inl e | Inr (left, fs') \<Rightarrow> Inr (pos @ left, fs')))"
    "splitArgs args = (pos, fl) \<Longrightarrow> parseFlags fl fs = Inr (left, fs') \<Longrightarrow> left = []"
    by (cases "splitArgs args"; cases "parseFlags (snd (splitArgs args)) fs"; auto)+
qed

subsection \<open>What reaches the cluster\<close>

lemma trimBytes_empty: "trimBytes bytes s = '''' \<longleftrightarrow> set s \<subseteq> set bytes"
proof -
  have "dropWhile (\<lambda>c. c \<in> set bytes) t = [] \<longleftrightarrow> set t \<subseteq> set bytes" for t by auto
  moreover have "set (dropWhile (\<lambda>c. c \<in> set bytes) s) \<subseteq> set bytes \<longleftrightarrow> dropWhile (\<lambda>c. c \<in> set bytes) s = []"
    by (metis (no_types, lifting) dropWhile_eq_Nil_conv hd_dropWhile hd_in_set list.set(1) empty_subsetI subsetD)
  ultimately show ?thesis by (simp add: trimBytes_def)
qed

lemma checkDigestFilter_None:
  "checkDigestFilter d = None \<longleftrightarrow> normalizeDigest d \<noteq> '''' \<and> length (normalizeDigest d) \<le> 64 \<and>
     set (normalizeDigest d) \<subseteq> set hexDigits"
  by (auto simp: checkDigestFilter_def Let_def trimBytes_empty)

lemma if_Some_None: "(if b then Some e else x) = None \<longleftrightarrow> \<not> b \<and> x = None"
  by simp

lemma checkFilters_None:
  assumes "checkFilters fs = None"
  shows "(n, v) \<in> set (fs_actual fs) \<Longrightarrow> n \<in> set filterFlags \<Longrightarrow> v \<noteq> ''''"
    and "fs_signed fs \<in> {'''', ''unsigned'', ''claimed'', ''verified''}"
    and "fs_digest fs \<noteq> '''' \<Longrightarrow> checkDigestFilter (fs_digest fs) = None"
proof -
  note checks = assms [unfolded checkFilters_def filterOf_def findFilter.select_convs Let_def if_Some_None map_is_Nil_conv not_not]
  show "v \<noteq> ''''" if "(n, v) \<in> set (fs_actual fs)" "n \<in> set filterFlags"
    using conjunct1 [OF checks] that unfolding filter_empty_conv by blast
  show "fs_signed fs \<in> {'''', ''unsigned'', ''claimed'', ''verified''}"
    using conjunct1 [OF conjunct2 [OF checks]] .
  show "checkDigestFilter (fs_digest fs) = None" if "fs_digest fs \<noteq> ''''"
    using conjunct2 [OF conjunct2 [OF checks]] unfolding if_P [OF that] .
qed

lemma checkArgs_None:
  assumes "checkArgs sub positional fs = None"
  shows "n \<in> fst ` set (fs_actual fs) \<Longrightarrow> n \<in> set (usedFlags sub)"
    and "fs_allNS fs \<Longrightarrow> n \<in> fst ` set (fs_actual fs) \<Longrightarrow> n \<notin> {''n'', ''namespace''}"
    and "if sub \<in> {View, Verify} then length positional = 1 else positional = []"
    and "sub = Find \<Longrightarrow> checkFilters fs = None"
proof -
  note checks = assms [unfolded checkArgs_def Let_def if_Some_None not_not filter_empty_conv set_map list_ex_iff]
  show "n \<in> set (usedFlags sub)" if "n \<in> fst ` set (fs_actual fs)"
    using conjunct1 [OF checks] that by blast
  show "n \<notin> {''n'', ''namespace''}" if "fs_allNS fs" "n \<in> fst ` set (fs_actual fs)"
    using conjunct1 [OF conjunct2 [OF checks]] that by blast
  note rest = conjunct2 [OF conjunct2 [OF checks]]
  show "if sub \<in> {View, Verify} then length positional = 1 else positional = []"
    using rest by (cases sub) (simp_all split: if_splits)
  show "checkFilters fs = None" if "sub = Find"
    using conjunct2 [OF rest] unfolding if_P [OF that] .
qed

text \<open>
  C38. Without a bare \<^verbatim>\<open>-\<close> or \<^verbatim>\<open>--\<close>, no argument is dropped: a command that reaches the cluster runs with
  exactly the names and flags that one pass over its arguments reads, in whatever order they stand. A
  name is given exactly where the command takes one, every flag applies to it, all namespaces and one
  namespace exclude each other, and for \<^verbatim>\<open>find\<close> every filter flag has a value: a known signature state, or
  1 to 64 hexadecimal digits.
\<close>

theorem arguments_settled:
  assumes "''-'' \<notin> set rest" "''--'' \<notin> set rest" and proceed: "settleArgs (s # rest) = Proceed sub positional fs"
  shows "s = subcommand_str sub \<and> readArgs rest initialFlags = Inr (positional, fs) \<and>
    (if sub \<in> {View, Verify} then length positional = 1 else positional = []) \<and>
    (\<forall>(n, v) \<in> set (fs_actual fs). n \<in> set (usedFlags sub) \<and>
      (fs_allNS fs \<longrightarrow> n \<notin> {''n'', ''namespace''}) \<and> (sub = Find \<and> n \<in> set filterFlags \<longrightarrow> v \<noteq> '''')) \<and>
    (sub = Find \<longrightarrow> fs_signed fs \<in> {'''', ''unsigned'', ''claimed'', ''verified''} \<and>
      (fs_digest fs \<noteq> '''' \<longrightarrow> normalizeDigest (fs_digest fs) \<noteq> '''' \<and> length (normalizeDigest (fs_digest fs)) \<le> 64 \<and>
        set (normalizeDigest (fs_digest fs)) \<subseteq> set hexDigits))"
proof -
  obtain fl left where sub: "subcommand_of s = Some sub" and split: "splitArgs rest = (positional, fl)"
    and parse: "parseFlags fl initialFlags = Inr (left, fs)" and check: "checkArgs sub positional fs = None"
    using proceed by (auto simp: settleArgs_def split: if_splits option.splits prod.splits sum.splits flag_error.splits)
  have "left = []" using two_passes(2) [OF assms(1,2) split parse] .
  then have "readArgs rest initialFlags = Inr (positional, fs)"
    using two_passes(1) [OF assms(1,2), of initialFlags] by (simp add: split parse)
  moreover have "s = subcommand_str sub" using sub by (auto simp: subcommand_of_def split: if_splits)
  moreover have "n \<in> set (usedFlags sub) \<and> (fs_allNS fs \<longrightarrow> n \<notin> {''n'', ''namespace''}) \<and>
      (sub = Find \<and> n \<in> set filterFlags \<longrightarrow> v \<noteq> '''')" if nv: "(n, v) \<in> set (fs_actual fs)" for n v
  proof -
    have n: "n \<in> fst ` set (fs_actual fs)" using nv by force
    then show ?thesis
      using checkArgs_None(1) [OF check n] checkArgs_None(2) [OF check _ n] checkFilters_None(1) [OF checkArgs_None(4) [OF check] nv] by blast
  qed
  then have "\<forall>(n, v) \<in> set (fs_actual fs). n \<in> set (usedFlags sub) \<and>
      (fs_allNS fs \<longrightarrow> n \<notin> {''n'', ''namespace''}) \<and> (sub = Find \<and> n \<in> set filterFlags \<longrightarrow> v \<noteq> '''')" by blast
  moreover have "sub = Find \<longrightarrow> fs_signed fs \<in> {'''', ''unsigned'', ''claimed'', ''verified''} \<and>
      (fs_digest fs \<noteq> '''' \<longrightarrow> normalizeDigest (fs_digest fs) \<noteq> '''' \<and> length (normalizeDigest (fs_digest fs)) \<le> 64 \<and>
        set (normalizeDigest (fs_digest fs)) \<subseteq> set hexDigits)"
    using checkFilters_None(2,3) [OF checkArgs_None(4) [OF check]] unfolding checkDigestFilter_None by blast
  ultimately show ?thesis using checkArgs_None(3) [OF check] by blast
qed

definition exampleArgs :: "string list" where
  "exampleArgs = [''find'', ''-A'', ''--digest'', ''sha256:AB'', ''--signed=claimed'']"

theorem arguments_settled_witness:
  "\<exists>fs. settleArgs exampleArgs = Proceed Find [] fs \<and> readArgs (tl exampleArgs) initialFlags = Inr ([], fs) \<and>
    normalizeDigest (fs_digest fs) = ''ab''"
proof -
  have run: "settleArgs (''find'' # tl exampleArgs) = Proceed Find [] (initialFlags\<lparr>
      fs_actual := [(''A'', ''true''), (''digest'', ''sha256:AB''), (''signed'', ''claimed'')],
      fs_allNS := True, fs_digest := ''sha256:AB'', fs_signed := ''claimed''\<rparr>)" (is "_ = Proceed _ _ ?fs")
    by code_simp
  have tokens: "''-'' \<notin> set (tl exampleArgs)" "''--'' \<notin> set (tl exampleArgs)" by code_simp+
  have "readArgs (tl exampleArgs) initialFlags = Inr ([], ?fs)"
    using arguments_settled [OF tokens run] by blast
  moreover have "''find'' # tl exampleArgs = exampleArgs" "normalizeDigest (fs_digest ?fs) = ''ab''" by code_simp+
  ultimately show ?thesis using run by (intro exI [of _ ?fs]) simp
qed

text \<open>
  A bare \<^verbatim>\<open>--\<close> silently swallows the argument after it: \<^verbatim>\<open>find -- X\<close> runs as \<^verbatim>\<open>find\<close> without any filter,
  whatever \<^verbatim>\<open>X\<close> is, and lists every AIBOM of the namespace as a match, although one pass over the
  arguments reads \<^verbatim>\<open>X\<close> as a positional argument, which \<^verbatim>\<open>find\<close> rejects.
\<close>

theorem dash_dash_drops_argument:
  "run env connect [''find'', ''--'', x] = run env connect [''find''] \<and>
   settleArgs [''find'', ''--'', x] = Proceed Find [] initialFlags \<and>
   readArgs [''--'', x] initialFlags = Inr ([x], initialFlags) \<and> (\<exists>e. settleArgs [''find'', ''vllm''] = Rejected [] e)"
proof -
  have split: "splitArgs [''--'', x] = ([], [''--'', x])"
    by (simp add: hasPrefix_def takesNext_def isBoolFlag_def trimPrefix_def boolFlags_def)
  have parse: "parseFlags [''--'', x] initialFlags = Inr ([x], initialFlags)" by (simp add: parseOne_def)
  have check: "checkArgs Find [] initialFlags = None" by code_simp
  have settled: "settleArgs [''find'', ''--'', x] = Proceed Find [] initialFlags"
    by (simp add: settleArgs_def subcommand_of_def split parse check del: splitArgs.simps parseFlags.simps)
  moreover have "settleArgs [''find''] = Proceed Find [] initialFlags" by code_simp
  moreover have "readArgs [''--'', x] initialFlags = Inr ([x], initialFlags)" by (simp add: hasPrefix_def)
  moreover have "checkArgs Find [''vllm''] initialFlags =
      Some ''find takes no positional arguments, got \"vllm\" (filters are flags, e.g. --runtime vllm)''" by code_simp
  then have "\<exists>e. settleArgs [''find'', ''vllm''] = Rejected [] e"
    by (simp add: settleArgs_def subcommand_of_def hasPrefix_def)
  ultimately show ?thesis by (simp add: run_def)
qed

end
