(* ===== verification/Plugin_Contracts.thy ===== *)
theory Plugin_Contracts
  imports Plugin_Args
begin

text \<open>
  From the controller to the plugin and back: what \<open>BuildStatus\<close> publishes for a document that \<open>Build\<close> made is
  what \<^verbatim>\<open>view\<close>, \<^verbatim>\<open>verify\<close> and \<^verbatim>\<open>find\<close> read.
\<close>

subsection \<open>The stored form of a document reference\<close>

text \<open>
  The JSON form of \<^verbatim>\<open>status.bomDocument\<close> as the accessors see it, field by field after the tags in
  \<^verbatim>\<open>api/v1beta1/aibom_types.go\<close>: \<^verbatim>\<open>omitempty\<close> fields are absent at their zero value, and \<open>enc\<close> is the base64
  form of a byte slice.
\<close>

definition externalJSON :: "ExternalBOMRef \<Rightarrow> jobject" where
  "externalJSON e = [(''sink'', JString (ext_sink e))] @
     (if ext_url e \<noteq> '''' then [(''url'', JString (ext_url e))] else []) @
     (if ext_writeOnly e then [(''writeOnly'', JBool True)] else [])"

definition publishes :: "plugin_env \<Rightarrow> (string \<Rightarrow> string) \<Rightarrow> BOMDocumentRef \<Rightarrow> jobject \<Rightarrow> bool" where
  "publishes env enc ref obj \<longleftrightarrow>
    ua_string (pe_api env) obj (documentPath [''sha256'']) = Present (bd_sha256 ref) \<and>
    ua_string (pe_api env) obj (documentPath [''inline'', ''data'']) =
      (case bd_inline ref of None \<Rightarrow> Absent | Some d \<Rightarrow> Present (enc d)) \<and>
    pe_bool env obj (documentPath [''truncated'']) = (if bd_truncated ref then Present True else Absent) \<and>
    ua_string (pe_api env) obj (documentPath [''truncationReason'']) =
      (if bd_truncationReason ref = '''' then Absent else Present (bd_truncationReason ref)) \<and>
    ua_map (pe_api env) obj (documentPath [''external'']) =
      (case bd_external ref of None \<Rightarrow> Absent | Some e \<Rightarrow> Present (externalJSON e))"

text \<open>What the JSON encoder of CycloneDX writes, \<^verbatim>\<open>json.Unmarshal\<close> reads back as far as the struct names it.\<close>

definition parsedOf :: "cdx_component \<Rightarrow> parsed_component" where
  "parsedOf x = \<lparr>pc_type = xType x, pc_hashes = xHashes x, pc_properties = xProperties x\<rparr>"

subsection \<open>Reading it\<close>

lemma hexEncode_digits: "c \<in> set (hexEncode s) \<Longrightarrow> \<exists>d < 16. c = hexDigit d"
proof -
  have "(of_char x :: nat) div 16 < 16" for x :: char
  proof -
    have "(of_char x :: nat) < 256" by simp
    then show ?thesis by linarith
  qed
  moreover have "(of_char x :: nat) mod 16 < 16" for x :: char by simp
  moreover assume "c \<in> set (hexEncode s)"
  moreover then obtain x where "c = hexDigit (of_char x div 16) \<or> c = hexDigit (of_char x mod 16)"
    unfolding hexEncode_def by auto
  ultimately show ?thesis by blast
qed

lemma hexEncode_no_prefix: "trimPrefix (hexEncode s) ''sha256:'' = hexEncode s"
proof -
  have "hexDigit d \<noteq> CHR ''s''" if "d < 16" for d
  proof
    assume "hexDigit d = CHR ''s''"
    then have "(of_char (hexDigit d) :: nat) = 115" by simp
    then show False using that by (simp add: hexDigit_def split: if_splits)
  qed
  then have "CHR ''s'' \<notin> set (hexEncode s)" using hexEncode_digits [of "CHR ''s''" s] by fastforce
  then have "\<not> hasPrefix (hexEncode s) ''sha256:''"
    by (cases "hexEncode s") (auto simp: hasPrefix_def)
  then show ?thesis by (simp add: trimPrefix_def)
qed

lemma hexEncode_Nil [simp]: "hexEncode s = '''' \<longleftrightarrow> s = ''''"
  by (cases s) (simp_all add: hexEncode_def)

lemma Build_result:
  assumes "Build encode shaSum now inp opts = Inr doc"
  shows "encode (doc_cdx doc) = Inr (doc_json doc)" "doc_sha256 doc = hexEncode (shaSum (doc_json doc))"
  using assms by (auto simp: Build_def Let_def split: option.splits sum.splits)

lemma published_reading:
  assumes "publishes env enc ref obj" "\<And>d. pe_base64 env (enc d) = Inr d" "\<And>d. enc d = '''' \<longleftrightarrow> d = ''''"
  shows "inlineBOM env obj = (case bd_inline ref of
      Some (c # d) \<Rightarrow> Inr (c # d)
    | _ \<Rightarrow> Inl (if bd_truncated ref then ErrTruncated (bd_truncationReason ref)
        else if bd_external ref \<noteq> None then ErrTruncated externalReason else ErrNoDocument))"
    and "documentTruncated env obj = bd_truncated ref"
    and "stringAt (pe_api env) obj (documentPath [''sha256'']) = bd_sha256 ref"
  using assms unfolding publishes_def
  by (auto simp: inlineBOM_def Let_def documentTruncated_def stringAt_def externalJSON_def split: option.splits list.splits)

lemma factsOf_lists:
  "cf_images (fold factsOf cs facts) = cf_images facts @ concat (map (\<lambda>c. if pc_type c = ''container''
     then map snd (filter (\<lambda>(n, v). n = ''image.reference'' \<and> v \<noteq> '''') (pc_properties c)) else []) cs)"
  "cf_digests (fold factsOf cs facts) = cf_digests facts @ concat (map (\<lambda>c. if pc_type c = ''container''
     then map (toLower \<circ> snd) (filter (\<lambda>(alg, v). toLower alg = ''sha-256'' \<and> v \<noteq> '''') (pc_hashes c)) else []) cs)"
  by (induction cs arbitrary: facts) (simp_all add: factsOf_def)

lemma toLower_sha256: "toLower ''SHA-256'' = ''sha-256''"
  by code_simp

text \<open>What a stored AIBOM relates: the document, its status and the object that the plugin reads.\<close>

definition publishedAs ::
  "plugin_env \<Rightarrow> (cdx_bom \<Rightarrow> string + string) \<Rightarrow> (string \<Rightarrow> string) \<Rightarrow> BOMInputs \<Rightarrow> BuildOptions \<Rightarrow> Document \<Rightarrow>
   BOMDocumentRef \<Rightarrow> aibom_object \<Rightarrow> bool" where
  "publishedAs env encode enc inputs opts doc ref u \<longleftrightarrow>
    (\<exists>now. Build encode (pe_sha256 env) now (Some inputs) opts = Inr doc) \<and>
    (\<exists>st now sopts results gen h threshold.
       st = BuildStatus now (Some doc) sopts results gen h threshold \<and> as_bomDocument st = Some ref) \<and>
    publishes env enc ref (snd u)"

text \<open>What the libraries document: base64 decodes what it encoded, a SHA-256 sum and a JSON document are not empty.\<close>

definition faithfulCodecs :: "plugin_env \<Rightarrow> (cdx_bom \<Rightarrow> string + string) \<Rightarrow> (string \<Rightarrow> string) \<Rightarrow> bool" where
  "faithfulCodecs env encode enc \<longleftrightarrow>
    (\<forall>d. pe_base64 env (enc d) = Inr d \<and> (enc d = '''' \<longleftrightarrow> d = '''')) \<and>
    (\<forall>d. pe_sha256 env d \<noteq> '''') \<and>
    (\<forall>b js. encode b = Inr js \<longrightarrow> js \<noteq> '''' \<and> pe_parse env js = Inr (map parsedOf (xb_components b)))"

lemma published_ref:
  assumes "publishedAs env encode enc inputs opts doc ref u"
  shows "bd_sha256 ref = doc_sha256 doc"
    and "bd_inline ref = Some (doc_json doc) \<and> bd_external ref = None \<and> \<not> bd_truncated ref \<or>
      bd_inline ref = None \<and> bd_truncated ref = (bd_external ref = None)"
proof -
  obtain st now sopts results gen h threshold where
    st: "st = BuildStatus now (Some doc) sopts results gen h threshold" "as_bomDocument st = Some ref"
    using assms unfolding publishedAs_def by blast
  show "bd_sha256 ref = doc_sha256 doc"
    using document_located [OF st(1) refl refl] st(2) by auto
  show "bd_inline ref = Some (doc_json doc) \<and> bd_external ref = None \<and> \<not> bd_truncated ref \<or>
      bd_inline ref = None \<and> bd_truncated ref = (bd_external ref = None)"
    using document_located [OF st(1) refl refl] st(2) by (auto split: if_splits)
qed

lemma published_inline:
  assumes "publishedAs env encode enc inputs opts doc ref u" "faithfulCodecs env encode enc"
  shows "inlineBOM env (snd u) = (if bd_inline ref \<noteq> None then Inr (doc_json doc)
      else Inl (ErrTruncated (if bd_truncated ref then bd_truncationReason ref else externalReason)))"
    and "documentTruncated env (snd u) = bd_truncated ref"
    and "inlineContainers env (snd u) = (if bd_inline ref \<noteq> None
      then (fold factsOf (map parsedOf (xb_components (doc_cdx doc))) noFacts, '''')
      else (noFacts, if bd_truncated ref then ''truncated'' else ''external''))"
    and "stringAt (pe_api env) (snd u) (documentPath [''sha256'']) = hexEncode (pe_sha256 env (doc_json doc))"
proof -
  have built: "encode (doc_cdx doc) = Inr (doc_json doc)" "doc_sha256 doc = hexEncode (pe_sha256 env (doc_json doc))"
    and stored: "publishes env enc ref (snd u)"
    using assms(1) Build_result unfolding publishedAs_def by blast+
  have json: "doc_json doc \<noteq> ''''" "pe_parse env (doc_json doc) = Inr (map parsedOf (xb_components (doc_cdx doc)))"
    using assms(2) built(1) unfolding faithfulCodecs_def by blast+
  have b64: "pe_base64 env (enc d) = Inr d" "enc d = '''' \<longleftrightarrow> d = ''''" for d
    using assms(2) unfolding faithfulCodecs_def by blast+
  note read = published_reading [OF stored b64]
  show inline: "inlineBOM env (snd u) = (if bd_inline ref \<noteq> None then Inr (doc_json doc)
      else Inl (ErrTruncated (if bd_truncated ref then bd_truncationReason ref else externalReason)))"
    using published_ref(2) [OF assms(1)] json(1) unfolding read(1) by (auto split: list.split)
  show trunc: "documentTruncated env (snd u) = bd_truncated ref" by (rule read(2))
  have "containsSub externalReason ''external''" by code_simp
  then show "inlineContainers env (snd u) = (if bd_inline ref \<noteq> None
      then (fold factsOf (map parsedOf (xb_components (doc_cdx doc))) noFacts, '''')
      else (noFacts, if bd_truncated ref then ''truncated'' else ''external''))"
    using published_ref(2) [OF assms(1)] json(2) by (auto simp: inlineContainers_def inline trunc)
  show "stringAt (pe_api env) (snd u) (documentPath [''sha256'']) = hexEncode (pe_sha256 env (doc_json doc))"
    by (simp add: read(3) published_ref(1) [OF assms(1)] built(2))
qed

text \<open>
  C39. What the controller publishes verifies: if the status carries the document inline, \<^verbatim>\<open>view --raw\<close>
  prints exactly the bytes that were built and \<^verbatim>\<open>verify\<close> accepts them and prints the digest twice;
  otherwise \<^verbatim>\<open>view\<close> and \<^verbatim>\<open>verify\<close> fail with the reason why it is elsewhere and \<^verbatim>\<open>find\<close> marks the row
  as truncated or external, never as unreadable or without a document.
\<close>

theorem published_document_verifies:
  assumes "publishedAs env encode enc inputs opts doc ref u" "faithfulCodecs env encode enc"
  shows "if bd_inline ref \<noteq> None
    then runView env (snd u) True = Inr [Raw (doc_json doc)] \<and>
      runVerify env (snd u) = Inr (True, [Line (''published: '' @ doc_sha256 doc), Line (''computed:  '' @ doc_sha256 doc),
        Line ''OK: document bytes match the published digest''] @ printSignatureFacts env (snd u)) \<and>
      unavailability env (snd u) = ''''
    else \<exists>e. runView env (snd u) True = Inl (inline_error_str (ErrTruncated e)) \<and>
      runVerify env (snd u) = Inl (inline_error_str (ErrTruncated e)) \<and>
      unavailability env (snd u) = (if bd_external ref = None then ''truncated'' else ''external'')"
proof -
  note read = published_inline [OF assms]
  have sha: "pe_sha256 env (doc_json doc) \<noteq> ''''" using assms(2) by (simp add: faithfulCodecs_def)
  have doc: "doc_sha256 doc = hexEncode (pe_sha256 env (doc_json doc))"
    using assms(1) Build_result(2) unfolding publishedAs_def by blast
  show ?thesis
  proof (cases "bd_inline ref = None")
    case True
    then have "bd_truncated ref = (bd_external ref = None)" using published_ref(2) [OF assms(1)] by auto
    moreover obtain e where inl: "inlineBOM env (snd u) = Inl (ErrTruncated e)" by (simp add: read(1) True)
    then have "runView env (snd u) True = Inl (inline_error_str (ErrTruncated e))"
      "runVerify env (snd u) = Inl (inline_error_str (ErrTruncated e))"
      by (simp_all add: runView_def runVerify_def read(4) sha Let_def del: inline_error_str.simps)
    ultimately show ?thesis using True by (auto simp: read(3) simp del: inline_error_str.simps)
  next
    case False
    then show ?thesis by (simp add: runView_def runVerify_def read sha doc hexEncode_no_prefix Let_def)
  qed
qed

text \<open>
  C40. What the controller published inline is found: \<^verbatim>\<open>find\<close> with an image substring, a digest or a prefix
  of one, or both, prints the row of every AIBOM whose document has a container component with such an
  image reference and such a SHA-256 hash.
\<close>

theorem published_container_found:
  assumes "publishedAs env encode enc inputs opts doc ref u" "faithfulCodecs env encode enc" "bd_inline ref \<noteq> None"
    and x: "x \<in> set (xb_components (doc_cdx doc))" "xType x = ''container''"
    and filter: "ff_runtime f = ''''" "ff_model f = ''''" "ff_signed f = ''''"
    and image: "ff_image f \<noteq> '''' \<Longrightarrow> \<exists>v. (''image.reference'', v) \<in> set (xProperties x) \<and> containsSub v (ff_image f)"
    and digest: "ff_digest f \<noteq> '''' \<Longrightarrow> normalizeDigest (ff_digest f) \<noteq> '''' \<and> (\<exists>v. (''SHA-256'', v) \<in> set (xHashes x) \<and>
      length v = 64 \<and> hasPrefix (toLower v) (normalizeDigest (ff_digest f)))"
    and run: "u \<in> set items" "runFind env items f = (out, err)"
  shows "\<exists>rows row. out = [Table (findHeader # rows)] \<and> row \<in> set rows \<and> row ! 0 = om_namespace (fst u) \<and>
    row ! 2 = om_name (fst u)"
proof -
  have ic: "inlineContainers env (snd u) = (fold factsOf (map parsedOf (xb_components (doc_cdx doc))) noFacts, '''')"
    using published_inline(3) [OF assms(1,2)] assms(3) by simp
  have "\<exists>v \<in> set (cf_images (documentFacts env (snd u))). containsSub v (ff_image f)" if i: "ff_image f \<noteq> ''''"
  proof -
    obtain v where v: "(''image.reference'', v) \<in> set (xProperties x)" "containsSub v (ff_image f)" using image [OF i] by blast
    then have "v \<noteq> ''''" using i by (auto simp: containsSub_def)
    then show ?thesis using v x by (intro bexI [of _ v]) (force simp: ic factsOf_lists parsedOf_def)+
  qed
  moreover have "digestMatches (ff_digest f) (cf_digests (documentFacts env (snd u)))" if d: "ff_digest f \<noteq> ''''"
  proof -
    let ?w = "normalizeDigest (ff_digest f)"
    obtain v where v: "?w \<noteq> ''''" "(''SHA-256'', v) \<in> set (xHashes x)" "length v = 64" "hasPrefix (toLower v) ?w"
      using digest [OF d] by blast
    have "toLower v = ?w" if "length ?w = 64" using v(3,4) that by (simp add: hasPrefix_def toLower_def)
    moreover have "toLower v \<in> set (cf_digests (documentFacts env (snd u)))"
    proof -
      have "v \<noteq> ''''" using v(3) by auto
      then show ?thesis using v(2) x by (force simp: ic factsOf_lists parsedOf_def toLower_sha256)
    qed
    ultimately show ?thesis using v(1,4) by (auto simp: digestMatches_def Let_def list_ex_iff)
  qed
  ultimately have "shown env f u"
    using filter by (auto simp: shown_def refuted_def summaryRefutes_def documentRefutes_def runtimeUnchecked_def)
  from shown_row [OF run(1) this run(2)] findRow_columns(1,2) show ?thesis by blast
qed

definition exampleServer :: Component where
  "exampleServer = Component ComponentContainer ''vllm'' '''' '''' [(''sha256'', replicate 64 (CHR ''a''))]
     \<lparr>ev_source = SourceImageReference, ev_locator = ''spec''\<rparr> ConfidenceDeclared [(''image.reference'', ''vllm:v1'')] []"

definition exampleCdx :: cdx_component where
  "exampleCdx = (case toCDXComponent exampleServer exampleOptions 0 '''' of Inr x \<Rightarrow> x)"

lemma exampleCdx:
  "buildComponents 0 [exampleServer] exampleOptions '''' = Inr [exampleCdx]"
  "xType exampleCdx = ''container''" "xHashes exampleCdx = [(''SHA-256'', replicate 64 (CHR ''a''))]"
proof -
  have c: "cChildren exampleServer = []" "cType exampleServer = ComponentContainer"
    by (simp_all add: redactComponent_def exampleServer_def Let_def)
  have h: "mapHashes (cHashes exampleServer) = Inr [(''SHA-256'', replicate 64 (CHR ''a''))]" by code_simp
  have x: "toCDXComponent exampleServer exampleOptions 0 '''' = Inr exampleCdx"
    and "xType exampleCdx = ''container'' \<and> xHashes exampleCdx = [(''SHA-256'', replicate 64 (CHR ''a''))]"
    by (simp_all add: exampleCdx_def Let_def c h)
  then show "xType exampleCdx = ''container''" "xHashes exampleCdx = [(''SHA-256'', replicate 64 (CHR ''a''))]" by simp_all
  show "buildComponents 0 [exampleServer] exampleOptions '''' = Inr [exampleCdx]" by (simp add: x del: toCDXComponent.simps)
qed

definition serverInputs :: BOMInputs where
  "serverInputs = emptyInputs\<lparr>bi_components := [exampleServer]\<rparr>"

text \<open>An environment that knows one document, and the object that the API server stores for its status.\<close>

definition exampleEncode :: "cdx_bom \<Rightarrow> string + string" where
  "exampleEncode b = (if xb_components b = [exampleCdx] then Inr ''{}'' else Inl ''other document'')"

definition exampleEnv :: plugin_env where
  "exampleEnv = plainEnv\<lparr>pe_parse := \<lambda>_. Inr [parsedOf exampleCdx]\<rparr>"

definition storedObject :: "BOMDocumentRef \<Rightarrow> aibom_object" where
  "storedObject ref = (emptyMeta\<lparr>om_namespace := ''ml'', om_name := ''deployment-llm''\<rparr>,
     [(''status'', JObject [(''bomDocument'', JObject ([(''sha256'', JString (bd_sha256 ref))] @
        (case bd_inline ref of None \<Rightarrow> [] | Some d \<Rightarrow> [(''inline'', JObject [(''data'', JString d)])])))])])"

lemma exampleCodecs: "faithfulCodecs exampleEnv exampleEncode id"
  by (simp add: faithfulCodecs_def exampleEnv_def plainEnv_def exampleEncode_def)

lemma storedObject_publishes:
  assumes "bd_external ref = None" "\<not> bd_truncated ref" "bd_truncationReason ref = ''''"
  shows "publishes exampleEnv id ref (snd (storedObject ref))"
  using assms by (simp add: publishes_def exampleEnv_def plainEnv_def plainApi_def storedObject_def documentPath_def viewAs_def
      split: option.split)

lemma example_published:
  obtains doc ref where "publishedAs exampleEnv exampleEncode id serverInputs exampleOptions doc ref (storedObject ref)"
    "bd_inline ref = Some ''{}''" "doc_json doc = ''{}''" "xb_components (doc_cdx doc) = [exampleCdx]"
proof -
  obtain doc where built: "Build exampleEncode (pe_sha256 exampleEnv) 0 (Some serverInputs) exampleOptions = Inr doc"
    and doc: "doc_json doc = ''{}''" "xb_components (doc_cdx doc) = [exampleCdx]"
    by (simp add: Build_def Let_def serverInputs_def exampleCdx(1) exampleEncode_def del: buildComponents.simps)
  let ?st = "BuildStatus 0 (Some doc) exampleOptionsSummary [] 1 ''h'' 0"
  let ?ref = "buildBOMDocumentRef doc [] StatusInlineThresholdBytes"
  have st: "as_bomDocument ?st = Some ?ref" by (simp add: BuildStatus_def Let_def)
  have ref: "bd_inline ?ref = Some ''{}''" "bd_external ?ref = None" "\<not> bd_truncated ?ref" "bd_truncationReason ?ref = ''''"
    by (simp_all add: buildBOMDocumentRef_def Size_def doc StatusInlineThresholdBytes_def Let_def)
  have "publishedAs exampleEnv exampleEncode id serverInputs exampleOptions doc ?ref (storedObject ?ref)"
    using built st storedObject_publishes [OF ref(2-4)] unfolding publishedAs_def by blast
  then show thesis using that ref(1) doc by blast
qed

theorem published_document_verifies_witness:
  "\<exists>ref lines. runView exampleEnv (snd (storedObject ref)) True = Inr [Raw ''{}''] \<and>
     runVerify exampleEnv (snd (storedObject ref)) = Inr (True, lines)"
proof -
  obtain doc ref where p: "publishedAs exampleEnv exampleEncode id serverInputs exampleOptions doc ref (storedObject ref)"
    "bd_inline ref = Some ''{}''" "doc_json doc = ''{}''" "xb_components (doc_cdx doc) = [exampleCdx]"
    by (rule example_published)
  show ?thesis using published_document_verifies [OF p(1) exampleCodecs] p(2,3) by auto
qed

text \<open>\<^verbatim>\<open>find --digest AAAA\<close>.\<close>

definition exampleFind :: findFilter where
  "exampleFind = \<lparr>ff_runtime = '''', ff_model = '''', ff_image = '''', ff_digest = ''AAAA'', ff_signed = ''''\<rparr>"

theorem published_container_found_witness:
  "\<exists>ref rows row. fst (runFind exampleEnv [proxyAibom, storedObject ref] exampleFind) = [Table (findHeader # rows)] \<and>
     row \<in> set rows \<and> row ! 0 = ''ml'' \<and> row ! 2 = ''deployment-llm''"
proof -
  obtain doc ref where p: "publishedAs exampleEnv exampleEncode id serverInputs exampleOptions doc ref (storedObject ref)"
    "bd_inline ref = Some ''{}''" "doc_json doc = ''{}''" "xb_components (doc_cdx doc) = [exampleCdx]"
    by (rule example_published)
  have f: "ff_runtime exampleFind = ''''" "ff_model exampleFind = ''''" "ff_signed exampleFind = ''''"
    "ff_image exampleFind = ''''" "ff_digest exampleFind = ''AAAA''" by (simp_all add: exampleFind_def)
  have vals: "normalizeDigest ''AAAA'' \<noteq> ''''" "length (replicate 64 (CHR ''a'')) = 64"
    "hasPrefix (toLower (replicate 64 (CHR ''a''))) (normalizeDigest ''AAAA'')" by code_simp+
  have x: "exampleCdx \<in> set (xb_components (doc_cdx doc))" "xType exampleCdx = ''container''"
    using exampleCdx(2) p(4) by simp_all
  have image: "\<exists>v. (''image.reference'', v) \<in> set (xProperties exampleCdx) \<and> containsSub v (ff_image exampleFind)"
    if "ff_image exampleFind \<noteq> ''''" using that f(4) by simp
  have digest: "normalizeDigest (ff_digest exampleFind) \<noteq> '''' \<and> (\<exists>v. (''SHA-256'', v) \<in> set (xHashes exampleCdx) \<and>
      length v = 64 \<and> hasPrefix (toLower v) (normalizeDigest (ff_digest exampleFind)))"
    unfolding f(5) using exampleCdx(3) vals by (metis list.set_intros(1))
  have inline: "bd_inline ref \<noteq> None" and member: "storedObject ref \<in> set [proxyAibom, storedObject ref]"
    using p(2) by simp_all
  have name: "om_namespace (fst (storedObject ref)) = ''ml''" "om_name (fst (storedObject ref)) = ''deployment-llm''"
    by (simp_all add: storedObject_def)
  show ?thesis
    using published_container_found [OF p(1) exampleCodecs inline x f(1-3) image digest member surjective_pairing]
    unfolding name by blast
qed

end
