(* ===== verification/Spec2Isabelle.thy ===== *)
theory Spec2Isabelle
  imports Multi_Scraper Config_Reconciler Sink_Factory Watch_History Controller_Contracts Plugin_Contracts
begin

text \<open>
  \<^bold>\<open>Verification of the AIBOM controller.\<close> The program is a Kubernetes controller. For every workload
  that is opted in it scrapes the models, runtimes and datasets that the workload's objects name, builds a
  CycloneDX bill of materials from them, records it in an AIBOM resource and sends it to external
  sinks. One cluster-wide resource configures it; the configuration is reloaded while it runs.

  A reconcile goes through the parts in this order: a controller (\<open>Workload_Controllers\<close>) reads its object and the
  pods that belong to it (\<open>Ownership\<close>); the kind-neutral reconcile (\<open>Workload_Reconciler\<close>) checks the namespace, the
  kind and the owners against the current snapshot (\<open>Config_Store\<close>), calls a scraper (\<open>Multi_Scraper\<close>, \<open>Serving_Scrapers\<close>,
  \<open>Nvidia_Scrapers\<close>), skips unchanged inputs by their hash (\<open>Scraper_Hash\<close>), builds the document (\<open>Bom_Builder\<close>),
  sends it (\<open>Sink_Gcs\<close>, \<open>Sink_Webhook\<close>) and writes the status (\<open>Aibom_Status\<close>). The supervisor
  (\<open>Watch_Supervisor\<close>) starts and stops the controllers of third-party kinds as their CRDs come and go.

  \<^bold>\<open>Library.\<close>
  \<^item> \<open>Go_Prelude\<close>: Go strings, maps as association lists in key order, sorting, error values and the lemma
    collections that the components share; \<open>Go_Regexp\<close>: a matcher for the regular expressions the source
    compiles; \<open>Go_Time\<close>: times as nanoseconds and their RFC 3339 text.
  \<^item> \<open>Kube_Types\<close>: the fields of Kubernetes objects that the code reads, and the answers of the API.

  \<^bold>\<open>Scraping\<close> (\<open>src/internal/scraper\<close>).
  \<^item> \<open>Scraper_Types\<close> (\<open>types.go\<close>, \<open>errors.go\<close>): the inputs of a document and their deduplication.
  \<^item> \<open>Inference_Config\<close>, \<open>Inference_Extract\<close>, \<open>Inference_Spec\<close> (\<open>inference_config.go\<close>,
    \<open>inference_extract.go\<close>, \<open>inference.go\<close>): the inference scraper; independence of listing orders, the cap on
    components, digest resolution by majority.
  \<^item> \<open>Signature\<close> (\<open>signature.go\<close>, \<open>signature_apply.go\<close>), \<open>Scraper_Hash\<close> (\<open>hash.go\<close>; locales \<open>scraper_clock\<close> and
    \<open>named_scraper\<close>), \<open>Category_Scrapers\<close> (\<open>training.go\<close>, \<open>eval.go\<close>, \<open>vectordb.go\<close>, \<open>agent.go\<close>) and \<open>Multi_Scraper\<close>
    (\<open>multi.go\<close> and the scraper list of \<open>cmd/manager/main.go\<close>).
  \<^item> \<open>Cr_Objects\<close> (locale \<open>cr_scraper\<close>), \<open>Serving_Scrapers\<close> (\<open>kserve.go\<close>, \<open>lws.go\<close>, \<open>disaggregatedset.go\<close>) and
    \<open>Nvidia_Scrapers\<close> (\<open>dynamo.go\<close>, \<open>nimservice.go\<close>): the scrapers of custom resources; \<open>Cr_Contracts\<close>: models are
    declared and not guessed from images, the one exception of NIM, and that malformed parts hide nothing.

  \<^bold>\<open>Documents and signatures.\<close>
  \<^item> \<open>Bom_Redact\<close> and \<open>Bom_Builder\<close> (\<open>src/internal/bom\<close>): redaction of credentials, the document, its
    references and its digest.
  \<^item> \<open>Verifier_Outcome\<close> and \<open>Verifier_Rekor\<close> (\<open>src/verifier\<close>, \<open>src/internal/sigverify\<close>): the decision table of
    a verification, fetching, the single-flight cache as a step relation, and the adapter that the
    configuration reloads.

  \<^bold>\<open>Configuration and sinks.\<close>
  \<^item> \<open>Workload_Kinds\<close>, \<open>Config_Types\<close>, \<open>Config_Loader\<close>, \<open>Config_Store\<close> (\<open>src/internal/config\<close>,
    \<open>src/api/v1beta1\<close>): parsing and validation into a snapshot, and the store with its subscribers (locale
    \<open>snapshot_store\<close>).
  \<^item> \<open>Sink_Gcs\<close>, \<open>Sink_Webhook\<close> (\<open>src/internal/sink\<close>) and \<open>Sink_Factory\<close> (\<open>client_factory.go\<close>): validation, object
    paths, the addresses that may be dialled, the delivery loop, and the construction of sinks from Secrets.
  \<^item> \<open>Watch_Health\<close> (locale \<open>phase_registry\<close>), \<open>Schema_Skew\<close> and \<open>Config_Reconciler\<close>
    (\<open>src/internal/controller\<close>): the reconcile of the configuration, its events and conditions.

  \<^bold>\<open>Workloads\<close> (\<open>src/internal/controller\<close>).
  \<^item> \<open>Aibom_Status\<close> (\<open>status.go\<close>, \<open>summary.go\<close>): the resource and its status; \<open>Ownership\<close> (\<open>ownership_rollup.go\<close>,
    \<open>pod_ownership.go\<close>): which workload a pod or a workload belongs to, upwards and downwards;
    \<open>Namespace_Observer\<close> (\<open>namespace_observer.go\<close>): the announcement of a namespace.
  \<^item> \<open>Workload_Reconciler\<close> (\<open>workload_reconciler.go\<close>): the reconcile as a function of the request, the state and the
    answers of one call; \<open>Workload_Lifecycle\<close>: sequences of reconciles, who has a document, and delivery until every
    sink has accepted; \<open>Workload_Watches\<close>: names of AIBOMs, predicates and map functions.
  \<^item> \<open>Workload_Controllers\<close> (the \<open>*_controller.go\<close> files): requests and reconciles of the eleven kinds, their event
    routes, and the wiring of the third-party kinds; \<open>Controller_Contracts\<close>: whose pods a document uses, and the
    composition with the scrapers and the kind-neutral reconcile.

  \<^bold>\<open>Supervised watches\<close> (\<open>src/internal/controller\<close>).
  \<^item> \<open>Watch_Discovery\<close> (\<open>watch_discovery.go\<close>): reads of CRDs and the observation they leave, by a refinement of the rules
    for generations; \<open>Allowlist_Fanout\<close> (\<open>allowlist_fanout.go\<close>): the paged fan-out after a change of the allowlist.
  \<^item> \<open>Watch_Supervisor\<close>, \<open>Watch_Runner\<close> (\<open>watch_supervisor.go\<close>): the passes over the kinds with their sweeps, and the
    runner of one kind; \<open>Watch_Passes\<close>: what one pass establishes; \<open>Watch_History\<close>: histories that interleave
    reads, passes, runs and events, with the invariant and what follows from it.

  \<^bold>\<open>The kubectl plugin\<close> (\<open>src/cmd/kubectl-aibom\<close>).
  \<^item> \<open>Plugin_Documents\<close> (\<open>commands.go\<close>): reading the inline document, \<open>view\<close>, \<open>verify\<close> and \<open>summary\<close>; \<open>Plugin_Find\<close> (\<open>find.go\<close>):
    the filters of \<open>find\<close>, and that no row is dropped without a fact against it; \<open>Plugin_Args\<close> (\<open>main.go\<close>): Go's flag
    parser as far as it is used, the separation of names from flags against a parser of one pass, the argument
    checks and the exit codes; \<open>Plugin_Contracts\<close>: what the status builder publishes is what the plugin reads.

  \<^bold>\<open>Parameters.\<close> Code outside the repository is an argument of the definitions that use it: the answers of the
  Kubernetes API and their order, clocks, JSON and CycloneDX encoding and decoding, base64, SHA-256, the condition and owner-reference
  helpers, label selectors, URL parsing, the HTTP and storage clients, the verification library, and the accessors and
  the converter for unstructured objects. Where a theorem needs something of them it is a hypothesis, and its
  witness gives a concrete function: a condition lookup finds the first condition of a type (\<open>finds_first\<close>), an iteration
  over a map visits its entries in some order, base64 and JSON decode what they encoded (\<open>faithfulCodecs\<close>), a list answer can be any prefix of pages.

  \<^bold>\<open>Bounds and termination.\<close> The upward ownership walk has the depth 6 of the source. Downward closure and fan-out
  are partial functions, whose termination is proved: the closure grows inside the finite set of listed objects, the fan-out
  ends once lists fail. A document keeps 256 components, a delivery is tried 4 times, names have at most 253 bytes; these
  are the constants of the source. Counters of consecutive errors are integers; at one error per reconcile the 32 bits of
  the source are not reached within the lifetime of a process.

  \<^bold>\<open>Not modelled.\<close> Generated deep copies, metric registration, flag parsing and process start-up in
  \<open>cmd/manager/main.go\<close> apart from the wiring above, the alignment of columns by \<open>tabwriter\<close> and failed writes to the terminal in \<open>kubectl-aibom\<close>, the construction of client-go
  informers and caches (they appear as the events they deliver), the structs of \<open>api/v1alpha1\<close>, which no code path
  converts, log messages, and events other than those named in the components above.
\<close>

end
